(* ===== verification/Prelude.thy ===== *)
theory Prelude
  imports Complex_Main
begin

text \<open>
  Shared vocabulary of the development.

  Python values and operators that every component uses: truthiness and the \<open>x or d\<close>
  idiom on optional numbers, \<open>round\<close> (half to even) at a number of decimals, clamping to
  the unit interval, upper-casing and prefix tests on ASCII strings, and a JSON value type for
  the columns and dictionaries the code stores as JSON. Python floats are modelled by exact
  reals: every comparison, \<open>floor\<close> and \<open>round\<close> of the code is kept, the rounding error of
  IEEE arithmetic and the values NaN and infinity are not.

  The theory also declares the collections that carry the component proofs:
  \<open>py_defs\<close> (the definitions of the Python operators) and \<open>round_facts\<close>.
\<close>

named_theorems py_defs \<open>definitions of the Python operators\<close>
named_theorems round_facts \<open>facts on decimal rounding\<close>

section \<open>Names of the model's basic types\<close>

type_synonym rupees = real
type_synonym token = int
type_synonym pid = int
type_synonym sym = string
type_synonym corr_id = string
text \<open>Time of day, in microseconds since midnight (\<open>datetime.time\<close>'s resolution).\<close>
type_synonym tod = nat

text \<open>\<open>common.enums.OrderSide\<close>: the two sides an order or a position can have.\<close>

datatype order_side = BUY | SELL

definition opposite :: "order_side \<Rightarrow> order_side" where
  "opposite s = (if s = BUY then SELL else BUY)"

lemma opposite_simps [simp]: "opposite BUY = SELL" "opposite SELL = BUY"
  by (simp_all add: opposite_def)

section \<open>Truthiness and defaults\<close>

text \<open>\<open>bool(x)\<close> of a number that may be None, and \<open>x or d\<close>.\<close>

definition truthy :: "'a::zero option \<Rightarrow> bool" where
  [py_defs]: "truthy x = (case x of None \<Rightarrow> False | Some v \<Rightarrow> v \<noteq> 0)"

definition py_or :: "'a::zero option \<Rightarrow> 'a \<Rightarrow> 'a" where
  [py_defs]: "py_or x d = (case x of None \<Rightarrow> d | Some v \<Rightarrow> if v = 0 then d else v)"

definition get_default :: "'a option \<Rightarrow> 'a \<Rightarrow> 'a" where
  [py_defs]: "get_default x d = (case x of None \<Rightarrow> d | Some v \<Rightarrow> v)"

lemma truthy_simps [simp]:
  "truthy None = False" "truthy (Some v) = (v \<noteq> 0)"
  by (simp_all add: truthy_def)

lemma py_or_simps [simp]:
  "py_or None d = d" "v \<noteq> 0 \<Longrightarrow> py_or (Some v) d = v" "py_or (Some 0) d = d"
  by (simp_all add: py_or_def)

lemma get_default_simps [simp]:
  "get_default None d = d" "get_default (Some v) d = v"
  by (simp_all add: get_default_def)

lemma truthyE: "truthy x \<Longrightarrow> (\<And>v. x = Some v \<Longrightarrow> v \<noteq> 0 \<Longrightarrow> P) \<Longrightarrow> P"
  by (cases x) auto

lemma Some_eq_map_option_iff: "Some y = map_option f x \<longleftrightarrow> (\<exists>z. x = Some z \<and> y = f z)"
  by (cases x) auto

section \<open>Clamping\<close>

definition clamp01 :: "real \<Rightarrow> real" where
  "clamp01 x = max 0 (min 1 x)"

lemma clamp01_ge0 [simp, intro]: "0 \<le> clamp01 x"
  and clamp01_le1 [simp, intro]: "clamp01 x \<le> 1"
  by (simp_all add: clamp01_def)

lemma clamp01_id: "0 \<le> x \<Longrightarrow> x \<le> 1 \<Longrightarrow> clamp01 x = x"
  by (simp add: clamp01_def)

lemma clamp01_mono: "x \<le> y \<Longrightarrow> clamp01 x \<le> clamp01 y"
  by (auto simp: clamp01_def)

section \<open>Rounding half to even\<close>

definition round_half_even :: "real \<Rightarrow> int" where
  "round_half_even x =
     (let f = \<lfloor>x\<rfloor>; d = x - of_int f in
      if d < 1/2 then f else if d > 1/2 then f + 1 else if even f then f else f + 1)"

text \<open>Python's \<open>round(x, n)\<close>.\<close>

definition py_round :: "nat \<Rightarrow> real \<Rightarrow> real" where
  "py_round n x = of_int (round_half_even (x * 10 ^ n)) / 10 ^ n"

lemma round_half_even_error: "\<bar>of_int (round_half_even x) - x\<bar> \<le> 1/2"
proof -
  have "of_int \<lfloor>x\<rfloor> \<le> x" "x < of_int \<lfloor>x\<rfloor> + 1" by linarith+
  then show ?thesis unfolding round_half_even_def Let_def by auto
qed

lemma round_half_even_of_int [simp]: "round_half_even (of_int k) = k"
  by (simp add: round_half_even_def)

lemma round_half_even_0 [simp]: "round_half_even 0 = 0"
  using round_half_even_of_int [of 0] by simp

lemma round_half_even_nearest: "\<bar>x - of_int k\<bar> < 1/2 \<Longrightarrow> round_half_even x = k"
proof -
  assume a: "\<bar>x - of_int k\<bar> < 1/2"
  with round_half_even_error [of x] have "\<bar>of_int (round_half_even x) - (of_int k :: real)\<bar> < 1"
    by linarith
  then show ?thesis by linarith
qed

lemma round_half_even_mono: "x \<le> y \<Longrightarrow> round_half_even x \<le> round_half_even y"
proof -
  assume le: "x \<le> y"
  show ?thesis
  proof (cases "\<lfloor>x\<rfloor> = \<lfloor>y\<rfloor>")
    case True
    with le show ?thesis by (auto simp: round_half_even_def Let_def)
  next
    case False
    with floor_mono [OF le] have "\<lfloor>x\<rfloor> + 1 \<le> \<lfloor>y\<rfloor>" by simp
    moreover have "round_half_even x \<le> \<lfloor>x\<rfloor> + 1" "\<lfloor>y\<rfloor> \<le> round_half_even y"
      by (auto simp: round_half_even_def Let_def)
    ultimately show ?thesis by linarith
  qed
qed

lemma py_round_mono [round_facts]: "x \<le> y \<Longrightarrow> py_round n x \<le> py_round n y"
  by (simp add: py_round_def round_half_even_mono divide_right_mono)

lemma py_round_0 [simp]: "py_round n 0 = 0"
  by (simp add: py_round_def)

lemma py_round_nonneg [round_facts]: "0 \<le> x \<Longrightarrow> 0 \<le> py_round n x"
  using py_round_mono [of 0 x n] by simp

lemma py_round_nonpos [round_facts]: "x \<le> 0 \<Longrightarrow> py_round n x \<le> 0"
  using py_round_mono [of x 0 n] by simp

lemma py_round_error [round_facts]: "\<bar>py_round n x - x\<bar> \<le> 1 / (2 * 10 ^ n)"
proof -
  have "\<bar>of_int (round_half_even (x * 10 ^ n)) - x * 10 ^ n\<bar> / 10 ^ n \<le> (1/2) / 10 ^ n"
    by (intro divide_right_mono round_half_even_error) simp
  moreover have "\<bar>py_round n x - x\<bar> = \<bar>of_int (round_half_even (x * 10 ^ n)) - x * 10 ^ n\<bar> / 10 ^ n"
  proof -
    have "py_round n x - x = (of_int (round_half_even (x * 10 ^ n)) - x * 10 ^ n) / 10 ^ n"
      by (simp add: py_round_def diff_divide_distrib)
    then show ?thesis by (simp add: abs_divide)
  qed
  ultimately show ?thesis by (simp add: field_simps)
qed

lemma py_round_idem [simp]: "py_round n (py_round n x) = py_round n x"
  by (simp add: py_round_def)

section \<open>ASCII strings\<close>

definition upper_char :: "char \<Rightarrow> char" where
  "upper_char c = (let n = (of_char c :: nat) in
     if 97 \<le> n \<and> n \<le> 122 then char_of (n - 32) else c)"

definition py_upper :: "string \<Rightarrow> string" where
  "py_upper s = map upper_char s"

definition lower_char :: "char \<Rightarrow> char" where
  "lower_char c = (let n = (of_char c :: nat) in
     if 65 \<le> n \<and> n \<le> 90 then char_of (n + 32) else c)"

definition py_lower :: "string \<Rightarrow> string" where
  "py_lower s = map lower_char s"

definition starts_with :: "string \<Rightarrow> string \<Rightarrow> bool" where
  "starts_with s p = (take (length p) s = p)"

fun contains_str :: "string \<Rightarrow> string \<Rightarrow> bool" where
  "contains_str [] p = (p = [])"
| "contains_str (c # cs) p = (starts_with (c # cs) p \<or> contains_str cs p)"

section \<open>JSON values\<close>

text \<open>What the code stores in JSON columns and in its free-form \<open>detail\<close> dictionaries.\<close>

datatype json =
    JNull | JBool bool | JNum real | JStr string | JArr "json list" | JObj "(string \<times> json) list"

fun json_truthy :: "json \<Rightarrow> bool" where
  "json_truthy JNull = False"
| "json_truthy (JBool b) = b"
| "json_truthy (JNum x) = (x \<noteq> 0)"
| "json_truthy (JStr s) = (s \<noteq> [])"
| "json_truthy (JArr xs) = (xs \<noteq> [])"
| "json_truthy (JObj fs) = (fs \<noteq> [])"

section \<open>Association lists in insertion order\<close>

text \<open>A dictionary whose iteration order matters: updating keeps a key's place.\<close>

fun upsert :: "'k \<Rightarrow> 'v \<Rightarrow> ('k \<times> 'v) list \<Rightarrow> ('k \<times> 'v) list" where
  "upsert k v [] = [(k, v)]"
| "upsert k v ((k', w) # ps) = (if k = k' then (k, v) # ps else (k', w) # upsert k v ps)"

lemma map_of_upsert [simp]: "map_of (upsert k v ps) = (map_of ps)(k \<mapsto> v)"
  by (induction ps) auto

lemma keys_upsert: "fst ` set (upsert k v ps) = insert k (fst ` set ps)"
proof (induction ps)
  case (Cons p ps)
  then show ?case by (cases p) (auto simp: insert_commute)
qed simp

lemma distinct_upsert: "distinct (map fst ps) \<Longrightarrow> distinct (map fst (upsert k v ps))"
proof (induction ps)
  case (Cons p ps)
  then show ?case using keys_upsert [of k v ps] by (cases p) (auto simp: image_iff)
qed simp

text \<open>Adding to the number stored under a key (default 0) adds to the sum of the values.\<close>

lemma sum_values_upsert_add:
  fixes x :: "'v::ab_group_add"
  assumes "distinct (map fst ps)"
  shows "sum_list (map snd (upsert k (get_default (map_of ps k) 0 + x) ps))
         = sum_list (map snd ps) + x"
  using assms
proof (induction ps)
  case (Cons p ps)
  then show ?case
    by (cases p) (auto simp: algebra_simps dest: map_of_SomeD split: option.splits)
qed simp

section \<open>Sums\<close>

lemma sum_list_map_filter_split:
  fixes f :: "'a \<Rightarrow> 'b::comm_monoid_add"
  shows "sum_list (map f xs) = sum_list (map f (filter P xs)) + sum_list (map f (filter (\<lambda>x. \<not> P x) xs))"
  by (induction xs) (auto simp: ac_simps)

section \<open>Lists\<close>

lemma find_append: "find P (xs @ ys) = (case find P xs of None \<Rightarrow> find P ys | Some x \<Rightarrow> Some x)"
  by (induction xs) auto

lemma distinct_singleton: "distinct xs \<Longrightarrow> set xs = {k} \<Longrightarrow> xs = [k]"
  by (cases xs; cases "tl xs") (auto simp: insert_eq_iff split: if_splits)

end
