(* ===== verification/Exec_Models.thy ===== *)
theory Exec_Models
  imports Prelude
begin

text \<open>
  \<open>execution/models.py\<close>: decisions, fills and results of the execution layer. A fee dictionary
  is an association list from the fee's name to its rupees; times of day of fills are left out,
  nothing reads them.
\<close>

datatype order_outcome = O_FILLED | O_PARTIAL | O_REJECTED | O_PENDING | O_CANCELLED

datatype exit_reason = X_STOP | X_TARGET | X_TRAIL | X_TIME | X_FAILSAFE | X_MANUAL

text \<open>Order ids: the model keeps the number the broker assigns, not its rendering as text.\<close>

type_synonym order_id = nat

type_synonym fees = "(string \<times> rupees) list"

definition fee_total :: "fees \<Rightarrow> rupees" where
  "fee_total f = get_default (map_of f ''total'') 0"

definition no_fees :: fees where
  "no_fees = [(''total'', 0)]"

lemma fee_total_no_fees [simp]: "fee_total no_fees = 0"
  by (simp add: fee_total_def no_fees_def)

text \<open>The instrument dictionary, with the keys the execution layer reads.\<close>

record instrument =
  in_token :: "token option"
  in_symbol :: "sym option"
  in_exchange :: "string option"
  in_lot :: "int option"
  in_type :: "string option"
  in_tick :: "real option"
  in_expiry :: "int option"

record decision =
  d_corr :: corr_id
  d_sleeve :: string
  d_instrument :: instrument
  d_side :: order_side
  d_qty :: int
  d_order_type :: string
  d_entry :: rupees
  d_stop :: rupees
  d_target :: rupees
  d_product :: string
  d_r :: rupees
  d_confidence :: real
  d_signal :: "int option"

record fill =
  f_qty :: int
  f_price :: rupees
  f_fees :: fees

text \<open>Broker truth for an exit order: COMPLETE, PARTIAL, REJECTED or UNKNOWN.\<close>

datatype exit_status = E_COMPLETE | E_PARTIAL | E_REJECTED | E_UNKNOWN

record normalized_fill =
  nf_order_id :: "order_id option"
  nf_status :: exit_status
  nf_filled :: int
  nf_avg :: rupees
  nf_pending :: int
  nf_fees :: fees

record exit_signal =
  x_reason :: exit_reason
  x_price :: rupees

end
