(* ===== verification/Order_Policy.thy ===== *)
theory Order_Policy
  imports Exec_Models
begin

text \<open>
  The pure decisions of the order path: \<open>execution/policy.py\<close>, \<open>execution/order_lifecycle.py\<close>,
  \<open>common/instrument_meta.py\<close>, the order slicing of \<open>execution/executor.py\<close> and the order
  realism helpers of \<open>backtest/execution_model.py\<close>.
\<close>

section \<open>Exit products and exit status\<close>

definition SUPPORTED_EXIT_PRODUCTS :: "(string \<times> string) list" where
  "SUPPORTED_EXIT_PRODUCTS =
    [(''NSE'', ''MIS''), (''NSE'', ''CNC''), (''BSE'', ''MIS''), (''BSE'', ''CNC''),
     (''NFO'', ''NRML''), (''NFO'', ''MIS''), (''MCX'', ''NRML'')]"

definition exit_product_supported :: "string option \<Rightarrow> string option \<Rightarrow> bool" where
  "exit_product_supported exchange product =
    (case (exchange, product) of
       (Some e, Some p) \<Rightarrow> (e, p) \<in> set SUPPORTED_EXIT_PRODUCTS | _ \<Rightarrow> False)"

definition normalize_exit_status :: "string option \<Rightarrow> int \<Rightarrow> exit_status" where
  "normalize_exit_status poll_status filled =
    (if poll_status = Some ''COMPLETE'' then E_COMPLETE
     else if poll_status = Some ''REJECTED'' \<or> poll_status = Some ''CANCELLED'' then E_REJECTED
     else if filled > 0 then E_PARTIAL else E_UNKNOWN)"

definition close_books_fully :: "exit_status \<Rightarrow> int \<Rightarrow> int \<Rightarrow> bool" where
  "close_books_fully status filled_qty position_qty \<longleftrightarrow>
     status = E_COMPLETE \<and> filled_qty \<ge> position_qty"

definition terminal_broker_states :: "string list" where
  "terminal_broker_states = [''COMPLETE'', ''REJECTED'', ''CANCELLED'']"

section \<open>Order history\<close>

record hist_row =
  h_status :: "string option"
  h_filled :: "int option"
  h_avg :: "rupees option"
  h_message :: "string option"

record broker_truth =
  bt_status :: "string option"
  bt_filled :: int
  bt_avg :: rupees
  bt_reason :: "string option"
  bt_terminal :: bool

definition empty_row :: hist_row where
  "empty_row = \<lparr>h_status = None, h_filled = None, h_avg = None, h_message = None\<rparr>"

definition reduce_order_history :: "hist_row list \<Rightarrow> broker_truth" where
  "reduce_order_history history =
    (let r = (if history = [] then empty_row else last history) in
     \<lparr>bt_status = h_status r, bt_filled = py_or (h_filled r) 0, bt_avg = py_or (h_avg r) 0,
      bt_reason = h_message r,
      bt_terminal = (case h_status r of None \<Rightarrow> False
                     | Some s \<Rightarrow> s \<in> set terminal_broker_states)\<rparr>)"

definition duplicate_exit_risk :: "int \<Rightarrow> bool" where
  "duplicate_exit_risk broker_net_qty \<longleftrightarrow> broker_net_qty = 0"

section \<open>Gates\<close>

definition order_allowed :: "string \<Rightarrow> bool \<Rightarrow> bool \<Rightarrow> bool" where
  "order_allowed intent kill_active block_new_entries =
    (if intent = ''EXIT'' \<or> intent = ''CANCEL'' then True
     else \<not> (kill_active \<or> block_new_entries))"

datatype structure_block = Paper_Only | Not_Implemented

definition live_structures_block_reason :: "string \<Rightarrow> bool \<Rightarrow> structure_block option" where
  "live_structures_block_reason mode enabled =
    (if mode \<noteq> ''live'' then None
     else if \<not> enabled then Some Paper_Only else Some Not_Implemented)"

lemma live_structures_blocked: "live_structures_block_reason ''live'' enabled \<noteq> None"
  by (simp add: live_structures_block_reason_def)

section \<open>Instrument metadata\<close>

datatype meta_violation =
    Non_Positive_Quantity | Not_Lot_Multiple int int | Exceeds_Freeze int int
  | Tick_Misaligned | Contract_Expired int

definition round_to_tick :: "rupees \<Rightarrow> real option \<Rightarrow> rupees" where
  "round_to_tick price tick_size =
    (case tick_size of
       None \<Rightarrow> price
     | Some t \<Rightarrow> if t = 0 \<or> t \<le> 0 then price
                 else py_round 10 (of_int (round_half_even (price / t)) * t))"

definition tick_aligned :: "rupees \<Rightarrow> real option \<Rightarrow> real \<Rightarrow> bool" where
  "tick_aligned price tick_size tol =
    (case tick_size of
       None \<Rightarrow> True
     | Some t \<Rightarrow> if t = 0 \<or> t \<le> 0 then True
                 else \<bar>price - round_to_tick price tick_size\<bar> \<le> tol)"

definition tick_tol :: real where
  "tick_tol = 1 / 1000000"

text \<open>None is \<open>OrderCheck(True)\<close>; Some is a violation.\<close>

definition validate_order_against_meta ::
  "int option \<Rightarrow> rupees option \<Rightarrow> int option \<Rightarrow> real option \<Rightarrow> int option \<Rightarrow> int option \<Rightarrow> int \<Rightarrow>
     meta_violation option" where
  "validate_order_against_meta quantity price lot_size tick_size freeze_qty expiry today =
    (case quantity of
       None \<Rightarrow> Some Non_Positive_Quantity
     | Some q \<Rightarrow>
       if q \<le> 0 then Some Non_Positive_Quantity
       else if (case lot_size of None \<Rightarrow> False | Some l \<Rightarrow> l \<noteq> 0 \<and> l > 0 \<and> q mod l \<noteq> 0)
         then Some (Not_Lot_Multiple q (get_default lot_size 0))
       else if (case freeze_qty of None \<Rightarrow> False | Some f \<Rightarrow> f \<noteq> 0 \<and> f > 0 \<and> q > f)
         then Some (Exceeds_Freeze q (get_default freeze_qty 0))
       else if (case price of None \<Rightarrow> False | Some p \<Rightarrow> \<not> tick_aligned p tick_size tick_tol)
         then Some Tick_Misaligned
       else if (case expiry of None \<Rightarrow> False | Some e \<Rightarrow> e < today)
         then Some (Contract_Expired (get_default expiry 0))
       else None)"

definition entry_meta_block_reason ::
  "string \<Rightarrow> int \<Rightarrow> rupees \<Rightarrow> instrument \<Rightarrow> string \<Rightarrow> int \<Rightarrow> meta_violation option" where
  "entry_meta_block_reason mode quantity price inst order_type today =
    (if mode \<noteq> ''live'' then None
     else validate_order_against_meta (Some quantity)
            (if order_type = ''LIMIT'' then Some price else None)
            (in_lot inst) (in_tick inst) None (in_expiry inst) today)"

lemma validate_ok_iff:
  "validate_order_against_meta (Some q) price lot tick frz expiry today = None \<longleftrightarrow>
     0 < q
   \<and> (\<forall>l. lot = Some l \<longrightarrow> 0 < l \<longrightarrow> l dvd q)
   \<and> (\<forall>f. frz = Some f \<longrightarrow> 0 < f \<longrightarrow> q \<le> f)
   \<and> (\<forall>p. price = Some p \<longrightarrow> tick_aligned p tick tick_tol)
   \<and> (\<forall>e. expiry = Some e \<longrightarrow> today \<le> e)"
  by (auto simp: validate_order_against_meta_def dvd_eq_mod_eq_0 split: option.splits)

text \<open>A price that was rounded to the tick grid is always accepted by the check.\<close>

lemma round_to_tick_idem:
  assumes "1 / 10 ^ 10 < t"
  shows "round_to_tick (round_to_tick p (Some t)) (Some t) = round_to_tick p (Some t)"
proof -
  let ?k = "round_half_even (p / t)"
  have t: "0 < t" using assms by (rule less_trans [rotated]) simp
  then have p': "round_to_tick p (Some t) = py_round 10 (of_int ?k * t)"
    by (simp add: round_to_tick_def)
  have "\<bar>py_round 10 (of_int ?k * t) - of_int ?k * t\<bar> < t / 2"
    using py_round_error [of 10 "of_int ?k * t"] assms by simp
  then have "\<bar>py_round 10 (of_int ?k * t) - of_int ?k * t\<bar> / t < 1 / 2"
    using t by (simp add: pos_divide_less_eq)
  moreover have "\<bar>py_round 10 (of_int ?k * t) / t - of_int ?k\<bar>
      = \<bar>py_round 10 (of_int ?k * t) - of_int ?k * t\<bar> / t"
  proof -
    have "py_round 10 (of_int ?k * t) / t - of_int ?k = (py_round 10 (of_int ?k * t) - of_int ?k * t) / t"
      using t by (simp add: diff_divide_distrib)
    then show ?thesis using t by (simp add: abs_divide)
  qed
  ultimately have "round_half_even (round_to_tick p (Some t) / t) = ?k"
    unfolding p' by (intro round_half_even_nearest) simp
  then show ?thesis unfolding round_to_tick_def [of "round_to_tick p (Some t)"] using t p' by simp
qed

section \<open>Slicing\<close>

definition slice_order :: "int \<Rightarrow> int \<Rightarrow> int list" where
  "slice_order quantity clip =
    (if clip \<le> 0 \<or> quantity \<le> clip then [quantity]
     else replicate (nat (quantity div clip)) clip
          @ (if quantity mod clip \<noteq> 0 then [quantity mod clip] else []))"

definition freeze_slices :: "int option \<Rightarrow> int option \<Rightarrow> int list" where
  "freeze_slices quantity freeze_qty =
    (let q = py_or quantity 0 in
     if q \<le> 0 then []
     else case freeze_qty of
       None \<Rightarrow> [q]
     | Some cap \<Rightarrow>
         if cap = 0 \<or> cap \<le> 0 \<or> q \<le> cap then [q]
         else replicate (nat (q div cap)) cap
              @ (if q mod cap \<noteq> 0 then [q mod cap] else []))"

lemma sum_list_replicate_int [simp]: "sum_list (replicate n (k::int)) = int n * k"
  by (induction n) (auto simp: algebra_simps)

lemma slice_order_sum: "sum_list (slice_order quantity clip) = quantity"
proof (cases "clip \<le> 0 \<or> quantity \<le> clip")
  case False
  then have "0 \<le> quantity div clip" by (intro pos_imp_zdiv_nonneg_iff [THEN iffD2]) auto
  with False have "sum_list (slice_order quantity clip) = quantity div clip * clip + quantity mod clip"
    unfolding slice_order_def by (cases "quantity mod clip = 0") simp_all
  then show ?thesis by simp
qed (simp add: slice_order_def)

lemma slice_order_bounds:
  "0 < clip \<Longrightarrow> 0 < quantity \<Longrightarrow> c \<in> set (slice_order quantity clip) \<Longrightarrow> 0 < c \<and> c \<le> clip"
  by (auto simp: slice_order_def split: if_splits)
    (use pos_mod_sign [of clip quantity] pos_mod_bound [of clip quantity] in linarith)+

lemma slice_order_pos: "0 < quantity \<Longrightarrow> \<forall>c \<in> set (slice_order quantity clip). 0 < c"
proof (cases "0 < clip")
  case True
  then show "0 < quantity \<Longrightarrow> ?thesis" using slice_order_bounds by blast
qed (simp add: slice_order_def)

lemma freeze_slices_eq: "0 < q \<Longrightarrow> freeze_slices (Some q) (Some cap) = slice_order q cap"
  by (auto simp: freeze_slices_def slice_order_def)

definition transient_keys :: "string list" where
  "transient_keys = [''network'', ''timeout'', ''timed out'', ''try again'', ''connection'']"

definition transient :: "string option \<Rightarrow> bool" where
  "transient r = (let s = py_lower (get_default r []) in \<exists>k\<in>set transient_keys. contains_str s k)"

definition price_band_breached :: "rupees \<Rightarrow> rupees \<Rightarrow> real \<Rightarrow> bool" where
  "price_band_breached price reference band_pct =
    (if reference = 0 \<or> reference \<le> 0 \<or> price = 0 \<or> price \<le> 0 then False
     else \<bar>price - reference\<bar> / reference > band_pct)"

definition rate_limit_ok :: "int \<Rightarrow> int \<Rightarrow> bool" where
  "rate_limit_ok orders_in_window max_per_window =
    (if max_per_window = 0 \<or> max_per_window \<le> 0 then True
     else orders_in_window < max_per_window)"

section \<open>The entry lifecycle\<close>

datatype lifecycle =
    L_SUBMITTED | L_PARTIAL_FILLED | L_CANCEL_REQUESTED | L_CANCEL_CONFIRMED | L_BRACKET_PENDING
  | L_PROTECTED | L_UNPROTECTED | L_RECONCILE_REQUIRED | L_REJECTED

definition UNSAFE_STATES :: "lifecycle list" where
  "UNSAFE_STATES = [L_UNPROTECTED, L_RECONCILE_REQUIRED]"

definition entry_outcome :: "int \<Rightarrow> int \<Rightarrow> bool \<Rightarrow> bool \<Rightarrow> lifecycle" where
  "entry_outcome filled requested remainder_dealt_with bracket_ok =
    (if filled \<le> 0 then (if remainder_dealt_with then L_REJECTED else L_RECONCILE_REQUIRED)
     else if \<not> remainder_dealt_with then L_RECONCILE_REQUIRED
     else if bracket_ok then L_PROTECTED else L_UNPROTECTED)"

text \<open>An entry is safe exactly when nothing rests at the broker and what filled is protected.\<close>

lemma entry_outcome_safe_iff:
  "entry_outcome f q rem br \<notin> set UNSAFE_STATES \<longleftrightarrow> rem \<and> (f \<le> 0 \<or> br)"
  by (auto simp: entry_outcome_def UNSAFE_STATES_def)

section \<open>Intrabar exits of the backtester\<close>

text \<open>\<open>backtest/execution_model.py\<close>; \<open>True\<close> is the reason "stop", \<open>False\<close> is "target".\<close>

definition slip_price :: "rupees \<Rightarrow> real \<Rightarrow> bool \<Rightarrow> rupees" where
  "slip_price price bps adverse_up =
    (let delta = price * bps / 10000 in if adverse_up then price + delta else price - delta)"

definition stop_fill_price :: "order_side \<Rightarrow> rupees \<Rightarrow> rupees \<Rightarrow> real \<Rightarrow> rupees" where
  "stop_fill_price side stop bar_open bps =
    (if side = BUY then py_round 2 (slip_price (min stop bar_open) bps False)
     else py_round 2 (slip_price (max stop bar_open) bps True))"

definition target_fill_price :: "order_side \<Rightarrow> rupees \<Rightarrow> rupees \<Rightarrow> rupees" where
  "target_fill_price side target bar_open =
    (if side = BUY then py_round 2 (max target bar_open) else py_round 2 (min target bar_open))"

definition resolve_intrabar_exit ::
  "order_side \<Rightarrow> rupees option \<Rightarrow> rupees option \<Rightarrow> rupees \<Rightarrow> rupees \<Rightarrow> rupees \<Rightarrow> real \<Rightarrow> (bool \<times> rupees) option" where
  "resolve_intrabar_exit side stop target bo h l bps =
    (let long = (side = BUY);
         s = py_or stop 0; t = py_or target 0;
         stop_exit = Some (True, stop_fill_price side s bo bps);
         target_exit = Some (False, target_fill_price side t bo)
     in if truthy stop \<and> (if long then bo \<le> s else bo \<ge> s) then stop_exit
        else if truthy target \<and> (if long then bo \<ge> t else bo \<le> t) then target_exit
        else if truthy stop \<and> (if long then l \<le> s else h \<ge> s) then stop_exit
        else if truthy target \<and> (if long then h \<ge> t else l \<le> t) then target_exit
        else None)"

lemma stop_fill_never_better:
  assumes "0 \<le> bps" "0 \<le> stop" "0 \<le> bo"
  shows "stop_fill_price BUY stop bo bps \<le> py_round 2 stop"
    "py_round 2 stop \<le> stop_fill_price SELL stop bo bps"
proof -
  have "0 \<le> min stop bo * bps / 10000" "0 \<le> max stop bo * bps / 10000"
    using assms by (auto intro!: mult_nonneg_nonneg)
  moreover have "min stop bo \<le> stop" "stop \<le> max stop bo" by simp_all
  ultimately have "slip_price (min stop bo) bps False \<le> stop" "stop \<le> slip_price (max stop bo) bps True"
    unfolding slip_price_def Let_def if_True if_False by linarith+
  then show "stop_fill_price BUY stop bo bps \<le> py_round 2 stop"
    "py_round 2 stop \<le> stop_fill_price SELL stop bo bps"
    by (simp_all add: stop_fill_price_def py_round_mono)
qed

lemma target_fill_never_worse:
  "py_round 2 t \<le> target_fill_price BUY t bo" "target_fill_price SELL t bo \<le> py_round 2 t"
  by (simp_all add: target_fill_price_def py_round_mono)

end
