(* ===== verification/Positions.thy ===== *)
theory Positions
  imports Prelude
begin

text \<open>
  The \<open>positions\<close> table row as the code reads it, and \<open>risk/positions.py\<close>: the aggregations
  behind sleeve utilisation, portfolio heat and the concurrency limit. Nullable columns are
  options; the status column is a datatype.
\<close>

datatype pos_status = Open | Close_Pending | Closed | Flagged

record position =
  pos_id :: pid
  correlation_id :: "corr_id option"
  mode :: string
  sleeve :: "string option"
  instrument_token :: "token option"
  tradingsymbol :: "string option"
  side :: order_side
  qty :: "int option"
  average_price :: "rupees option"
  pos_r :: "rupees option"
  pos_status :: pos_status
  account_id :: "string option"

section \<open>Aggregations\<close>

definition pos_value :: "position \<Rightarrow> rupees" where
  "pos_value p = of_int (py_or (qty p) 0) * py_or (average_price p) 0"

text \<open>The dictionary keeps insertion order; a missing sleeve is a key of its own.\<close>

definition deployed_step ::
  "(string option \<times> rupees) list \<Rightarrow> position \<Rightarrow> (string option \<times> rupees) list" where
  "deployed_step out p = upsert (sleeve p) (get_default (map_of out (sleeve p)) 0 + pos_value p) out"

definition deployed_by_sleeve :: "position list \<Rightarrow> (string option \<times> rupees) list" where
  "deployed_by_sleeve ps = foldl deployed_step [] ps"

definition total_open_r :: "position list \<Rightarrow> rupees" where
  "total_open_r ps = sum_list (map (\<lambda>p. py_or (pos_r p) 0) ps)"

text \<open>The loop of \<open>open_trades_count\<close>, with its two accumulators.\<close>

fun count_trades :: "position list \<Rightarrow> corr_id list \<Rightarrow> nat \<Rightarrow> nat" where
  "count_trades [] seen n = n"
| "count_trades (p # ps) seen n =
     (case correlation_id p of
        None \<Rightarrow> count_trades ps seen (n + 1)
      | Some c \<Rightarrow> if c \<in> set seen then count_trades ps seen n
                  else count_trades ps (c # seen) (n + 1))"

definition open_trades_count :: "position list \<Rightarrow> nat" where
  "open_trades_count ps = count_trades ps [] 0"

definition open_r_by_underlying :: "position list \<Rightarrow> string option \<Rightarrow> rupees" where
  "open_r_by_underlying ps underlying =
     (let u = py_upper (get_default underlying []) in
      if u = [] then 0
      else sum_list (map (\<lambda>p. py_or (pos_r p) 0)
             (filter (\<lambda>p. starts_with (py_upper (get_default (tradingsymbol p) [])) u) ps)))"

section \<open>What they compute\<close>

lemma deployed_by_sleeve_snoc:
  "deployed_by_sleeve (ps @ [p]) = deployed_step (deployed_by_sleeve ps) p"
  by (simp add: deployed_by_sleeve_def)

lemma deployed_distinct: "distinct (map fst (deployed_by_sleeve ps))"
proof (induction ps rule: rev_induct)
  case Nil
  then show ?case by (simp add: deployed_by_sleeve_def)
next
  case (snoc p ps)
  then show ?case
    unfolding deployed_by_sleeve_snoc deployed_step_def by (rule distinct_upsert)
qed

text \<open>\<open>sum(deployed_by_sleeve(positions).values())\<close> is the value of the whole book.\<close>

lemma deployed_total:
  "sum_list (map snd (deployed_by_sleeve ps)) = sum_list (map pos_value ps)"
proof (induction ps rule: rev_induct)
  case Nil
  then show ?case by (simp add: deployed_by_sleeve_def)
next
  case (snoc p ps)
  then show ?case
    by (simp add: deployed_by_sleeve_snoc deployed_step_def
        sum_values_upsert_add [OF deployed_distinct])
qed

lemma deployed_lookup:
  "get_default (map_of (deployed_by_sleeve ps) s) 0
     = sum_list (map pos_value (filter (\<lambda>p. sleeve p = s) ps))"
proof (induction ps rule: rev_induct)
  case Nil
  then show ?case by (simp add: deployed_by_sleeve_def)
next
  case (snoc p ps)
  then show ?case
    by (auto simp: deployed_by_sleeve_snoc deployed_step_def)
qed

lemma count_trades_correct:
  "count_trades ps seen n =
     n + length (filter (\<lambda>p. correlation_id p = None) ps)
       + card ({c. \<exists>p\<in>set ps. correlation_id p = Some c} - set seen)"
proof (induction ps arbitrary: seen n)
  case (Cons p ps)
  let ?C = "{c. \<exists>p\<in>set ps. correlation_id p = Some c}"
  have fin: "finite ?C"
    by (rule finite_subset [of _ "(\<lambda>p. the (correlation_id p)) ` set ps"]) (auto simp: image_iff, force)
  show ?case
  proof (cases "correlation_id p")
    case None
    with Cons.IH show ?thesis by simp
  next
    case (Some c)
    have eq: "{d. \<exists>q\<in>set (p # ps). correlation_id q = Some d} = insert c ?C"
      using Some by auto
    show ?thesis
    proof (cases "c \<in> set seen")
      case True
      with Some Cons.IH [of seen n] show ?thesis
        unfolding eq by (simp add: insert_absorb)
    next
      case False
      have "insert c ?C - set seen = insert c (?C - set (c # seen))" using False by auto
      moreover have "c \<notin> ?C - set (c # seen)" by simp
      ultimately have "card (insert c ?C - set seen) = Suc (card (?C - set (c # seen)))"
        using fin by simp
      with Some False Cons.IH [of "c # seen" "n + 1"] show ?thesis
        unfolding eq by simp
    qed
  qed
qed simp

text \<open>A multi-leg structure takes one slot: legs sharing a correlation id count once.\<close>

lemma open_trades_count_eq:
  "open_trades_count ps =
     length (filter (\<lambda>p. correlation_id p = None) ps)
     + card {c. \<exists>p\<in>set ps. correlation_id p = Some c}"
  by (simp add: open_trades_count_def count_trades_correct)

lemma open_trades_count_le: "open_trades_count ps \<le> length ps"
proof -
  have "count_trades ps seen n \<le> n + length ps" for seen n
  proof (induction ps arbitrary: seen n)
    case (Cons p ps)
    show ?case
      using Cons.IH [of seen "n + 1"] Cons.IH [of seen n] Cons.IH [of "the (correlation_id p) # seen" "n + 1"]
      by (cases "correlation_id p") auto
  qed simp
  from this [of "[]" 0] show ?thesis by (simp add: open_trades_count_def)
qed

lemma total_open_r_append [simp]: "total_open_r (ps @ qs) = total_open_r ps + total_open_r qs"
  by (simp add: total_open_r_def)

lemma open_r_by_underlying_le:
  assumes "\<And>p. p \<in> set ps \<Longrightarrow> 0 \<le> py_or (pos_r p) 0"
  shows "open_r_by_underlying ps u \<le> total_open_r ps"
proof -
  let ?f = "\<lambda>p. py_or (pos_r p) 0"
  let ?P = "\<lambda>p. starts_with (py_upper (get_default (tradingsymbol p) [])) (py_upper (get_default u []))"
  have "0 \<le> sum_list (map ?f (filter (\<lambda>p. \<not> ?P p) ps))" "0 \<le> sum_list (map ?f (filter ?P ps))"
    using assms by (auto intro!: sum_list_nonneg)
  with sum_list_map_filter_split [of ?f ps ?P]
  have "0 \<le> sum_list (map ?f ps)" "sum_list (map ?f (filter ?P ps)) \<le> sum_list (map ?f ps)"
    by linarith+
  then show ?thesis
    unfolding open_r_by_underlying_def total_open_r_def Let_def by (cases "py_upper (get_default u []) = []") simp_all
qed

end
