(* ===== verification/Runtime_Mode.thy ===== *)
theory Runtime_Mode
  imports Prelude Positions
begin

text \<open>
  \<open>common/state.py\<close>, \<open>common/runtime_mode.py\<close>, \<open>common/mode_transition.py\<close> and
  \<open>risk/scope.py\<close>: the operator state table, the single row that says whether the system is
  paper or live, the validated transitions that may write it, and the row filter that keeps
  paper and live positions apart.

  The table \<open>config_state\<close> is a map from keys to JSON values. The validators injected into a
  transition are passed as the results they return, None when the caller did not supply one.
\<close>

section \<open>Operator state\<close>

type_synonym config_state = "string \<rightharpoonup> json"

definition get_state :: "config_state \<Rightarrow> string \<Rightarrow> json \<Rightarrow> json" where
  "get_state st k d = (case st k of None \<Rightarrow> d | Some v \<Rightarrow> v)"

definition set_state :: "string \<Rightarrow> json \<Rightarrow> config_state \<Rightarrow> config_state" where
  "set_state k v st = st(k \<mapsto> v)"

text \<open>The interface the clients of the table rely on.\<close>

locale state_store =
  fixes get :: "'s \<Rightarrow> string \<Rightarrow> json \<Rightarrow> json"
    and set :: "string \<Rightarrow> json \<Rightarrow> 's \<Rightarrow> 's"
  assumes get_set_same: "get (set k v s) k d = v"
    and get_set_other: "k \<noteq> k' \<Longrightarrow> get (set k v s) k' d = get s k' d"
begin

definition flag :: "string \<Rightarrow> 's \<Rightarrow> bool" where
  "flag k s = json_truthy (get s k (JBool False))"

lemma flag_set_same [simp]: "flag k (set k v s) = json_truthy v"
  by (simp add: flag_def get_set_same)

lemma flag_set_other [simp]: "k \<noteq> k' \<Longrightarrow> flag k' (set k v s) = flag k' s"
  by (simp add: flag_def get_set_other)

end

interpretation cfg: state_store get_state set_state
  by unfold_locales (auto simp: get_state_def set_state_def)

definition state_flag :: "string \<Rightarrow> config_state \<Rightarrow> bool" where
  "state_flag k st = json_truthy (get_state st k (JBool False))"

lemma state_flag_eq: "state_flag k st = cfg.flag k st"
  by (simp add: state_flag_def cfg.flag_def)

lemma state_flag_set [simp]:
  "state_flag k (set_state k v st) = json_truthy v"
  "k \<noteq> k' \<Longrightarrow> state_flag k' (set_state k v st) = state_flag k' st"
  by (simp_all add: state_flag_eq)

section \<open>The runtime mode\<close>

abbreviation PAPER :: string where "PAPER \<equiv> ''simulated_fill''"
abbreviation LIVE :: string where "LIVE \<equiv> ''live''"

record runtime_mode_state =
  rm_mode :: string
  broker_account_id :: "string option"
  capital_source :: string
  risk_profile :: string
  kill_switch_mode :: string
  position_namespace :: string
  updated_by :: string
  updated_at :: string
  version :: int

definition is_live :: "runtime_mode_state \<Rightarrow> bool" where
  "is_live s = (rm_mode s = LIVE)"

definition use_broker_capital :: "runtime_mode_state \<Rightarrow> bool" where
  "use_broker_capital s = (capital_source s = ''broker_live'')"

fun json_of_opt :: "string option \<Rightarrow> json" where
  "json_of_opt None = JNull"
| "json_of_opt (Some s) = JStr s"

definition to_dict :: "runtime_mode_state \<Rightarrow> (string \<times> json) list" where
  "to_dict s =
    [(''mode'', JStr (rm_mode s)),
     (''broker_account_id'', json_of_opt (broker_account_id s)),
     (''capital_source'', JStr (capital_source s)),
     (''risk_profile'', JStr (risk_profile s)),
     (''kill_switch_mode'', JStr (kill_switch_mode s)),
     (''position_namespace'', JStr (position_namespace s)),
     (''updated_by'', JStr (updated_by s)),
     (''updated_at'', JStr (updated_at s)),
     (''version'', JNum (of_int (version s)))]"

text \<open>
  \<open>_from_dict\<close>: unknown keys are dropped, missing keys take the dataclass default. The
  table's row is only ever written from \<open>to_dict\<close>, so a field of another JSON type than its
  declaration does not occur; the model reads one as missing.
\<close>

definition str_field :: "(string \<times> json) list \<Rightarrow> string \<Rightarrow> string \<Rightarrow> string" where
  "str_field d k dflt = (case map_of d k of Some (JStr s) \<Rightarrow> s | _ \<Rightarrow> dflt)"

definition from_dict :: "(string \<times> json) list \<Rightarrow> runtime_mode_state" where
  "from_dict d =
    \<lparr>rm_mode = str_field d ''mode'' PAPER,
     broker_account_id = (case map_of d ''broker_account_id'' of Some (JStr s) \<Rightarrow> Some s | _ \<Rightarrow> None),
     capital_source = str_field d ''capital_source'' ''paper_static'',
     risk_profile = str_field d ''risk_profile'' ''paper'',
     kill_switch_mode = str_field d ''kill_switch_mode'' ''block_all'',
     position_namespace = str_field d ''position_namespace'' PAPER,
     updated_by = str_field d ''updated_by'' ''system'',
     updated_at = str_field d ''updated_at'' '''',
     version = (case map_of d ''version'' of Some (JNum x) \<Rightarrow> \<lfloor>x\<rfloor> | _ \<Rightarrow> 0)\<rparr>"

lemma from_to_dict [simp]: "from_dict (to_dict s) = s"
  by (cases s, cases "broker_account_id s")
    (auto simp: from_dict_def to_dict_def str_field_def)

definition derive_for_mode ::
  "string \<Rightarrow> string option \<Rightarrow> string \<Rightarrow> int \<Rightarrow> string \<Rightarrow> runtime_mode_state" where
  "derive_for_mode m acct who ver now =
    (let live = (m = LIVE) in
     \<lparr>rm_mode = (if live then LIVE else PAPER), broker_account_id = acct,
      capital_source = (if live then ''broker_live'' else ''paper_static''),
      risk_profile = (if live then ''live'' else ''paper''),
      kill_switch_mode = ''block_all'',
      position_namespace = (if live then LIVE else PAPER),
      updated_by = who, updated_at = now, version = ver\<rparr>)"

definition load_runtime_mode :: "string \<Rightarrow> config_state \<Rightarrow> runtime_mode_state" where
  "load_runtime_mode now st =
    (let legacy = (case get_state st ''execution_mode'' (JStr PAPER) of
                     JStr s \<Rightarrow> if s = PAPER \<or> s = LIVE then s else PAPER | _ \<Rightarrow> PAPER);
         fallback = derive_for_mode legacy None ''system'' 0 now
     in case get_state st ''runtime_mode'' JNull of
          JObj d \<Rightarrow> (case map_of d ''mode'' of
             Some v \<Rightarrow> if json_truthy v then from_dict d else fallback
           | None \<Rightarrow> fallback)
        | _ \<Rightarrow> fallback)"

definition write_runtime_mode ::
  "string \<Rightarrow> runtime_mode_state \<Rightarrow> string \<Rightarrow> config_state \<Rightarrow> config_state \<times> runtime_mode_state" where
  "write_runtime_mode now s who st =
    (let current = load_runtime_mode now st;
         new = derive_for_mode (rm_mode s) (broker_account_id s) who (version current + 1) now
     in (set_state ''execution_mode'' (JStr (rm_mode new))
           (set_state ''runtime_mode'' (JObj (to_dict new)) st), new))"

section \<open>Validated transitions\<close>

text \<open>What a pre-live runner may hand back (\<open>_failed_checks\<close>).\<close>

datatype prelive_result =
    Res_None
  | Res_Map "(string \<times> bool) list"
  | Res_Checks "(string option \<times> string) list"
  | Res_Failed "string list"
  | Res_Ok bool

fun failed_checks :: "prelive_result \<Rightarrow> string list" where
  "failed_checks Res_None = [''pre-live checks returned nothing'']"
| "failed_checks (Res_Map m) = map fst (filter (\<lambda>kv. \<not> snd kv) m)"
| "failed_checks (Res_Checks cs) =
     map (\<lambda>c. get_default (fst c) ''?'') (filter (\<lambda>c. snd c \<noteq> ''pass'' \<and> snd c \<noteq> ''warn'') cs)"
| "failed_checks (Res_Failed xs) = xs"
| "failed_checks (Res_Ok b) = (if b then [] else [''pre-live checks not ok''])"

datatype transition_reason =
    Unknown_Mode string | Need_Confirm_Token | Kill_Switch_On | Prelive_Not_Configured
  | Prelive_Failed "string list" | Reconcile_Not_Clean string | Open_Live_Positions int

record transition_request =
  target_mode :: string
  operator :: string
  confirm_token :: "string option"
  prelive_runner :: "prelive_result option"
  kill_switch_check :: "bool option"
  reconcile_check :: "(bool \<times> string) option"
  open_live_positions :: "int option"
  allow_unflattened_downgrade :: bool
  req_account :: "string option"

text \<open>The reasons the code collects, in its order.\<close>

definition transition_reasons :: "transition_request \<Rightarrow> transition_reason list" where
  "transition_reasons q =
    (if target_mode q = LIVE then
       (if confirm_token q \<noteq> Some ''LIVE'' then [Need_Confirm_Token] else [])
       @ (if kill_switch_check q = Some True then [Kill_Switch_On] else [])
       @ (case prelive_runner q of
            None \<Rightarrow> [Prelive_Not_Configured]
          | Some r \<Rightarrow> if failed_checks r \<noteq> [] then [Prelive_Failed (failed_checks r)] else [])
       @ (case reconcile_check q of
            None \<Rightarrow> []
          | Some (ok, det) \<Rightarrow> if ok then [] else [Reconcile_Not_Clean det])
     else
       (case open_live_positions q of
          None \<Rightarrow> []
        | Some n \<Rightarrow> if \<not> allow_unflattened_downgrade q \<and> n > 0 then [Open_Live_Positions n] else []))"

definition request_transition ::
  "string \<Rightarrow> transition_request \<Rightarrow> config_state \<Rightarrow>
     transition_reason list + (config_state \<times> runtime_mode_state)" where
  "request_transition now q st =
    (if target_mode q \<noteq> PAPER \<and> target_mode q \<noteq> LIVE then Inl [Unknown_Mode (target_mode q)]
     else
       let current = load_runtime_mode now st in
       if rm_mode current = target_mode q then Inr (st, current)
       else if transition_reasons q \<noteq> [] then Inl (transition_reasons q)
       else Inr (write_runtime_mode now
              (derive_for_mode (target_mode q) (req_account q) (operator q) 0 now) (operator q) st))"

section \<open>Row scope\<close>

text \<open>\<open>position_scope\<close> and the filter \<open>where_clause\<close> renders as SQL.\<close>

definition position_scope :: "runtime_mode_state \<Rightarrow> string \<times> string option" where
  "position_scope s =
    (let ns = (if position_namespace s = [] then PAPER else position_namespace s);
         acct = broker_account_id s;
         no_acct = (case acct of None \<Rightarrow> True | Some a \<Rightarrow> a = [])
     in (ns, if ns \<noteq> LIVE \<and> no_acct then Some ''paper'' else acct))"

definition where_clause :: "string \<times> string option \<Rightarrow> position \<Rightarrow> bool" where
  "where_clause sc p =
    (mode p = (if fst sc = [] then PAPER else fst sc)
     \<and> (case snd sc of None \<Rightarrow> True
         | Some a \<Rightarrow> a \<noteq> [] \<and> a \<noteq> ''paper'' \<longrightarrow> account_id p = Some a))"


section \<open>Consistency of the persisted mode\<close>

text \<open>All the fields a mode implies agree, and the legacy mirror agrees with them.\<close>

definition mode_consistent :: "runtime_mode_state \<Rightarrow> bool" where
  "mode_consistent s \<longleftrightarrow>
     (rm_mode s = LIVE \<and> capital_source s = ''broker_live'' \<and> risk_profile s = ''live''
        \<and> position_namespace s = LIVE)
   \<or> (rm_mode s = PAPER \<and> capital_source s = ''paper_static'' \<and> risk_profile s = ''paper''
        \<and> position_namespace s = PAPER)"

lemma derive_consistent [simp]: "mode_consistent (derive_for_mode m a w v now)"
  by (simp add: mode_consistent_def derive_for_mode_def Let_def)

lemma derive_mode [simp]:
  "rm_mode (derive_for_mode m a w v now) = (if m = LIVE then LIVE else PAPER)"
  "broker_account_id (derive_for_mode m a w v now) = a"
  "version (derive_for_mode m a w v now) = v"
  "updated_by (derive_for_mode m a w v now) = w"
  by (simp_all add: derive_for_mode_def Let_def)

lemma map_of_to_dict_mode [simp]: "map_of (to_dict s) ''mode'' = Some (JStr (rm_mode s))"
  by (simp add: to_dict_def)

lemma load_after_write:
  "load_runtime_mode now' (fst (write_runtime_mode now s who st)) = snd (write_runtime_mode now s who st)"
  by (simp add: write_runtime_mode_def load_runtime_mode_def Let_def cfg.get_set_other
      cfg.get_set_same)

lemma write_mirror:
  "get_state (fst (write_runtime_mode now s who st)) ''execution_mode'' d
     = JStr (rm_mode (snd (write_runtime_mode now s who st)))"
  by (simp add: write_runtime_mode_def Let_def cfg.get_set_same)

lemma write_consistent: "mode_consistent (snd (write_runtime_mode now s who st))"
  by (simp add: write_runtime_mode_def Let_def)

lemma write_other_keys:
  "k \<noteq> ''runtime_mode'' \<Longrightarrow> k \<noteq> ''execution_mode'' \<Longrightarrow>
   get_state (fst (write_runtime_mode now s who st)) k d = get_state st k d"
  by (simp add: write_runtime_mode_def Let_def cfg.get_set_other)

text \<open>A table is in good shape when what is loaded from it is consistent and mirrored.\<close>

definition mode_table_ok :: "config_state \<Rightarrow> bool" where
  "mode_table_ok st \<longleftrightarrow>
     (\<forall>now. mode_consistent (load_runtime_mode now st)
        \<and> get_state st ''execution_mode'' (JStr PAPER) = JStr (rm_mode (load_runtime_mode now st)))"

lemma mode_table_ok_empty: "mode_table_ok Map.empty"
  by (simp add: mode_table_ok_def load_runtime_mode_def get_state_def Let_def)

lemma mode_table_ok_write: "mode_table_ok (fst (write_runtime_mode now s who st))"
  by (simp add: mode_table_ok_def load_after_write write_consistent write_mirror)

lemma request_transition_ok_cases:
  assumes "request_transition now q st = Inr (st', s')"
  obtains (noop) "rm_mode (load_runtime_mode now st) = target_mode q" "st' = st"
      "s' = load_runtime_mode now st"
    | (written) "rm_mode (load_runtime_mode now st) \<noteq> target_mode q" "transition_reasons q = []"
      "(st', s') = write_runtime_mode now
         (derive_for_mode (target_mode q) (req_account q) (operator q) 0 now) (operator q) st"
      "target_mode q = PAPER \<or> target_mode q = LIVE"
  using assms unfolding request_transition_def Let_def by (fastforce split: if_splits)

lemma request_transition_keeps_ok:
  "request_transition now q st = Inr (st', s') \<Longrightarrow> mode_table_ok st \<Longrightarrow> mode_table_ok st'"
proof (erule request_transition_ok_cases)
  assume w: "(st', s') = write_runtime_mode now
         (derive_for_mode (target_mode q) (req_account q) (operator q) 0 now) (operator q) st"
  then have "st' = fst (write_runtime_mode now
         (derive_for_mode (target_mode q) (req_account q) (operator q) 0 now) (operator q) st)"
    by (metis fst_conv)
  then show "mode_table_ok st'" by (simp add: mode_table_ok_write)
qed simp

text \<open>The tables that accepted transitions reach from an empty (or freshly migrated) one.\<close>

inductive mode_reach :: "config_state \<Rightarrow> config_state \<Rightarrow> bool" where
  start: "mode_reach st st"
| accept: "mode_reach st0 st \<Longrightarrow> request_transition now q st = Inr (st', s') \<Longrightarrow> mode_reach st0 st'"
| refuse: "mode_reach st0 st \<Longrightarrow> request_transition now q st = Inl rs \<Longrightarrow> mode_reach st0 st"

lemma mode_reach_ok: "mode_reach st0 st \<Longrightarrow> mode_table_ok st0 \<Longrightarrow> mode_table_ok st"
  by (induction rule: mode_reach.induct) (auto intro: request_transition_keeps_ok)

text \<open>What a transition to live proves about its validators.\<close>

lemma live_reasons_empty:
  assumes "target_mode q = LIVE" "transition_reasons q = []"
  shows "confirm_token q = Some ''LIVE''" "kill_switch_check q \<noteq> Some True"
    "\<exists>r. prelive_runner q = Some r \<and> failed_checks r = []"
    "reconcile_check q \<noteq> None \<Longrightarrow> fst (the (reconcile_check q))"
  using assms by (auto simp: transition_reasons_def split: if_splits option.splits prod.splits)

section \<open>Scopes are disjoint\<close>

lemma where_clause_mode:
  "mode_consistent s \<Longrightarrow> where_clause (position_scope s) p \<Longrightarrow> mode p = rm_mode s"
  by (auto simp: mode_consistent_def where_clause_def position_scope_def Let_def split: if_splits)

lemma live_scope_account:
  "mode_consistent s \<Longrightarrow> is_live s \<Longrightarrow> broker_account_id s = Some a \<Longrightarrow> a \<noteq> [] \<Longrightarrow> a \<noteq> ''paper'' \<Longrightarrow>
   where_clause (position_scope s) p \<Longrightarrow> account_id p = Some a"
  by (auto simp: mode_consistent_def where_clause_def position_scope_def is_live_def Let_def)

end
