(* ===== verification/Position_Book.thy ===== *)
theory Position_Book
  imports Runtime_Mode Exec_Models "HOL-Library.List_Lexorder" "HOL-Library.Char_ord"
    "HOL-Library.Product_Lexorder" "HOL-Library.Multiset"
begin

text \<open>
  \<open>execution/position_book.py\<close> and \<open>execution/position_events.py\<close>: the durable book. A row of
  the \<open>positions\<close> table extends the columns the risk engine reads; its \<open>raw\<close> JSON column is a
  record with one field per top-level key, so the \<open>||\<close> merge of the code overwrites a field.
  The tables are lists in insertion order; the Redis side keeps the set of open ids and the last
  price and unrealized P&L of each position. A quantity the code reads with \<open>int()\<close> is always
  present: every insert writes one (\<open>book_ok\<close>).
\<close>

section \<open>Tables\<close>

record bracket =
  br_gtt :: "int option"
  br_live :: bool
  br_stop :: rupees
  br_target :: rupees
  br_qty :: int
  br_stop_type :: "string option"

record structure_meta =
  sm_name :: string
  sm_type :: string
  sm_max_loss :: rupees
  sm_max_profit :: rupees
  sm_entry_fees :: rupees
  sm_target_fraction :: real
  sm_stop_fraction :: real
  sm_expiry :: "int option"
  sm_opened_on :: "int option"

record raw_blob =
  rw_entry_fees :: "fees option"
  rw_bracket :: "bracket option"
  rw_close_pending :: "(order_id option \<times> string) option"
  rw_exit :: "(rupees \<times> fees \<times> string \<times> rupees) option"
  rw_meta :: "structure_meta option"
  rw_adopted :: bool

definition empty_raw :: raw_blob where
  "empty_raw = \<lparr>rw_entry_fees = None, rw_bracket = None, rw_close_pending = None, rw_exit = None,
     rw_meta = None, rw_adopted = False\<rparr>"

record book_row = position +
  b_entry :: rupees
  b_stop :: "rupees option"
  b_target :: "rupees option"
  b_product :: "string option"
  b_exchange :: "string option"
  b_variety :: "string option"
  b_order_type :: "string option"
  b_itype :: "string option"
  b_realized :: rupees
  b_unrealized :: rupees
  b_mfe :: rupees
  b_mae :: rupees
  b_raw :: raw_blob

datatype bracket_state = BRACKET_REQUESTED | BRACKET_ACTIVE | STOP_TRIGGERED | TARGET_TRIGGERED
  | BRACKET_CANCELLED | BROKER_FILLED

record bracket_row =
  bk_pid :: pid
  bk_gtt :: "int option"
  bk_state :: bracket_state
  bk_stop_type :: string
  bk_lower :: rupees
  bk_upper :: rupees
  bk_last_status :: "string option"

record order_row =
  or_corr :: corr_id
  or_broker_id :: "order_id option"
  or_mode :: string
  or_qty :: int
  or_filled :: int
  or_price :: rupees
  or_status :: order_outcome

datatype event_type = EV_ENTRY | EV_PARTIAL_CLOSE | EV_FULL_CLOSE | EV_CLOSE_PENDING

record pos_event =
  ev_id :: int
  ev_ts :: string
  ev_pid :: pid
  ev_type :: event_type
  ev_filled :: "int option"
  ev_pending :: "int option"
  ev_realized :: "rupees option"

record book =
  rows :: "book_row list"
  next_id :: pid
  orders :: "order_row list"
  brackets :: "bracket_row list"
  events :: "pos_event list"
  redis_open :: "pid set"
  redis_ltp :: "pid \<rightharpoonup> rupees"

definition empty_book :: book where
  "empty_book = \<lparr>rows = [], next_id = 1, orders = [], brackets = [], events = [], redis_open = {},
     redis_ltp = Map.empty\<rparr>"

definition find_row :: "pid \<Rightarrow> book \<Rightarrow> book_row option" where
  "find_row i b = find (\<lambda>r. pos_id r = i) (rows b)"

definition update_rows :: "pid \<Rightarrow> (book_row \<Rightarrow> book_row) \<Rightarrow> book \<Rightarrow> book" where
  "update_rows i f b = b\<lparr>rows := map (\<lambda>r. if pos_id r = i then f r else r) (rows b)\<rparr>"

definition row_qty :: "book_row \<Rightarrow> int" where
  "row_qty r = get_default (qty r) 0"

definition row_avg :: "book_row \<Rightarrow> rupees" where
  "row_avg r = get_default (average_price r) 0"

section \<open>Operations\<close>

text \<open>\<open>acct\<close> is the broker account of the active runtime mode, read when the mode is live.\<close>

definition open_position :: "string option \<Rightarrow> decision \<Rightarrow> fill \<Rightarrow> string \<Rightarrow> book \<Rightarrow> pid \<times> book" where
  "open_position acct d f m b =
    (let inst = d_instrument d; i = next_id b;
         row = \<lparr>pos_id = i, correlation_id = Some (d_corr d), mode = m, sleeve = Some (d_sleeve d),
           instrument_token = in_token inst, tradingsymbol = in_symbol inst, side = d_side d,
           qty = Some (f_qty f), average_price = Some (f_price f), pos_r = Some (d_r d),
           pos_status = Open, account_id = (if m = LIVE then acct else Some ''paper''),
           b_entry = f_price f, b_stop = Some (d_stop d), b_target = Some (d_target d),
           b_product = Some (d_product d), b_exchange = in_exchange inst,
           b_variety = Some ''regular'', b_order_type = Some (d_order_type d),
           b_itype = in_type inst, b_realized = 0, b_unrealized = 0, b_mfe = 0, b_mae = 0,
           b_raw = empty_raw\<lparr>rw_entry_fees := Some (f_fees f)\<rparr>\<rparr>
     in (i, b\<lparr>rows := rows b @ [row], next_id := i + 1, redis_open := insert i (redis_open b)\<rparr>))"

record broker_pos =
  bp_token :: "token option"
  bp_symbol :: "sym option"
  bp_qty :: int
  bp_avg :: "rupees option"
  bp_last :: "rupees option"
  bp_product :: "string option"
  bp_exchange :: "string option"
  bp_itype :: "string option"

definition adopt_row :: "corr_id \<Rightarrow> broker_pos \<Rightarrow> order_side \<Rightarrow> int \<Rightarrow> rupees \<Rightarrow> rupees option \<Rightarrow>
    rupees option \<Rightarrow> string \<Rightarrow> pos_status \<Rightarrow> book \<Rightarrow> pid \<times> book" where
  "adopt_row fresh_corr bp sd q entry stop target m status b =
    (case (if bp_token bp = None then None
           else find (\<lambda>r. instrument_token r = bp_token bp \<and> mode r = m
                          \<and> (pos_status r = Open \<or> pos_status r = Flagged)) (rows b)) of
       Some r \<Rightarrow> (pos_id r, update_rows (pos_id r)
           (\<lambda>r. r\<lparr>qty := Some q, average_price := Some entry, b_entry := entry, b_stop := stop,
                  b_target := target, side := sd, pos_status := status\<rparr>) b)
     | None \<Rightarrow>
        let i = next_id b;
            row = \<lparr>pos_id = i, correlation_id = Some fresh_corr, mode = m, sleeve = Some ''adopted'',
              instrument_token = bp_token bp, tradingsymbol = bp_symbol bp, side = sd,
              qty = Some q, average_price = Some entry, pos_r = None, pos_status = status,
              account_id = None, b_entry = entry, b_stop = stop, b_target = target,
              b_product = bp_product bp, b_exchange = bp_exchange bp, b_variety = None,
              b_order_type = None, b_itype = bp_itype bp, b_realized = 0, b_unrealized = 0,
              b_mfe = 0, b_mae = 0, b_raw = empty_raw\<lparr>rw_adopted := True\<rparr>\<rparr>
        in (i, b\<lparr>rows := rows b @ [row], next_id := i + 1\<rparr>))"

definition attach_bracket :: "pid \<Rightarrow> bracket \<Rightarrow> book \<Rightarrow> book" where
  "attach_bracket i br b = update_rows i (\<lambda>r. r\<lparr>b_raw := (b_raw r)\<lparr>rw_bracket := Some br\<rparr>\<rparr>) b"

definition record_bracket :: "pid \<Rightarrow> int option \<Rightarrow> string \<Rightarrow> rupees \<Rightarrow> rupees \<Rightarrow> book \<Rightarrow> book" where
  "record_bracket i gtt stop_type lower upper b =
    b\<lparr>brackets := brackets b @ [\<lparr>bk_pid = i, bk_gtt = gtt, bk_state = BRACKET_ACTIVE,
        bk_stop_type = stop_type, bk_lower = lower, bk_upper = upper, bk_last_status = None\<rparr>]\<rparr>"

definition set_bracket_state :: "pid \<Rightarrow> bracket_state \<Rightarrow> string option \<Rightarrow> book \<Rightarrow> book" where
  "set_bracket_state i st last_status b =
    b\<lparr>brackets := map (\<lambda>k. if bk_pid k = i
        then k\<lparr>bk_state := st, bk_last_status := (case last_status of None \<Rightarrow> bk_last_status k | s \<Rightarrow> s)\<rparr>
        else k) (brackets b)\<rparr>"

definition active_brackets :: "book \<Rightarrow> bracket_row list" where
  "active_brackets b = filter (\<lambda>k. bk_state k = BRACKET_ACTIVE) (brackets b)"

definition persist_order_fill :: "decision \<Rightarrow> fill \<Rightarrow> string \<Rightarrow> order_outcome \<Rightarrow> order_id option \<Rightarrow> book \<Rightarrow> book" where
  "persist_order_fill d f m status oid b =
    b\<lparr>orders := orders b @ [\<lparr>or_corr = d_corr d, or_broker_id = oid, or_mode = m, or_qty = d_qty d,
        or_filled = f_qty f, or_price = f_price f, or_status = status\<rparr>]\<rparr>"

definition touch_ltp :: "pid \<Rightarrow> rupees \<Rightarrow> book \<Rightarrow> book" where
  "touch_ltp i ltp b = b\<lparr>redis_ltp := (redis_ltp b)(i \<mapsto> ltp)\<rparr>"

definition gross_pnl :: "order_side \<Rightarrow> rupees \<Rightarrow> rupees \<Rightarrow> int \<Rightarrow> rupees" where
  "gross_pnl sd entry exit_px q = (if sd = BUY then (exit_px - entry) * of_int q else (entry - exit_px) * of_int q)"

definition update_unrealized :: "pid \<Rightarrow> rupees \<Rightarrow> book \<Rightarrow> rupees \<times> book" where
  "update_unrealized i ltp b =
    (case find_row i b of
       None \<Rightarrow> (0, b)
     | Some r \<Rightarrow>
        if pos_status r \<noteq> Open then (0, b)
        else
          let u = gross_pnl (side r) (row_avg r) ltp (row_qty r); v = py_round 2 u
          in (u, touch_ltp i ltp (update_rows i
                (\<lambda>r. r\<lparr>b_unrealized := v, b_mfe := max (b_mfe r) v, b_mae := min (b_mae r) v\<rparr>) b)))"

definition entry_fee_of :: "book_row \<Rightarrow> rupees" where
  "entry_fee_of r = (case rw_entry_fees (b_raw r) of None \<Rightarrow> 0 | Some f \<Rightarrow> fee_total f)"

definition realized_of :: "book_row \<Rightarrow> rupees \<Rightarrow> fees \<Rightarrow> rupees" where
  "realized_of r exit_px exit_fees =
     py_round 2 (gross_pnl (side r) (row_avg r) exit_px (row_qty r) - entry_fee_of r - fee_total exit_fees)"

definition close_position :: "pid \<Rightarrow> rupees \<Rightarrow> fees \<Rightarrow> string \<Rightarrow> book \<Rightarrow> rupees option \<times> book" where
  "close_position i exit_px exit_fees why b =
    (case find_row i b of
       None \<Rightarrow> (None, b)
     | Some r \<Rightarrow>
        if pos_status r \<noteq> Open \<and> pos_status r \<noteq> Close_Pending then (None, b)
        else
          let realized = realized_of r exit_px exit_fees;
              gross = gross_pnl (side r) (row_avg r) exit_px (row_qty r)
          in (Some realized,
              (update_rows i (\<lambda>r. r\<lparr>pos_status := Closed, b_realized := realized, b_unrealized := 0,
                  b_raw := (b_raw r)\<lparr>rw_exit := Some (exit_px, exit_fees, why, py_round 2 gross)\<rparr>\<rparr>) b)
              \<lparr>redis_open := redis_open b - {i}, redis_ltp := (redis_ltp b)(i := None)\<rparr>))"

definition append_event :: "pid \<Rightarrow> event_type \<Rightarrow> string \<Rightarrow> normalized_fill option \<Rightarrow> rupees option \<Rightarrow> book \<Rightarrow> book" where
  "append_event i ty ts nf realized b =
    b\<lparr>events := events b @ [\<lparr>ev_id = int (length (events b)), ev_ts = ts, ev_pid = i, ev_type = ty,
        ev_filled = map_option nf_filled nf, ev_pending = map_option nf_pending nf,
        ev_realized = realized\<rparr>]\<rparr>"

definition mark_close_pending :: "pid \<Rightarrow> order_id option \<Rightarrow> string \<Rightarrow> book \<Rightarrow> book" where
  "mark_close_pending i oid why b =
    (update_rows i (\<lambda>r. r\<lparr>pos_status := Close_Pending,
        b_raw := (b_raw r)\<lparr>rw_close_pending := Some (oid, why)\<rparr>\<rparr>) b)
    \<lparr>redis_open := redis_open b - {i}\<rparr>"

definition pending_closes :: "string \<Rightarrow> book \<Rightarrow> book_row list" where
  "pending_closes m b = filter (\<lambda>r. pos_status r = Close_Pending \<and> mode r = m) (rows b)"

definition get_open :: "string option \<Rightarrow> book \<Rightarrow> book_row list" where
  "get_open m b = filter (\<lambda>r. pos_status r = Open \<and> (case m of None \<Rightarrow> True | Some x \<Rightarrow> mode r = x)) (rows b)"

text \<open>The dictionaries \<open>ours\<close> and \<open>theirs\<close> of \<open>reconcile\<close>, and its mismatches.\<close>

definition signed_qty :: "book_row \<Rightarrow> int" where
  "signed_qty r = row_qty r * (if side r = BUY then 1 else - 1)"

definition ours :: "string \<Rightarrow> book \<Rightarrow> token option \<Rightarrow> int" where
  "ours m b t = sum_list (map signed_qty (filter (\<lambda>r. instrument_token r = t) (get_open (Some m) b)))"

definition theirs :: "broker_pos list \<Rightarrow> token option \<Rightarrow> int" where
  "theirs ps t = sum_list (map bp_qty (filter (\<lambda>p. bp_token p = t) ps))"

record mismatch =
  mm_token :: "token option"
  mm_book :: int
  mm_broker :: int

definition reconcile_book :: "broker_pos list \<Rightarrow> string \<Rightarrow> book \<Rightarrow> mismatch list" where
  "reconcile_book ps m b =
    map (\<lambda>t. \<lparr>mm_token = t, mm_book = ours m b t, mm_broker = theirs ps t\<rparr>)
      (filter (\<lambda>t. ours m b t \<noteq> theirs ps t)
        (remdups (map instrument_token (get_open (Some m) b) @ map bp_token ps)))"

section \<open>Event sourcing\<close>

record derived_state =
  opened_qty :: int
  closed_qty :: int
  net_qty :: int
  ds_status :: string
  pending_qty :: int
  ds_realized :: rupees
  n_events :: nat

definition ordered :: "pos_event list \<Rightarrow> pos_event list" where
  "ordered evs = sort_key (\<lambda>e. (ev_ts e, ev_id e)) evs"

text \<open>The loop's accumulators: opened, closed, pending, realized.\<close>

definition event_step :: "int \<times> int \<times> int \<times> rupees \<Rightarrow> pos_event \<Rightarrow> int \<times> int \<times> int \<times> rupees" where
  "event_step acc e =
    (case acc of (opn, cls, pending, realized) \<Rightarrow>
       let fq = py_or (ev_filled e) 0 in
       (if ev_type e = EV_ENTRY then opn + fq else opn,
        if ev_type e = EV_PARTIAL_CLOSE \<or> ev_type e = EV_FULL_CLOSE then cls + fq else cls,
        py_or (ev_pending e) 0, realized + py_or (ev_realized e) 0))"

definition position_from_events :: "pos_event list \<Rightarrow> derived_state" where
  "position_from_events events0 =
    (let evs = ordered events0;
         (opn, cls, pending, realized) = foldl event_step (0, 0, 0, 0) evs;
         net = opn - cls;
         status = (if evs \<noteq> [] \<and> ev_type (last evs) = EV_CLOSE_PENDING then ''close_pending''
                   else if cls > 0 \<and> net \<le> 0 then ''closed''
                   else if opn > 0 then ''open'' else ''unknown'')
     in \<lparr>opened_qty = opn, closed_qty = cls, net_qty = max 0 net, ds_status = status,
         pending_qty = pending, ds_realized = py_round 2 realized, n_events = length evs\<rparr>)"

text \<open>The drift dictionary: a stored and a derived value for each field that disagrees.\<close>

record drift =
  dr_quantity :: "(int \<times> int) option"
  dr_status :: "(string \<times> string) option"

definition reconcile_position :: "pos_event list \<Rightarrow> int \<Rightarrow> string option \<Rightarrow> drift" where
  "reconcile_position evs stored_qty stored_status =
    (let d = position_from_events evs in
     \<lparr>dr_quantity = (if stored_qty \<noteq> net_qty d then Some (stored_qty, net_qty d) else None),
      dr_status = (case stored_status of None \<Rightarrow> None
        | Some s \<Rightarrow> if s \<noteq> [] \<and> s \<noteq> ds_status d then Some (s, ds_status d) else None)\<rparr>)"

definition no_drift :: "drift \<Rightarrow> bool" where
  "no_drift d \<longleftrightarrow> dr_quantity d = None \<and> dr_status d = None"

fun status_text :: "pos_status \<Rightarrow> string" where
  "status_text Open = ''open''"
| "status_text Close_Pending = ''CLOSE_PENDING''"
| "status_text Closed = ''closed''"
| "status_text Flagged = ''flagged''"

definition rebuild_from_events :: "pid \<Rightarrow> book \<Rightarrow> drift" where
  "rebuild_from_events i b =
    (let evs = filter (\<lambda>e. ev_pid e = i) (events b) in
     case find_row i b of
       None \<Rightarrow> reconcile_position evs 0 None
     | Some r \<Rightarrow> reconcile_position evs (row_qty r) (Some (status_text (pos_status r))))"


section \<open>Rows and ids\<close>

definition book_ok :: "book \<Rightarrow> bool" where
  "book_ok b \<longleftrightarrow> distinct (map pos_id (rows b)) \<and> (\<forall>r\<in>set (rows b). pos_id r < next_id b)
     \<and> (\<forall>r\<in>set (rows b). qty r \<noteq> None \<and> average_price r \<noteq> None)"

lemma book_ok_empty [simp]: "book_ok empty_book"
  by (simp add: book_ok_def empty_book_def)

lemma find_row_Some: "find_row i b = Some r \<Longrightarrow> r \<in> set (rows b) \<and> pos_id r = i"
  by (auto simp: find_row_def find_Some_iff)

lemma find_row_None: "find_row i b = None \<longleftrightarrow> (\<forall>r\<in>set (rows b). pos_id r \<noteq> i)"
  by (auto simp: find_row_def find_None_iff)

lemma find_row_unique:
  "book_ok b \<Longrightarrow> r \<in> set (rows b) \<Longrightarrow> find_row (pos_id r) b = Some r"
proof -
  assume ok: "book_ok b" and r: "r \<in> set (rows b)"
  then obtain r' where f: "find_row (pos_id r) b = Some r'"
    using find_row_None by fastforce
  with find_row_Some [OF f] ok r show ?thesis
    by (auto simp: book_ok_def distinct_map inj_on_def)
qed

lemma rows_update_rows [simp]:
  "rows (update_rows i f b) = map (\<lambda>r. if pos_id r = i then f r else r) (rows b)"
  by (simp add: update_rows_def)

lemma update_rows_other [simp]:
  "next_id (update_rows i f b) = next_id b" "orders (update_rows i f b) = orders b"
  "brackets (update_rows i f b) = brackets b" "events (update_rows i f b) = events b"
  "redis_open (update_rows i f b) = redis_open b" "redis_ltp (update_rows i f b) = redis_ltp b"
  by (simp_all add: update_rows_def)

lemma find_map_if:
  assumes "\<And>r. pos_id (f r) = pos_id r"
  shows "find (\<lambda>r. pos_id r = j) (map (\<lambda>r. if pos_id r = i then f r else r) rs)
       = map_option (\<lambda>r. if j = i then f r else r) (find (\<lambda>r. pos_id r = j) rs)"
  by (induction rs) (auto simp: assms)

lemma find_row_update:
  assumes "\<And>r. pos_id (f r) = pos_id r"
  shows "find_row j (update_rows i f b) = map_option (\<lambda>r. if j = i then f r else r) (find_row j b)"
  unfolding find_row_def rows_update_rows by (rule find_map_if) (rule assms)

lemma find_row_cong: "rows b' = rows b \<Longrightarrow> find_row i b' = find_row i b"
  by (simp add: find_row_def)

lemma book_ok_update:
  assumes "book_ok b" "\<And>r. pos_id (f r) = pos_id r"
    "\<And>r. qty r \<noteq> None \<Longrightarrow> average_price r \<noteq> None \<Longrightarrow> qty (f r) \<noteq> None \<and> average_price (f r) \<noteq> None"
  shows "book_ok (update_rows i f b)"
proof -
  have ids: "map pos_id (rows (update_rows i f b)) = map pos_id (rows b)"
    using assms(2) by (simp add: comp_def)
  show ?thesis unfolding book_ok_def
  proof (intro conjI)
    show "distinct (map pos_id (rows (update_rows i f b)))"
      using assms(1) unfolding ids by (simp add: book_ok_def)
    show "\<forall>r\<in>set (rows (update_rows i f b)). pos_id r < next_id (update_rows i f b)"
      using assms(1,2) by (auto simp: book_ok_def)
    show "\<forall>r\<in>set (rows (update_rows i f b)). qty r \<noteq> None \<and> average_price r \<noteq> None"
      using assms(1,3) by (auto simp: book_ok_def)
  qed
qed

lemma book_ok_fields [simp]:
  "book_ok (b\<lparr>redis_open := x\<rparr>) = book_ok b" "book_ok (b\<lparr>redis_ltp := y\<rparr>) = book_ok b"
  "book_ok (b\<lparr>events := e\<rparr>) = book_ok b" "book_ok (b\<lparr>orders := os\<rparr>) = book_ok b"
  "book_ok (b\<lparr>brackets := ks\<rparr>) = book_ok b"
  by (simp_all add: book_ok_def)

lemma find_row_fields [simp]:
  "find_row i (b\<lparr>redis_open := x\<rparr>) = find_row i b" "find_row i (b\<lparr>redis_ltp := y\<rparr>) = find_row i b"
  "find_row i (b\<lparr>events := e\<rparr>) = find_row i b" "find_row i (b\<lparr>orders := os\<rparr>) = find_row i b"
  "find_row i (b\<lparr>brackets := ks\<rparr>) = find_row i b"
  by (simp_all add: find_row_def)

section \<open>The operations keep the book well formed\<close>

lemma open_position_ok: "book_ok b \<Longrightarrow> book_ok (snd (open_position acct d f m b))"
  by (auto simp: book_ok_def open_position_def Let_def)

lemma open_position_find:
  assumes "book_ok b"
  shows "\<exists>r. find_row (fst (open_position acct d f m b)) (snd (open_position acct d f m b)) = Some r
     \<and> pos_status r = Open \<and> qty r = Some (f_qty f) \<and> average_price r = Some (f_price f)
     \<and> side r = d_side d \<and> mode r = m \<and> b_realized r = 0"
proof -
  have "find_row (next_id b) b = None" using assms by (auto simp: find_row_None book_ok_def)
  then have "find (\<lambda>r. pos_id r = next_id b) (rows b) = None" by (simp add: find_row_def)
  then show ?thesis
    by (auto simp: find_row_def open_position_def Let_def find_append split: option.split)
qed

lemma open_position_find_other:
  "i \<noteq> next_id b \<Longrightarrow> find_row i (snd (open_position acct d f m b)) = find_row i b"
  by (auto simp: find_row_def open_position_def Let_def find_append split: option.split)

lemma close_position_None:
  "fst (close_position i px f why b) = None \<longleftrightarrow>
     (case find_row i b of None \<Rightarrow> True | Some r \<Rightarrow> pos_status r \<noteq> Open \<and> pos_status r \<noteq> Close_Pending)"
  by (auto simp: close_position_def Let_def split: option.split)

lemma close_position_None_id: "fst (close_position i px f why b) = None \<Longrightarrow> snd (close_position i px f why b) = b"
  by (auto simp: close_position_def Let_def split: option.splits if_splits)

lemma close_position_Some:
  assumes "fst (close_position i px f why b) = Some pnl"
  obtains r where "find_row i b = Some r" "pos_status r = Open \<or> pos_status r = Close_Pending"
    "pnl = realized_of r px f"
    "find_row i (snd (close_position i px f why b)) = Some (r\<lparr>pos_status := Closed, b_realized := pnl,
       b_unrealized := 0, b_raw := (b_raw r)\<lparr>rw_exit := Some (px, f, why,
         py_round 2 (gross_pnl (side r) (row_avg r) px (row_qty r)))\<rparr>\<rparr>)"
  using assms that
  by (auto simp: close_position_def Let_def find_row_update split: option.splits if_splits)

lemma close_position_ok: "book_ok b \<Longrightarrow> book_ok (snd (close_position i px f why b))"
  by (auto simp: close_position_def Let_def split: option.split intro!: book_ok_update)

lemma mark_close_pending_ok: "book_ok b \<Longrightarrow> book_ok (snd (i, mark_close_pending i oid why b))"
  by (auto simp: mark_close_pending_def intro!: book_ok_update)

lemma update_unrealized_ok: "book_ok b \<Longrightarrow> book_ok (snd (update_unrealized i ltp b))"
  by (auto simp: update_unrealized_def touch_ltp_def Let_def split: option.split intro!: book_ok_update)

lemma append_event_ok [simp]: "book_ok (append_event i ty ts nf rl b) = book_ok b"
  by (simp add: append_event_def)

lemma find_row_append_event [simp]: "find_row j (append_event i ty ts nf rl b) = find_row j b"
  by (simp add: append_event_def)

lemma find_row_set_bracket_state [simp]: "find_row j (set_bracket_state i st ls b) = find_row j b"
  by (simp add: set_bracket_state_def)

lemma find_row_mark_pending:
  "find_row j (mark_close_pending i oid why b) = map_option
     (\<lambda>r. if j = i then r\<lparr>pos_status := Close_Pending, b_raw := (b_raw r)\<lparr>rw_close_pending := Some (oid, why)\<rparr>\<rparr> else r)
     (find_row j b)"
  by (simp add: mark_close_pending_def find_row_update)

lemma adopt_row_ok: "book_ok b \<Longrightarrow> book_ok (snd (adopt_row fc bp sd q e st tg m status b))"
proof -
  assume ok: "book_ok b"
  let ?hit = "if bp_token bp = None then None
           else find (\<lambda>r. instrument_token r = bp_token bp \<and> mode r = m
                          \<and> (pos_status r = Open \<or> pos_status r = Flagged)) (rows b)"
  show ?thesis
  proof (cases ?hit)
    case None
    with ok show ?thesis by (auto simp: adopt_row_def Let_def book_ok_def)
  next
    case (Some r)
    with ok show ?thesis by (auto simp: adopt_row_def intro!: book_ok_update)
  qed
qed

section \<open>Reconciliation\<close>

lemma ours_absent:
  "t \<notin> set (map instrument_token (get_open (Some m) b)) \<Longrightarrow> ours m b t = 0"
proof -
  assume "t \<notin> set (map instrument_token (get_open (Some m) b))"
  then have "filter (\<lambda>r. instrument_token r = t) (get_open (Some m) b) = []"
    by (auto simp: filter_empty_conv)
  then show ?thesis by (simp add: ours_def)
qed

lemma theirs_absent: "t \<notin> set (map bp_token ps) \<Longrightarrow> theirs ps t = 0"
proof -
  assume "t \<notin> set (map bp_token ps)"
  then have "filter (\<lambda>p. bp_token p = t) ps = []" by (auto simp: filter_empty_conv)
  then show ?thesis by (simp add: theirs_def)
qed

lemma reconcile_book_set:
  "x \<in> set (reconcile_book ps m b) \<longleftrightarrow>
     mm_book x = ours m b (mm_token x) \<and> mm_broker x = theirs ps (mm_token x)
     \<and> mm_book x \<noteq> mm_broker x"
proof
  assume r: "mm_book x = ours m b (mm_token x) \<and> mm_broker x = theirs ps (mm_token x)
     \<and> mm_book x \<noteq> mm_broker x"
  then have "mm_token x \<in> set (map instrument_token (get_open (Some m) b) @ map bp_token ps)"
    using ours_absent theirs_absent by (metis Un_iff set_append)
  moreover have "x = \<lparr>mm_token = mm_token x, mm_book = ours m b (mm_token x),
      mm_broker = theirs ps (mm_token x)\<rparr>" using r by (cases x) simp
  ultimately show "x \<in> set (reconcile_book ps m b)"
    using r unfolding reconcile_book_def by (auto simp: image_iff)
qed (auto simp: reconcile_book_def)

section \<open>Event logs\<close>

text \<open>With distinct (time, id) keys the reduction does not depend on the order of the log.\<close>

lemma ordered_perm:
  assumes "mset evs = mset evs'" "inj_on (\<lambda>e. (ev_ts e, ev_id e)) (set evs)" "distinct evs"
  shows "ordered evs = ordered evs'"
  unfolding ordered_def
proof (rule properties_for_sort_key [symmetric])
  show "mset (sort_key (\<lambda>e. (ev_ts e, ev_id e)) evs) = mset evs'" using assms(1) by simp
next
  fix k assume k: "k \<in> set (sort_key (\<lambda>e. (ev_ts e, ev_id e)) evs)"
  let ?K = "\<lambda>e. (ev_ts e, ev_id e)"
  have single: "filter (\<lambda>x. ?K k = ?K x) xs = [k]" if "mset xs = mset evs" for xs
  proof -
    have d: "distinct xs" using that assms(3) by (metis mset_eq_imp_distinct_iff)
    have s: "set xs = set evs" using that by (metis set_mset_mset)
    have "set (filter (\<lambda>x. ?K k = ?K x) xs) = {k}"
      using s k assms(2) by (auto simp: inj_on_def)
    with d show ?thesis by (intro distinct_singleton) simp_all
  qed
  show "filter (\<lambda>x. ?K k = ?K x) (sort_key ?K evs) = filter (\<lambda>x. ?K k = ?K x) evs'"
    using single [of "sort_key ?K evs"] single [of evs'] assms(1) by simp
qed simp

lemma position_from_events_perm:
  "mset evs = mset evs' \<Longrightarrow> inj_on (\<lambda>e. (ev_ts e, ev_id e)) (set evs) \<Longrightarrow> distinct evs \<Longrightarrow>
   position_from_events evs = position_from_events evs'"
  unfolding position_from_events_def by (simp only: ordered_perm)

lemma opened_no_entry:
  "(\<And>e. e \<in> set evs \<Longrightarrow> ev_type e \<noteq> EV_ENTRY) \<Longrightarrow>
   fst (foldl event_step (a, c, p, r) evs) = a"
  by (induction evs arbitrary: a c p r) (auto simp: event_step_def Let_def)

end
