(* ===== verification/Costs.thy ===== *)
theory Costs
  imports Exec_Models
begin

text \<open>
  \<open>execution/costs.py\<close>: the Indian-market cost model. A segment's rates are the keys of
  \<open>config/execution.yaml\<close> the code looks up, None when the key is absent.
\<close>

record cost_seg =
  brokerage_flat :: "real option"
  brokerage_pct :: "real option"
  brokerage_flat_cap :: "real option"
  stt_pct :: "real option"
  ctt_pct :: "real option"
  exchange_txn_pct :: "real option"
  sebi_per_cr :: "real option"
  stamp_pct :: "real option"
  gst_pct :: "real option"

type_synonym cost_model = "string \<rightharpoonup> cost_seg"

definition empty_seg :: cost_seg where
  "empty_seg = \<lparr>brokerage_flat = None, brokerage_pct = None, brokerage_flat_cap = None,
     stt_pct = None, ctt_pct = None, exchange_txn_pct = None, sebi_per_cr = None,
     stamp_pct = None, gst_pct = None\<rparr>"

definition segment_key :: "string \<Rightarrow> string option \<Rightarrow> string" where
  "segment_key sleeve itype0 =
    (let itype = py_upper (get_default itype0 []) in
     if sleeve = ''fno'' then
       (if itype = ''CE'' \<or> itype = ''PE'' then ''fno_options'' else ''fno_futures'')
     else if sleeve = ''mcx_commodities'' then ''mcx_futures''
     else if sleeve = ''swing_stocks'' then ''equity_delivery''
     else ''equity_intraday'')"

definition leg_brokerage :: "cost_seg \<Rightarrow> rupees \<Rightarrow> rupees" where
  "leg_brokerage c turnover =
    (case brokerage_flat c of
       Some b \<Rightarrow> b
     | None \<Rightarrow>
         let raw = turnover * get_default (brokerage_pct c) 0 / 100 in
         (case brokerage_flat_cap c of
            None \<Rightarrow> raw
          | Some cap \<Rightarrow> if cap \<noteq> 0 then min raw cap else raw))"

definition leg_stt :: "cost_seg \<Rightarrow> string \<Rightarrow> order_side \<Rightarrow> rupees \<Rightarrow> rupees" where
  "leg_stt c seg side turnover =
    (let pct = get_default (stt_pct c) 0;
         stt = (if seg = ''equity_delivery'' then turnover * pct / 100
                else if side = SELL then turnover * pct / 100 else 0)
     in (case ctt_pct c of
           None \<Rightarrow> stt
         | Some ctt \<Rightarrow> if side = SELL then stt + turnover * ctt / 100 else stt))"

definition compute_leg :: "cost_model \<Rightarrow> string \<Rightarrow> order_side \<Rightarrow> int \<Rightarrow> rupees \<Rightarrow> fees" where
  "compute_leg cm seg side quantity price =
    (let c = get_default (cm seg) empty_seg;
         turnover = of_int quantity * price;
         brokerage = leg_brokerage c turnover;
         stt = leg_stt c seg side turnover;
         txn = turnover * get_default (exchange_txn_pct c) 0 / 100;
         sebi = turnover * get_default (sebi_per_cr c) 0 / 10000000;
         stamp = (if side = BUY then turnover * get_default (stamp_pct c) 0 / 100 else 0);
         gst = (brokerage + txn + sebi) * get_default (gst_pct c) 0 / 100;
         total = brokerage + stt + txn + sebi + stamp + gst
     in [(''brokerage'', py_round 2 brokerage), (''stt'', py_round 2 stt), (''txn'', py_round 4 txn),
         (''sebi'', py_round 4 sebi), (''stamp'', py_round 2 stamp), (''gst'', py_round 2 gst),
         (''total'', py_round 2 total)])"

definition round_trip_cost :: "cost_model \<Rightarrow> string \<Rightarrow> int \<Rightarrow> rupees \<Rightarrow> rupees \<Rightarrow> rupees" where
  "round_trip_cost cm seg qty entry exit_price =
    py_round 2 (fee_total (compute_leg cm seg BUY qty entry)
                + fee_total (compute_leg cm seg SELL qty exit_price))"

section \<open>Costs are never negative and grow with turnover\<close>

definition seg_ok :: "cost_seg \<Rightarrow> bool" where
  "seg_ok c \<longleftrightarrow>
     (\<forall>f \<in> {brokerage_flat, brokerage_pct, brokerage_flat_cap, stt_pct, ctt_pct, exchange_txn_pct,
            sebi_per_cr, stamp_pct, gst_pct}. 0 \<le> get_default (f c) 0)"

lemma seg_okD:
  assumes "seg_ok c"
  shows "0 \<le> get_default (brokerage_flat c) 0" "0 \<le> get_default (brokerage_pct c) 0"
    "0 \<le> get_default (brokerage_flat_cap c) 0" "0 \<le> get_default (stt_pct c) 0"
    "0 \<le> get_default (ctt_pct c) 0" "0 \<le> get_default (exchange_txn_pct c) 0"
    "0 \<le> get_default (sebi_per_cr c) 0" "0 \<le> get_default (stamp_pct c) 0"
    "0 \<le> get_default (gst_pct c) 0"
  using assms by (auto simp: seg_ok_def)

definition cost_model_ok :: "cost_model \<Rightarrow> bool" where
  "cost_model_ok cm \<longleftrightarrow> (\<forall>seg c. cm seg = Some c \<longrightarrow> seg_ok c)"

lemma seg_ok_lookup: "cost_model_ok cm \<Longrightarrow> seg_ok (get_default (cm seg) empty_seg)"
  by (cases "cm seg") (auto simp: cost_model_ok_def seg_ok_def empty_seg_def)

lemma leg_brokerage_mono:
  assumes "seg_ok c" "t \<le> t'"
  shows "leg_brokerage c t \<le> leg_brokerage c t'"
proof -
  have "t * get_default (brokerage_pct c) 0 / 100 \<le> t' * get_default (brokerage_pct c) 0 / 100"
    using assms seg_okD(2) by (intro divide_right_mono mult_right_mono) auto
  then show ?thesis
    by (auto simp: leg_brokerage_def Let_def min_def split: option.split)
qed

lemma leg_stt_mono:
  assumes "seg_ok c" "t \<le> t'"
  shows "leg_stt c seg side t \<le> leg_stt c seg side t'"
proof -
  have "t * get_default (stt_pct c) 0 / 100 \<le> t' * get_default (stt_pct c) 0 / 100"
    "t * get_default (ctt_pct c) 0 / 100 \<le> t' * get_default (ctt_pct c) 0 / 100"
    using assms seg_okD(4,5) by (auto intro!: divide_right_mono mult_right_mono)
  then show ?thesis
    by (auto simp: leg_stt_def Let_def split: option.split)
qed

lemma leg_stt_0 [simp]: "leg_stt c seg side 0 = 0"
  by (simp add: leg_stt_def Let_def split: option.split)

lemma leg_brokerage_0: "seg_ok c \<Longrightarrow> 0 \<le> leg_brokerage c 0"
  using seg_okD(1,3) [of c] by (auto simp: leg_brokerage_def Let_def split: option.split)

lemma total_compute_leg_eq:
  "fee_total (compute_leg cm seg side q p) =
    (let c = get_default (cm seg) empty_seg; t = of_int q * p; b = leg_brokerage c t;
         x = t * get_default (exchange_txn_pct c) 0 / 100;
         s = t * get_default (sebi_per_cr c) 0 / 10000000
     in py_round 2 (b + leg_stt c seg side t + x + s
          + (if side = BUY then t * get_default (stamp_pct c) 0 / 100 else 0)
          + (b + x + s) * get_default (gst_pct c) 0 / 100))"
  by (simp add: fee_total_def compute_leg_def Let_def)

lemma compute_leg_total_mono:
  assumes ok: "cost_model_ok cm" and le: "of_int q * p \<le> of_int q' * p'"
  shows "fee_total (compute_leg cm seg side q p) \<le> fee_total (compute_leg cm seg side q' p')"
proof -
  let ?c = "get_default (cm seg) empty_seg"
  let ?t = "of_int q * p" and ?t' = "of_int q' * p'"
  let ?x = "\<lambda>t. t * get_default (exchange_txn_pct ?c) 0 / 100"
  let ?s = "\<lambda>t. t * get_default (sebi_per_cr ?c) 0 / 10000000"
  let ?st = "\<lambda>t. if side = BUY then t * get_default (stamp_pct ?c) 0 / 100 else 0"
  have c: "seg_ok ?c" by (rule seg_ok_lookup [OF ok])
  have "leg_brokerage ?c ?t \<le> leg_brokerage ?c ?t'" "leg_stt ?c seg side ?t \<le> leg_stt ?c seg side ?t'"
    using c le by (auto intro: leg_brokerage_mono leg_stt_mono)
  moreover have "?x ?t \<le> ?x ?t'" "?s ?t \<le> ?s ?t'" "?st ?t \<le> ?st ?t'"
    using le seg_okD(6-8) [OF c] by (auto intro!: divide_right_mono mult_right_mono)
  moreover from calculation have
    "(leg_brokerage ?c ?t + ?x ?t + ?s ?t) * get_default (gst_pct ?c) 0 / 100
     \<le> (leg_brokerage ?c ?t' + ?x ?t' + ?s ?t') * get_default (gst_pct ?c) 0 / 100"
    using seg_okD(9) [OF c] by (intro divide_right_mono mult_right_mono) auto
  ultimately show ?thesis
    unfolding total_compute_leg_eq Let_def by (intro py_round_mono) linarith
qed

lemma compute_leg_total_nonneg:
  assumes ok: "cost_model_ok cm" and q: "0 \<le> of_int q * p"
  shows "0 \<le> fee_total (compute_leg cm seg side q p)"
proof -
  have "0 \<le> leg_brokerage (get_default (cm seg) empty_seg) 0"
    by (rule leg_brokerage_0 [OF seg_ok_lookup [OF ok]])
  moreover have "0 \<le> get_default (gst_pct (get_default (cm seg) empty_seg)) 0"
    by (rule seg_okD(9) [OF seg_ok_lookup [OF ok]])
  ultimately have "0 \<le> fee_total (compute_leg cm seg side 0 0)"
    unfolding total_compute_leg_eq Let_def by (intro py_round_nonneg) simp
  also have "\<dots> \<le> fee_total (compute_leg cm seg side q p)"
    using q by (intro compute_leg_total_mono [OF ok]) simp
  finally show ?thesis .
qed

text \<open>Capped brokerage, and transaction tax on the selling leg only outside delivery.\<close>

lemma leg_brokerage_capped:
  "brokerage_flat c = None \<Longrightarrow> brokerage_flat_cap c = Some cap \<Longrightarrow> cap \<noteq> 0 \<Longrightarrow> leg_brokerage c t \<le> cap"
  by (simp add: leg_brokerage_def Let_def)

lemma leg_stt_buy:
  "seg \<noteq> ''equity_delivery'' \<Longrightarrow> leg_stt c seg BUY t = 0"
  by (simp add: leg_stt_def Let_def split: option.split)

end
