(* ===== verification/Fill_Sim.thy ===== *)
theory Fill_Sim
  imports Costs
begin

text \<open>
  \<open>execution/simulator.py\<close>: the depth-aware fill simulation. The broker's reply to a quote
  request is a parameter, None when the call raised; the model starts at the dictionary the
  adapter returns. \<open>walk_book\<close> is the loop of \<open>fill_price\<close> with its three accumulators.
\<close>

record quote =
  q_sell :: "(real option \<times> int option) list"
  q_buy :: "(real option \<times> int option) list"
  q_last :: "real option"

definition beyond_book_penalty :: real where
  "beyond_book_penalty = 5"

definition quote_depth ::
  "quote option \<Rightarrow> order_side \<Rightarrow> (real \<times> int) list \<times> real option" where
  "quote_depth reply side =
    (case reply of
       None \<Rightarrow> ([], None)
     | Some q \<Rightarrow>
         let book = (if side = BUY then q_sell q else q_buy q);
             levels = map (\<lambda>(p, n). (get_default p 0, py_or n 0)) (filter (\<lambda>(p, n). truthy p) book)
         in (filter (\<lambda>(p, n). p > 0 \<and> n > 0) levels, if truthy (q_last q) then q_last q else None))"

definition quote_price :: "quote option \<Rightarrow> order_side \<Rightarrow> real option" where
  "quote_price reply side =
    (case quote_depth reply side of ([], ltp) \<Rightarrow> ltp | ((p, n) # _, _) \<Rightarrow> Some p)"

text \<open>Returns (remaining, notional, filled).\<close>

fun walk_book :: "(real \<times> int) list \<Rightarrow> int \<Rightarrow> real \<Rightarrow> int \<Rightarrow> int \<times> real \<times> int" where
  "walk_book [] remaining notional filled = (remaining, notional, filled)"
| "walk_book ((price, avail) # ls) remaining notional filled =
    (let take = min remaining avail;
         notional' = notional + of_int take * price;
         filled' = filled + take;
         remaining' = remaining - take
     in if remaining' \<le> 0 then (remaining', notional', filled')
        else walk_book ls remaining' notional' filled')"

definition fill_price :: "real \<Rightarrow> quote option \<Rightarrow> order_side \<Rightarrow> int \<Rightarrow> real option" where
  "fill_price slippage_bps reply side qty =
    (let (levels, last) = quote_depth reply side;
         px = (case levels of
             [] \<Rightarrow> (if truthy last then last else None)
           | _ \<Rightarrow>
             (let (remaining, notional, filled) = walk_book levels (max 1 qty) 0 0;
                  worst = fst (List.last levels);
                  pen = worst * slippage_bps * beyond_book_penalty / 10000;
                  px_beyond = (if side = BUY then worst + pen else worst - pen)
              in if remaining > 0
                 then Some ((notional + of_int remaining * px_beyond) / of_int (filled + remaining))
                 else Some (notional / of_int filled)))
     in map_option (\<lambda>p. let slip = p * slippage_bps / 10000
                        in py_round 2 (if side = BUY then p + slip else p - slip)) px)"

definition simulate ::
  "cost_model \<Rightarrow> real \<Rightarrow> quote option \<Rightarrow> decision \<Rightarrow> int option \<Rightarrow> fill option" where
  "simulate cm slippage_bps reply d fill_qty =
    (let qty = py_or fill_qty (d_qty d) in
     case fill_price slippage_bps reply (d_side d) qty of
       None \<Rightarrow> None
     | Some px \<Rightarrow>
         if px = 0 then None
         else
           let seg = segment_key (d_sleeve d) (in_type (d_instrument d));
               fees = compute_leg cm seg (d_side d) qty px
           in Some \<lparr>f_qty = qty, f_price = px, f_fees = fees\<rparr>)"

section \<open>The walk\<close>

lemma walk_conserves:
  "walk_book ls r n f = (r', n', f') \<Longrightarrow> f' + r' = f + r"
  by (induction ls r n f rule: walk_book.induct) (auto simp: Let_def split: if_splits)

lemma walk_remaining_nonneg:
  "walk_book ls r n f = (r', n', f') \<Longrightarrow> 0 \<le> r \<Longrightarrow> 0 \<le> r'"
  by (induction ls r n f rule: walk_book.induct) (auto simp: Let_def split: if_splits)

text \<open>The notional stays between the filled quantity priced at the bounds of the book.\<close>

lemma walk_notional_bounds:
  assumes "walk_book ls r n f = (r', n', f')" "0 \<le> r"
    "\<forall>(p, a) \<in> set ls. lo \<le> p \<and> p \<le> hi \<and> 0 \<le> a"
    "of_int f * lo \<le> n" "n \<le> of_int f * hi"
  shows "of_int f' * lo \<le> n' \<and> n' \<le> of_int f' * hi"
  using assms
proof (induction ls r n f rule: walk_book.induct)
  case (2 price avail ls r n f)
  let ?take = "min r avail"
  have t: "0 \<le> (of_int ?take :: real)" using "2.prems"(2,3) by auto
  have "of_int ?take * lo \<le> of_int ?take * price" "of_int ?take * price \<le> of_int ?take * hi"
    using t "2.prems"(3) by (auto intro: mult_left_mono simp del: of_int_min)
  then have b: "of_int (f + ?take) * lo \<le> n + of_int ?take * price"
    "n + of_int ?take * price \<le> of_int (f + ?take) * hi"
    using "2.prems"(4,5) unfolding of_int_add distrib_right by linarith+
  show ?case
  proof (cases "r - ?take \<le> 0")
    case True
    with "2.prems"(1) have "n' = n + of_int ?take * price" "f' = f + ?take"
      by (auto simp: Let_def)
    with b show ?thesis by blast
  next
    case False
    with "2.prems"(1) have "walk_book ls (r - ?take) (n + of_int ?take * price) (f + ?take) = (r', n', f')"
      by (simp add: Let_def)
    from "2.IH" [OF refl refl refl refl False this] show ?thesis
      using False "2.prems"(3) b by simp
  qed
qed simp

text \<open>The levels the code keeps have a positive price and quantity.\<close>

lemma quote_depth_pos:
  "(p, n) \<in> set (fst (quote_depth reply side)) \<Longrightarrow> 0 < p \<and> 0 < n"
  by (auto simp: quote_depth_def Let_def split: option.splits)

lemma walk_positive_fill:
  assumes "walk_book ls r n f = (r', n', f')" "ls \<noteq> []" "\<forall>(p, a) \<in> set ls. 0 < a" "0 < r"
  shows "f < f'"
proof -
  have mono: "walk_book ls r n f = (r', n', f') \<Longrightarrow> \<forall>(p, a) \<in> set ls. 0 < a \<Longrightarrow> 0 \<le> r \<Longrightarrow> f \<le> f'"
    for ls r n f r' n' f'
    by (induction ls r n f rule: walk_book.induct) (fastforce simp: Let_def split: if_splits)+
  obtain p a ls' where ls: "ls = (p, a) # ls'" using assms(2) by (cases ls) auto
  have "f < f + min r a" using assms(3,4) ls by auto
  moreover have "f + min r a \<le> f'"
  proof (cases "r - min r a \<le> 0")
    case True with assms(1) ls show ?thesis by (auto simp: Let_def)
  next
    case False
    with assms(1) ls have "walk_book ls' (r - min r a) (n + of_int (min r a) * p) (f + min r a) = (r', n', f')"
      by (simp add: Let_def)
    from mono [OF this] assms(3) ls False show ?thesis by auto
  qed
  ultimately show ?thesis by linarith
qed

section \<open>A fill is never better than the book\<close>

lemma buy_fill_ge:
  assumes fp: "fill_price slip reply BUY qty = Some px" and s: "0 \<le> slip"
    and book: "fst (quote_depth reply BUY) \<noteq> []"
    and lo: "\<forall>(p, n) \<in> set (fst (quote_depth reply BUY)). lo \<le> p" and lo0: "0 \<le> lo"
  shows "py_round 2 lo \<le> px"
proof -
  obtain ls last where d: "quote_depth reply BUY = (ls, last)" by fastforce
  obtain r n f where w: "walk_book ls (max 1 qty) 0 0 = (r, n, f)" by (metis prod_cases3)
  have pos: "\<forall>(p, a) \<in> set ls. 0 < p \<and> 0 < a"
    using quote_depth_pos [of _ _ reply BUY] d by auto
  have ne: "ls \<noteq> []" using book d by simp
  have pos2: "\<forall>(p, a) \<in> set ls. 0 < a" using pos by auto
  have f: "0 < f" by (rule walk_positive_fill [OF w ne pos2]) simp
  have bounds: "\<forall>(p, a) \<in> set ls. lo \<le> p \<and> p \<le> Max (fst ` set ls) \<and> 0 \<le> a"
  proof clarify
    fix p a assume pa: "(p, a) \<in> set ls"
    then have "p \<in> fst ` set ls" by force
    then have "p \<le> Max (fst ` set ls)" by (intro Max_ge) simp_all
    moreover have "lo \<le> p" using bspec [OF lo, of "(p, a)"] pa d by simp
    moreover have "0 \<le> a" using bspec [OF pos, of "(p, a)"] pa by simp
    ultimately show "lo \<le> p \<and> p \<le> Max (fst ` set ls) \<and> 0 \<le> a" by blast
  qed
  have n: "of_int f * lo \<le> n"
    using walk_notional_bounds [OF w _ bounds] by simp
  have r: "0 \<le> r" by (rule walk_remaining_nonneg [OF w]) simp
  have worst: "lo \<le> fst (List.last ls)"
    using bspec [OF lo, of "List.last ls"] d ne by (simp add: case_prod_beta)
  have "lo \<le> (if r > 0 then (n + of_int r * (fst (List.last ls) + fst (List.last ls) * slip * beyond_book_penalty / 10000)) / of_int (f + r) else n / of_int f)"
    (is "lo \<le> ?px")
  proof (cases "r > 0")
    case True
    have "0 \<le> fst (List.last ls) * slip * beyond_book_penalty / 10000"
      using worst lo0 s by (simp add: beyond_book_penalty_def)
    with worst have "of_int r * lo \<le> of_int r * (fst (List.last ls) + fst (List.last ls) * slip * beyond_book_penalty / 10000)"
      using r by (intro mult_left_mono) auto
    with n True f show ?thesis by (simp add: field_simps)
  next
    case False
    with n f show ?thesis by (simp add: field_simps)
  qed
  note lo_px = this
  have px: "px = py_round 2 (?px + ?px * slip / 10000)"
    using fp d ne w by (cases ls) (auto simp: fill_price_def Let_def split: if_splits)
  have "0 \<le> ?px" using lo0 lo_px by (rule order_trans)
  then have "0 \<le> ?px * slip / 10000" using s by (intro divide_nonneg_nonneg mult_nonneg_nonneg) auto
  with lo_px have "lo \<le> ?px + ?px * slip / 10000" by linarith
  then show ?thesis unfolding px by (rule py_round_mono)
qed

end
