(* ===== verification/Broker.thy ===== *)
theory Broker
  imports Order_Policy Position_Book Fill_Sim
begin

text \<open>
  The broker as the execution layer calls it, and \<open>broker/mock_broker.py\<close>.

  The real broker is a remote service, so its operations are a parameter: a record of functions
  on a broker state, where None (or False) is a call that raised, whatever the adapter, the rate
  governor or the network raised. What the order path relies on is the locale
  \<open>broker_lifecycle\<close>: the fill an order history reports lies between zero and the quantity
  the order was placed with. The repository's own broker, the scriptable simulator its contract
  tests and paper replay run on, provides the interface.
\<close>

record order_req =
  rq_symbol :: "sym option"
  rq_exchange :: "string option"
  rq_side :: order_side
  rq_qty :: int
  rq_product :: string
  rq_type :: string
  rq_price :: "rupees option"

record oco_req =
  oco_symbol :: "sym option"
  oco_last :: rupees
  oco_lower :: rupees
  oco_upper :: rupees
  oco_legs :: "(rupees \<times> order_req) list"

text \<open>A quote key \<open>EXCHANGE:SYMBOL\<close> is the pair of its parts.\<close>

type_synonym quote_key = "string option \<times> sym option"

record 'b broker_api =
  api_place :: "order_req \<Rightarrow> 'b \<Rightarrow> order_id option \<times> 'b"
  api_history :: "order_id \<Rightarrow> 'b \<Rightarrow> hist_row list option \<times> 'b"
  api_cancel :: "order_id \<Rightarrow> 'b \<Rightarrow> bool \<times> 'b"
  api_positions :: "'b \<Rightarrow> broker_pos list option \<times> 'b"
  api_place_oco :: "oco_req \<Rightarrow> 'b \<Rightarrow> int option \<times> 'b"
  api_delete_gtt :: "int \<Rightarrow> 'b \<Rightarrow> bool \<times> 'b"
  api_quote :: "quote_key list \<Rightarrow> 'b \<Rightarrow> (quote_key \<Rightarrow> quote option) option \<times> 'b"

definition last_filled :: "hist_row list \<Rightarrow> int" where
  "last_filled h = bt_filled (reduce_order_history h)"

locale broker_lifecycle =
  fixes api :: "'b broker_api"
    and ordered_qty :: "'b \<Rightarrow> order_id \<Rightarrow> int option"
    and binv :: "'b \<Rightarrow> bool"
  assumes place_ok: "binv b \<Longrightarrow> 0 < rq_qty r \<Longrightarrow> api_place api r b = (Some oid, b') \<Longrightarrow>
      binv b' \<and> ordered_qty b' = (ordered_qty b)(oid \<mapsto> rq_qty r)"
    and place_inv: "binv b \<Longrightarrow> 0 < rq_qty r \<Longrightarrow> binv (snd (api_place api r b))"
    and history_inv: "binv b \<Longrightarrow> binv (snd (api_history api oid b))"
    and history_qty: "binv b \<Longrightarrow> ordered_qty (snd (api_history api oid b)) = ordered_qty b"
    and history_fill: "binv b \<Longrightarrow> ordered_qty b oid = Some q \<Longrightarrow>
      api_history api oid b = (Some h, b') \<Longrightarrow> 0 \<le> last_filled h \<and> last_filled h \<le> q"
    and history_complete: "binv b \<Longrightarrow> ordered_qty b oid = Some q \<Longrightarrow>
      api_history api oid b = (Some h, b') \<Longrightarrow>
      bt_status (reduce_order_history h) = Some ''COMPLETE'' \<Longrightarrow> last_filled h = q"
    and cancel_inv: "binv b \<Longrightarrow> binv (snd (api_cancel api oid b))"
    and cancel_qty: "binv b \<Longrightarrow> ordered_qty (snd (api_cancel api oid b)) = ordered_qty b"

text \<open>
  What else the entry lifecycle relies on: an order that the broker reports terminal, or as filled
  in full, is settled (nothing of it can still execute), and no later call changes that.
\<close>

locale broker_settling = broker_lifecycle +
  fixes settled :: "'b \<Rightarrow> order_id \<Rightarrow> bool"
  assumes history_settles: "binv b \<Longrightarrow> ordered_qty b oid = Some q \<Longrightarrow>
      api_history api oid b = (Some h, b') \<Longrightarrow>
      bt_terminal (reduce_order_history h) \<or> last_filled h = q \<Longrightarrow> settled b' oid"
    and settled_place: "binv b \<Longrightarrow> settled b i \<Longrightarrow> settled (snd (api_place api r b)) i"
    and settled_history: "binv b \<Longrightarrow> settled b i \<Longrightarrow> settled (snd (api_history api oid b)) i"
    and settled_cancel: "binv b \<Longrightarrow> settled b i \<Longrightarrow> settled (snd (api_cancel api oid b)) i"
    and oco_qty: "binv b \<Longrightarrow> ordered_qty (snd (api_place_oco api ord b)) = ordered_qty b"
    and settled_oco: "binv b \<Longrightarrow> settled b i \<Longrightarrow> settled (snd (api_place_oco api ord b)) i"
begin

text \<open>Nothing rests at the broker.\<close>

definition quiet :: "'b \<Rightarrow> bool" where
  "quiet b \<longleftrightarrow> (\<forall>i \<in> dom (ordered_qty b). settled b i)"

end

section \<open>The simulated broker\<close>

datatype scenario = Complete | Partial_Then_Complete | Partial_Then_Stuck | Rejected | No_Fill

record snapshot = hist_row +
  sn_qty :: int
  sn_pending :: int

record mock_order =
  mo_scenario :: scenario
  mo_symbol :: "sym option"
  mo_side :: order_side
  mo_qty :: int
  mo_ref :: rupees
  mo_status :: string
  mo_filled :: int
  mo_avg :: rupees
  mo_polls :: nat
  mo_history :: "snapshot list"

record mock =
  mk_scenario :: scenario
  mk_fill_price :: rupees
  mk_orders :: "(order_id \<times> mock_order) list"
  mk_next :: order_id
  mk_gtts :: "(int \<times> oco_req) list"
  mk_next_gtt :: int
  mk_ltp :: "sym option \<rightharpoonup> rupees"

definition is_terminal :: "string \<Rightarrow> bool" where
  "is_terminal s = (s \<in> set terminal_broker_states)"

definition take_snapshot :: "mock_order \<Rightarrow> mock_order" where
  "take_snapshot order =
    (let pending = (if is_terminal (mo_status order) then 0 else mo_qty order - mo_filled order)
     in order\<lparr>mo_history := mo_history order @ [\<lparr>h_status = Some (mo_status order),
          h_filled = Some (mo_filled order), h_avg = Some (py_round 2 (mo_avg order)),
          h_message = None, sn_qty = mo_qty order, sn_pending = max 0 pending\<rparr>]\<rparr>)"

definition new_order :: "scenario \<Rightarrow> order_req \<Rightarrow> mock_order" where
  "new_order sc r = take_snapshot
    \<lparr>mo_scenario = sc, mo_symbol = rq_symbol r, mo_side = rq_side r, mo_qty = rq_qty r,
     mo_ref = py_or (rq_price r) 0, mo_status = ''OPEN'', mo_filled = 0, mo_avg = 0, mo_polls = 0,
     mo_history = []\<rparr>"

definition mock_px :: "mock \<Rightarrow> mock_order \<Rightarrow> rupees" where
  "mock_px b order = (if mo_ref order \<noteq> 0 then mo_ref order
     else py_or (mk_ltp b (mo_symbol order)) (mk_fill_price b))"

definition advance :: "mock \<Rightarrow> mock_order \<Rightarrow> mock_order" where
  "advance b o0 =
    (if is_terminal (mo_status o0) then o0
     else
       let ord = o0\<lparr>mo_polls := mo_polls o0 + 1\<rparr>;
           half = (if mo_qty ord \<noteq> 0 then max 1 (mo_qty ord div 2) else 0);
           px = mock_px b ord;
           full = ord\<lparr>mo_status := ''COMPLETE'', mo_filled := mo_qty ord, mo_avg := px\<rparr>;
           part = ord\<lparr>mo_status := ''OPEN'', mo_filled := half, mo_avg := px\<rparr>
       in take_snapshot (case mo_scenario ord of
            Complete \<Rightarrow> full
          | Rejected \<Rightarrow> ord\<lparr>mo_status := ''REJECTED'', mo_filled := 0, mo_avg := 0\<rparr>
          | No_Fill \<Rightarrow> ord\<lparr>mo_status := ''OPEN'', mo_filled := 0\<rparr>
          | Partial_Then_Stuck \<Rightarrow> part
          | Partial_Then_Complete \<Rightarrow> if mo_polls ord = 1 then part else full))"

definition mock_place_order :: "order_req \<Rightarrow> mock \<Rightarrow> order_id option \<times> mock" where
  "mock_place_order r b =
    (Some (mk_next b), b\<lparr>mk_orders := mk_orders b @ [(mk_next b, new_order (mk_scenario b) r)],
                        mk_next := mk_next b + 1\<rparr>)"

definition mock_update :: "order_id \<Rightarrow> mock_order \<Rightarrow> mock \<Rightarrow> mock" where
  "mock_update oid order b = b\<lparr>mk_orders := upsert oid order (mk_orders b)\<rparr>"

text \<open>An unknown order id is a KeyError.\<close>

definition mock_order_history :: "order_id \<Rightarrow> mock \<Rightarrow> hist_row list option \<times> mock" where
  "mock_order_history oid b =
    (case map_of (mk_orders b) oid of
       None \<Rightarrow> (None, b)
     | Some order \<Rightarrow> let order' = advance b order
         in (Some (map hist_row.truncate (mo_history order')), mock_update oid order' b))"

definition mock_cancel_order :: "order_id \<Rightarrow> mock \<Rightarrow> bool \<times> mock" where
  "mock_cancel_order oid b =
    (case map_of (mk_orders b) oid of
       None \<Rightarrow> (False, b)
     | Some order \<Rightarrow>
         if is_terminal (mo_status order) then (True, b)
         else (True, mock_update oid (take_snapshot (order\<lparr>mo_status := ''CANCELLED''\<rparr>)) b))"

definition net_quantity :: "sym option \<Rightarrow> mock \<Rightarrow> int" where
  "net_quantity symbol b =
    sum_list (map (\<lambda>(i, order). if mo_side order = BUY then mo_filled order else - mo_filled order)
      (filter (\<lambda>(i, order). mo_symbol order = symbol \<and> mo_filled order > 0) (mk_orders b)))"

text \<open>\<open>positions()\<close>: one row per symbol; its rows carry no instrument token.\<close>

definition position_step ::
  "(sym option \<times> broker_pos) list \<Rightarrow> mock_order \<Rightarrow> (sym option \<times> broker_pos) list" where
  "position_step net order =
    (if mo_filled order \<le> 0 then net
     else
       let row = get_default (map_of net (mo_symbol order))
             \<lparr>bp_token = None, bp_symbol = mo_symbol order, bp_qty = 0, bp_avg = Some (mo_avg order),
              bp_last = None, bp_product = None, bp_exchange = None, bp_itype = None\<rparr>
       in upsert (mo_symbol order) (row\<lparr>bp_qty := bp_qty row
            + (if mo_side order = BUY then mo_filled order else - mo_filled order)\<rparr>) net)"

definition mock_positions :: "mock \<Rightarrow> broker_pos list option \<times> mock" where
  "mock_positions b = (Some (map snd (foldl position_step [] (map snd (mk_orders b)))), b)"

definition mock_place_gtt :: "oco_req \<Rightarrow> mock \<Rightarrow> int option \<times> mock" where
  "mock_place_gtt r b = (Some (mk_next_gtt b),
     b\<lparr>mk_gtts := mk_gtts b @ [(mk_next_gtt b, r)], mk_next_gtt := mk_next_gtt b + 1\<rparr>)"

definition mock_delete_gtt :: "int \<Rightarrow> mock \<Rightarrow> bool \<times> mock" where
  "mock_delete_gtt tid b = (True, b\<lparr>mk_gtts := filter (\<lambda>(i, r). i \<noteq> tid) (mk_gtts b)\<rparr>)"

definition mock_quote :: "quote_key list \<Rightarrow> mock \<Rightarrow> (quote_key \<Rightarrow> quote option) option \<times> mock" where
  "mock_quote keys b =
    (Some (\<lambda>k. if k \<in> set keys
       then Some \<lparr>q_sell = [], q_buy = [], q_last = Some (get_default (mk_ltp b (snd k)) (mk_fill_price b))\<rparr>
       else None), b)"

definition mock_api :: "mock broker_api" where
  "mock_api = \<lparr>api_place = mock_place_order, api_history = mock_order_history,
     api_cancel = mock_cancel_order, api_positions = mock_positions,
     api_place_oco = mock_place_gtt, api_delete_gtt = mock_delete_gtt,
     api_quote = mock_quote\<rparr>"

definition init_mock :: "scenario \<Rightarrow> rupees \<Rightarrow> mock" where
  "init_mock sc px = \<lparr>mk_scenario = sc, mk_fill_price = px, mk_orders = [], mk_next = 1,
     mk_gtts = [], mk_next_gtt = 1, mk_ltp = Map.empty\<rparr>"

section \<open>Its lifecycle\<close>

text \<open>How far each scenario fills an order that is still working.\<close>

definition scenario_fill_ok :: "mock_order \<Rightarrow> bool" where
  "scenario_fill_ok order \<longleftrightarrow>
     (mo_scenario order = No_Fill \<longrightarrow> mo_filled order = 0)
     \<and> (mo_scenario order = Partial_Then_Complete \<and> mo_polls order = 0 \<longrightarrow> mo_filled order = 0)
     \<and> (mo_scenario order = Partial_Then_Stuck \<longrightarrow>
          mo_filled order = 0 \<or> mo_filled order = max 1 (mo_qty order div 2))"

definition order_ok :: "mock_order \<Rightarrow> bool" where
  "order_ok order \<longleftrightarrow> scenario_fill_ok order \<and> 0 < mo_qty order \<and> 0 \<le> mo_filled order \<and> mo_filled order \<le> mo_qty order
     \<and> (mo_status order = ''COMPLETE'' \<longrightarrow> mo_filled order = mo_qty order)
     \<and> mo_history order \<noteq> [] \<and> h_status (last (mo_history order)) = Some (mo_status order)
     \<and> h_filled (last (mo_history order)) = Some (mo_filled order)"

definition mock_ok :: "mock \<Rightarrow> bool" where
  "mock_ok b \<longleftrightarrow> (\<forall>(i, order) \<in> set (mk_orders b). order_ok order \<and> i < mk_next b)"

definition mock_qty :: "mock \<Rightarrow> order_id \<Rightarrow> int option" where
  "mock_qty b oid = map_option mo_qty (map_of (mk_orders b) oid)"

lemma scenario_fill_snapshot [simp]: "scenario_fill_ok (take_snapshot order) = scenario_fill_ok order"
  by (simp add: scenario_fill_ok_def take_snapshot_def Let_def)

lemma order_ok_snapshot:
  "scenario_fill_ok order \<Longrightarrow> 0 < mo_qty order \<Longrightarrow> 0 \<le> mo_filled order \<Longrightarrow> mo_filled order \<le> mo_qty order \<Longrightarrow>
   (mo_status order = ''COMPLETE'' \<Longrightarrow> mo_filled order = mo_qty order) \<Longrightarrow> order_ok (take_snapshot order)"
  by (simp add: order_ok_def take_snapshot_def Let_def scenario_fill_ok_def)

lemma mo_qty_advance [simp]: "mo_qty (advance b order) = mo_qty order"
  by (auto simp: advance_def take_snapshot_def Let_def split: scenario.split)

lemma order_ok_advance: "order_ok order \<Longrightarrow> order_ok (advance b order)"
proof -
  assume ok: "order_ok order"
  then have q: "0 < mo_qty order" "max 1 (mo_qty order div 2) \<le> mo_qty order"
    by (auto simp: order_ok_def)
  show ?thesis
  proof (cases "is_terminal (mo_status order)")
    case True with ok show ?thesis by (simp add: advance_def)
  next
    case False
    with q show ?thesis
      by (cases "mo_scenario order") (auto simp: advance_def Let_def scenario_fill_ok_def intro!: order_ok_snapshot)
  qed
qed

lemma order_ok_cancel:
  "order_ok order \<Longrightarrow> order_ok (take_snapshot (order\<lparr>mo_status := ''CANCELLED''\<rparr>))"
  by (rule order_ok_snapshot) (auto simp: order_ok_def scenario_fill_ok_def)

lemma mock_ok_lookup: "mock_ok b \<Longrightarrow> map_of (mk_orders b) oid = Some order \<Longrightarrow> order_ok order"
  by (auto simp: mock_ok_def dest: map_of_SomeD)

lemma set_upsert_subset: "set (upsert k v ps) \<subseteq> insert (k, v) (set ps)"
  by (induction k v ps rule: upsert.induct) auto

lemma mock_ok_update:
  "mock_ok b \<Longrightarrow> order_ok order \<Longrightarrow> oid < mk_next b \<Longrightarrow> mock_ok (mock_update oid order b)"
  using set_upsert_subset [of oid order "mk_orders b"]
  by (fastforce simp: mock_ok_def mock_update_def)

lemma mock_ok_id: "mock_ok b \<Longrightarrow> map_of (mk_orders b) oid = Some order \<Longrightarrow> oid < mk_next b"
  by (auto simp: mock_ok_def dest: map_of_SomeD)

lemma mock_qty_update [simp]:
  "mock_qty (mock_update oid order b) = (mock_qty b)(oid \<mapsto> mo_qty order)"
  by (auto simp: mock_qty_def mock_update_def)

lemma mock_qty_lookup: "map_of (mk_orders b) oid = Some order \<Longrightarrow> mock_qty b oid = Some (mo_qty order)"
  by (simp add: mock_qty_def)

lemma last_filled_mock:
  assumes "order_ok order"
  shows "last_filled (map hist_row.truncate (mo_history order)) = mo_filled order"
    "bt_status (reduce_order_history (map hist_row.truncate (mo_history order))) = Some (mo_status order)"
  using assms
  by (auto simp: last_filled_def reduce_order_history_def Let_def order_ok_def last_map
      hist_row.truncate_def py_or_def)

lemma order_ok_new: "0 < rq_qty r \<Longrightarrow> order_ok (new_order sc r)"
  unfolding new_order_def by (rule order_ok_snapshot) (simp_all add: scenario_fill_ok_def)

lemma mo_qty_new [simp]: "mo_qty (new_order sc r) = rq_qty r"
  by (simp add: new_order_def take_snapshot_def Let_def)

lemma mock_ok_place: "mock_ok b \<Longrightarrow> 0 < rq_qty r \<Longrightarrow> mock_ok (snd (mock_place_order r b))"
  by (auto simp: mock_place_order_def mock_ok_def order_ok_new)

lemma mock_qty_place:
  "mock_ok b \<Longrightarrow> mock_qty (snd (mock_place_order r b)) = (mock_qty b)(mk_next b \<mapsto> rq_qty r)"
proof -
  assume "mock_ok b"
  then have "map_of (mk_orders b) (mk_next b) = None"
    by (auto simp: mock_ok_def map_of_eq_None_iff)
  then show ?thesis
    by (auto simp: mock_place_order_def mock_qty_def map_add_def fun_eq_iff split: option.split)
qed

interpretation mb: broker_lifecycle mock_api mock_qty mock_ok
proof (unfold_locales, goal_cases)
  case (1 b r oid b')
  then have "oid = mk_next b" "b' = snd (mock_place_order r b)"
    by (auto simp: mock_api_def mock_place_order_def)
  with 1 mock_ok_place mock_qty_place show ?case by simp
next
  case (2 b r)
  then show ?case by (simp add: mock_api_def mock_ok_place)
next
  case (3 b oid)
  then show ?case
    by (auto simp: mock_api_def mock_order_history_def Let_def split: option.split
        intro!: mock_ok_update order_ok_advance mock_ok_lookup mock_ok_id)
next
  case (4 b oid)
  then show ?case
    by (auto simp: mock_api_def mock_order_history_def Let_def fun_eq_iff mock_qty_lookup split: option.split)
next
  case (5 b oid q h b')
  then obtain order where "map_of (mk_orders b) oid = Some order" "q = mo_qty order"
    by (auto simp: mock_qty_def)
  moreover from this 5 have ok: "order_ok (advance b order)" by (intro order_ok_advance mock_ok_lookup)
  ultimately show ?case
    using 5 last_filled_mock [OF ok] by (auto simp: mock_api_def mock_order_history_def Let_def order_ok_def)
next
  case (6 b oid q h b')
  then obtain order where o: "map_of (mk_orders b) oid = Some order" "q = mo_qty order"
    by (auto simp: mock_qty_def)
  with 6 have ok: "order_ok (advance b order)" by (intro order_ok_advance mock_ok_lookup)
  from 6 o have "h = map hist_row.truncate (mo_history (advance b order))"
    by (auto simp: mock_api_def mock_order_history_def Let_def)
  with 6 o last_filled_mock [OF ok] ok show ?case by (auto simp: order_ok_def)
next
  case (7 b oid)
  then show ?case
    by (auto simp: mock_api_def mock_cancel_order_def split: option.split
        intro!: mock_ok_update order_ok_cancel mock_ok_lookup mock_ok_id)
next
  case (8 b oid)
  then show ?case
    by (auto simp: mock_api_def mock_cancel_order_def fun_eq_iff mock_qty_lookup take_snapshot_def Let_def
        split: option.split)
qed

definition mock_settled :: "mock \<Rightarrow> order_id \<Rightarrow> bool" where
  "mock_settled b oid = (case map_of (mk_orders b) oid of None \<Rightarrow> False
     | Some order \<Rightarrow> is_terminal (mo_status order) \<or> mo_filled order = mo_qty order)"

lemma mock_settled_update:
  "mock_settled b i \<Longrightarrow> (i = oid \<Longrightarrow> is_terminal (mo_status order) \<or> mo_filled order = mo_qty order) \<Longrightarrow>
   mock_settled (mock_update oid order b) i"
  by (auto simp: mock_settled_def mock_update_def)

lemma advance_settled:
  assumes "order_ok order" "is_terminal (mo_status order) \<or> mo_filled order = mo_qty order"
  shows "is_terminal (mo_status (advance b order)) \<or> mo_filled (advance b order) = mo_qty order"
proof (cases "is_terminal (mo_status order)")
  case True then show ?thesis by (simp add: advance_def)
next
  case False
  with assms have "mo_filled order = mo_qty order" "0 < mo_qty order" "scenario_fill_ok order"
    by (simp_all add: order_ok_def)
  with False show ?thesis
    by (cases "mo_scenario order")
      (auto simp: advance_def take_snapshot_def Let_def scenario_fill_ok_def is_terminal_def
        terminal_broker_states_def)
qed

lemma mock_settled_history:
  "mock_ok b \<Longrightarrow> mock_settled b i \<Longrightarrow> mock_settled (snd (mock_order_history oid b)) i"
proof (cases "map_of (mk_orders b) oid")
  case (Some order)
  assume ok: "mock_ok b" and s: "mock_settled b i"
  have "mock_settled (mock_update oid (advance b order) b) i"
  proof (rule mock_settled_update [OF s])
    assume "i = oid"
    with s Some have "is_terminal (mo_status order) \<or> mo_filled order = mo_qty order"
      by (simp add: mock_settled_def)
    from advance_settled [OF mock_ok_lookup [OF ok Some] this]
    show "is_terminal (mo_status (advance b order)) \<or> mo_filled (advance b order) = mo_qty (advance b order)"
      by simp
  qed
  with Some show ?thesis by (simp add: mock_order_history_def Let_def)
qed (simp add: mock_order_history_def)

interpretation ms: broker_settling mock_api mock_qty mock_ok mock_settled
proof (unfold_locales, goal_cases)
  case (1 b oid q h b')
  then obtain order where o: "map_of (mk_orders b) oid = Some order" "q = mo_qty order"
    by (auto simp: mock_qty_def)
  with 1 have ok: "order_ok (advance b order)" by (intro order_ok_advance mock_ok_lookup)
  from 1 o have "h = map hist_row.truncate (mo_history (advance b order))"
    "b' = mock_update oid (advance b order) b"
    by (auto simp: mock_api_def mock_order_history_def Let_def)
  with 1 o last_filled_mock [OF ok] show ?case
    by (auto simp: mock_settled_def mock_update_def reduce_order_history_def Let_def is_terminal_def
        split: option.splits)
next
  case (2 b i r)
  then show ?case
    by (cases "map_of (mk_orders b) i")
      (auto simp: mock_api_def mock_place_order_def mock_settled_def map_add_def)
next
  case (3 b i oid)
  then show ?case by (simp add: mock_api_def mock_settled_history)
next
  case (4 b i oid)
  then show ?case
    by (auto simp: mock_api_def mock_cancel_order_def take_snapshot_def Let_def is_terminal_def
        terminal_broker_states_def intro!: mock_settled_update split: option.split)
next
  case (5 b ord)
  then show ?case by (simp add: mock_api_def mock_place_gtt_def mock_qty_def fun_eq_iff)
next
  case (6 b i ord)
  then show ?case by (auto simp: mock_api_def mock_place_gtt_def mock_settled_def)
qed

end
