(* ===== verification/Registry.thy ===== *)
theory Registry
  imports Prelude
begin

text \<open>
  The contract the two guard registries share (\<open>execution/guards.py: GuardManager\<close> and
  \<open>execution/structures.py: StructureManager\<close>): objects are stored under an id and indexed by
  the instrument tokens they watch, so that a tick on a token finds every object that watches
  it. Clients (the tick loop, the exits) rely on completeness of the index: an object that was
  stored and not removed is found under each of its tokens.
\<close>

locale token_registry =
  fixes put :: "'g \<Rightarrow> 'm \<Rightarrow> 'm"
    and del :: "'i \<Rightarrow> 'm \<Rightarrow> 'm"
    and get :: "'m \<Rightarrow> 'i \<Rightarrow> 'g option"
    and ids_for :: "'m \<Rightarrow> token \<Rightarrow> 'i set"
    and id_of :: "'g \<Rightarrow> 'i"
    and tokens_of :: "'g \<Rightarrow> token set"
    and inv :: "'m \<Rightarrow> bool"
  assumes get_put: "get (put g m) = (get m)(id_of g \<mapsto> g)"
    and get_del: "get (del i m) = (get m)(i := None)"
    and inv_put: "inv m \<Longrightarrow> inv (put g m)"
    and inv_del: "inv m \<Longrightarrow> inv (del i m)"
    and covered: "inv m \<Longrightarrow> get m i = Some g \<Longrightarrow> t \<in> tokens_of g \<Longrightarrow> i \<in> ids_for m t"
begin

fun run :: "('g + 'i) list \<Rightarrow> 'm \<Rightarrow> 'm" where
  "run [] m = m"
| "run (Inl g # es) m = run es (put g m)"
| "run (Inr i # es) m = run es (del i m)"

lemma inv_run: "inv m \<Longrightarrow> inv (run es m)"
  by (induction es m rule: run.induct) (auto intro: inv_put inv_del)

lemma get_run_untouched:
  "Inr i \<notin> set es \<Longrightarrow> (\<And>g. Inl g \<in> set es \<Longrightarrow> id_of g \<noteq> i) \<Longrightarrow> get (run es m) i = get m i"
  by (induction es m rule: run.induct) (auto simp: get_put get_del)

lemma found_after_put: "inv m \<Longrightarrow> t \<in> tokens_of g \<Longrightarrow> id_of g \<in> ids_for (put g m) t"
  by (rule covered [OF inv_put]) (auto simp: get_put)

text \<open>Stored, not removed and not replaced since: still watched.\<close>

lemma stays_watched:
  assumes "inv m" "t \<in> tokens_of g" "Inr (id_of g) \<notin> set es"
    "\<And>h. Inl h \<in> set es \<Longrightarrow> id_of h \<noteq> id_of g"
  shows "get (run es (put g m)) (id_of g) = Some g" "id_of g \<in> ids_for (run es (put g m)) t"
proof -
  show g: "get (run es (put g m)) (id_of g) = Some g"
    using get_run_untouched [of "id_of g" es "put g m"] assms(3,4) by (auto simp: get_put)
  show "id_of g \<in> ids_for (run es (put g m)) t"
    using covered [OF inv_run [OF inv_put [OF assms(1)]] g assms(2)] .
qed

lemma gone_after_del: "get (del i m) i = None"
  by (simp add: get_del)

end

end
