(* ===== verification/Guards.thy ===== *)
theory Guards
  imports Exec_Models Registry
begin

text \<open>
  \<open>execution/guards.py\<close>: the fast-loop price guard and its manager. \<open>guard_check\<close> follows
  \<open>Guard.check\<close> stage by stage (square-off, trailing stop, best gain and initial risk,
  break-even ratchet, profit lock, exits); each stage is a function on the guard, so the checks
  that mutate the guard return it. The square-off time is the parsed \<open>HH:MM\<close>.
\<close>

record guard =
  g_id :: pid
  g_side :: order_side
  g_entry :: rupees
  g_stop :: rupees
  g_target :: rupees
  g_token :: token
  trail_distance :: "real option"
  square_off :: "tod option"
  high_water :: rupees
  breakeven_at_r :: real
  lock_trigger_frac :: real
  max_giveback_frac :: real
  init_risk :: rupees
  best_gain :: rupees

text \<open>Towards the trade's favour: the higher stop for a long, the lower for a short.\<close>

definition tighten :: "order_side \<Rightarrow> rupees \<Rightarrow> rupees \<Rightarrow> rupees" where
  "tighten side a b = (if side = BUY then max a b else min a b)"

definition trail_stage :: "rupees \<Rightarrow> guard \<Rightarrow> guard" where
  "trail_stage price g =
    (case trail_distance g of
       None \<Rightarrow> g
     | Some td \<Rightarrow>
         if td = 0 then g
         else
           let hw0 = (if high_water g = 0 then g_entry g else high_water g);
               hw = (if g_side g = BUY then max hw0 price else min hw0 price)
           in g\<lparr>high_water := hw,
                g_stop := (if g_side g = BUY then max (g_stop g) (hw - td)
                           else min (g_stop g) (hw + td))\<rparr>)"

definition gain_of :: "guard \<Rightarrow> rupees \<Rightarrow> rupees" where
  "gain_of g price = (if g_side g = BUY then price - g_entry g else g_entry g - price)"

definition gain_stage :: "rupees \<Rightarrow> guard \<Rightarrow> guard" where
  "gain_stage price g =
    (let g1 = (if gain_of g price > best_gain g then g\<lparr>best_gain := gain_of g price\<rparr> else g)
     in if init_risk g1 \<le> 0 then g1\<lparr>init_risk := \<bar>g_entry g1 - g_stop g1\<bar>\<rparr> else g1)"

definition breakeven_stage :: "guard \<Rightarrow> guard" where
  "breakeven_stage g =
    (if breakeven_at_r g \<noteq> 0 \<and> init_risk g > 0 \<and> best_gain g \<ge> breakeven_at_r g * init_risk g
     then g\<lparr>g_stop := tighten (g_side g) (g_stop g) (g_entry g)\<rparr> else g)"

definition lock_level :: "guard \<Rightarrow> rupees" where
  "lock_level g =
    (let keep = best_gain g * (1 - max_giveback_frac g)
     in if g_side g = BUY then g_entry g + keep else g_entry g - keep)"

definition lock_stage :: "guard \<Rightarrow> guard" where
  "lock_stage g =
    (let tdist = \<bar>g_target g - g_entry g\<bar>
     in if lock_trigger_frac g \<noteq> 0 \<and> g_target g \<noteq> 0 \<and> tdist > 0
           \<and> best_gain g \<ge> lock_trigger_frac g * tdist
        then g\<lparr>g_stop := tighten (g_side g) (g_stop g) (lock_level g)\<rparr> else g)"

definition exit_stage :: "rupees \<Rightarrow> guard \<Rightarrow> exit_signal option" where
  "exit_stage price g =
    (if g_side g = BUY then
       (if price \<le> g_stop g then Some \<lparr>x_reason = X_STOP, x_price = price\<rparr>
        else if g_target g \<noteq> 0 \<and> price \<ge> g_target g then Some \<lparr>x_reason = X_TARGET, x_price = price\<rparr>
        else None)
     else
       (if price \<ge> g_stop g then Some \<lparr>x_reason = X_STOP, x_price = price\<rparr>
        else if g_target g \<noteq> 0 \<and> price \<le> g_target g then Some \<lparr>x_reason = X_TARGET, x_price = price\<rparr>
        else None))"

definition guard_check :: "rupees \<Rightarrow> tod \<Rightarrow> guard \<Rightarrow> guard \<times> exit_signal option" where
  "guard_check price now g =
    (if (case square_off g of None \<Rightarrow> False | Some t \<Rightarrow> now \<ge> t)
     then (g, Some \<lparr>x_reason = X_TIME, x_price = price\<rparr>)
     else
       let g' = lock_stage (breakeven_stage (gain_stage price (trail_stage price g)))
       in (g', exit_stage price g'))"

section \<open>The manager\<close>

record guard_mgr =
  guards :: "pid \<rightharpoonup> guard"
  by_token :: "token \<rightharpoonup> pid set"

definition empty_mgr :: guard_mgr where
  "empty_mgr = \<lparr>guards = Map.empty, by_token = Map.empty\<rparr>"

definition arm :: "guard \<Rightarrow> guard_mgr \<Rightarrow> guard_mgr" where
  "arm g m = m\<lparr>guards := (guards m)(g_id g \<mapsto> g),
     by_token := (by_token m)(g_token g \<mapsto> insert (g_id g) (get_default (by_token m (g_token g)) {}))\<rparr>"

definition disarm :: "pid \<Rightarrow> guard_mgr \<Rightarrow> guard_mgr" where
  "disarm i m =
    (case guards m i of
       None \<Rightarrow> m
     | Some g \<Rightarrow> m\<lparr>guards := (guards m)(i := None),
         by_token := (case by_token m (g_token g) of
             None \<Rightarrow> by_token m
           | Some ids \<Rightarrow> (by_token m)(g_token g \<mapsto> ids - {i}))\<rparr>)"

definition process_tick :: "pid \<Rightarrow> rupees \<Rightarrow> tod \<Rightarrow> guard_mgr \<Rightarrow> guard_mgr \<times> exit_signal option" where
  "process_tick i price now m =
    (case guards m i of
       None \<Rightarrow> (m, None)
     | Some g \<Rightarrow> (case guard_check price now g of
         (g', s) \<Rightarrow> (m\<lparr>guards := (guards m)(i \<mapsto> g')\<rparr>, s)))"

definition for_token :: "guard_mgr \<Rightarrow> token \<Rightarrow> pid set" where
  "for_token m t = get_default (by_token m t) {}"

definition armed_ids :: "guard_mgr \<Rightarrow> pid set" where
  "armed_ids m = dom (guards m)"

definition mgr_inv :: "guard_mgr \<Rightarrow> bool" where
  "mgr_inv m \<longleftrightarrow> (\<forall>i g. guards m i = Some g \<longrightarrow> g_id g = i \<and> i \<in> for_token m (g_token g))"

interpretation gm: token_registry arm disarm guards for_token g_id "\<lambda>g. {g_token g}" mgr_inv
proof (unfold_locales, goal_cases)
  case (1 g m) show ?case by (simp add: arm_def)
next
  case (2 i m) show ?case by (cases "guards m i") (auto simp: disarm_def)
next
  case (3 m g)
  then have "\<And>i h. guards m i = Some h \<Longrightarrow> g_id h = i \<and> i \<in> get_default (by_token m (g_token h)) {}"
    by (simp add: mgr_inv_def for_token_def)
  then show ?case by (fastforce simp: mgr_inv_def arm_def for_token_def)
next
  case (4 m i)
  then show ?case
    by (cases "guards m i")
      (auto simp: mgr_inv_def disarm_def for_token_def get_default_def split: option.splits if_splits)
next
  case (5 m i g t) then show ?case by (simp add: mgr_inv_def)
qed

section \<open>What a check keeps\<close>

lemma tighten_mono:
  "tighten BUY a b \<ge> a" "tighten SELL a b \<le> a" "tighten BUY a b \<ge> b" "tighten SELL a b \<le> b"
  by (simp_all add: tighten_def)

text \<open>The order in which stops tighten: upwards for a long, downwards for a short.\<close>

definition tighter :: "order_side \<Rightarrow> rupees \<Rightarrow> rupees \<Rightarrow> bool" where
  "tighter side new old = (if side = BUY then old \<le> new else new \<le> old)"

lemma tighter_refl [simp]: "tighter s a a"
  by (simp add: tighter_def)

lemma tighter_trans: "tighter s a b \<Longrightarrow> tighter s b c \<Longrightarrow> tighter s a c"
  by (auto simp: tighter_def split: if_splits)

lemma tighter_tighten [simp]: "tighter s (tighten s a b) a" "tighter s (tighten s a b) b"
  by (simp_all add: tighter_def tighten_def)

lemmas stage_defs = trail_stage_def gain_stage_def breakeven_stage_def lock_stage_def Let_def

lemma stages_fixed [simp]:
  "g_side (trail_stage p g) = g_side g" "g_side (gain_stage p g) = g_side g"
  "g_side (breakeven_stage g) = g_side g" "g_side (lock_stage g) = g_side g"
  "g_entry (trail_stage p g) = g_entry g" "g_entry (gain_stage p g) = g_entry g"
  "g_entry (breakeven_stage g) = g_entry g" "g_entry (lock_stage g) = g_entry g"
  "g_id (trail_stage p g) = g_id g" "g_id (gain_stage p g) = g_id g"
  "g_id (breakeven_stage g) = g_id g" "g_id (lock_stage g) = g_id g"
  "g_token (trail_stage p g) = g_token g" "g_token (gain_stage p g) = g_token g"
  "g_token (breakeven_stage g) = g_token g" "g_token (lock_stage g) = g_token g"
  by (auto simp: stage_defs split: option.split)

lemma stages_gain [simp]:
  "best_gain (trail_stage p g) = best_gain g" "best_gain (breakeven_stage g) = best_gain g"
  "best_gain (lock_stage g) = best_gain g" "init_risk (breakeven_stage g) = init_risk g"
  "init_risk (lock_stage g) = init_risk g" "breakeven_at_r (gain_stage p g) = breakeven_at_r g"
  "breakeven_at_r (trail_stage p g) = breakeven_at_r g"
  "breakeven_at_r (breakeven_stage g) = breakeven_at_r g" "breakeven_at_r (lock_stage g) = breakeven_at_r g"
  "max_giveback_frac (trail_stage p g) = max_giveback_frac g"
  "max_giveback_frac (gain_stage p g) = max_giveback_frac g"
  "max_giveback_frac (breakeven_stage g) = max_giveback_frac g"
  "lock_trigger_frac (trail_stage p g) = lock_trigger_frac g"
  "lock_trigger_frac (gain_stage p g) = lock_trigger_frac g"
  "lock_trigger_frac (breakeven_stage g) = lock_trigger_frac g"
  "g_target (trail_stage p g) = g_target g" "g_target (gain_stage p g) = g_target g"
  "g_target (breakeven_stage g) = g_target g" "g_target (lock_stage g) = g_target g"
  "g_stop (gain_stage p g) = g_stop g"
  "gain_of (trail_stage p g) p = gain_of g p"
  by (auto simp: stage_defs gain_of_def split: option.split)

lemma stages_tighter:
  "tighter (g_side g) (g_stop (trail_stage p g)) (g_stop g)"
  "tighter (g_side g) (g_stop (breakeven_stage g)) (g_stop g)"
  "tighter (g_side g) (g_stop (lock_stage g)) (g_stop g)"
  by (auto simp: stage_defs tighter_def tighten_def split: option.split)

lemma best_gain_gain_stage: "best_gain (gain_stage p g) = max (best_gain g) (gain_of g p)"
  by (auto simp: stage_defs)

lemma guard_check_side [simp]:
  "g_side (fst (guard_check p now g)) = g_side g"
  "g_entry (fst (guard_check p now g)) = g_entry g"
  "g_id (fst (guard_check p now g)) = g_id g"
  "g_token (fst (guard_check p now g)) = g_token g"
  by (simp_all add: guard_check_def Let_def)

lemma guard_check_tighter: "tighter (g_side g) (g_stop (fst (guard_check p now g))) (g_stop g)"
proof -
  let ?a = "trail_stage p g" and ?b = "gain_stage p (trail_stage p g)"
  let ?c = "breakeven_stage ?b"
  have "tighter (g_side g) (g_stop (lock_stage ?c)) (g_stop ?c)"
    "tighter (g_side g) (g_stop ?c) (g_stop ?b)" "tighter (g_side g) (g_stop ?a) (g_stop g)"
    using stages_tighter(3) [of ?c] stages_tighter(2) [of ?b] stages_tighter(1) [of g p] by simp_all
  then show ?thesis
    by (auto simp: guard_check_def Let_def intro: tighter_trans)
qed

text \<open>Ticks in a row, each with its time.\<close>

fun guard_run :: "guard \<Rightarrow> (rupees \<times> tod) list \<Rightarrow> guard" where
  "guard_run g [] = g"
| "guard_run g ((p, now) # ts) = guard_run (fst (guard_check p now g)) ts"

lemma guard_run_side [simp]: "g_side (guard_run g ts) = g_side g"
  by (induction g ts rule: guard_run.induct) auto

lemma guard_run_tighter: "tighter (g_side g) (g_stop (guard_run g ts)) (g_stop g)"
proof (induction g ts rule: guard_run.induct)
  case (2 g p now ts)
  with guard_check_tighter [of g p now] show ?case by (auto intro: tighter_trans)
qed simp

lemma guard_check_best_gain:
  "\<not> (\<exists>t. square_off g = Some t \<and> t \<le> now) \<Longrightarrow>
   best_gain (fst (guard_check p now g)) = max (best_gain g) (gain_of g p)"
  by (auto simp: guard_check_def Let_def best_gain_gain_stage split: option.splits)

text \<open>After a check that saw enough gain, the stop has reached the entry or the lock.\<close>

lemma guard_check_breakeven:
  fixes p now g
  defines "g' \<equiv> fst (guard_check p now g)"
  assumes "\<not> (\<exists>t. square_off g = Some t \<and> t \<le> now)" "breakeven_at_r g \<noteq> 0" "init_risk g' > 0"
    "best_gain g' \<ge> breakeven_at_r g * init_risk g'"
  shows "tighter (g_side g) (g_stop g') (g_entry g)"
proof -
  let ?b = "gain_stage p (trail_stage p g)"
  have g': "g' = lock_stage (breakeven_stage ?b)"
    using assms(2) by (auto simp: g'_def guard_check_def Let_def split: option.splits)
  have "init_risk g' = init_risk ?b" "best_gain g' = best_gain ?b" by (simp_all add: g')
  then have "g_stop (breakeven_stage ?b) = tighten (g_side ?b) (g_stop ?b) (g_entry ?b)"
    using assms(3-5) by (simp add: breakeven_stage_def)
  then have "tighter (g_side g) (g_stop (breakeven_stage ?b)) (g_entry g)" by simp
  with stages_tighter(3) [of "breakeven_stage ?b"] g' show ?thesis
    by (auto intro: tighter_trans)
qed

lemma guard_check_lock:
  fixes p now g
  defines "g' \<equiv> fst (guard_check p now g)"
  assumes "\<not> (\<exists>t. square_off g = Some t \<and> t \<le> now)" "lock_trigger_frac g \<noteq> 0" "g_target g \<noteq> 0"
    "\<bar>g_target g - g_entry g\<bar> > 0"
    "best_gain g' \<ge> lock_trigger_frac g * \<bar>g_target g - g_entry g\<bar>"
  shows "tighter (g_side g) (g_stop g') (lock_level g')"
proof -
  let ?c = "breakeven_stage (gain_stage p (trail_stage p g))"
  have g': "g' = lock_stage ?c"
    using assms(2) by (auto simp: g'_def guard_check_def Let_def split: option.splits)
  have ll: "lock_level (lock_stage ?c) = lock_level ?c"
    by (auto simp: lock_level_def lock_stage_def Let_def)
  have "best_gain g' = best_gain ?c" by (simp add: g')
  then have "g_stop g' = tighten (g_side ?c) (g_stop ?c) (lock_level ?c)"
    using assms(3-6) unfolding g' lock_stage_def Let_def by simp
  then have "tighter (g_side ?c) (g_stop g') (lock_level ?c)" by simp
  then show ?thesis unfolding g' ll by simp
qed

text \<open>Why a check exits.\<close>

lemma guard_check_exit_cases:
  assumes "guard_check p now g = (g', Some x)"
  shows "x_price x = p"
    and "x_reason x = X_TIME \<and> (\<exists>t. square_off g = Some t \<and> t \<le> now)
       \<or> x_reason x = X_STOP \<and> tighter (g_side g) (g_stop g') p
       \<or> x_reason x = X_TARGET \<and> g_target g \<noteq> 0 \<and> tighter (g_side g) p (g_target g)"
  using assms
  by (auto simp: guard_check_def exit_stage_def Let_def tighter_def split: if_splits option.splits)

lemma process_tick_inv: "mgr_inv m \<Longrightarrow> mgr_inv (fst (process_tick i p now m))"
proof (cases "guards m i")
  case (Some g)
  assume inv: "mgr_inv m"
  obtain g' x where gc: "guard_check p now g = (g', x)" by fastforce
  then have "g_id g' = g_id g" "g_token g' = g_token g"
    using guard_check_side(3,4) [of p now g] by simp_all
  moreover have "g_id g = i" "i \<in> for_token m (g_token g)" using inv Some by (auto simp: mgr_inv_def)
  ultimately show ?thesis
    using inv Some gc by (auto simp: process_tick_def mgr_inv_def for_token_def)
qed (simp add: process_tick_def)

end
