(* ===== verification/Kill_Switch.thy ===== *)
theory Kill_Switch
  imports Runtime_Mode
begin

text \<open>
  \<open>risk/kill_switch.py\<close>: the daily max-loss kill switch. Its state is the operator table and
  the \<open>daily_pnl\<close> table, keyed by trade date and by the position namespace of the active mode.
  Log lines, alerts and the published event are left out; they do not feed back. The steps of
  the switch over a trading day are an inductive relation with one rule per method.
\<close>

record pnl_row =
  starting_capital :: rupees
  realized_pnl :: rupees
  unrealized_pnl :: rupees
  max_loss_limit :: rupees
  kill_switch_tripped :: bool

record ks_state =
  ks_config :: config_state
  daily_pnl :: "(int \<times> string) \<rightharpoonup> pnl_row"

text \<open>The paper overlay of the loss percentage, and the configured default.\<close>

record ks_cfg =
  daily_loss_pct :: "real option"
  daily_max_loss_default :: real

record ks_status =
  ks_active :: bool
  tripped_today :: bool
  st_realized :: rupees
  st_unrealized :: rupees
  day_pnl :: rupees
  loss_limit :: rupees
  st_capital :: rupees

definition ns :: "string \<Rightarrow> ks_state \<Rightarrow> string" where
  "ns now s = position_namespace (load_runtime_mode now (ks_config s))"

definition ensure_daily_row :: "ks_cfg \<Rightarrow> int \<Rightarrow> string \<Rightarrow> rupees \<Rightarrow> ks_state \<Rightarrow> ks_state" where
  "ensure_daily_row c today now cap s =
    (let pct = py_or (daily_loss_pct c) (daily_max_loss_default c);
         limit = pct / 100 * cap;
         key = (today, ns now s);
         row = (case daily_pnl s key of
             None \<Rightarrow> \<lparr>starting_capital = cap, realized_pnl = 0, unrealized_pnl = 0,
                      max_loss_limit = - \<bar>limit\<bar>, kill_switch_tripped = False\<rparr>
           | Some r \<Rightarrow> r\<lparr>starting_capital := cap, max_loss_limit := - \<bar>limit\<bar>\<rparr>)
     in s\<lparr>daily_pnl := (daily_pnl s)(key \<mapsto> row)\<rparr>)"

definition is_active :: "ks_state \<Rightarrow> bool" where
  "is_active s = json_truthy (get_state (ks_config s) ''kill_switch_active'' (JBool False))"

definition status :: "int \<Rightarrow> string \<Rightarrow> ks_state \<Rightarrow> ks_status" where
  "status today now s =
    (case daily_pnl s (today, ns now s) of
       None \<Rightarrow> \<lparr>ks_active = is_active s, tripped_today = False, st_realized = 0, st_unrealized = 0,
               day_pnl = 0, loss_limit = 0, st_capital = 0\<rparr>
     | Some r \<Rightarrow> \<lparr>ks_active = is_active s, tripped_today = kill_switch_tripped r,
               st_realized = realized_pnl r, st_unrealized = unrealized_pnl r,
               day_pnl = realized_pnl r + unrealized_pnl r, loss_limit = max_loss_limit r,
               st_capital = starting_capital r\<rparr>)"

definition update_row :: "(int \<times> string) \<Rightarrow> (pnl_row \<Rightarrow> pnl_row) \<Rightarrow> ks_state \<Rightarrow> ks_state" where
  "update_row key f s = s\<lparr>daily_pnl :=
     (case daily_pnl s key of None \<Rightarrow> daily_pnl s | Some r \<Rightarrow> (daily_pnl s)(key \<mapsto> f r))\<rparr>"

definition trip :: "int \<Rightarrow> string \<Rightarrow> ks_state \<Rightarrow> ks_state" where
  "trip today now s =
    (let s1 = s\<lparr>ks_config := set_state ''kill_switch_active'' (JBool True) (ks_config s)\<rparr>
     in update_row (today, ns now s1) (\<lambda>r. r\<lparr>kill_switch_tripped := True\<rparr>) s1)"

definition check_and_maybe_trip :: "int \<Rightarrow> string \<Rightarrow> ks_state \<Rightarrow> ks_state \<times> ks_status" where
  "check_and_maybe_trip today now s =
    (let st = status today now s in
     if \<not> ks_active st \<and> loss_limit st < 0 \<and> day_pnl st \<le> loss_limit st
     then (trip today now s, st\<lparr>ks_active := True, tripped_today := True\<rparr>)
     else (s, st))"

definition reset :: "int \<Rightarrow> string \<Rightarrow> ks_state \<Rightarrow> ks_state" where
  "reset today now s =
    (let s1 = s\<lparr>ks_config := set_state ''kill_switch_active'' (JBool False) (ks_config s)\<rparr>
     in update_row (today, ns now s1) (\<lambda>r. r\<lparr>kill_switch_tripped := False\<rparr>) s1)"

definition update_pnl ::
  "int \<Rightarrow> string \<Rightarrow> rupees option \<Rightarrow> rupees option \<Rightarrow> ks_state \<Rightarrow> ks_state" where
  "update_pnl today now realized unrealized s =
    (if realized = None \<and> unrealized = None then s
     else update_row (today, ns now s)
       (\<lambda>r. r\<lparr>realized_pnl := get_default realized (realized_pnl r),
              unrealized_pnl := get_default unrealized (unrealized_pnl r)\<rparr>) s)"

section \<open>Effects on the flag\<close>

lemma update_row_config [simp]: "ks_config (update_row k f s) = ks_config s"
  by (simp add: update_row_def)

lemma is_active_update_row [simp]: "is_active (update_row k f s) = is_active s"
  by (simp add: is_active_def)

lemma is_active_trip [simp]: "is_active (trip today now s)"
  by (simp add: trip_def Let_def is_active_def cfg.get_set_same)

lemma is_active_reset [simp]: "\<not> is_active (reset today now s)"
  by (simp add: reset_def Let_def is_active_def cfg.get_set_same)

lemma is_active_ensure [simp]: "is_active (ensure_daily_row c today now cap s) = is_active s"
  by (simp add: ensure_daily_row_def Let_def is_active_def)

lemma is_active_update_pnl [simp]: "is_active (update_pnl today now r u s) = is_active s"
  by (simp add: update_pnl_def)

lemma load_mode_other_key:
  "k \<noteq> ''runtime_mode'' \<Longrightarrow> k \<noteq> ''execution_mode'' \<Longrightarrow>
   load_runtime_mode now (set_state k v st) = load_runtime_mode now st"
  by (simp add: load_runtime_mode_def cfg.get_set_other Let_def)

lemma status_active [simp]: "ks_active (status today now s) = is_active s"
  by (simp add: status_def split: option.split)

lemma status_tripped_after_trip:
  "daily_pnl s (today, ns now s) \<noteq> None \<Longrightarrow> tripped_today (status today now (trip today now s))"
  by (auto simp: status_def trip_def Let_def update_row_def ns_def load_mode_other_key)

section \<open>A trading day\<close>

datatype ks_event = Ev_Ensure rupees | Ev_Check | Ev_Pnl "rupees option" "rupees option" | Ev_Reset

inductive ks_step :: "ks_cfg \<Rightarrow> ks_state \<Rightarrow> ks_event \<Rightarrow> ks_state \<Rightarrow> bool" for c where
  ensure: "ks_step c s (Ev_Ensure cap) (ensure_daily_row c today now cap s)"
| check: "ks_step c s Ev_Check (fst (check_and_maybe_trip today now s))"
| pnl: "ks_step c s (Ev_Pnl r u) (update_pnl today now r u s)"
| manual: "ks_step c s Ev_Reset (reset today now s)"

inductive ks_run :: "ks_cfg \<Rightarrow> ks_state \<Rightarrow> ks_event list \<Rightarrow> ks_state \<Rightarrow> bool" for c where
  nil: "ks_run c s [] s"
| step: "ks_run c s es t \<Longrightarrow> ks_step c t e u \<Longrightarrow> ks_run c s (es @ [e]) u"

inductive_cases ks_step_ensureE: "ks_step c s (Ev_Ensure cap) t"
inductive_cases ks_step_checkE: "ks_step c s Ev_Check t"
inductive_cases ks_step_pnlE: "ks_step c s (Ev_Pnl r u) t"
inductive_cases ks_step_resetE: "ks_step c s Ev_Reset t"
inductive_simps ks_step_reset_simp: "ks_step c s Ev_Reset t"

lemma check_keeps_active: "is_active s \<Longrightarrow> is_active (fst (check_and_maybe_trip today now s))"
  by (simp add: check_and_maybe_trip_def Let_def)

lemma ks_step_latch: "ks_step c s e t \<Longrightarrow> e \<noteq> Ev_Reset \<Longrightarrow> is_active s \<Longrightarrow> is_active t"
  by (cases e) (auto elim!: ks_step_ensureE ks_step_checkE ks_step_pnlE simp: check_keeps_active)

lemma ks_run_latch: "ks_run c s es t \<Longrightarrow> Ev_Reset \<notin> set es \<Longrightarrow> is_active s \<Longrightarrow> is_active t"
  by (induction rule: ks_run.induct) (auto intro: ks_step_latch)

text \<open>The limit that \<open>ensure_daily_row\<close> stores is never positive, whatever the sign of its inputs.\<close>

lemma ensure_limit_nonpos:
  "\<exists>r. daily_pnl (ensure_daily_row c today now cap s) (today, ns now s) = Some r
     \<and> max_loss_limit r \<le> 0"
  by (auto simp: ensure_daily_row_def Let_def split: option.splits)

lemma check_trips_iff:
  "\<not> is_active s \<Longrightarrow> daily_pnl s (today, ns now s) = Some r \<Longrightarrow>
   is_active (fst (check_and_maybe_trip today now s)) \<longleftrightarrow>
     max_loss_limit r < 0 \<and> realized_pnl r + unrealized_pnl r \<le> max_loss_limit r"
  by (auto simp: check_and_maybe_trip_def Let_def status_def)

end
