(* ===== verification/Executor.thy ===== *)
theory Executor
  imports Broker Guards Kill_Switch
begin

text \<open>
  \<open>execution/executor.py\<close> and \<open>execution/brackets.py\<close>: the order path. The executor's state is a
  record \<open>world\<close> (operator table, book, guards, broker, re-entry cooldowns, time of the last
  durable mark of each position); what it is configured with, and the instrument table and clock
  it reads, is the record \<open>env\<close>. Every method takes the world and returns its result with the new
  world; an exception that the code catches is a None of the call that raised it. Log lines and
  alerts are left out.

  The polling loops recurse on the attempts that are left (12 for an order, 8 for a cancel, 1 for
  a pending close): the code's bounds, so no fuel is involved.
\<close>

section \<open>State and configuration\<close>

datatype cd_key = CD_Eq token | CD_Fno string

record dyn_cfg =
  dc_breakeven :: real
  dc_lock :: real
  dc_giveback :: real

record 'b world =
  w_config :: config_state
  w_book :: book
  w_guards :: guard_mgr
  w_broker :: 'b
  w_cooldown :: "cd_key \<rightharpoonup> int"
  w_persist :: "pid \<rightharpoonup> real"

record 'b env =
  e_api :: "'b broker_api"
  e_costs :: cost_model
  e_slip :: real
  e_instrument :: "token \<Rightarrow> instrument option"
  e_square_off :: "string \<Rightarrow> tod option"
  e_dyn :: "string \<Rightarrow> dyn_cfg"
  e_clip :: int
  e_stop_type :: string
  e_fno_live :: bool
  e_cooldown_min :: real
  e_today :: int
  e_clock :: tod
  e_mono :: real
  e_now :: string

record exec_result =
  er_outcome :: order_outcome
  er_filled :: int
  er_avg :: rupees
  er_fees :: rupees
  er_pid :: "pid option"
  er_oid :: "order_id option"
  er_bracket :: "bracket option"
  er_state :: "lifecycle option"
  er_reason :: string

definition rejected_result :: "string \<Rightarrow> exec_result" where
  "rejected_result why = \<lparr>er_outcome = O_REJECTED, er_filled = 0, er_avg = 0, er_fees = 0,
     er_pid = None, er_oid = None, er_bracket = None, er_state = None, er_reason = why\<rparr>"

section \<open>Helpers\<close>

definition current_mode :: "'b env \<Rightarrow> ('b, 'z) world_scheme \<Rightarrow> string" where
  "current_mode env w = rm_mode (load_runtime_mode (e_now env) (w_config w))"

definition active_account :: "'b env \<Rightarrow> ('b, 'z) world_scheme \<Rightarrow> string option" where
  "active_account env w = broker_account_id (load_runtime_mode (e_now env) (w_config w))"

definition lookup_instrument :: "'b env \<Rightarrow> token option \<Rightarrow> instrument option" where
  "lookup_instrument env t = (case t of None \<Rightarrow> None | Some k \<Rightarrow> e_instrument env k)"

definition freeze_limit :: "'b env \<Rightarrow> int" where
  "freeze_limit env = (if e_clip env \<noteq> 0 then e_clip env else 1000000000)"

text \<open>One quote for one instrument through the broker; a missing key is an empty dictionary.\<close>

definition quote_one :: "'b env \<Rightarrow> quote_key \<Rightarrow> 'b \<Rightarrow> quote option \<times> 'b" where
  "quote_one env key b =
    (case api_quote (e_api env) [key] b of
       (None, b') \<Rightarrow> (None, b')
     | (Some q, b') \<Rightarrow> (Some (get_default (q key) \<lparr>q_sell = [], q_buy = [], q_last = None\<rparr>), b'))"

definition set_cooldown :: "cd_key \<Rightarrow> real \<Rightarrow> ('b, 'z) world_scheme \<Rightarrow> ('b, 'z) world_scheme" where
  "set_cooldown k minutes w =
    (if minutes \<le> 0 then w else w\<lparr>w_cooldown := (w_cooldown w)(k \<mapsto> \<lfloor>minutes * 60\<rfloor>)\<rparr>)"

section \<open>Brackets\<close>

definition bracket_guard :: "'b env \<Rightarrow> decision \<Rightarrow> fill \<Rightarrow> pid \<Rightarrow> guard" where
  "bracket_guard env d f i =
    (let dyn = e_dyn env (d_sleeve d) in
     \<lparr>g_id = i, g_side = d_side d, g_entry = f_price f, g_stop = d_stop d, g_target = d_target d,
      g_token = get_default (in_token (d_instrument d)) 0, trail_distance = None,
      square_off = e_square_off env (d_sleeve d), high_water = 0,
      breakeven_at_r = dc_breakeven dyn, lock_trigger_frac = dc_lock dyn,
      max_giveback_frac = (if dc_giveback dyn = 0 then 35 / 100 else dc_giveback dyn),
      init_risk = \<bar>f_price f - d_stop d\<bar>, best_gain = 0\<rparr>)"

text \<open>A leg of the OCO: market (or the configured type) at the stop, limit at the target.\<close>

definition oco_leg :: "'b env \<Rightarrow> decision \<Rightarrow> fill \<Rightarrow> rupees \<Rightarrow> rupees \<times> order_req" where
  "oco_leg env d f price =
    (let otype = (if price = d_stop d then e_stop_type env else ''LIMIT'') in
     (price, \<lparr>rq_symbol = in_symbol (d_instrument d), rq_exchange = in_exchange (d_instrument d),
        rq_side = opposite (d_side d), rq_qty = f_qty f, rq_product = d_product d, rq_type = otype,
        rq_price = Some (if otype = ''MARKET'' then 0 else price)\<rparr>))"

definition create_bracket ::
  "'b env \<Rightarrow> decision \<Rightarrow> fill \<Rightarrow> pid \<Rightarrow> string \<Rightarrow> ('b, 'z) world_scheme \<Rightarrow> bracket \<times> ('b, 'z) world_scheme" where
  "create_bracket env d f i m w =
    (let w1 = w\<lparr>w_guards := arm (bracket_guard env d f i) (w_guards w)\<rparr>;
         br = \<lparr>br_gtt = None, br_live = (m = LIVE), br_stop = d_stop d, br_target = d_target d,
               br_qty = f_qty f, br_stop_type = None\<rparr>
     in if m = LIVE \<and> d_stop d \<noteq> 0 \<and> d_target d \<noteq> 0 then
          let lower = min (d_stop d) (d_target d); upper = max (d_stop d) (d_target d) in
          case api_place_oco (e_api env)
                 \<lparr>oco_symbol = in_symbol (d_instrument d), oco_last = f_price f, oco_lower = lower,
                  oco_upper = upper, oco_legs = [oco_leg env d f lower, oco_leg env d f upper]\<rparr>
                 (w_broker w1) of
            (None, b') \<Rightarrow> (br, w1\<lparr>w_broker := b'\<rparr>)
          | (Some gtt, b') \<Rightarrow>
              let br' = br\<lparr>br_gtt := Some gtt, br_stop_type := Some (e_stop_type env)\<rparr>
              in (br', w1\<lparr>w_broker := b',
                    w_book := record_bracket i (Some gtt) (e_stop_type env) lower upper
                                (attach_bracket i br' (w_book w1))\<rparr>)
        else (br, w1))"

section \<open>Polling\<close>

text \<open>None: \<open>order_history\<close> raised. A timeout keeps the last truth under the status PARTIAL.\<close>

fun poll_order :: "'b broker_api \<Rightarrow> nat \<Rightarrow> order_id \<Rightarrow> broker_truth \<Rightarrow> 'b \<Rightarrow> broker_truth option \<times> 'b" where
  "poll_order api 0 oid rc b =
     (Some (rc\<lparr>bt_status := Some ''PARTIAL'', bt_reason := Some ''poll timeout''\<rparr>), b)"
| "poll_order api (Suc n) oid rc b =
     (case api_history api oid b of
        (None, b') \<Rightarrow> (None, b')
      | (Some h, b') \<Rightarrow>
          let rc' = reduce_order_history h in
          if bt_terminal rc' then (Some rc', b') else poll_order api n oid rc' b')"

definition no_truth :: broker_truth where
  "no_truth = \<lparr>bt_status = None, bt_filled = 0, bt_avg = 0, bt_reason = None, bt_terminal = False\<rparr>"

fun confirm_cancel :: "'b broker_api \<Rightarrow> nat \<Rightarrow> order_id \<Rightarrow> 'b \<Rightarrow> bool \<times> 'b" where
  "confirm_cancel api 0 oid b = (False, b)"
| "confirm_cancel api (Suc n) oid b =
     (case api_history api oid b of
        (None, b') \<Rightarrow> confirm_cancel api n oid b'
      | (Some h, b') \<Rightarrow>
          if bt_terminal (reduce_order_history h) then (True, b') else confirm_cancel api n oid b')"

definition cancel_and_confirm :: "'b broker_api \<Rightarrow> order_id \<Rightarrow> 'b \<Rightarrow> bool \<times> 'b" where
  "cancel_and_confirm api oid b = confirm_cancel api 8 oid (snd (api_cancel api oid b))"

section \<open>Entry\<close>

record clip_state =
  cs_filled :: int
  cs_notional :: rupees
  cs_ids :: "order_id list"
  cs_dealt :: bool

definition entry_req :: "decision \<Rightarrow> int \<Rightarrow> order_req" where
  "entry_req d clip = \<lparr>rq_symbol = in_symbol (d_instrument d), rq_exchange = in_exchange (d_instrument d),
     rq_side = d_side d, rq_qty = clip, rq_product = d_product d, rq_type = d_order_type d,
     rq_price = (if d_order_type d = ''LIMIT'' then Some (d_entry d) else None)\<rparr>"

text \<open>The loop over the clips: every \<open>break\<close> and the \<open>except\<close> branch return.\<close>

fun place_clips :: "'b broker_api \<Rightarrow> decision \<Rightarrow> int list \<Rightarrow> clip_state \<Rightarrow> 'b \<Rightarrow> clip_state \<times> 'b" where
  "place_clips api d [] s b = (s, b)"
| "place_clips api d (clip # clips) s b =
     (case api_place api (entry_req d clip) b of
        (None, b1) \<Rightarrow> (s\<lparr>cs_dealt := False\<rparr>, b1)
      | (Some oid, b1) \<Rightarrow>
          let s1 = s\<lparr>cs_ids := cs_ids s @ [oid]\<rparr> in
          (case poll_order api 12 oid no_truth b1 of
             (None, b2) \<Rightarrow> (s1\<lparr>cs_dealt := False\<rparr>, b2)
           | (Some st, b2) \<Rightarrow>
               let cf = bt_filled st;
                   s2 = s1\<lparr>cs_filled := cs_filled s1 + cf,
                           cs_notional := cs_notional s1 + of_int cf * bt_avg st\<rparr>
               in if bt_status st = Some ''COMPLETE'' then place_clips api d clips s2 b2
                  else if bt_status st = Some ''REJECTED'' \<and> \<not> transient (bt_reason st) then (s2, b2)
                  else if cf < clip then
                    (case cancel_and_confirm api oid b2 of
                       (confirmed, b3) \<Rightarrow> (s2\<lparr>cs_dealt := cs_dealt s2 \<and> confirmed\<rparr>, b3))
                  else (s2, b2)))"

definition clip_start :: clip_state where
  "clip_start = \<lparr>cs_filled = 0, cs_notional = 0, cs_ids = [], cs_dealt = True\<rparr>"

definition flag_unsafe_entry :: "('b, 'z) world_scheme \<Rightarrow> ('b, 'z) world_scheme" where
  "flag_unsafe_entry w = w\<lparr>w_config := set_state ''block_new_entries'' (JBool True) (w_config w)\<rparr>"

text \<open>The instrument's metadata: the decision's dictionary updated with the table's row.\<close>

definition merged_meta :: "'b env \<Rightarrow> instrument \<Rightarrow> instrument" where
  "merged_meta env inst =
    (case lookup_instrument env (in_token inst) of
       None \<Rightarrow> inst
     | Some r \<Rightarrow> \<lparr>in_token = in_token r, in_symbol = in_symbol r, in_exchange = in_exchange r,
          in_lot = in_lot r, in_type = in_type r, in_tick = in_tick r, in_expiry = in_expiry r\<rparr>)"

text \<open>What follows the clip loop: bookkeeping for the filled quantity, then the verdict.\<close>

definition settle_live :: "'b env \<Rightarrow> decision \<Rightarrow> clip_state \<Rightarrow> ('b, 'z) world_scheme \<Rightarrow> exec_result \<times> ('b, 'z) world_scheme" where
  "settle_live env d s w =
    (let filled = cs_filled s; oid = (case cs_ids s of [] \<Rightarrow> None | i # _ \<Rightarrow> Some i) in
     if filled > 0 then
       let avg = py_round 2 (cs_notional s / of_int filled);
           seg = segment_key (d_sleeve d) (in_type (d_instrument d));
           f = \<lparr>f_qty = filled, f_price = avg, f_fees = compute_leg (e_costs env) seg (d_side d) filled avg\<rparr>;
           (i, bk1) = open_position (active_account env w) d f LIVE (w_book w);
           outcome = (if filled < d_qty d then O_PARTIAL else O_FILLED);
           w1 = w\<lparr>w_book := persist_order_fill d f LIVE outcome oid bk1\<rparr>;
           (br, w2) = create_bracket env d f i LIVE w1;
           state = entry_outcome filled (d_qty d) (cs_dealt s) True;
           w3 = (if state \<in> set UNSAFE_STATES then flag_unsafe_entry w2 else w2)
       in (\<lparr>er_outcome = outcome, er_filled = filled, er_avg = avg, er_fees = fee_total (f_fees f),
            er_pid = Some i, er_oid = oid, er_bracket = Some br, er_state = Some state, er_reason = []\<rparr>, w3)
     else
       let state = entry_outcome filled (d_qty d) (cs_dealt s) False;
           w1 = (if state \<in> set UNSAFE_STATES then flag_unsafe_entry w else w)
       in if filled = 0
          then ((rejected_result ''no fill'')\<lparr>er_oid := oid, er_state := Some state\<rparr>, w1)
          else (\<lparr>er_outcome = O_PARTIAL, er_filled = filled, er_avg = 0, er_fees = 0, er_pid = None,
                 er_oid = oid, er_bracket = None, er_state = Some state, er_reason = []\<rparr>, w1))"

definition execute_live :: "'b env \<Rightarrow> decision \<Rightarrow> ('b, 'z) world_scheme \<Rightarrow> exec_result \<times> ('b, 'z) world_scheme" where
  "execute_live env d w =
    (if \<not> exit_product_supported (in_exchange (d_instrument d)) (Some (d_product d))
     then (rejected_result ''unsupported exchange/product'', w)
     else if entry_meta_block_reason ''live'' (d_qty d) (d_entry d) (merged_meta env (d_instrument d))
               (d_order_type d) (e_today env) \<noteq> None
     then (rejected_result ''instrument-meta'', w)
     else
       (case place_clips (e_api env) d (slice_order (d_qty d) (freeze_limit env)) clip_start (w_broker w) of
          (s, b') \<Rightarrow> settle_live env d s (w\<lparr>w_broker := b'\<rparr>)))"

definition execute_sim :: "'b env \<Rightarrow> decision \<Rightarrow> int option \<Rightarrow> ('b, 'z) world_scheme \<Rightarrow> exec_result \<times> ('b, 'z) world_scheme" where
  "execute_sim env d force w =
    (case quote_one env (in_exchange (d_instrument d), in_symbol (d_instrument d)) (w_broker w) of
       (reply, b') \<Rightarrow>
         (case simulate (e_costs env) (e_slip env) reply d force of
            None \<Rightarrow> (rejected_result ''no live price for simulated fill'', w\<lparr>w_broker := b'\<rparr>)
          | Some f \<Rightarrow>
              let (i, bk1) = open_position None d f PAPER (w_book w);
                  outcome = (case force of Some q \<Rightarrow> if q \<noteq> 0 \<and> q < d_qty d then O_PARTIAL else O_FILLED
                             | None \<Rightarrow> O_FILLED);
                  w1 = w\<lparr>w_broker := b', w_book := persist_order_fill d f PAPER outcome None bk1\<rparr>;
                  (br, w2) = create_bracket env d f i PAPER w1
              in (\<lparr>er_outcome = outcome, er_filled = f_qty f, er_avg = f_price f,
                   er_fees = fee_total (f_fees f), er_pid = Some i, er_oid = None,
                   er_bracket = Some br, er_state = None, er_reason = []\<rparr>, w2)))"

definition execute :: "'b env \<Rightarrow> decision \<Rightarrow> int option \<Rightarrow> ('b, 'z) world_scheme \<Rightarrow> exec_result \<times> ('b, 'z) world_scheme" where
  "execute env d force w =
    (if state_flag ''engine_halted'' (w_config w)
     then (rejected_result ''engine halted (fail-safe active)'', w)
     else if \<not> order_allowed ''ENTRY'' (state_flag ''kill_switch_active'' (w_config w))
                 (state_flag ''block_new_entries'' (w_config w))
     then (rejected_result ''entry blocked (kill-switch active or new entries blocked)'', w)
     else if current_mode env w = LIVE then execute_live env d w
     else execute_sim env d force w)"

section \<open>Exit\<close>

definition cancel_bracket :: "'b env \<Rightarrow> book_row \<Rightarrow> ('b, 'z) world_scheme \<Rightarrow> ('b, 'z) world_scheme" where
  "cancel_bracket env r w =
    (if current_mode env w \<noteq> LIVE then w
     else case rw_bracket (b_raw r) of
       None \<Rightarrow> w
     | Some br \<Rightarrow> (case br_gtt br of
         None \<Rightarrow> w
       | Some gtt \<Rightarrow> if gtt = 0 then w
                     else w\<lparr>w_broker := snd (api_delete_gtt (e_api env) gtt (w_broker w))\<rparr>))"

text \<open>None: the exit order could not be placed or polled, or its product cannot be exited.\<close>

definition market_exit :: "'b env \<Rightarrow> book_row \<Rightarrow> 'b \<Rightarrow> normalized_fill option \<times> 'b" where
  "market_exit env r b =
    (let inst = lookup_instrument env (instrument_token r);
         sd = opposite (side r);
         exchange = (case b_exchange r of Some e \<Rightarrow> if e = [] then Option.bind inst in_exchange else Some e
                     | None \<Rightarrow> Option.bind inst in_exchange);
         q = row_qty r
     in if \<not> exit_product_supported exchange (b_product r) then (None, b)
        else
          (case api_place (e_api env) \<lparr>rq_symbol = tradingsymbol r, rq_exchange = exchange, rq_side = sd,
                  rq_qty = q, rq_product = get_default (b_product r) [], rq_type = ''MARKET'',
                  rq_price = None\<rparr> b of
             (None, b1) \<Rightarrow> (None, b1)
           | (Some oid, b1) \<Rightarrow>
               (case poll_order (e_api env) 12 oid no_truth b1 of
                  (None, b2) \<Rightarrow> (None, b2)
                | (Some st, b2) \<Rightarrow>
                    let filled = bt_filled st; avg = bt_avg st;
                        seg = segment_key (get_default (sleeve r) []) (Option.bind inst in_type)
                    in (Some \<lparr>nf_order_id = Some oid, nf_status = normalize_exit_status (bt_status st) filled,
                          nf_filled = filled, nf_avg = avg, nf_pending = max 0 (q - filled),
                          nf_fees = (if filled \<noteq> 0 \<and> avg \<noteq> 0
                             then compute_leg (e_costs env) seg sd filled avg else no_fees)\<rparr>, b2))))"

definition do_live_exit ::
  "'b env \<Rightarrow> pid \<Rightarrow> book_row \<Rightarrow> string \<Rightarrow> ('b, 'z) world_scheme \<Rightarrow> rupees option \<times> ('b, 'z) world_scheme" where
  "do_live_exit env i r why w =
    (case market_exit env r (w_broker w) of
       (None, b') \<Rightarrow>
         (None, w\<lparr>w_broker := b', w_book := append_event i EV_CLOSE_PENDING (e_now env) None None
             (mark_close_pending i None ''market_exit error'' (w_book w))\<rparr>)
     | (Some nf, b') \<Rightarrow>
         if close_books_fully (nf_status nf) (nf_filled nf) (row_qty r) then
           (case close_position i (nf_avg nf) (nf_fees nf) why (w_book w) of
              (realized, bk) \<Rightarrow> (realized, w\<lparr>w_broker := b',
                  w_book := append_event i EV_FULL_CLOSE (e_now env) (Some nf) None bk\<rparr>))
         else
           (None, w\<lparr>w_broker := b', w_book := append_event i EV_CLOSE_PENDING (e_now env) (Some nf) None
               (mark_close_pending i (nf_order_id nf) ''exit incomplete'' (w_book w))\<rparr>))"

definition broker_net_qty :: "'b env \<Rightarrow> token option \<Rightarrow> 'b \<Rightarrow> int option \<times> 'b" where
  "broker_net_qty env t b =
    (case t of
       None \<Rightarrow> (None, b)
     | Some _ \<Rightarrow> (case api_positions (e_api env) b of
         (None, b') \<Rightarrow> (None, b')
       | (Some net, b') \<Rightarrow> (case find (\<lambda>p. bp_token p = t) net of
           None \<Rightarrow> (Some 0, b') | Some p \<Rightarrow> (Some (bp_qty p), b'))))"

definition sim_exit_price :: "'b env \<Rightarrow> book_row \<Rightarrow> 'b \<Rightarrow> rupees option \<times> 'b" where
  "sim_exit_price env r b =
    (let ex = (case lookup_instrument env (instrument_token r) of
                 None \<Rightarrow> Some ''NSE'' | Some inst \<Rightarrow> in_exchange inst)
     in case quote_one env (ex, tradingsymbol r) b of
          (reply, b') \<Rightarrow> (fill_price (e_slip env) reply (opposite (side r)) (row_qty r), b'))"

definition reentry_cooldown :: "'b env \<Rightarrow> book_row \<Rightarrow> ('b, 'z) world_scheme \<Rightarrow> ('b, 'z) world_scheme" where
  "reentry_cooldown env r w =
    (case instrument_token r of
       None \<Rightarrow> w
     | Some t \<Rightarrow> if e_cooldown_min env \<noteq> 0 then set_cooldown (CD_Eq t) (e_cooldown_min env) w else w)"

definition close_live ::
  "'b env \<Rightarrow> pid \<Rightarrow> book_row \<Rightarrow> string \<Rightarrow> ('b, 'z) world_scheme \<Rightarrow> rupees option \<times> ('b, 'z) world_scheme" where
  "close_live env i r why w =
    (let w1 = cancel_bracket env r w;
         w2 = w1\<lparr>w_book := set_bracket_state i BRACKET_CANCELLED (Some ''closed'') (w_book w1)\<rparr>
     in case broker_net_qty env (instrument_token r) (w_broker w2) of
          (bq, b') \<Rightarrow>
            let w3 = w2\<lparr>w_broker := b'\<rparr> in
            if (case bq of None \<Rightarrow> False | Some n \<Rightarrow> duplicate_exit_risk n) then
              (None, w3\<lparr>w_book := append_event i EV_CLOSE_PENDING (e_now env) None None
                  (mark_close_pending i None ''broker already flat (bracket filled)'' (w_book w3))\<rparr>)
            else do_live_exit env i r why w3)"

definition close_sim ::
  "'b env \<Rightarrow> pid \<Rightarrow> book_row \<Rightarrow> string \<Rightarrow> rupees option \<Rightarrow> rupees option \<Rightarrow> ('b, 'z) world_scheme \<Rightarrow>
     rupees option \<times> ('b, 'z) world_scheme" where
  "close_sim env i r why price fallback w =
    (let (px, b') = (if truthy price then (get_default price 0, w_broker w)
           else case sim_exit_price env r (w_broker w) of
             (p, b1) \<Rightarrow> (py_or p (py_or fallback (row_avg r)), b1));
         inst = lookup_instrument env (instrument_token r);
         seg = segment_key (get_default (sleeve r) []) (Option.bind inst in_type);
         fs = compute_leg (e_costs env) seg (opposite (side r)) (row_qty r) px;
         (realized, bk) = close_position i px fs why (w_book w)
     in (realized, w\<lparr>w_broker := b', w_book := bk\<rparr>))"

definition close :: "'b env \<Rightarrow> pid \<Rightarrow> string \<Rightarrow> rupees option \<Rightarrow> rupees option \<Rightarrow> ('b, 'z) world_scheme \<Rightarrow>
    rupees option \<times> ('b, 'z) world_scheme" where
  "close env i why price fallback w =
    (case find_row i (w_book w) of
       None \<Rightarrow> (None, w)
     | Some r \<Rightarrow>
         if pos_status r \<noteq> Open then (None, w)
         else
           (case (if current_mode env w = LIVE then close_live env i r why w
                  else close_sim env i r why price fallback w) of
              (realized, w1) \<Rightarrow>
                (realized, reentry_cooldown env r
                   (w1\<lparr>w_guards := disarm i (w_guards w1), w_persist := (w_persist w1)(i := None)\<rparr>))))"

definition exit_reason_text :: "exit_reason \<Rightarrow> string" where
  "exit_reason_text r = (case r of X_STOP \<Rightarrow> ''stop'' | X_TARGET \<Rightarrow> ''target'' | X_TRAIL \<Rightarrow> ''trailing_stop''
     | X_TIME \<Rightarrow> ''square_off_time'' | X_FAILSAFE \<Rightarrow> ''failsafe'' | X_MANUAL \<Rightarrow> ''manual'')"

text \<open>The fast loop: the realized P&L when a guard fired, None when none did.\<close>

definition on_price :: "'b env \<Rightarrow> pid \<Rightarrow> rupees \<Rightarrow> ('b, 'z) world_scheme \<Rightarrow>
    rupees option option \<times> ('b, 'z) world_scheme" where
  "on_price env i price w =
    (case process_tick i price (e_clock env) (w_guards w) of
       (gm', None) \<Rightarrow>
         let w1 = w\<lparr>w_guards := gm'\<rparr> in
         (None, if e_mono env - get_default (w_persist w1 i) 0 \<ge> 2
                then w1\<lparr>w_persist := (w_persist w1)(i \<mapsto> e_mono env),
                        w_book := snd (update_unrealized i price (w_book w1))\<rparr>
                else w1\<lparr>w_book := touch_ltp i price (w_book w1)\<rparr>)
     | (gm', Some x) \<Rightarrow>
         (case close env i (exit_reason_text (x_reason x)) (Some (x_price x)) None
                 (w\<lparr>w_guards := disarm i gm'\<rparr>) of
            (realized, w2) \<Rightarrow> (Some realized, w2)))"

section \<open>Reconciliation loops\<close>

definition reconcile_bracket_one :: "'b env \<Rightarrow> ('b, 'z) world_scheme \<Rightarrow> bracket_row \<Rightarrow> ('b, 'z) world_scheme" where
  "reconcile_bracket_one env w k =
    (case find_row (bk_pid k) (w_book w) of
       Some r \<Rightarrow> if pos_status r = Open then w
                 else
                   let w1 = (case bk_gtt k of None \<Rightarrow> w
                        | Some g \<Rightarrow> w\<lparr>w_broker := snd (api_delete_gtt (e_api env) g (w_broker w))\<rparr>)
                   in w1\<lparr>w_book := set_bracket_state (bk_pid k) BRACKET_CANCELLED (Some ''orphan_reconciled'') (w_book w1)\<rparr>
     | None \<Rightarrow>
         let w1 = (case bk_gtt k of None \<Rightarrow> w
              | Some g \<Rightarrow> w\<lparr>w_broker := snd (api_delete_gtt (e_api env) g (w_broker w))\<rparr>)
         in w1\<lparr>w_book := set_bracket_state (bk_pid k) BRACKET_CANCELLED (Some ''orphan_reconciled'') (w_book w1)\<rparr>)"

definition reconcile_brackets :: "'b env \<Rightarrow> ('b, 'z) world_scheme \<Rightarrow> ('b, 'z) world_scheme" where
  "reconcile_brackets env w = foldl (reconcile_bracket_one env) w (active_brackets (w_book w))"

text \<open>One row of \<open>resolve_pending_closes\<close>; the counter is the number of rows it books.\<close>

definition resolve_one :: "'b env \<Rightarrow> nat \<times> ('b, 'z) world_scheme \<Rightarrow> book_row \<Rightarrow> nat \<times> ('b, 'z) world_scheme" where
  "resolve_one env nw r =
    (let (n, w) = nw; i = pos_id r in
     case Option.bind (rw_close_pending (b_raw r)) fst of
       None \<Rightarrow> (n, w)
     | Some oid \<Rightarrow>
         (case poll_order (e_api env) 1 oid no_truth (w_broker w) of
            (None, b') \<Rightarrow> (n, w\<lparr>w_broker := b'\<rparr>)
          | (Some st, b') \<Rightarrow>
              if bt_status st \<noteq> Some ''COMPLETE'' then (n, w\<lparr>w_broker := b'\<rparr>)
              else
                let inst = lookup_instrument env (instrument_token r);
                    seg = segment_key (get_default (sleeve r) []) (Option.bind inst in_type);
                    avg = bt_avg st;
                    fs = (if avg \<noteq> 0 then compute_leg (e_costs env) seg (opposite (side r)) (row_qty r) avg
                          else no_fees);
                    (realized, bk) = close_position i avg fs ''reconcile_close_pending'' (w_book w)
                in (n + 1, w\<lparr>w_broker := b',
                     w_book := append_event i EV_FULL_CLOSE (e_now env) None None bk\<rparr>)))"

definition resolve_pending_closes :: "'b env \<Rightarrow> ('b, 'z) world_scheme \<Rightarrow> nat \<times> ('b, 'z) world_scheme" where
  "resolve_pending_closes env w = foldl (resolve_one env) (0, w) (pending_closes LIVE (w_book w))"

end
