(* ===== verification/Executor_Facts.thy ===== *)
theory Executor_Facts
  imports Executor
begin

text \<open>
  The lemmas of the order path. The first two sections hold for every broker that keeps the laws
  of \<open>broker_lifecycle\<close> and \<open>broker_settling\<close>; the later ones are about the book, the guards and
  the gates and need no law.
\<close>

section \<open>Polling and clips, for any lawful broker\<close>

context broker_lifecycle
begin

lemma history_step:
  "binv b \<Longrightarrow> api_history api oid b = (r, b') \<Longrightarrow> binv b' \<and> ordered_qty b' = ordered_qty b"
  using history_inv [of b oid] history_qty [of b oid] by simp

lemma poll_inv:
  "binv b \<Longrightarrow> poll_order api n oid rc b = (st, b') \<Longrightarrow> binv b' \<and> ordered_qty b' = ordered_qty b"
proof (induction n arbitrary: rc b)
  case (Suc n)
  obtain r b1 where h: "api_history api oid b = (r, b1)" by fastforce
  with Suc.prems(1) have b1: "binv b1" "ordered_qty b1 = ordered_qty b" using history_step by blast+
  show ?case
  proof (cases r)
    case None with h b1 Suc.prems show ?thesis by simp
  next
    case (Some hs) with h b1 Suc.prems Suc.IH [OF b1(1)] show ?thesis
      by (fastforce simp: Let_def split: if_splits)
  qed
qed auto

lemma poll_fill:
  "binv b \<Longrightarrow> ordered_qty b oid = Some q \<Longrightarrow> 0 \<le> bt_filled rc \<Longrightarrow> bt_filled rc \<le> q \<Longrightarrow>
   poll_order api n oid rc b = (Some st, b') \<Longrightarrow>
   0 \<le> bt_filled st \<and> bt_filled st \<le> q \<and> (bt_status st = Some ''COMPLETE'' \<longrightarrow> bt_filled st = q)"
proof (induction n arbitrary: rc b)
  case (Suc n)
  obtain r b1 where h: "api_history api oid b = (r, b1)" by fastforce
  with Suc.prems(1) have b1: "binv b1" "ordered_qty b1 = ordered_qty b" using history_step by blast+
  from h Suc.prems(5) obtain hs where r: "r = Some hs" by (cases r) auto
  let ?rc = "reduce_order_history hs"
  have f: "0 \<le> bt_filled ?rc" "bt_filled ?rc \<le> q"
    using history_fill [OF Suc.prems(1,2)] h r by (auto simp: last_filled_def)
  have c: "bt_status ?rc = Some ''COMPLETE'' \<Longrightarrow> bt_filled ?rc = q"
    using history_complete [OF Suc.prems(1,2)] h r by (auto simp: last_filled_def)
  show ?case
  proof (cases "bt_terminal ?rc")
    case True with Suc.prems(5) h r f c show ?thesis by (auto simp: Let_def)
  next
    case False
    with Suc.prems(5) h r have "poll_order api n oid ?rc b1 = (Some st, b')" by (simp add: Let_def)
    with Suc.IH [OF b1(1) _ f] b1(2) Suc.prems(2) show ?thesis by simp
  qed
qed auto

lemma confirm_inv:
  "binv b \<Longrightarrow> confirm_cancel api n oid b = (c, b') \<Longrightarrow> binv b'"
proof (induction n arbitrary: b)
  case (Suc n)
  obtain r b1 where h: "api_history api oid b = (r, b1)" by fastforce
  with Suc.prems(1) have "binv b1" using history_step by blast
  with Suc h show ?case by (cases r) (auto split: if_splits)
qed auto

lemma confirm_qty:
  "binv b \<Longrightarrow> confirm_cancel api n oid b = (c, b') \<Longrightarrow> ordered_qty b' = ordered_qty b"
proof (induction n arbitrary: b)
  case (Suc n)
  obtain r b1 where h: "api_history api oid b = (r, b1)" by fastforce
  with Suc.prems(1) have "binv b1" "ordered_qty b1 = ordered_qty b" using history_step by blast+
  with Suc h show ?case by (cases r) (auto split: if_splits)
qed auto

lemma cancel_and_confirm_qty:
  "binv b \<Longrightarrow> cancel_and_confirm api oid b = (c, b') \<Longrightarrow> ordered_qty b' = ordered_qty b"
  unfolding cancel_and_confirm_def using confirm_qty cancel_inv cancel_qty by metis

lemma cancel_and_confirm_inv: "binv b \<Longrightarrow> cancel_and_confirm api oid b = (c, b') \<Longrightarrow> binv b'"
  unfolding cancel_and_confirm_def using confirm_inv cancel_inv by blast

text \<open>The clips fill something between nothing and the whole quantity.\<close>

lemma place_clips_bounds:
  "binv b \<Longrightarrow> \<forall>c\<in>set clips. 0 < c \<Longrightarrow> place_clips api d clips s b = (s', b') \<Longrightarrow>
   binv b' \<and> cs_filled s \<le> cs_filled s' \<and> cs_filled s' \<le> cs_filled s + sum_list clips"
proof (induction clips arbitrary: s b)
  case (Cons clip clips)
  have rest: "0 < clip" "\<forall>c\<in>set clips. 0 < c" "0 \<le> sum_list clips"
    using Cons.prems(2) by (auto intro!: sum_list_nonneg)
  have q: "rq_qty (entry_req d clip) = clip" by (simp add: entry_req_def)
  obtain o1 b1 where p: "api_place api (entry_req d clip) b = (o1, b1)" by fastforce
  have b1: "binv b1" using place_inv [OF Cons.prems(1), of "entry_req d clip"] p q rest(1) by simp
  show ?case
  proof (cases o1)
    case None with p b1 Cons.prems(3) rest show ?thesis by auto
  next
    case (Some oid)
    then have oq: "ordered_qty b1 oid = Some clip"
      using place_ok [OF Cons.prems(1), of "entry_req d clip"] p q rest(1) by simp
    obtain st b2 where po: "poll_order api 12 oid no_truth b1 = (st, b2)" by fastforce
    have b2: "binv b2" using poll_inv [OF b1 po] by simp
    show ?thesis
    proof (cases st)
      case None with p Some po b2 Cons.prems(3) rest show ?thesis by auto
    next
      case (Some t)
      have f: "0 \<le> bt_filled t" "bt_filled t \<le> clip"
        using poll_fill [OF b1 oq _ _ po [unfolded Some]] rest(1) by (auto simp: no_truth_def)
      obtain c b3 where cc: "cancel_and_confirm api oid b2 = (c, b3)" by fastforce
      have b3: "binv b3" using cancel_and_confirm_inv [OF b2 cc] .
      show ?thesis
      proof (cases "bt_status t = Some ''COMPLETE''")
        case True
        with Cons.prems(3) p \<open>o1 = Some oid\<close> po Some
        have "place_clips api d clips (s\<lparr>cs_ids := cs_ids s @ [oid], cs_filled := cs_filled s + bt_filled t,
             cs_notional := cs_notional s + of_int (bt_filled t) * bt_avg t\<rparr>) b2 = (s', b')"
          by (simp add: Let_def)
        from Cons.IH [OF b2 rest(2) this] f show ?thesis by simp
      next
        case False
        with Cons.prems(3) p \<open>o1 = Some oid\<close> po Some f b2 b3 cc rest show ?thesis
          by (auto simp: Let_def split: if_splits)
      qed
    qed
  qed
qed auto

end

text \<open>No part of an order stays live at the broker unless the remainder is reported as not dealt with.\<close>

lemma poll_terminal:
  "(bt_status rc = Some x \<Longrightarrow> x \<in> set terminal_broker_states \<Longrightarrow> bt_terminal rc) \<Longrightarrow>
   poll_order api n oid rc b = (Some st, b') \<Longrightarrow> bt_status st = Some x \<Longrightarrow>
   x \<in> set terminal_broker_states \<Longrightarrow> bt_terminal st"
proof (induction n arbitrary: rc b)
  case 0
  then show ?case by (auto simp: terminal_broker_states_def)
next
  case (Suc n)
  have t: "bt_status (reduce_order_history hs) = Some x \<Longrightarrow> x \<in> set terminal_broker_states \<Longrightarrow>
      bt_terminal (reduce_order_history hs)" for hs
    by (simp add: reduce_order_history_def Let_def)
  obtain r b1 where h: "api_history api oid b = (r, b1)" by fastforce
  with Suc.prems(2) obtain hs where r: "r = Some hs" by (cases r) auto
  show ?case
  proof (cases "bt_terminal (reduce_order_history hs)")
    case True with Suc.prems(2) h r show ?thesis by (auto simp: Let_def)
  next
    case False
    with Suc.prems(2) h r have p: "poll_order api n oid (reduce_order_history hs) b1 = (Some st, b')"
      by (simp add: Let_def)
    show ?thesis by (rule Suc.IH [OF _ p Suc.prems(3,4)]) (rule t)
  qed
qed

context broker_settling
begin

lemma settled_step:
  "binv b \<Longrightarrow> settled b i \<Longrightarrow> api_history api oid b = (r, b') \<Longrightarrow> settled b' i"
  using settled_history [of b i oid] by simp

lemma poll_settled: "binv b \<Longrightarrow> settled b i \<Longrightarrow> poll_order api n oid rc b = (st, b') \<Longrightarrow> settled b' i"
proof (induction n arbitrary: rc b)
  case (Suc n)
  obtain r b1 where h: "api_history api oid b = (r, b1)" by fastforce
  with Suc.prems have b1: "binv b1" "settled b1 i" using history_step settled_step by blast+
  with Suc.prems(3) h Suc.IH [OF b1] show ?case
    by (cases r) (auto simp: Let_def split: if_splits)
qed auto

lemma poll_settles:
  "binv b \<Longrightarrow> ordered_qty b oid = Some q \<Longrightarrow> (bt_terminal rc \<or> bt_filled rc = q \<Longrightarrow> settled b oid) \<Longrightarrow>
   poll_order api n oid rc b = (Some st, b') \<Longrightarrow> bt_terminal st \<or> bt_filled st = q \<Longrightarrow> settled b' oid"
proof (induction n arbitrary: rc b)
  case (Suc n)
  obtain r b1 where h: "api_history api oid b = (r, b1)" by fastforce
  with Suc.prems(1) have b1: "binv b1" "ordered_qty b1 = ordered_qty b" using history_step by blast+
  from h Suc.prems(4) obtain hs where r: "r = Some hs" by (cases r) auto
  let ?rc = "reduce_order_history hs"
  have s: "bt_terminal ?rc \<or> bt_filled ?rc = q \<Longrightarrow> settled b1 oid"
    using history_settles [OF Suc.prems(1,2)] h r by (simp add: last_filled_def)
  show ?case
  proof (cases "bt_terminal ?rc")
    case True with Suc.prems(4) h r s show ?thesis by (simp add: Let_def)
  next
    case False
    with Suc.prems(4) h r have "poll_order api n oid ?rc b1 = (Some st, b')" by (simp add: Let_def)
    from Suc.IH [OF b1(1) _ s this Suc.prems(5)] b1(2) Suc.prems(2) show ?thesis by simp
  qed
qed auto

lemma confirm_settled: "binv b \<Longrightarrow> settled b i \<Longrightarrow> confirm_cancel api n oid b = (c, b') \<Longrightarrow> settled b' i"
proof (induction n arbitrary: b)
  case (Suc n)
  obtain r b1 where h: "api_history api oid b = (r, b1)" by fastforce
  with Suc.prems have b1: "binv b1" "settled b1 i" using history_step settled_step by blast+
  with Suc.prems(3) h Suc.IH [OF b1] show ?case by (cases r) (auto split: if_splits)
qed auto

lemma confirm_settles:
  "binv b \<Longrightarrow> ordered_qty b oid = Some q \<Longrightarrow> confirm_cancel api n oid b = (True, b') \<Longrightarrow> settled b' oid"
proof (induction n arbitrary: b)
  case (Suc n)
  obtain r b1 where h: "api_history api oid b = (r, b1)" by fastforce
  with Suc.prems(1) have b1: "binv b1" "ordered_qty b1 = ordered_qty b" using history_step by blast+
  show ?case
  proof (cases r)
    case None with Suc.prems h Suc.IH [OF b1(1)] b1(2) show ?thesis by simp
  next
    case (Some hs)
    with h have "bt_terminal (reduce_order_history hs) \<Longrightarrow> settled b1 oid"
      using history_settles [OF Suc.prems(1,2)] by simp
    with Some Suc.prems h Suc.IH [OF b1(1)] b1(2) show ?thesis by (auto split: if_splits)
  qed
qed auto

lemma cancel_and_confirm_settles:
  "binv b \<Longrightarrow> ordered_qty b oid = Some q \<Longrightarrow> cancel_and_confirm api oid b = (True, b') \<Longrightarrow> settled b' oid"
  unfolding cancel_and_confirm_def using confirm_settles cancel_inv cancel_qty by metis

lemma cancel_and_confirm_settled:
  "binv b \<Longrightarrow> settled b i \<Longrightarrow> cancel_and_confirm api oid b = (c, b') \<Longrightarrow> settled b' i"
  unfolding cancel_and_confirm_def using confirm_settled cancel_inv settled_cancel by blast

lemma place_clips_quiet:
  "binv b \<Longrightarrow> \<forall>c\<in>set clips. 0 < c \<Longrightarrow> quiet b \<Longrightarrow>
   place_clips api d clips s b = (s', b') \<Longrightarrow> cs_dealt s' \<Longrightarrow> quiet b'"
proof (induction clips arbitrary: s b)
  case (Cons clip clips)
  let ?D = "dom (ordered_qty b)"
  have rest: "0 < clip" "\<forall>c\<in>set clips. 0 < c" using Cons.prems(2) by auto
  have q: "rq_qty (entry_req d clip) = clip" by (simp add: entry_req_def)
  obtain o1 b1 where p: "api_place api (entry_req d clip) b = (o1, b1)" by fastforce
  have b1: "binv b1" using place_inv [OF Cons.prems(1), of "entry_req d clip"] p q rest(1) by simp
  have s1: "\<forall>i\<in>?D. settled b1 i"
    using Cons.prems(1,3) settled_place [of b _ "entry_req d clip"] p
    unfolding quiet_def by (metis snd_conv)
  from p Cons.prems(4,5) obtain oid where oid: "o1 = Some oid" by (cases o1) auto
  have oq: "ordered_qty b1 = (ordered_qty b)(oid \<mapsto> clip)"
    using place_ok [OF Cons.prems(1), of "entry_req d clip"] p q rest(1) oid by simp
  then have oq1: "ordered_qty b1 oid = Some clip" by simp
  obtain st b2 where po: "poll_order api 12 oid no_truth b1 = (st, b2)" by fastforce
  have b2: "binv b2" "ordered_qty b2 oid = Some clip" and d2: "dom (ordered_qty b2) = insert oid ?D"
    using poll_inv [OF b1 po] oq by auto
  from p oid po Cons.prems(4,5) obtain t where t: "st = Some t" by (cases st) auto
  have s2: "\<forall>i\<in>?D. settled b2 i" using s1 poll_settled [OF b1 _ po] by blast
  have fin: "bt_terminal t \<or> bt_filled t = clip \<Longrightarrow> quiet b2"
    using poll_settles [OF b1 oq1 _ po [unfolded t]] rest(1) s2 d2
    by (auto simp: no_truth_def quiet_def)
  have f: "bt_filled t \<le> clip"
    using poll_fill [OF b1 oq1 _ _ po [unfolded t]] rest(1) by (auto simp: no_truth_def)
  have tmn: "bt_status t = Some x \<Longrightarrow> x \<in> set terminal_broker_states \<Longrightarrow> bt_terminal t" for x
    using poll_terminal [OF _ po [unfolded t]] by (simp add: no_truth_def)
  obtain c b3 where cc: "cancel_and_confirm api oid b2 = (c, b3)" by fastforce
  have fin3: "c \<Longrightarrow> quiet b3"
    using s2 cancel_and_confirm_settled [OF b2(1) _ cc] cancel_and_confirm_settles [OF b2]
      cancel_and_confirm_qty [OF b2(1) cc] cc d2
    unfolding quiet_def by auto
  let ?s = "s\<lparr>cs_ids := cs_ids s @ [oid], cs_filled := cs_filled s + bt_filled t,
       cs_notional := cs_notional s + of_int (bt_filled t) * bt_avg t\<rparr>"
  consider (complete) "bt_status t = Some ''COMPLETE''"
    | (rejected) "bt_status t \<noteq> Some ''COMPLETE''" "bt_status t = Some ''REJECTED'' \<and> \<not> transient (bt_reason t)"
    | (cancelled) "bt_status t \<noteq> Some ''COMPLETE''" "\<not> (bt_status t = Some ''REJECTED'' \<and> \<not> transient (bt_reason t))"
        "bt_filled t < clip"
    | (full) "bt_status t \<noteq> Some ''COMPLETE''" "\<not> (bt_status t = Some ''REJECTED'' \<and> \<not> transient (bt_reason t))"
        "\<not> bt_filled t < clip"
    by blast
  then show ?case
  proof cases
    case complete
    with Cons.prems(4) p oid po t have r: "place_clips api d clips ?s b2 = (s', b')"
      by (simp add: Let_def)
    from complete fin tmn have "quiet b2" by (simp add: terminal_broker_states_def)
    from Cons.IH [OF b2(1) rest(2) this r Cons.prems(5)] show ?thesis .
  next
    case rejected
    with Cons.prems(4) p oid po t have "b' = b2" by (auto simp: Let_def)
    with fin tmn rejected show ?thesis by (simp add: terminal_broker_states_def)
  next
    case cancelled
    with Cons.prems(4) p oid po t cc
    have "s' = ?s\<lparr>cs_dealt := cs_dealt s \<and> c\<rparr>" "b' = b3"
      by (auto simp: Let_def)
    with fin3 Cons.prems(5) show ?thesis by simp
  next
    case full
    with Cons.prems(4) p oid po t have "b' = b2" by (auto simp: Let_def)
    with fin f full show ?thesis by simp
  qed
qed auto

end

section \<open>The gates\<close>

lemma execute_blocked:
  assumes "state_flag ''engine_halted'' (w_config w) \<or> state_flag ''kill_switch_active'' (w_config w)
     \<or> state_flag ''block_new_entries'' (w_config w)"
  shows "\<exists>why. execute env d force w = (rejected_result why, w)"
  using assms by (auto simp: execute_def order_allowed_def)

lemma execute_cases:
  assumes "execute env d force w = (res, w')"
  obtains (rejected) why where "res = rejected_result why" "w' = w"
    | (live) "current_mode env w = LIVE" "execute_live env d w = (res, w')"
    | (sim) "current_mode env w \<noteq> LIVE" "execute_sim env d force w = (res, w')"
  using assms by (auto simp: execute_def split: if_splits)

section \<open>What a bracket does to the world\<close>

text \<open>A row up to its raw column, which an entry's bracket and a close's mark rewrite.\<close>

definition same_row :: "book_row \<Rightarrow> book_row \<Rightarrow> bool" where
  "same_row r r' \<longleftrightarrow> r'\<lparr>b_raw := b_raw r\<rparr> = r"

lemma same_row_refl [simp]: "same_row r r"
  by (simp add: same_row_def)

lemma same_row_raw [simp]: "same_row r (r\<lparr>b_raw := x\<rparr>)"
  by (simp add: same_row_def)

lemma same_row_fields:
  assumes "same_row r r'"
  shows "pos_id r' = pos_id r" "qty r' = qty r" "pos_status r' = pos_status r" "side r' = side r"
    "mode r' = mode r" "average_price r' = average_price r" "instrument_token r' = instrument_token r"
  using assms by (cases r; cases r'; simp add: same_row_def)+

lemma find_row_record_bracket [simp]: "find_row j (record_bracket i g t lo hi b) = find_row j b"
  by (simp add: record_bracket_def)

lemma book_ok_record_bracket [simp]: "book_ok (record_bracket i g t lo hi b) = book_ok b"
  by (simp add: record_bracket_def)

lemma book_ok_attach_bracket: "book_ok b \<Longrightarrow> book_ok (attach_bracket i br b)"
  by (auto simp: attach_bracket_def intro!: book_ok_update)

lemma create_bracket_config [simp]: "w_config (snd (create_bracket env d f i m w)) = w_config w"
  by (auto simp: create_bracket_def Let_def split: option.split prod.split)

lemma create_bracket_guards [simp]:
  "w_guards (snd (create_bracket env d f i m w)) = arm (bracket_guard env d f i) (w_guards w)"
  by (auto simp: create_bracket_def Let_def split: option.split prod.split)

lemma create_bracket_book_ok:
  "book_ok (w_book w) \<Longrightarrow> book_ok (w_book (snd (create_bracket env d f i m w)))"
  by (auto simp: create_bracket_def Let_def intro!: book_ok_attach_bracket split: option.split prod.split)

lemma create_bracket_other:
  "j \<noteq> i \<Longrightarrow> find_row j (w_book (snd (create_bracket env d f i m w))) = find_row j (w_book w)"
  by (cases "find_row j (w_book w)")
    (auto simp: create_bracket_def Let_def attach_bracket_def find_row_update split: option.split prod.split)

lemma create_bracket_row:
  "find_row i (w_book w) = Some r \<Longrightarrow>
   \<exists>r'. find_row i (w_book (snd (create_bracket env d f i m w))) = Some r' \<and> same_row r r'"
  by (auto simp: create_bracket_def Let_def attach_bracket_def find_row_update split: option.split prod.split)

lemma create_bracket_broker:
  "w_broker (snd (create_bracket env d f i m w)) = w_broker w
   \<or> m = LIVE \<and> (\<exists>ord. w_broker (snd (create_bracket env d f i m w)) = snd (api_place_oco (e_api env) ord (w_broker w)))"
  by (auto simp: create_bracket_def Let_def split: option.split prod.split) (metis snd_conv)+

section \<open>Entries\<close>

lemma flag_unsafe_fields [simp]:
  "w_book (flag_unsafe_entry w) = w_book w" "w_broker (flag_unsafe_entry w) = w_broker w"
  "w_guards (flag_unsafe_entry w) = w_guards w" "state_flag ''block_new_entries'' (w_config (flag_unsafe_entry w))"
  by (simp_all add: flag_unsafe_entry_def)

lemma persist_order_fields [simp]:
  "book_ok (persist_order_fill d f m out oid b) = book_ok b"
  "find_row j (persist_order_fill d f m out oid b) = find_row j b"
  by (simp_all add: persist_order_fill_def)

text \<open>What an entry that filled leaves behind.\<close>

definition entry_done :: "'b env \<Rightarrow> decision \<Rightarrow> string \<Rightarrow> exec_result \<Rightarrow> ('b, 'z) world_scheme \<Rightarrow> ('b, 'z) world_scheme \<Rightarrow> bool" where
  "entry_done env d m res w w' \<longleftrightarrow>
    (\<exists>i r. er_pid res = Some i \<and> i = next_id (w_book w) \<and> find_row i (w_book w') = Some r
      \<and> pos_status r = Open \<and> qty r = Some (er_filled res) \<and> average_price r = Some (er_avg res)
      \<and> side r = d_side d \<and> mode r = m
      \<and> guards (w_guards w') i = Some (bracket_guard env d
            \<lparr>f_qty = er_filled res, f_price = er_avg res, f_fees = []\<rparr> i)
      \<and> (\<forall>j. j \<noteq> i \<longrightarrow> find_row j (w_book w') = find_row j (w_book w) \<and> guards (w_guards w') j = guards (w_guards w) j))"

lemma bracket_guard_fees: "bracket_guard env d (f\<lparr>f_fees := x\<rparr>) i = bracket_guard env d f i"
  by (simp add: bracket_guard_def Let_def)

lemma guards_arm [simp]: "guards (arm g m) = (guards m)(g_id g \<mapsto> g)"
  by (simp add: arm_def)

lemma g_id_bracket_guard [simp]: "g_id (bracket_guard env d f i) = i"
  by (simp add: bracket_guard_def Let_def)

lemma open_position_fst: "fst (open_position acct d f m b) = next_id b"
  by (simp add: open_position_def Let_def)

text \<open>The common tail of both entries: book the fill, persist it, arm the bracket.\<close>

lemma entry_tail:
  assumes "book_ok (w_book w0)" "open_position acct d f m (w_book w0) = (i, bk)"
    and w1: "w1 = w0\<lparr>w_broker := b', w_book := persist_order_fill d f m out oid bk\<rparr>"
    and cb: "create_bracket env d f i m w1 = (br, w2)"
    and book: "w_book w' = w_book w2" and grd: "w_guards w' = w_guards w2"
    and res: "er_pid res = Some i" "er_filled res = f_qty f" "er_avg res = f_price f"
  shows "entry_done env d m res w0 w'" "book_ok (w_book w')"
proof -
  have i: "i = next_id (w_book w0)" using assms(2) open_position_fst by (metis fst_conv)
  obtain r where r: "find_row i bk = Some r" "pos_status r = Open" "qty r = Some (f_qty f)"
      "average_price r = Some (f_price f)" "side r = d_side d" "mode r = m"
    using open_position_find [OF assms(1), of acct d f m] assms(2) by auto
  then have "find_row i (w_book w1) = Some r" using w1 by simp
  then obtain r' where r': "find_row i (w_book w2) = Some r'" "same_row r r'"
    using create_bracket_row [of i w1 r env d f m] cb by auto
  have oth: "find_row j (w_book w2) = find_row j (w_book w0)" if "j \<noteq> i" for j
    using create_bracket_other [of j i env d f m w1] cb that w1 i
      open_position_find_other [of j "w_book w0" acct d f m] assms(2) by simp
  have "w_guards w2 = arm (bracket_guard env d f i) (w_guards w0)"
    using create_bracket_guards [of env d f i m w1, unfolded cb] w1 by simp
  moreover have "bracket_guard env d f i = bracket_guard env d \<lparr>f_qty = f_qty f, f_price = f_price f, f_fees = []\<rparr> i"
    by (simp add: bracket_guard_def Let_def)
  ultimately show "entry_done env d m res w0 w'"
    unfolding entry_done_def
    using i r r' same_row_fields [OF r'(2)] oth book grd res
    by (intro exI [of _ i] exI [of _ r']) simp
  have "book_ok bk" using open_position_ok [OF assms(1), of acct d f m] assms(2) by simp
  then show "book_ok (w_book w')"
    using create_bracket_book_ok [of w1 env d f i m] cb w1 book by simp
qed

lemma settle_live_done:
  assumes "book_ok (w_book w)" "settle_live env d s w = (res, w')"
  shows "er_filled res = cs_filled s" "er_state res = Some (entry_outcome (cs_filled s) (d_qty d) (cs_dealt s) True)"
    "if 0 < cs_filled s then entry_done env d LIVE res w w' else er_pid res = None \<and> w_book w' = w_book w \<and> w_guards w' = w_guards w"
    "book_ok (w_book w')"
    "the (er_state res) \<in> set UNSAFE_STATES \<Longrightarrow> state_flag ''block_new_entries'' (w_config w')"
    "w_broker w' = w_broker w \<or> (\<exists>ord. w_broker w' = snd (api_place_oco (e_api env) ord (w_broker w)))"
proof -
  have eo: "entry_outcome n q rem True = entry_outcome n q rem b \<or> 0 < n" for n q rem b
    by (simp add: entry_outcome_def)
  let ?P = "er_filled res = cs_filled s \<and> er_state res = Some (entry_outcome (cs_filled s) (d_qty d) (cs_dealt s) True)
    \<and> (if 0 < cs_filled s then entry_done env d LIVE res w w' else er_pid res = None \<and> w_book w' = w_book w \<and> w_guards w' = w_guards w)
    \<and> book_ok (w_book w') \<and> (the (er_state res) \<in> set UNSAFE_STATES \<longrightarrow> state_flag ''block_new_entries'' (w_config w'))
    \<and> (w_broker w' = w_broker w \<or> (\<exists>ord. w_broker w' = snd (api_place_oco (e_api env) ord (w_broker w))))"
  have ?P
  proof (cases "0 < cs_filled s")
    case False
    then have "entry_outcome (cs_filled s) (d_qty d) (cs_dealt s) False = entry_outcome (cs_filled s) (d_qty d) (cs_dealt s) True"
      by (simp add: entry_outcome_def)
    with assms False show ?thesis
      unfolding settle_live_def Let_def by (auto simp: rejected_result_def split: if_splits)
  next
    case True
    define avg where "avg = py_round 2 (cs_notional s / of_int (cs_filled s))"
    define oid where "oid = (case cs_ids s of [] \<Rightarrow> None | i # _ \<Rightarrow> Some i)"
    define f where "f = \<lparr>f_qty = cs_filled s, f_price = avg, f_fees = compute_leg (e_costs env)
         (segment_key (d_sleeve d) (in_type (d_instrument d))) (d_side d) (cs_filled s) avg\<rparr>"
    define out where "out = (if cs_filled s < d_qty d then O_PARTIAL else O_FILLED)"
    obtain i bk where op: "open_position (active_account env w) d f LIVE (w_book w) = (i, bk)" by fastforce
    define w1 where "w1 = w\<lparr>w_book := persist_order_fill d f LIVE out oid bk\<rparr>"
    obtain br w2 where cb: "create_bracket env d f i LIVE w1 = (br, w2)" by fastforce
    define st where "st = entry_outcome (cs_filled s) (d_qty d) (cs_dealt s) True"
    have w': "w' = (if st \<in> set UNSAFE_STATES then flag_unsafe_entry w2 else w2)"
      and res: "res = \<lparr>er_outcome = out, er_filled = cs_filled s, er_avg = avg, er_fees = fee_total (f_fees f),
            er_pid = Some i, er_oid = oid, er_bracket = Some br, er_state = Some st, er_reason = []\<rparr>"
      using assms(2) True op cb
      by (auto simp: settle_live_def Let_def avg_def [symmetric] oid_def [symmetric] f_def [symmetric]
          out_def [symmetric] w1_def [symmetric] st_def [symmetric]) (simp add: f_def)
    have w1': "w1 = w\<lparr>w_broker := w_broker w, w_book := persist_order_fill d f LIVE out oid bk\<rparr>"
      by (simp add: w1_def)
    have "w_book w' = w_book w2" "w_guards w' = w_guards w2" "w_broker w' = w_broker w2" by (simp_all add: w')
    moreover from this entry_tail [OF assms(1) op w1' cb, of w' res]
    have "entry_done env d LIVE res w w'" "book_ok (w_book w')" by (simp_all add: res f_def)
    moreover have "w_broker w2 = w_broker w \<or> (\<exists>ord. w_broker w2 = snd (api_place_oco (e_api env) ord (w_broker w)))"
      using create_bracket_broker [of env d f i LIVE w1] cb by (auto simp: w1_def)
    ultimately show ?thesis using True by (simp add: res st_def w')
  qed
  then show "er_filled res = cs_filled s" "er_state res = Some (entry_outcome (cs_filled s) (d_qty d) (cs_dealt s) True)"
    "if 0 < cs_filled s then entry_done env d LIVE res w w' else er_pid res = None \<and> w_book w' = w_book w \<and> w_guards w' = w_guards w"
    "book_ok (w_book w')"
    "the (er_state res) \<in> set UNSAFE_STATES \<Longrightarrow> state_flag ''block_new_entries'' (w_config w')"
    "w_broker w' = w_broker w \<or> (\<exists>ord. w_broker w' = snd (api_place_oco (e_api env) ord (w_broker w)))"
    by blast+
qed

lemma entry_meta_live_qty: "entry_meta_block_reason ''live'' q px inst ot today = None \<Longrightarrow> 0 < q"
  by (simp add: entry_meta_block_reason_def validate_ok_iff split: if_splits)

lemma execute_live_cases:
  assumes "execute_live env d w = (res, w')"
  obtains (rejected) why where "res = rejected_result why" "w' = w"
    | (placed) s b' where "0 < d_qty d" "exit_product_supported (in_exchange (d_instrument d)) (Some (d_product d))"
        "place_clips (e_api env) d (slice_order (d_qty d) (freeze_limit env)) clip_start (w_broker w) = (s, b')"
        "settle_live env d s (w\<lparr>w_broker := b'\<rparr>) = (res, w')"
proof -
  obtain s b' where p: "place_clips (e_api env) d (slice_order (d_qty d) (freeze_limit env)) clip_start (w_broker w) = (s, b')"
    by fastforce
  from assms p show thesis
    using entry_meta_live_qty rejected placed unfolding execute_live_def
    by (auto split: if_splits)
qed

lemma entry_done_broker: "entry_done env d m res (w\<lparr>w_broker := b\<rparr>) w' = entry_done env d m res w w'"
  by (simp add: entry_done_def)

context broker_lifecycle
begin

lemma execute_live_facts:
  assumes "api = e_api env" "binv (w_broker w)" "book_ok (w_book w)" "execute_live env d w = (res, w')"
  shows "0 \<le> er_filled res \<and> er_filled res \<le> max 0 (d_qty d)
    \<and> (if 0 < er_filled res then entry_done env d LIVE res w w'
        else er_pid res = None \<and> w_book w' = w_book w \<and> w_guards w' = w_guards w)
    \<and> book_ok (w_book w')"
  using assms(4)
proof (cases rule: execute_live_cases)
  case (rejected why)
  with assms(3) show ?thesis by (simp add: rejected_result_def)
next
  case (placed s b')
  have "0 \<le> cs_filled s" "cs_filled s \<le> d_qty d"
    using place_clips_bounds [OF assms(2) slice_order_pos [OF placed(1)] placed(3) [folded assms(1)]]
    by (simp_all add: clip_start_def slice_order_sum)
  with placed(1) settle_live_done [OF _ placed(4)] assms(3) show ?thesis
    by (auto simp: entry_done_broker split: if_splits)
qed

end

context broker_settling
begin

lemma execute_live_quiet:
  assumes "api = e_api env" "binv (w_broker w)" "book_ok (w_book w)" "execute_live env d w = (res, w')"
    "quiet (w_broker w)" "er_state res = Some st" "st \<notin> set UNSAFE_STATES"
  shows "quiet (w_broker w')"
  using assms(4)
proof (cases rule: execute_live_cases)
  case (rejected why)
  with assms show ?thesis by simp
next
  case (placed s b')
  note p = placed(3) [folded assms(1)]
  have b': "binv b'"
    using place_clips_bounds [OF assms(2) slice_order_pos [OF placed(1)] p] by simp
  have "st = entry_outcome (cs_filled s) (d_qty d) (cs_dealt s) True"
    using settle_live_done(2) [OF _ placed(4)] assms(3,6) by simp
  with assms(7) have "cs_dealt s" by (simp add: entry_outcome_safe_iff)
  then have q: "quiet b'"
    using place_clips_quiet [OF assms(2) slice_order_pos [OF placed(1)] assms(5) p] by simp
  show ?thesis
    using settle_live_done(6) [OF _ placed(4)] assms(1,3) q oco_qty [OF b'] settled_oco [OF b']
    by (auto simp: quiet_def dom_def)
qed

end

lemma execute_sim_facts:
  assumes "book_ok (w_book w)" "execute_sim env d force w = (res, w')"
  shows "(er_pid res = None \<and> er_filled res = 0 \<and> w_book w' = w_book w \<and> w_guards w' = w_guards w
       \<or> entry_done env d PAPER res w w') \<and> book_ok (w_book w')"
proof -
  obtain reply b1 where q: "quote_one env (in_exchange (d_instrument d), in_symbol (d_instrument d)) (w_broker w) = (reply, b1)"
    by fastforce
  show ?thesis
  proof (cases "simulate (e_costs env) (e_slip env) reply d force")
    case None
    with assms q show ?thesis by (auto simp: execute_sim_def rejected_result_def)
  next
    case (Some f)
    obtain i bk where op: "open_position None d f PAPER (w_book w) = (i, bk)" by fastforce
    define out where "out = (case force of Some q \<Rightarrow> if q \<noteq> 0 \<and> q < d_qty d then O_PARTIAL else O_FILLED
                             | None \<Rightarrow> O_FILLED)"
    define w1 where "w1 = w\<lparr>w_broker := b1, w_book := persist_order_fill d f PAPER out None bk\<rparr>"
    obtain br w2 where cb: "create_bracket env d f i PAPER w1 = (br, w2)" by fastforce
    have "w' = w2" "er_pid res = Some i" "er_filled res = f_qty f" "er_avg res = f_price f"
      using assms(2) q Some op cb by (auto simp: execute_sim_def Let_def out_def w1_def)
    with entry_tail [OF assms(1) op w1_def cb, of w' res] show ?thesis by simp
  qed
qed

lemma execute_sim_state: "execute_sim env d force w = (res, w') \<Longrightarrow> er_state res = None"
  by (auto simp: execute_sim_def rejected_result_def Let_def split_def split: option.splits)

section \<open>Exits\<close>

lemma guards_disarm [simp]: "guards (disarm i m) = (guards m)(i := None)"
  by (cases "guards m i") (auto simp: disarm_def)

lemma cancel_bracket_fields [simp]:
  "w_book (cancel_bracket env r w) = w_book w" "w_guards (cancel_bracket env r w) = w_guards w"
  "w_config (cancel_bracket env r w) = w_config w"
  by (simp_all add: cancel_bracket_def split: option.split)

lemma reentry_cooldown_fields [simp]:
  "w_book (reentry_cooldown env r w) = w_book w" "w_guards (reentry_cooldown env r w) = w_guards w"
  "w_config (reentry_cooldown env r w) = w_config w" "w_broker (reentry_cooldown env r w) = w_broker w"
  by (simp_all add: reentry_cooldown_def set_cooldown_def split: option.split)

text \<open>A full close: the row of the position becomes closed, with the P\&L that is returned.\<close>

definition closed_as :: "pid \<Rightarrow> rupees \<Rightarrow> book \<Rightarrow> book \<Rightarrow> bool" where
  "closed_as i pnl b b' \<longleftrightarrow>
    (\<exists>r r'. find_row i b = Some r \<and> find_row i b' = Some r' \<and> pos_status r' = Closed
      \<and> b_realized r' = pnl \<and> b_unrealized r' = 0 \<and> qty r' = qty r \<and> side r' = side r)"

definition parked :: "pid \<Rightarrow> book \<Rightarrow> bool" where
  "parked i b \<longleftrightarrow> (\<exists>r. find_row i b = Some r \<and> pos_status r = Close_Pending) \<and> i \<notin> redis_open b"

lemma close_position_closed_as:
  assumes "close_position i px f why b = (Some pnl, b')"
  shows "closed_as i pnl b b' \<and> i \<notin> redis_open b'"
proof -
  from assms have "fst (close_position i px f why b) = Some pnl" by simp
  then obtain r where r: "find_row i b = Some r" and s: "pos_status r = Open \<or> pos_status r = Close_Pending"
    "pnl = realized_of r px f"
    "find_row i (snd (close_position i px f why b)) = Some (r\<lparr>pos_status := Closed, b_realized := pnl,
       b_unrealized := 0, b_raw := (b_raw r)\<lparr>rw_exit := Some (px, f, why,
         py_round 2 (gross_pnl (side r) (row_avg r) px (row_qty r)))\<rparr>\<rparr>)"
    by (rule close_position_Some)
  moreover have "i \<notin> redis_open b'"
    using assms r s by (auto simp: close_position_def Let_def)
  ultimately show ?thesis using assms by (simp add: closed_as_def)
qed

lemma close_position_open_Some:
  "find_row i b = Some r \<Longrightarrow> pos_status r = Open \<or> pos_status r = Close_Pending \<Longrightarrow>
   fst (close_position i px f why b) = Some (realized_of r px f)"
  by (auto simp: close_position_def Let_def)

lemma closed_as_append_event [simp]:
  "closed_as i pnl b (append_event i ty ts nf rl b') = closed_as i pnl b b'"
  by (simp add: closed_as_def)

lemma redis_open_append_event [simp]: "redis_open (append_event i ty ts nf rl b) = redis_open b"
  by (simp add: append_event_def)

lemma parked_mark:
  "find_row i b = Some r \<Longrightarrow> parked i (append_event i ty ts nf rl (mark_close_pending i oid why b))"
  by (simp add: parked_def find_row_mark_pending) (simp add: mark_close_pending_def)

lemma do_live_exit_cases:
  assumes "find_row i (w_book w) = Some r0" "do_live_exit env i r why w = (pnl, w')"
  shows "case pnl of None \<Rightarrow> parked i (w_book w') \<or> (pos_status r0 \<noteq> Open \<and> pos_status r0 \<noteq> Close_Pending)
    | Some p \<Rightarrow> closed_as i p (w_book w) (w_book w') \<and> i \<notin> redis_open (w_book w')
        \<and> (\<exists>nf b'. market_exit env r (w_broker w) = (Some nf, b') \<and> nf_status nf = E_COMPLETE
              \<and> row_qty r \<le> nf_filled nf \<and> p = realized_of r0 (nf_avg nf) (nf_fees nf))"
proof -
  obtain m b' where me: "market_exit env r (w_broker w) = (m, b')" by fastforce
  show ?thesis
  proof (cases m)
    case None
    with assms me parked_mark [OF assms(1)] show ?thesis by (auto simp: do_live_exit_def)
  next
    case (Some nf)
    obtain p bk where cp: "close_position i (nf_avg nf) (nf_fees nf) why (w_book w) = (p, bk)" by fastforce
    show ?thesis
    proof (cases "close_books_fully (nf_status nf) (nf_filled nf) (row_qty r)")
      case False
      with assms me Some parked_mark [OF assms(1)] show ?thesis by (auto simp: do_live_exit_def)
    next
      case True
      with assms(2) me Some cp have r: "pnl = p" "w_book w' = append_event i EV_FULL_CLOSE (e_now env) (Some nf) None bk"
        by (auto simp: do_live_exit_def)
      show ?thesis
      proof (cases p)
        case None
        with cp have "fst (close_position i (nf_avg nf) (nf_fees nf) why (w_book w)) = None" by simp
        with assms(1) have "pos_status r0 \<noteq> Open \<and> pos_status r0 \<noteq> Close_Pending"
          unfolding close_position_None by simp
        with r None show ?thesis by simp
      next
        case (Some x)
        with close_position_closed_as [of i _ _ _ _ x bk] cp
        have c: "closed_as i x (w_book w) bk \<and> i \<notin> redis_open bk" by blast
        from close_position_Some [of i "nf_avg nf" "nf_fees nf" why "w_book w" x] cp Some assms(1)
        have "x = realized_of r0 (nf_avg nf) (nf_fees nf)" by auto
        with c r Some True me \<open>m = Some nf\<close> show ?thesis by (auto simp: close_books_fully_def)
      qed
    qed
  qed
qed

text \<open>Nothing but the row of the position changes.\<close>

definition others_kept :: "pid \<Rightarrow> book \<Rightarrow> book \<Rightarrow> bool" where
  "others_kept i b b' \<longleftrightarrow> (\<forall>j. j \<noteq> i \<longrightarrow> find_row j b' = find_row j b)"

lemma others_kept_refl [simp]: "others_kept i b b"
  by (simp add: others_kept_def)

lemma others_kept_close: "others_kept i b (snd (close_position i px f why b))"
  by (simp add: others_kept_def close_position_def Let_def find_row_update option.map_ident split: option.split)

lemma others_kept_mark [simp]: "others_kept i b (mark_close_pending i oid why b') = others_kept i b b'"
  by (simp add: others_kept_def find_row_mark_pending option.map_ident cong: option.map_cong)

lemma others_kept_event [simp]: "others_kept i b (append_event j ty ts nf rl b') = others_kept i b b'"
  by (simp add: others_kept_def)

lemma others_kept_bracket [simp]: "others_kept i b (set_bracket_state j st ls b') = others_kept i b b'"
  by (simp add: others_kept_def)

lemma others_kept_bracket2 [simp]: "others_kept i (set_bracket_state j st ls b) b' = others_kept i b b'"
  by (simp add: others_kept_def)

lemma do_live_exit_others: "others_kept i (w_book w) (w_book (snd (do_live_exit env i r why w)))"
proof -
  obtain m b' where me: "market_exit env r (w_broker w) = (m, b')" by fastforce
  show ?thesis
  proof (cases m)
    case None with me show ?thesis by (simp add: do_live_exit_def)
  next
    case (Some nf)
    obtain p bk where cp: "close_position i (nf_avg nf) (nf_fees nf) why (w_book w) = (p, bk)" by fastforce
    then have "others_kept i (w_book w) bk"
      using others_kept_close [of i "w_book w" "nf_avg nf" "nf_fees nf" why] by simp
    with me Some cp show ?thesis by (simp add: do_live_exit_def)
  qed
qed

lemma do_live_exit_guards [simp]:
  "w_guards (snd (do_live_exit env i r why w)) = w_guards w"
  "w_config (snd (do_live_exit env i r why w)) = w_config w"
  by (simp_all add: do_live_exit_def split: option.split prod.split)

lemma closed_as_bracket_state [simp]:
  "closed_as i p (set_bracket_state j st ls b) b' = closed_as i p b b'"
  by (simp add: closed_as_def)

lemma close_live_cases:
  assumes "find_row i (w_book w) = Some r" "pos_status r = Open" "close_live env i r why w = (pnl, w')"
  shows "(case pnl of None \<Rightarrow> parked i (w_book w')
    | Some p \<Rightarrow> closed_as i p (w_book w) (w_book w') \<and> i \<notin> redis_open (w_book w')
        \<and> (\<exists>nf b b'. market_exit env r b = (Some nf, b') \<and> nf_status nf = E_COMPLETE
              \<and> row_qty r \<le> nf_filled nf \<and> p = realized_of r (nf_avg nf) (nf_fees nf)))
    \<and> others_kept i (w_book w) (w_book w') \<and> w_guards w' = w_guards w \<and> w_config w' = w_config w"
proof -
  define w2 where "w2 = (cancel_bracket env r w)\<lparr>w_book := set_bracket_state i BRACKET_CANCELLED (Some ''closed'') (w_book w)\<rparr>"
  obtain bq b' where bn: "broker_net_qty env (instrument_token r) (w_broker w2) = (bq, b')" by fastforce
  define w3 where "w3 = w2\<lparr>w_broker := b'\<rparr>"
  have r3: "find_row i (w_book w3) = Some r" and o3: "w_guards w3 = w_guards w" "w_config w3 = w_config w"
    "others_kept i (w_book w3) b2 = others_kept i (w_book w) b2"
    "closed_as i p (w_book w3) b2 = closed_as i p (w_book w) b2" for b2 p
    using assms(1) by (simp_all add: w3_def w2_def)
  show ?thesis
  proof (cases "case bq of None \<Rightarrow> False | Some n \<Rightarrow> duplicate_exit_risk n")
    case True
    then have "pnl = None" "w' = w3\<lparr>w_book := append_event i EV_CLOSE_PENDING (e_now env) None None
        (mark_close_pending i None ''broker already flat (bracket filled)'' (w_book w3))\<rparr>"
      using assms(3) bn unfolding close_live_def w3_def w2_def Let_def by simp_all
    moreover have "others_kept i (w_book w) (w_book w3)" by (simp add: w3_def w2_def)
    ultimately show ?thesis using parked_mark [OF r3] o3 by simp
  next
    case False
    then have d: "do_live_exit env i r why w3 = (pnl, w')"
      using assms(3) bn unfolding close_live_def w3_def w2_def Let_def by simp
    have "others_kept i (w_book w) (w_book w')"
      using do_live_exit_others [of i w3 env r why] d o3 by simp
    moreover have "w_guards w' = w_guards w" "w_config w' = w_config w"
      using do_live_exit_guards [of env i r why w3] d o3 by simp_all
    ultimately show ?thesis
      using do_live_exit_cases [OF r3 d] assms(2) o3 by (cases pnl) auto
  qed
qed

lemma close_sim_cases:
  assumes "find_row i (w_book w) = Some r" "pos_status r = Open" "close_sim env i r why price fb w = (pnl, w')"
  shows "\<exists>p px fs. pnl = Some p \<and> p = realized_of r px fs \<and> closed_as i p (w_book w) (w_book w')
    \<and> i \<notin> redis_open (w_book w') \<and> others_kept i (w_book w) (w_book w')
    \<and> w_guards w' = w_guards w \<and> w_config w' = w_config w"
proof -
  obtain px b' where x: "(if truthy price then (get_default price 0, w_broker w)
           else case sim_exit_price env r (w_broker w) of
             (p, b1) \<Rightarrow> (py_or p (py_or fb (row_avg r)), b1)) = (px, b')" by fastforce
  define fs where "fs = compute_leg (e_costs env) (segment_key (get_default (sleeve r) [])
      (Option.bind (lookup_instrument env (instrument_token r)) in_type)) (opposite (side r)) (row_qty r) px"
  obtain p bk where cp: "close_position i px fs why (w_book w) = (p, bk)" by fastforce
  then have r: "pnl = p" "w' = w\<lparr>w_broker := b', w_book := bk\<rparr>"
    using assms(3) x unfolding close_sim_def Let_def fs_def by auto
  have p: "p = Some (realized_of r px fs)"
    using close_position_open_Some [OF assms(1), of px fs why] assms(2) cp by simp
  with close_position_closed_as [of i px fs why "w_book w"] cp others_kept_close [of i "w_book w" px fs why] r
  show ?thesis by auto
qed

lemma close_not_open:
  "(\<And>r. find_row i (w_book w) = Some r \<Longrightarrow> pos_status r \<noteq> Open) \<Longrightarrow> close env i why price fb w = (None, w)"
  by (simp add: close_def split: option.split)

lemma close_open_cases:
  assumes "find_row i (w_book w) = Some r" "pos_status r = Open" "close env i why price fb w = (pnl, w')"
  shows "(case pnl of None \<Rightarrow> current_mode env w = LIVE \<and> parked i (w_book w')
      | Some p \<Rightarrow> closed_as i p (w_book w) (w_book w') \<and> i \<notin> redis_open (w_book w'))
    \<and> others_kept i (w_book w) (w_book w') \<and> w_guards w' = disarm i (w_guards w) \<and> w_config w' = w_config w"
proof (cases "current_mode env w = LIVE")
  case True
  obtain p w1 where c: "close_live env i r why w = (p, w1)" by fastforce
  with assms True show ?thesis
    using close_live_cases [OF assms(1,2) c] by (auto simp: close_def split: option.splits)
next
  case False
  obtain p w1 where c: "close_sim env i r why price fb w = (p, w1)" by fastforce
  with assms False show ?thesis
    using close_sim_cases [OF assms(1,2) c] by (auto simp: close_def)
qed

section \<open>Pending closes\<close>

lemma close_position_others:
  "j \<noteq> i \<Longrightarrow> find_row j (snd (close_position i px f why b)) = find_row j b"
  using others_kept_close [of i b px f why] by (simp add: others_kept_def)

lemma resolve_one_others:
  assumes "pos_id r \<noteq> i"
  shows "find_row i (w_book (snd (resolve_one env (n, w) r))) = find_row i (w_book w)"
proof (cases "Option.bind (rw_close_pending (b_raw r)) fst")
  case (Some oid)
  obtain st b' where p: "poll_order (e_api env) 1 oid no_truth (w_broker w) = (st, b')" by fastforce
  show ?thesis
  proof (cases st)
    case None with Some p show ?thesis by (simp add: resolve_one_def)
  next
    case (Some t)
    with p \<open>Option.bind (rw_close_pending (b_raw r)) fst = Some oid\<close> assms show ?thesis
      by (simp add: resolve_one_def Let_def split_def close_position_others del: poll_order.simps)
  qed
qed (simp add: resolve_one_def)

lemma resolve_one_no_id: "rw_close_pending (b_raw r) = Some (None, why) \<Longrightarrow> resolve_one env nw r = nw"
  by (cases nw) (simp add: resolve_one_def)

lemma resolve_fold_stuck:
  "(\<And>r'. r' \<in> set rs \<Longrightarrow> pos_id r' = i \<Longrightarrow> rw_close_pending (b_raw r') = Some (None, why)) \<Longrightarrow>
   find_row i (w_book (snd (foldl (resolve_one env) nw rs))) = find_row i (w_book (snd nw))"
proof (induction rs arbitrary: nw)
  case (Cons r rs)
  have "find_row i (w_book (snd (resolve_one env nw r))) = find_row i (w_book (snd nw))"
    using Cons.prems [of r] resolve_one_no_id [of r why env nw] resolve_one_others [of r i env "fst nw" "snd nw"]
    by (cases "pos_id r = i") auto
  with Cons.IH [of "resolve_one env nw r"] Cons.prems show ?case by simp
qed simp

section \<open>Ticks\<close>

lemma process_tick_no_guard: "guards m i = None \<Longrightarrow> process_tick i p now m = (m, None)"
  by (simp add: process_tick_def)

lemma close_guards: "guards (w_guards w) i = None \<Longrightarrow> guards (w_guards (snd (close env i why price fb w))) i = None"
proof -
  assume g: "guards (w_guards w) i = None"
  show ?thesis
  proof (cases "\<exists>r. find_row i (w_book w) = Some r \<and> pos_status r = Open")
    case False
    then have "close env i why price fb w = (None, w)" by (intro close_not_open) auto
    with g show ?thesis by simp
  next
    case True
    then obtain r where r: "find_row i (w_book w) = Some r" "pos_status r = Open" by blast
    obtain p w' where c: "close env i why price fb w = (p, w')" by fastforce
    with close_open_cases [OF r c] show ?thesis by simp
  qed
qed

lemma on_price_fired:
  assumes "on_price env i p w = (Some pnl, w')"
  shows "guards (w_guards w') i = None"
proof -
  obtain gm' x where t: "process_tick i p (e_clock env) (w_guards w) = (gm', x)" by fastforce
  with assms obtain s where x: "x = Some s" by (cases x) (auto simp: on_price_def Let_def)
  obtain q w2 where c: "close env i (exit_reason_text (x_reason s)) (Some (x_price s)) None
      (w\<lparr>w_guards := disarm i gm'\<rparr>) = (q, w2)" by fastforce
  with assms t x have "w' = w2" by (simp add: on_price_def)
  with c close_guards [of "w\<lparr>w_guards := disarm i gm'\<rparr>" i env "exit_reason_text (x_reason s)" "Some (x_price s)" None]
  show ?thesis by simp
qed

lemma on_price_no_guard: "guards (w_guards w) i = None \<Longrightarrow> fst (on_price env i p w) = None"
  by (simp add: on_price_def process_tick_no_guard)

section \<open>Paper mode and the broker\<close>

text \<open>Outside live mode the only operation of the broker the executor calls is the quote.\<close>

lemma env_api_update [simp]:
  "current_mode (env\<lparr>e_api := a\<rparr>) w = current_mode env w"
  "active_account (env\<lparr>e_api := a\<rparr>) w = active_account env w"
  "lookup_instrument (env\<lparr>e_api := a\<rparr>) t = lookup_instrument env t"
  "bracket_guard (env\<lparr>e_api := a\<rparr>) d f i = bracket_guard env d f i"
  "reentry_cooldown (env\<lparr>e_api := a\<rparr>) r w = reentry_cooldown env r w"
  by (simp_all add: current_mode_def active_account_def lookup_instrument_def bracket_guard_def
      reentry_cooldown_def split: option.split)

lemma quote_one_api:
  "api_quote a = api_quote (e_api env) \<Longrightarrow> quote_one (env\<lparr>e_api := a\<rparr>) key b = quote_one env key b"
  by (simp add: quote_one_def)

lemma create_bracket_paper:
  "m \<noteq> LIVE \<Longrightarrow> create_bracket (env\<lparr>e_api := a\<rparr>) d f i m w = create_bracket env d f i m w"
  unfolding create_bracket_def Let_def by simp

lemma execute_sim_api:
  "api_quote a = api_quote (e_api env) \<Longrightarrow> execute_sim (env\<lparr>e_api := a\<rparr>) d force w = execute_sim env d force w"
  by (simp add: execute_sim_def quote_one_api create_bracket_paper cong: option.case_cong prod.case_cong let_cong)

lemma close_sim_api:
  "api_quote a = api_quote (e_api env) \<Longrightarrow>
   close_sim (env\<lparr>e_api := a\<rparr>) i r why price fb w = close_sim env i r why price fb w"
  by (simp add: close_sim_def sim_exit_price_def quote_one_api cong: option.case_cong)

section \<open>Exit orders of a lawful broker\<close>

context broker_lifecycle
begin

lemma market_exit_fill:
  assumes "api = e_api env" "binv b" "0 < row_qty r" "market_exit env r b = (Some nf, b')"
  shows "0 \<le> nf_filled nf \<and> nf_filled nf \<le> row_qty r
    \<and> (nf_status nf = E_COMPLETE \<longrightarrow> nf_filled nf = row_qty r) \<and> nf_pending nf = row_qty r - nf_filled nf"
proof -
  define ex where "ex = (case b_exchange r of
      Some e \<Rightarrow> if e = [] then Option.bind (lookup_instrument env (instrument_token r)) in_exchange else Some e
    | None \<Rightarrow> Option.bind (lookup_instrument env (instrument_token r)) in_exchange)"
  define req where "req = \<lparr>rq_symbol = tradingsymbol r, rq_exchange = ex, rq_side = opposite (side r),
      rq_qty = row_qty r, rq_product = get_default (b_product r) [], rq_type = ''MARKET'', rq_price = None\<rparr>"
  have req: "rq_qty req = row_qty r" by (simp add: req_def)
  note m = assms(4) [unfolded market_exit_def Let_def, folded ex_def, folded req_def, folded assms(1)]
  obtain o1 b1 where p1: "api_place api req b = (o1, b1)" by fastforce
  with m obtain oid where p: "api_place api req b = (Some oid, b1)"
    by (cases o1) (simp_all split: if_splits)
  obtain s1 b2 where po1: "poll_order api 12 oid no_truth b1 = (s1, b2)" by fastforce
  with m p obtain st where st: "s1 = Some st"
    by (cases s1) (simp_all split: if_splits)
  note m2 = m [unfolded p po1 st option.case prod.case]
  have po: "poll_order api 12 oid no_truth b1 = (Some st, b')"
    and nf: "nf_filled nf = bt_filled st" "nf_status nf = normalize_exit_status (bt_status st) (bt_filled st)"
      "nf_pending nf = max 0 (row_qty r - bt_filled st)"
    using po1 st m2 by (simp_all split: if_splits) (elim conjE, hypsubst, simp)+
  have b1: "binv b1 \<and> ordered_qty b1 = (ordered_qty b)(oid \<mapsto> rq_qty req)"
    using place_ok [OF assms(2) _ p] req assms(3) by simp
  then have "ordered_qty b1 oid = Some (row_qty r)" using req by simp
  from poll_fill [OF _ this _ _ po] b1 assms(3)
  have f: "0 \<le> bt_filled st" "bt_filled st \<le> row_qty r" "bt_status st = Some ''COMPLETE'' \<longrightarrow> bt_filled st = row_qty r"
    by (simp_all add: no_truth_def)
  moreover have "nf_status nf = E_COMPLETE \<Longrightarrow> bt_status st = Some ''COMPLETE''"
    using nf(2) by (auto simp: normalize_exit_status_def split: if_splits)
  ultimately show ?thesis by (simp add: nf(1,3) del: poll_order.simps)
qed

end

section \<open>The event log of an entry\<close>

lemma events_fields [simp]:
  "events (attach_bracket i br b) = events b" "events (record_bracket i g t lo hi b) = events b"
  "events (persist_order_fill d f m out oid b) = events b" "events (snd (open_position acct d f m b)) = events b"
  by (simp_all add: attach_bracket_def record_bracket_def persist_order_fill_def open_position_def Let_def)

lemma create_bracket_events [simp]: "events (w_book (snd (create_bracket env d f i m w))) = events (w_book w)"
  by (auto simp: create_bracket_def Let_def split: option.split prod.split)

lemma settle_live_events: "events (w_book (snd (settle_live env d s w))) = events (w_book w)"
  by (simp add: settle_live_def Let_def split_def)

lemma execute_events: "events (w_book (snd (execute env d force w))) = events (w_book w)"
  by (simp add: execute_def execute_live_def execute_sim_def settle_live_events Let_def split_def split: option.split)

text \<open>A log without entry events derives a net quantity of zero.\<close>

lemma no_entry_net:
  assumes "\<And>e. e \<in> set evs \<Longrightarrow> ev_type e \<noteq> EV_ENTRY" "\<And>e. e \<in> set evs \<Longrightarrow> 0 \<le> py_or (ev_filled e) 0"
  shows "net_qty (position_from_events evs) = 0"
proof -
  have c: "0 \<le> fst (snd (foldl event_step (a, c, p, r) es))" if "0 \<le> c" "set es \<subseteq> set evs" for a c p r es
    using that
  proof (induction es arbitrary: a c p r)
    case (Cons e es)
    then have "0 \<le> py_or (ev_filled e) 0" using assms(2) by simp
    then have "0 \<le> c + py_or (ev_filled e) 0" using Cons.prems(1) by simp
    with Cons show ?case by (simp add: event_step_def Let_def)
  qed simp
  have s: "set (ordered evs) = set evs" by (simp add: ordered_def)
  obtain a cl p r where f: "foldl event_step (0, 0, 0, 0) (ordered evs) = (a, cl, p, r)"
    by (metis prod_cases4)
  have "a = 0" using opened_no_entry [of "ordered evs" 0 0 0 0] assms(1) s f by simp
  moreover have "0 \<le> cl" using c [of 0 "ordered evs" 0 0 0] s f by simp
  ultimately show ?thesis by (simp add: position_from_events_def f Let_def)
qed

end
