(* ===== verification/Structures.thy ===== *)
theory Structures
  imports Executor_Facts
begin

text \<open>
  \<open>execution/structures.py\<close>: multi-leg option structures, with \<open>Executor.execute_structure\<close> and
  the option lookup of \<open>data/option_chain.py\<close>. The structure dictionary is a datatype of its two
  shapes; the manager's dictionary keeps insertion order, so it is an association list. The world
  of the executor is extended by the manager, its configuration by the exit settings and the option
  rows of the instrument table.
\<close>

section \<open>Data\<close>

datatype plan_legs =
    Condor_Legs (short_call: real) (short_put: real) (long_call: real) (long_put: real)
  | Vertical_Legs (v_opt: string) (long_strike: real) (short_strike: real)

record structure_plan =
  pl_type :: string
  pl_legs :: plan_legs
  pl_max_loss_per_lot :: rupees

record leg =
  lg_pid :: pid
  lg_token :: token
  lg_symbol :: "sym option"
  lg_side :: order_side
  lg_qty :: int
  lg_entry :: rupees
  lg_fees :: rupees

record struct_guard =
  sg_corr :: corr_id
  sg_name :: string
  sg_type :: string
  sg_legs :: "leg list"
  sg_max_loss :: rupees
  sg_max_profit :: rupees
  sg_entry_fees :: rupees
  sg_target_fraction :: real
  sg_stop_fraction :: real
  sg_expiry :: "int option"
  sg_opened_on :: "int option"
  sg_retries :: int

record struct_mgr =
  by_corr :: "(corr_id \<times> struct_guard) list"
  s_by_token :: "token \<rightharpoonup> corr_id set"

text \<open>The \<open>fno.exits\<close> settings, None where the key is absent.\<close>

record fno_exits =
  ex_target_fraction :: "real option"
  ex_stop_fraction :: "real option"
  ex_fill_overrun :: "real option"
  ex_max_spread :: "real option"
  ex_close_overrun :: "real option"
  ex_max_retries :: "int option"
  ex_no_mark_before :: "tod option"
  ex_credit_min_dte :: "int option"
  ex_credit_max_days :: "int option"
  ex_min_dte :: "int option"
  ex_max_days :: "int option"

record option_row =
  op_token :: token
  op_symbol :: sym
  op_name :: string
  op_expiry :: "int option"
  op_strike :: real
  op_type :: string

record 'b senv =
  se_env :: "'b env"
  se_exits :: fno_exits
  se_options :: "option_row list"

record 'b sworld = "'b world" +
  w_structs :: struct_mgr

text \<open>\<open>float(exits.get(key, dflt) or alt)\<close>.\<close>

definition cfg_or :: "'a::zero option \<Rightarrow> 'a \<Rightarrow> 'a \<Rightarrow> 'a" where
  "cfg_or x dflt alt = (let v = get_default x dflt in if v = 0 then alt else v)"

section \<open>Risk of the actual fills\<close>

definition structure_width :: "structure_plan \<Rightarrow> real" where
  "structure_width pl = (case pl_legs pl of
     Condor_Legs sc sp lc lp \<Rightarrow> \<bar>sc - lc\<bar> | Vertical_Legs opt l s \<Rightarrow> \<bar>s - l\<bar>)"

definition net_premium :: "leg list \<Rightarrow> rupees" where
  "net_premium legs = sum_list (map (\<lambda>l. if lg_side l = SELL then lg_entry l * of_int (lg_qty l)
     else - lg_entry l * of_int (lg_qty l)) legs)"

definition fill_based_risk :: "structure_plan \<Rightarrow> leg list \<Rightarrow> rupees \<times> rupees \<times> rupees" where
  "fill_based_risk pl legs =
    (let net = net_premium legs;
         width = structure_width pl * of_int (case legs of [] \<Rightarrow> 0 | l # _ \<Rightarrow> lg_qty l)
     in if net \<ge> 0 then (net, max (1 / 100) (width - net), max (1 / 100) net)
        else (net, max (1 / 100) (- net), max (1 / 100) (width - (- net))))"

section \<open>The combined guard\<close>

definition leg_gain :: "leg \<Rightarrow> rupees \<Rightarrow> rupees" where
  "leg_gain l cur = (if lg_side l = BUY then (cur - lg_entry l) * of_int (lg_qty l)
     else (lg_entry l - cur) * of_int (lg_qty l))"

fun pnl_loop :: "(token \<rightharpoonup> rupees) \<Rightarrow> leg list \<Rightarrow> rupees \<Rightarrow> rupees option" where
  "pnl_loop prices [] pnl = Some pnl"
| "pnl_loop prices (l # ls) pnl = (case prices (lg_token l) of
     None \<Rightarrow> None | Some cur \<Rightarrow> pnl_loop prices ls (pnl + leg_gain l cur))"

definition combined_pnl :: "struct_guard \<Rightarrow> (token \<rightharpoonup> rupees) \<Rightarrow> rupees option" where
  "combined_pnl g prices = map_option (\<lambda>p. p - sg_entry_fees g) (pnl_loop prices (sg_legs g) 0)"

datatype struct_action = A_Target | A_Stop | A_Hold

definition decide :: "struct_guard \<Rightarrow> (token \<rightharpoonup> rupees) \<Rightarrow> (struct_action \<times> rupees) option" where
  "decide g prices = (case combined_pnl g prices of
     None \<Rightarrow> None
   | Some pnl \<Rightarrow> Some (if pnl \<ge> sg_target_fraction g * sg_max_profit g then A_Target
        else if pnl \<le> - sg_stop_fraction g * sg_max_loss g then A_Stop else A_Hold, pnl))"

definition legs_from_structure :: "structure_plan \<Rightarrow> (string \<times> real \<times> order_side) list" where
  "legs_from_structure pl = (case pl_legs pl of
     Condor_Legs sc sp lc lp \<Rightarrow> [(''CE'', sc, SELL), (''CE'', lc, BUY), (''PE'', sp, SELL), (''PE'', lp, BUY)]
   | Vertical_Legs opt l s \<Rightarrow> [(opt, l, BUY), (opt, s, SELL)])"

section \<open>The manager\<close>

definition sg_tokens :: "struct_guard \<Rightarrow> token list" where
  "sg_tokens g = map lg_token (sg_legs g)"

definition add_index :: "corr_id \<Rightarrow> (token \<rightharpoonup> corr_id set) \<Rightarrow> token \<Rightarrow> (token \<rightharpoonup> corr_id set)" where
  "add_index c idx t = idx(t \<mapsto> insert c (get_default (idx t) {}))"

definition del_index :: "corr_id \<Rightarrow> (token \<rightharpoonup> corr_id set) \<Rightarrow> token \<Rightarrow> (token \<rightharpoonup> corr_id set)" where
  "del_index c idx t = (case idx t of None \<Rightarrow> idx | Some ids \<Rightarrow> idx(t \<mapsto> ids - {c}))"

definition register :: "struct_guard \<Rightarrow> struct_mgr \<Rightarrow> struct_mgr" where
  "register g m = m\<lparr>by_corr := upsert (sg_corr g) g (by_corr m),
     s_by_token := foldl (add_index (sg_corr g)) (s_by_token m) (sg_tokens g)\<rparr>"

definition unregister :: "corr_id \<Rightarrow> struct_mgr \<Rightarrow> struct_mgr" where
  "unregister c m = (case map_of (by_corr m) c of
     None \<Rightarrow> m
   | Some g \<Rightarrow> m\<lparr>by_corr := filter (\<lambda>(k, v). k \<noteq> c) (by_corr m),
       s_by_token := foldl (del_index c) (s_by_token m) (sg_tokens g)\<rparr>)"

definition s_for_token :: "struct_mgr \<Rightarrow> token \<Rightarrow> corr_id set" where
  "s_for_token m t = {c \<in> get_default (s_by_token m t) {}. map_of (by_corr m) c \<noteq> None}"

definition all_guards :: "struct_mgr \<Rightarrow> struct_guard list" where
  "all_guards m = map snd (by_corr m)"

definition empty_smgr :: struct_mgr where
  "empty_smgr = \<lparr>by_corr = [], s_by_token = Map.empty\<rparr>"

text \<open>A change of the registered guard object (its retry counter).\<close>

definition set_guard :: "struct_guard \<Rightarrow> struct_mgr \<Rightarrow> struct_mgr" where
  "set_guard g m = (case map_of (by_corr m) (sg_corr g) of None \<Rightarrow> m
     | Some _ \<Rightarrow> m\<lparr>by_corr := upsert (sg_corr g) g (by_corr m)\<rparr>)"

section \<open>Opening\<close>

definition resolve_option :: "option_row list \<Rightarrow> string \<Rightarrow> int option \<Rightarrow> real \<Rightarrow> string \<Rightarrow> option_row option" where
  "resolve_option tbl nm expiry strike opt =
    find (\<lambda>o1. op_name o1 = nm \<and> expiry \<noteq> None \<and> op_expiry o1 = expiry \<and> op_type o1 = opt \<and> op_strike o1 = strike) tbl"

definition leg_decision :: "corr_id \<Rightarrow> option_row \<Rightarrow> string \<Rightarrow> order_side \<Rightarrow> int \<Rightarrow> int \<Rightarrow> int option \<Rightarrow> decision" where
  "leg_decision corr oi opt sd qty_per lot signal =
    \<lparr>d_corr = corr, d_sleeve = ''fno'',
     d_instrument = \<lparr>in_token = Some (op_token oi), in_symbol = Some (op_symbol oi), in_exchange = Some ''NFO'',
       in_lot = Some lot, in_type = Some opt, in_tick = None, in_expiry = None\<rparr>,
     d_side = sd, d_qty = qty_per, d_order_type = ''MARKET'', d_entry = 0, d_stop = 0, d_target = 0,
     d_product = ''NRML'', d_r = 0, d_confidence = 1, d_signal = signal\<rparr>"

text \<open>Close the legs in a row, summing \<open>r or 0.0\<close>.\<close>

fun close_legs :: "'b env \<Rightarrow> string \<Rightarrow> (token \<rightharpoonup> rupees) \<Rightarrow> (token \<rightharpoonup> rupees) \<Rightarrow> leg list \<Rightarrow> rupees \<Rightarrow>
    ('b, 'z) world_scheme \<Rightarrow> rupees \<times> ('b, 'z) world_scheme" where
  "close_legs env why px marks [] acc w = (acc, w)"
| "close_legs env why px marks (l # ls) acc w =
    (case close env (lg_pid l) why (px (lg_token l)) (marks (lg_token l)) w of
       (r, w1) \<Rightarrow> close_legs env why px marks ls (acc + get_default r 0) w1)"

abbreviation unwind_legs :: "'b env \<Rightarrow> string \<Rightarrow> leg list \<Rightarrow> ('b, 'z) world_scheme \<Rightarrow> ('b, 'z) world_scheme" where
  "unwind_legs env why legs w \<equiv> snd (close_legs env why Map.empty Map.empty legs 0 w)"

datatype struct_reject = Leg_Unresolved string real | Leg_No_Quote sym | Fill_Risk_Overrun rupees rupees
  | Engine_Halted | Entry_Blocked | Live_Blocked structure_block

text \<open>The loop over the legs; a failure unwinds the legs opened so far.\<close>

fun open_legs :: "'b senv \<Rightarrow> string \<Rightarrow> int option \<Rightarrow> corr_id \<Rightarrow> int \<Rightarrow> int \<Rightarrow> int option \<Rightarrow>
    (string \<times> real \<times> order_side) list \<Rightarrow> leg list \<Rightarrow> rupees \<Rightarrow> ('b, 'z) world_scheme \<Rightarrow>
    (struct_reject + leg list \<times> rupees) \<times> ('b, 'z) world_scheme" where
  "open_legs se nm expiry corr qty_per lot signal [] legs fees w = (Inr (legs, fees), w)"
| "open_legs se nm expiry corr qty_per lot signal ((opt, strike, sd) # specs) legs fees w =
    (case resolve_option (se_options se) nm expiry strike opt of
       None \<Rightarrow> (Inl (Leg_Unresolved opt strike), unwind_legs (se_env se) ''structure_leg_unresolved'' legs w)
     | Some oi \<Rightarrow>
         let d = leg_decision corr oi opt sd qty_per lot signal;
             (reply, b') = quote_one (se_env se) (Some ''NFO'', Some (op_symbol oi)) (w_broker w);
             w1 = w\<lparr>w_broker := b'\<rparr>
         in case simulate (e_costs (se_env se)) (e_slip (se_env se)) reply d None of
              None \<Rightarrow> (Inl (Leg_No_Quote (op_symbol oi)), unwind_legs (se_env se) ''structure_leg_no_quote'' legs w1)
            | Some f \<Rightarrow>
                (case open_position None d f PAPER (w_book w1) of
                   (i, bk) \<Rightarrow> open_legs se nm expiry corr qty_per lot signal specs
                     (legs @ [\<lparr>lg_pid = i, lg_token = op_token oi, lg_symbol = Some (op_symbol oi), lg_side = sd,
                        lg_qty = qty_per, lg_entry = f_price f, lg_fees = fee_total (f_fees f)\<rparr>])
                     (fees + fee_total (f_fees f)) (w1\<lparr>w_book := bk\<rparr>)))"

definition write_meta :: "pid list \<Rightarrow> rupees \<Rightarrow> structure_meta \<Rightarrow> book \<Rightarrow> book" where
  "write_meta ids r meta b = b\<lparr>rows := map (\<lambda>row. if pos_id row \<in> set ids
     then row\<lparr>pos_r := Some r, b_raw := (b_raw row)\<lparr>rw_meta := Some meta\<rparr>\<rparr> else row) (rows b)\<rparr>"

record struct_result =
  sr_legs :: nat
  sr_net :: rupees
  sr_max_loss :: rupees
  sr_max_profit :: rupees
  sr_ids :: "pid list"

definition open_structure :: "'b senv \<Rightarrow> string \<Rightarrow> int option \<Rightarrow> structure_plan \<Rightarrow> int \<Rightarrow> int \<Rightarrow> corr_id \<Rightarrow> int option \<Rightarrow>
    'b sworld \<Rightarrow> (struct_reject + struct_result) \<times> 'b sworld" where
  "open_structure se nm expiry pl n_lots lot corr signal w =
    (case open_legs se nm expiry corr (n_lots * lot) lot signal (legs_from_structure pl) [] 0 w of
       (Inl why, w1) \<Rightarrow> (Inl why, w1)
     | (Inr (legs, fees), w1) \<Rightarrow>
         let ex = se_exits se;
             (net, max_loss, max_profit) = fill_based_risk pl legs;
             modeled = pl_max_loss_per_lot pl * of_int n_lots;
             overrun = cfg_or (ex_fill_overrun ex) (125 / 100) (125 / 100)
         in if modeled > 0 \<and> max_loss > modeled * overrun then
              (Inl (Fill_Risk_Overrun max_loss modeled), unwind_legs (se_env se) ''fill_risk_overrun'' legs w1)
            else
              let g = \<lparr>sg_corr = corr, sg_name = nm, sg_type = pl_type pl, sg_legs = legs, sg_max_loss = max_loss,
                    sg_max_profit = max_profit, sg_entry_fees = fees,
                    sg_target_fraction = cfg_or (ex_target_fraction ex) (1 / 2) (1 / 2),
                    sg_stop_fraction = cfg_or (ex_stop_fraction ex) (1 / 2) (1 / 2),
                    sg_expiry = expiry, sg_opened_on = Some (e_today (se_env se)), sg_retries = 0\<rparr>;
                  meta = \<lparr>sm_name = nm, sm_type = pl_type pl, sm_max_loss = py_round 2 max_loss,
                    sm_max_profit = py_round 2 max_profit, sm_entry_fees = py_round 2 fees,
                    sm_target_fraction = sg_target_fraction g, sm_stop_fraction = sg_stop_fraction g,
                    sm_expiry = expiry, sm_opened_on = sg_opened_on g\<rparr>;
                  r_per_leg = py_round 2 (max_loss / of_nat (max 1 (length legs)))
              in (Inr \<lparr>sr_legs = length legs, sr_net = py_round 2 net, sr_max_loss = py_round 2 max_loss,
                      sr_max_profit = py_round 2 max_profit, sr_ids = map lg_pid legs\<rparr>,
                  w1\<lparr>w_book := write_meta (map lg_pid legs) r_per_leg meta (w_book w1),
                     w_structs := register g (w_structs w1)\<rparr>))"

definition execute_structure :: "'b senv \<Rightarrow> string \<Rightarrow> int option \<Rightarrow> structure_plan \<Rightarrow> int \<Rightarrow> int \<Rightarrow> corr_id \<Rightarrow> int option \<Rightarrow>
    'b sworld \<Rightarrow> (struct_reject + struct_result) \<times> 'b sworld" where
  "execute_structure se nm expiry pl n_lots lot corr signal w =
    (if state_flag ''engine_halted'' (w_config w) then (Inl Engine_Halted, w)
     else if \<not> order_allowed ''ENTRY'' (state_flag ''kill_switch_active'' (w_config w))
                 (state_flag ''block_new_entries'' (w_config w)) then (Inl Entry_Blocked, w)
     else case live_structures_block_reason (current_mode (se_env se) w) (e_fno_live (se_env se)) of
            Some blk \<Rightarrow> (Inl (Live_Blocked blk), w)
          | None \<Rightarrow> open_structure se nm expiry pl n_lots lot corr signal w)"

section \<open>Closing\<close>

definition leg_key :: "leg \<Rightarrow> quote_key" where
  "leg_key l = (Some ''NFO'', lg_symbol l)"

definition top_price :: "(real option \<times> int option) list \<Rightarrow> real" where
  "top_price ls = (case ls of [] \<Rightarrow> 0 | (p, n) # _ \<Rightarrow> get_default p 0)"

definition leg_bid :: "(quote_key \<Rightarrow> quote option) \<Rightarrow> leg \<Rightarrow> real" where
  "leg_bid q l = (case q (leg_key l) of None \<Rightarrow> 0 | Some r \<Rightarrow> top_price (q_buy r))"

definition leg_ask :: "(quote_key \<Rightarrow> quote option) \<Rightarrow> leg \<Rightarrow> real" where
  "leg_ask q l = (case q (leg_key l) of None \<Rightarrow> 0 | Some r \<Rightarrow> top_price (q_sell r))"

text \<open>The sanity check of the exit book: the price of every leg and the implied P&L, or None.\<close>

fun book_check :: "real \<Rightarrow> real \<Rightarrow> (quote_key \<Rightarrow> quote option) \<Rightarrow> leg list \<Rightarrow> (token \<rightharpoonup> rupees) \<Rightarrow> rupees \<Rightarrow>
    ((token \<rightharpoonup> rupees) \<times> rupees) option" where
  "book_check max_spread slip q [] px implied = Some (px, implied)"
| "book_check max_spread slip q (l # ls) px implied =
    (let bid = leg_bid q l; ask = leg_ask q l; mid = (bid + ask) / 2 in
     if bid \<le> 0 \<or> ask < bid \<or> mid \<le> 0 \<or> (ask - bid) / mid * 100 > max_spread then None
     else let p = (if lg_side l = SELL then ask * (1 + slip) else bid * (1 - slip))
          in book_check max_spread slip q ls (px(lg_token l \<mapsto> py_round 2 p)) (implied + leg_gain l p))"

definition exit_book :: "'b senv \<Rightarrow> struct_guard \<Rightarrow> 'b \<Rightarrow> (token \<rightharpoonup> rupees) option \<times> 'b" where
  "exit_book se g b =
    (let ex = se_exits se; max_spread = cfg_or (ex_max_spread ex) 8 0;
         cap_mult = cfg_or (ex_close_overrun ex) (115 / 100) (115 / 100) in
     case api_quote (e_api (se_env se)) (map leg_key (sg_legs g)) b of
       (None, b') \<Rightarrow> (None, b')
     | (Some q, b') \<Rightarrow>
         (case book_check max_spread (e_slip (se_env se) / 10000) q (sg_legs g) Map.empty 0 of
            None \<Rightarrow> (None, b')
          | Some (px, implied) \<Rightarrow>
              if sg_max_loss g > 0 \<and> implied < - (sg_max_loss g * cap_mult) then (None, b') else (Some px, b')))"

text \<open>The legs are crossed, the guard is dropped, the underlying cools down.\<close>

definition cross_legs :: "'b senv \<Rightarrow> struct_guard \<Rightarrow> string \<Rightarrow> (token \<rightharpoonup> rupees) \<Rightarrow> (token \<rightharpoonup> rupees) \<Rightarrow> 'b sworld \<Rightarrow>
    rupees \<times> 'b sworld" where
  "cross_legs se g why px marks w =
    (case close_legs (se_env se) why px marks (sg_legs g) 0 w of
       (realized, w1) \<Rightarrow>
         let w2 = w1\<lparr>w_structs := unregister (sg_corr g) (w_structs w1)\<rparr>
         in (realized, if e_cooldown_min (se_env se) \<noteq> 0
               then set_cooldown (CD_Fno (sg_name g)) (e_cooldown_min (se_env se)) w2 else w2))"

definition close_structure :: "'b senv \<Rightarrow> struct_guard \<Rightarrow> string \<Rightarrow> (token \<rightharpoonup> rupees) option \<Rightarrow> bool \<Rightarrow> 'b sworld \<Rightarrow>
    rupees option \<times> 'b sworld" where
  "close_structure se g why prices force w =
    (let marks = get_default prices Map.empty;
         max_retries = cfg_or (ex_max_retries (se_exits se)) 5 0 in
     if \<not> force \<and> cfg_or (ex_max_spread (se_exits se)) 8 0 > 0 then
       (case exit_book se g (w_broker w) of
          (Some px, b') \<Rightarrow> (case cross_legs se g why px marks (w\<lparr>w_broker := b'\<rparr>) of (r, w1) \<Rightarrow> (Some r, w1))
        | (None, b') \<Rightarrow>
            let g' = g\<lparr>sg_retries := sg_retries g + 1\<rparr>;
                w1 = w\<lparr>w_broker := b', w_structs := set_guard g' (w_structs w)\<rparr>
            in if sg_retries g' \<le> max_retries then (None, w1)
               else (case cross_legs se g' why marks marks w1 of (r, w2) \<Rightarrow> (Some r, w2)))
     else (case cross_legs se g why marks marks w of (r, w1) \<Rightarrow> (Some r, w1)))"

section \<open>Marking\<close>

fun mid_prices :: "real \<Rightarrow> (quote_key \<Rightarrow> quote option) \<Rightarrow> leg list \<Rightarrow> (token \<rightharpoonup> rupees) \<Rightarrow> (token \<rightharpoonup> rupees) option" where
  "mid_prices max_spread q [] px = Some px"
| "mid_prices max_spread q (l # ls) px =
    (let bid = leg_bid q l; ask = leg_ask q l; mid = (bid + ask) / 2 in
     if bid \<le> 0 \<or> ask \<le> 0 \<or> ask < bid \<or> mid \<le> 0 then None
     else if max_spread > 0 \<and> (ask - bid) / mid * 100 > max_spread then None
     else mid_prices max_spread q ls (px(lg_token l \<mapsto> py_round 2 mid)))"

datatype mark_out = Mark_Time string rupees | Mark_Exit struct_action rupees | Mark_Hold rupees

definition is_credit :: "struct_guard \<Rightarrow> bool" where
  "is_credit g \<longleftrightarrow> contains_str (sg_type g) ''credit'' \<or> sg_type g = ''iron_condor''"

text \<open>Which time rule, if any, ends the structure today.\<close>

definition time_exit :: "fno_exits \<Rightarrow> int \<Rightarrow> struct_guard \<Rightarrow> string option" where
  "time_exit ex today g =
    (let min_dte = (if is_credit g then cfg_or (ex_credit_min_dte ex) 21 0 else cfg_or (ex_min_dte ex) 2 0);
         max_held = (if is_credit g then cfg_or (ex_credit_max_days ex) 0 0 else cfg_or (ex_max_days ex) 10 0)
     in if min_dte \<noteq> 0 \<and> (case sg_expiry g of None \<Rightarrow> False | Some e \<Rightarrow> e - today \<le> min_dte)
        then Some ''structure_time_dte''
        else if max_held \<noteq> 0 \<and> (case sg_opened_on g of None \<Rightarrow> False | Some o1 \<Rightarrow> today - o1 \<ge> max_held)
        then Some ''structure_time_held'' else None)"

definition action_text :: "struct_action \<Rightarrow> string" where
  "action_text a = (case a of A_Target \<Rightarrow> ''structure_target'' | A_Stop \<Rightarrow> ''structure_stop'' | A_Hold \<Rightarrow> ''structure_hold'')"

definition persist_marks :: "(token \<rightharpoonup> rupees) \<Rightarrow> leg list \<Rightarrow> book \<Rightarrow> book" where
  "persist_marks px legs b = foldl (\<lambda>b l. case px (lg_token l) of None \<Rightarrow> b
     | Some p \<Rightarrow> snd (update_unrealized (lg_pid l) p b)) b legs"

definition mark_one :: "'b senv \<Rightarrow> struct_guard \<Rightarrow> 'b sworld \<Rightarrow> mark_out option \<times> 'b sworld" where
  "mark_one se g w =
    (case time_exit (se_exits se) (e_today (se_env se)) g of
       Some why \<Rightarrow> (case close_structure se g why None False w of
           (r, w1) \<Rightarrow> (map_option (\<lambda>x. Mark_Time why (py_round 2 x)) r, w1))
     | None \<Rightarrow>
        (case api_quote (e_api (se_env se)) (map leg_key (sg_legs g)) (w_broker w) of
           (None, b') \<Rightarrow> (None, w\<lparr>w_broker := b'\<rparr>)
         | (Some q, b') \<Rightarrow>
             let w1 = w\<lparr>w_broker := b'\<rparr> in
             (case mid_prices (cfg_or (ex_max_spread (se_exits se)) 8 0) q (sg_legs g) Map.empty of
                None \<Rightarrow> (None, w1)
              | Some px \<Rightarrow>
                  (case decide g px of
                     None \<Rightarrow> (None, w1)
                   | Some (A_Hold, pnl) \<Rightarrow>
                       (Some (Mark_Hold (py_round 2 pnl)), w1\<lparr>w_book := persist_marks px (sg_legs g) (w_book w1)\<rparr>)
                   | Some (act, pnl) \<Rightarrow>
                       (case close_structure se g (action_text act) (Some px) False w1 of
                          (r, w2) \<Rightarrow> (map_option (\<lambda>x. Mark_Exit act (py_round 2 x)) r, w2))))))"

fun mark_all :: "'b senv \<Rightarrow> struct_guard list \<Rightarrow> 'b sworld \<Rightarrow> mark_out list \<times> 'b sworld" where
  "mark_all se [] w = ([], w)"
| "mark_all se (g # gs) w =
    (let (r, w1) = mark_one se g w; (rs, w2) = mark_all se gs w1
     in (case r of None \<Rightarrow> rs | Some x \<Rightarrow> x # rs, w2))"

text \<open>The default of \<open>no_mark_before\<close> is 09:25, minute 565 of the day; None is the empty setting.\<close>

definition mark_structures :: "'b senv \<Rightarrow> 'b sworld \<Rightarrow> mark_out list \<times> 'b sworld" where
  "mark_structures se w =
    (if (case ex_no_mark_before (se_exits se) of None \<Rightarrow> False | Some t \<Rightarrow> e_clock (se_env se) < t) then ([], w)
     else mark_all se (all_guards (w_structs w)) w)"

section \<open>Cold start\<close>

definition row_leg :: "book_row \<Rightarrow> leg" where
  "row_leg r = \<lparr>lg_pid = pos_id r, lg_token = get_default (instrument_token r) 0, lg_symbol = tradingsymbol r,
     lg_side = side r, lg_qty = row_qty r, lg_entry = row_avg r, lg_fees = entry_fee_of r\<rparr>"

definition first_meta :: "book_row list \<Rightarrow> structure_meta option" where
  "first_meta rs = Option.bind (find (\<lambda>r. rw_meta (b_raw r) \<noteq> None) rs) (\<lambda>r. rw_meta (b_raw r))"

definition rebuilt_guard :: "corr_id \<Rightarrow> structure_meta \<Rightarrow> book_row list \<Rightarrow> struct_guard" where
  "rebuilt_guard corr m rs =
    \<lparr>sg_corr = corr, sg_name = sm_name m, sg_type = sm_type m, sg_legs = map row_leg rs,
     sg_max_loss = sm_max_loss m, sg_max_profit = sm_max_profit m, sg_entry_fees = sm_entry_fees m,
     sg_target_fraction = (if sm_target_fraction m = 0 then 1 / 2 else sm_target_fraction m),
     sg_stop_fraction = (if sm_stop_fraction m = 0 then 1 / 2 else sm_stop_fraction m),
     sg_expiry = sm_expiry m, sg_opened_on = sm_opened_on m, sg_retries = 0\<rparr>"

definition open_fno_rows :: "book \<Rightarrow> book_row list" where
  "open_fno_rows b = filter (\<lambda>r. pos_status r = Open \<and> sleeve r = Some ''fno'') (rows b)"

definition corr_text :: "book_row \<Rightarrow> corr_id" where
  "corr_text r = get_default (correlation_id r) ''None''"

definition rebuild_one :: "book_row list \<Rightarrow> (pid list \<times> struct_mgr) \<Rightarrow> corr_id \<Rightarrow> pid list \<times> struct_mgr" where
  "rebuild_one rs acc corr =
    (case acc of (covered, m) \<Rightarrow>
       let group = filter (\<lambda>r. corr_text r = corr) rs in
       (case first_meta group of
          None \<Rightarrow> (covered, m)
        | Some meta \<Rightarrow> (covered @ map pos_id group, register (rebuilt_guard corr meta group) m)))"

text \<open>The covered ids are returned as a list.\<close>

definition rebuild_structures :: "'b sworld \<Rightarrow> pid list \<times> 'b sworld" where
  "rebuild_structures w =
    (let rs = open_fno_rows (w_book w);
         (covered, m) = foldl (rebuild_one rs) ([], w_structs w) (rev (remdups (rev (map corr_text rs))))
     in (covered, w\<lparr>w_structs := m\<rparr>))"

end
