(* ===== verification/Strategies.thy ===== *)
theory Strategies
  imports Structures
begin

text \<open>
  \<open>strategies/base.py\<close>, \<open>engine/confidence.py\<close>, \<open>strategies/intraday.py\<close>, \<open>strategies/mcx.py\<close> and
  \<open>strategies/swing.py\<close>: the gate pipelines that turn a market context into a signal or a
  rejection. A runner is the list of its gates; a gate keeps its name, verdict and clamped score
  (the free-form detail of the trail is left out). A rejection text is a constructor with the
  numbers the text prints. A configuration key is an option, None when the key is absent. A division by a
  zero threshold raises: the evaluation is then None.
\<close>

section \<open>The gate runner\<close>

record gate =
  g_name :: string
  g_passed :: bool
  g_score :: real

datatype gate_reason =
    R_Illiquid | R_Time_Window | R_Choppy | R_No_Setup | R_Breadth string order_side
  | R_Stop_Wide real real | R_Confirmation | R_Sector | R_Fundamentals nat nat | R_Below_200dma
  | R_Market_Regime | R_Sector_Weak | R_Technical | R_Event_Window
  | R_Ban | R_Macro_Event int | R_Expiry_Day | R_Iv_Spike real real | R_Dte int | R_No_Bias
  | R_Credit_Universe | R_Illiquid_Options real real | R_No_Structure | R_Leg_Delta real | R_Structure_Risk

record sig_detail =
  sd_structure :: "structure_plan option"
  sd_max_loss :: "rupees option"
  sd_lot :: "int option"
  sd_net_credit :: "rupees option"

text \<open>The side is None for a neutral structure.\<close>

record signal =
  si_sleeve :: string
  si_instrument :: instrument
  si_side :: "order_side option"
  si_setup :: string
  si_entry :: rupees
  si_stop :: rupees
  si_target :: rupees
  si_detail :: sig_detail

record pipeline_result =
  pr_pass :: bool
  pr_gates :: "gate list"
  pr_confidence :: real
  pr_signal :: "signal option"
  pr_reason :: "gate_reason option"

definition no_detail :: sig_detail where
  "no_detail = \<lparr>sd_structure = None, sd_max_loss = None, sd_lot = None, sd_net_credit = None\<rparr>"

definition add_gate :: "string \<Rightarrow> bool \<Rightarrow> real \<Rightarrow> gate list \<Rightarrow> gate list" where
  "add_gate nm passed score gs = gs @ [\<lparr>g_name = nm, g_passed = passed, g_score = clamp01 score\<rparr>]"

definition mean_confidence :: "gate list \<Rightarrow> real" where
  "mean_confidence gs = (let scored = map g_score (filter g_passed gs) in
     if scored = [] then 0 else py_round 4 (sum_list scored / of_nat (length scored)))"

definition pl_reject :: "gate_reason \<Rightarrow> gate list \<Rightarrow> pipeline_result" where
  "pl_reject why gs = \<lparr>pr_pass = False, pr_gates = gs, pr_confidence = mean_confidence gs, pr_signal = None,
     pr_reason = Some why\<rparr>"

definition pl_accept :: "signal \<Rightarrow> gate list \<Rightarrow> pipeline_result" where
  "pl_accept s gs = \<lparr>pr_pass = True, pr_gates = gs, pr_confidence = mean_confidence gs, pr_signal = Some s,
     pr_reason = None\<rparr>"

text \<open>A hard gate: record it, then continue only if it passed.\<close>

definition hard_gate :: "string \<Rightarrow> bool \<Rightarrow> real \<Rightarrow> gate_reason \<Rightarrow> gate list \<Rightarrow> (gate list \<Rightarrow> pipeline_result option) \<Rightarrow> pipeline_result option" where
  "hard_gate nm ok score why gs k =
     (let gs' = add_gate nm ok score gs in if ok then k gs' else Some (pl_reject why gs'))"

definition ind :: "bool \<Rightarrow> real" where
  "ind b = (if b then 1 else 0)"

text \<open>\<open>(cfg.get(key) or [d])[0]\<close>\<close>

definition head_or :: "real list option \<Rightarrow> real \<Rightarrow> real" where
  "head_or xs d = (case xs of Some (x # _) \<Rightarrow> x | _ \<Rightarrow> d)"

section \<open>Confidence\<close>

record confidence_model =
  cf_weights :: "string \<rightharpoonup> real"
  cf_default :: real
  cf_min :: real

definition gate_weight :: "confidence_model \<Rightarrow> gate \<Rightarrow> real" where
  "gate_weight c g = get_default (cf_weights c (g_name g)) (cf_default c)"

definition conf_score :: "confidence_model \<Rightarrow> gate list \<Rightarrow> real" where
  "conf_score c gs =
    (let n = sum_list (map (\<lambda>g. gate_weight c g * g_score g) gs); den = sum_list (map (gate_weight c) gs)
     in if den > 0 then py_round 4 (n / den) else 0)"

definition conf_passes :: "confidence_model \<Rightarrow> real \<Rightarrow> bool" where
  "conf_passes c x \<longleftrightarrow> x \<ge> cf_min c"

section \<open>Intraday\<close>

record intraday_ctx =
  ix_last :: rupees
  ix_or_high :: rupees
  ix_or_low :: rupees
  ix_vwap :: rupees
  ix_rvol :: real
  ix_adv :: real
  ix_spread_pct :: real
  ix_gap_pct :: real
  ix_regime :: string
  ix_sector_strong :: bool
  ix_window_ok :: bool
  ix_macd_hist :: real
  ix_st_dir :: int
  ix_day_breadth :: string

record intraday_params =
  ip_min_adv :: "real option"
  ip_pref_adv :: "real list option"
  ip_max_spread :: "real option"
  ip_max_extension :: "real option"
  ip_breadth_gate :: bool
  ip_max_stop :: "real option"
  ip_orb_min :: "real option"
  ip_pullback_min :: "real option"
  ip_orb_ideal :: "real option"
  ip_gap :: "real option"
  ip_reward :: "real list option"

text \<open>Setup detection: side, name and stop.\<close>

definition orb_setup :: "real \<Rightarrow> intraday_ctx \<Rightarrow> (order_side \<times> string \<times> rupees) option" where
  "orb_setup ext x =
    (if ix_last x > ix_or_high x \<and> ix_regime x = ''trending_up'' then
       (if ix_or_high x > 0 \<and> (ix_last x - ix_or_high x) / ix_or_high x * 100 \<le> ext
        then Some (BUY, ''orb'', ix_or_low x) else None)
     else if ix_last x < ix_or_low x \<and> ix_regime x = ''trending_down'' then
       (if ix_or_low x > 0 \<and> (ix_or_low x - ix_last x) / ix_or_low x * 100 \<le> ext
        then Some (SELL, ''orb'', ix_or_high x) else None)
     else None)"

definition pullback_setup :: "intraday_ctx \<Rightarrow> (order_side \<times> string \<times> rupees) option" where
  "pullback_setup x =
    (let near = ix_vwap x > 0 \<and> \<bar>ix_last x - ix_vwap x\<bar> / ix_vwap x \<le> 3 / 1000 in
     if near \<and> ix_regime x = ''trending_up'' \<and> ix_last x \<ge> ix_vwap x
     then Some (BUY, ''vwap_pullback'', py_round 2 (ix_vwap x * (997 / 1000)))
     else if near \<and> ix_regime x = ''trending_down'' \<and> ix_last x \<le> ix_vwap x
     then Some (SELL, ''vwap_pullback'', py_round 2 (ix_vwap x * (1003 / 1000)))
     else None)"

definition intraday_setup :: "real \<Rightarrow> intraday_ctx \<Rightarrow> (order_side \<times> string \<times> rupees) option" where
  "intraday_setup ext x = (case orb_setup ext x of None \<Rightarrow> pullback_setup x | Some s \<Rightarrow> Some s)"

definition momentum_ok :: "order_side \<Rightarrow> intraday_ctx \<Rightarrow> bool" where
  "momentum_ok sd x = (if sd = BUY then ix_macd_hist x > 0 \<and> ix_st_dir x \<ge> 0
     else ix_macd_hist x < 0 \<and> ix_st_dir x \<le> 0)"

definition intraday_signal :: "intraday_params \<Rightarrow> instrument \<Rightarrow> string \<Rightarrow> order_side \<Rightarrow> string \<Rightarrow> rupees \<Rightarrow> rupees \<Rightarrow> signal" where
  "intraday_signal p ins sl sd setup entry stop =
    (let reward = head_or (ip_reward p) (3 / 2); risk = \<bar>entry - stop\<bar>;
         target = py_round 2 (if sd = BUY then entry + reward * risk else entry - reward * risk)
     in \<lparr>si_sleeve = sl, si_instrument = ins, si_side = Some sd, si_setup = setup, si_entry = py_round 2 entry,
         si_stop = py_round 2 stop, si_target = target, si_detail = no_detail\<rparr>)"

text \<open>Everything after the setup gate.\<close>

definition intraday_confirm :: "intraday_params \<Rightarrow> instrument \<Rightarrow> intraday_ctx \<Rightarrow> string \<Rightarrow> bool \<Rightarrow>
    order_side \<Rightarrow> string \<Rightarrow> rupees \<Rightarrow> gate list \<Rightarrow> pipeline_result option" where
  "intraday_confirm p ins x sl req_sector sd setup stop gs =
    (let entry = ix_last x;
         max_stop = get_default (ip_max_stop p) (3 / 2);
         stop_pct = (if entry > 0 then \<bar>entry - stop\<bar> / entry * 100 else 999);
         on_side = (if sd = BUY then ix_last x \<ge> ix_vwap x else ix_last x \<le> ix_vwap x);
         rvol_min = (if setup = ''orb'' then get_default (ip_orb_min p) (3 / 2) else get_default (ip_pullback_min p) (12 / 10));
         ideal = get_default (ip_orb_ideal p) 2;
         gap_up = ix_gap_pct x \<ge> get_default (ip_gap p) (1 / 2);
         strong = ix_sector_strong x
     in hard_gate ''stop_distance'' (stop_pct \<le> max_stop) (max 0 (1 - stop_pct / max max_stop (1 / 100)))
          (R_Stop_Wide stop_pct max_stop) gs (\<lambda>gs.
        if ideal = 0 then None
        else hard_gate ''confirmation'' (on_side \<and> ix_rvol x \<ge> rvol_min) (min 1 (ix_rvol x / ideal)) R_Confirmation gs (\<lambda>gs.
        let gs = add_gate ''momentum'' True (if momentum_ok sd x then 85 / 100 else 4 / 10) gs;
            gs = add_gate ''filters'' (strong \<or> \<not> req_sector) (1 / 2 + 1 / 4 * ind gap_up + 1 / 4 * ind strong) gs
        in if req_sector \<and> \<not> strong then Some (pl_reject R_Sector gs)
           else Some (pl_accept (intraday_signal p ins sl sd setup entry stop) gs))))"

definition evaluate_intraday :: "intraday_params \<Rightarrow> instrument \<Rightarrow> intraday_ctx \<Rightarrow> string \<Rightarrow> bool \<Rightarrow> pipeline_result option" where
  "evaluate_intraday p ins x sl req_sector =
    (let liq_ok = ix_adv x \<ge> get_default (ip_min_adv p) 500000 \<and> ix_spread_pct x \<le> get_default (ip_max_spread p) (1 / 10);
         pref = head_or (ip_pref_adv p) 2000000;
         trending = ix_regime x = ''trending_up'' \<or> ix_regime x = ''trending_down'';
         setup = intraday_setup (get_default (ip_max_extension p) (3 / 10)) x
     in if pref = 0 then None
        else hard_gate ''liquidity'' liq_ok (min 1 (ix_adv x / pref)) R_Illiquid [] (\<lambda>gs.
             hard_gate ''time_window'' (ix_window_ok x) (ind (ix_window_ok x)) R_Time_Window gs (\<lambda>gs.
             hard_gate ''regime'' trending (ind trending) R_Choppy gs (\<lambda>gs.
             hard_gate ''setup'' (setup \<noteq> None) (ind (setup \<noteq> None)) R_No_Setup gs (\<lambda>gs.
               case setup of None \<Rightarrow> None | Some (sd, nm, stop) \<Rightarrow>
                 let breadth = ix_day_breadth x;
                     b_ok = (sd = BUY \<and> breadth = ''bullish'' \<or> sd = SELL \<and> breadth = ''bearish'')
                 in if ip_breadth_gate p \<and> (breadth = ''bullish'' \<or> breadth = ''bearish'' \<or> breadth = ''mixed'')
                    then hard_gate ''breadth'' b_ok (if b_ok then 9 / 10 else 0) (R_Breadth breadth sd) gs
                           (intraday_confirm p ins x sl req_sector sd nm stop)
                    else intraday_confirm p ins x sl req_sector sd nm stop gs)))))"

definition intraday_pipeline :: "intraday_params \<Rightarrow> instrument \<Rightarrow> intraday_ctx \<Rightarrow> pipeline_result option" where
  "intraday_pipeline p ins x = evaluate_intraday p ins x ''intraday_stocks'' True"

definition mcx_intraday_pipeline :: "intraday_params \<Rightarrow> instrument \<Rightarrow> intraday_ctx \<Rightarrow> pipeline_result option" where
  "mcx_intraday_pipeline p ins x = evaluate_intraday p ins x ''mcx_commodities'' False"

section \<open>Swing\<close>

record fundamentals =
  fu_market_cap :: "real option"
  fu_roe :: "real option"
  fu_rev_growth :: "real option"
  fu_eps_growth :: "real option"
  fu_debt_equity :: "real option"
  fu_promoter :: "string option"
  fu_adv :: "real option"

record swing_ctx =
  sx_last :: rupees
  sx_sma200 :: rupees
  sx_atr :: real
  sx_market_uptrend :: bool
  sx_sector_strong :: bool
  sx_setup_ok :: bool
  sx_setup :: string
  sx_event :: bool
  sx_fundamentals :: fundamentals
  sx_fund_required :: bool

text \<open>The thresholds of \<open>fundamentals\<close> in the order of the checks, the other keys after them.\<close>

record swing_params =
  sp_cap :: "real option"
  sp_roe :: "real option"
  sp_rev :: "real option"
  sp_eps :: "real option"
  sp_debt :: "real option"
  sp_adv :: "real option"
  sp_require_uptrend :: "bool option"
  sp_event_action :: "string option"
  sp_atr_multiple :: "real option"

definition fundamental_checks :: "swing_params \<Rightarrow> fundamentals \<Rightarrow> bool list" where
  "fundamental_checks p f =
    [get_default (fu_market_cap f) 0 \<ge> get_default (sp_cap p) 5000,
     get_default (fu_roe f) 0 \<ge> get_default (sp_roe p) 15,
     get_default (fu_rev_growth f) 0 \<ge> get_default (sp_rev p) 10,
     get_default (fu_eps_growth f) 0 \<ge> get_default (sp_eps p) 15,
     get_default (fu_debt_equity f) 99 \<le> get_default (sp_debt p) (1 / 2),
     List.member [''stable'', ''rising'', ''stable_or_rising''] (get_default (fu_promoter f) []),
     get_default (fu_adv f) 0 \<ge> get_default (sp_adv p) 1000000]"

definition swing_signal :: "swing_params \<Rightarrow> string \<Rightarrow> instrument \<Rightarrow> swing_ctx \<Rightarrow> signal" where
  "swing_signal p sl ins x =
    (let stop = py_round 2 (sx_last x - get_default (sp_atr_multiple p) 2 * sx_atr x);
         risk = sx_last x - stop
     in \<lparr>si_sleeve = sl, si_instrument = ins, si_side = Some BUY,
         si_setup = (if sx_setup x = [] then ''swing'' else sx_setup x), si_entry = py_round 2 (sx_last x),
         si_stop = stop, si_target = py_round 2 (sx_last x + 2 * risk), si_detail = no_detail\<rparr>)"

definition swing_tail :: "swing_params \<Rightarrow> string \<Rightarrow> instrument \<Rightarrow> swing_ctx \<Rightarrow> gate list \<Rightarrow> pipeline_result option" where
  "swing_tail p sl ins x gs =
    hard_gate ''sector_strength'' (sx_sector_strong x) (if sx_sector_strong x then 1 else 4 / 10) R_Sector_Weak gs (\<lambda>gs.
    hard_gate ''technical_setup'' (sx_setup_ok x) (if sx_setup_ok x then 9 / 10 else 0) R_Technical gs (\<lambda>gs.
      let action = get_default (sp_event_action p) ''reduce_or_skip'' in
      if sx_event x \<and> action = ''reduce_or_skip''
      then hard_gate ''event_gate'' False 0 R_Event_Window gs (\<lambda>gs. Some (pl_accept (swing_signal p sl ins x) gs))
      else Some (pl_accept (swing_signal p sl ins x) (add_gate ''event_gate'' True 1 gs))))"

definition swing_evaluate :: "swing_params \<Rightarrow> string \<Rightarrow> instrument \<Rightarrow> swing_ctx \<Rightarrow> pipeline_result option" where
  "swing_evaluate p sl ins x =
    (let checks = fundamental_checks p (sx_fundamentals x); n_ok = length (filter id checks);
         above = (sx_last x > sx_sma200 x \<and> sx_sma200 x > 0);
         rest = (\<lambda>gs. hard_gate ''above_200dma'' above (ind above) R_Below_200dma gs (\<lambda>gs.
           if get_default (sp_require_uptrend p) True
           then hard_gate ''market_regime'' (sx_market_uptrend x) (ind (sx_market_uptrend x)) R_Market_Regime gs (swing_tail p sl ins x)
           else swing_tail p sl ins x (add_gate ''market_regime'' True 1 gs)))
     in if sx_fund_required x
        then hard_gate ''fundamentals'' (list_all id checks) (of_nat n_ok / of_nat (length checks))
               (R_Fundamentals n_ok (length checks)) [] rest
        else rest (add_gate ''fundamentals'' True 1 []))"

definition mcx_swing_evaluate :: "swing_params \<Rightarrow> instrument \<Rightarrow> swing_ctx \<Rightarrow> pipeline_result option" where
  "mcx_swing_evaluate p ins x = swing_evaluate p ''mcx_commodities'' ins (x\<lparr>sx_fund_required := False\<rparr>)"

section \<open>Every accepted result passed its hard gates\<close>

lemma hard_gate_SomeE:
  assumes "hard_gate nm ok score why gs k = Some r"
  obtains (pass) "ok" "k (add_gate nm True score gs) = Some r"
    | (fail) "\<not> ok" "r = pl_reject why (add_gate nm False score gs)"
  using assms by (cases ok) (auto simp: hard_gate_def Let_def)

lemma pl_reject_pass [simp]: "\<not> pr_pass (pl_reject why gs)"
  and pl_reject_gates [simp]: "pr_gates (pl_reject why gs) = gs"
  and pl_reject_signal [simp]: "pr_signal (pl_reject why gs) = None"
  and pl_accept_pass [simp]: "pr_pass (pl_accept s gs)"
  and pl_accept_gates [simp]: "pr_gates (pl_accept s gs) = gs"
  and pl_accept_signal [simp]: "pr_signal (pl_accept s gs) = Some s"
  by (simp_all add: pl_reject_def pl_accept_def)

lemma hard_gate_pass:
  "hard_gate nm ok score why gs k = Some r \<Longrightarrow> pr_pass r \<Longrightarrow> ok \<and> k (add_gate nm True score gs) = Some r"
  by (auto elim: hard_gate_SomeE)

text \<open>Scores stay in the unit interval, so the confidence does too.\<close>

definition scores_ok :: "gate list \<Rightarrow> bool" where
  "scores_ok gs \<longleftrightarrow> (\<forall>g\<in>set gs. 0 \<le> g_score g \<and> g_score g \<le> 1)"

lemma scores_ok_add [simp]: "scores_ok (add_gate nm ok s gs) \<longleftrightarrow> scores_ok gs"
  by (auto simp: scores_ok_def add_gate_def)

lemma scores_ok_Nil [simp]: "scores_ok []"
  by (simp add: scores_ok_def)

lemma hard_gate_scores:
  assumes "hard_gate nm ok score why gs k = Some r" "scores_ok gs"
    "\<And>gs' r. scores_ok gs' \<Longrightarrow> k gs' = Some r \<Longrightarrow> scores_ok (pr_gates r)"
  shows "scores_ok (pr_gates r)"
  using assms(1)
proof (cases rule: hard_gate_SomeE)
  case pass
  then show ?thesis using assms(2) assms(3) [of "add_gate nm True score gs" r] by simp
qed (use assms(2) in simp)

lemma py_round_unit: "0 \<le> x \<Longrightarrow> x \<le> 1 \<Longrightarrow> 0 \<le> py_round n x \<and> py_round n x \<le> 1"
proof -
  assume a: "0 \<le> x" "x \<le> 1"
  have "py_round n 1 = 1"
    using round_half_even_of_int [of "10 ^ n"] by (simp add: py_round_def)
  with py_round_nonneg [OF a(1)] py_round_mono [OF a(2), of n] show ?thesis by simp
qed

lemma weighted_mean_unit:
  assumes "\<And>x. x \<in> set xs \<Longrightarrow> 0 \<le> w x \<and> 0 \<le> s x \<and> s x \<le> (1::real)"
  shows "0 \<le> sum_list (map (\<lambda>x. w x * s x) xs)" "sum_list (map (\<lambda>x. w x * s x) xs) \<le> sum_list (map w xs)"
proof -
  show "0 \<le> sum_list (map (\<lambda>x. w x * s x) xs)" by (rule sum_list_nonneg) (use assms in auto)
  show "sum_list (map (\<lambda>x. w x * s x) xs) \<le> sum_list (map w xs)"
    by (rule sum_list_mono) (use assms in \<open>auto simp: mult_left_le\<close>)
qed

lemma conf_score_unit:
  assumes "scores_ok gs" "\<And>g. 0 \<le> gate_weight c g"
  shows "0 \<le> conf_score c gs \<and> conf_score c gs \<le> 1"
proof -
  note m = weighted_mean_unit [of gs "gate_weight c" g_score]
  show ?thesis
    unfolding conf_score_def Let_def
    using m assms by (auto simp: scores_ok_def intro!: py_round_unit [THEN conjunct1] py_round_unit [THEN conjunct2])
qed

section \<open>The intraday funnel\<close>

lemma hard_gate_passE:
  assumes "hard_gate nm ok score why gs k = Some r" "pr_pass r"
  obtains "ok" "k (add_gate nm True score gs) = Some r"
  using hard_gate_pass [OF assms] by blast

lemma intraday_confirm_pass:
  assumes "intraday_confirm p ins x sl req sd nm stop gs = Some r" "pr_pass r"
  shows "pr_signal r = Some (intraday_signal p ins sl sd nm (ix_last x) stop)
    \<and> (if sd = BUY then ix_vwap x \<le> ix_last x else ix_last x \<le> ix_vwap x)
    \<and> (0 < ix_last x \<longrightarrow> \<bar>ix_last x - stop\<bar> / ix_last x * 100 \<le> get_default (ip_max_stop p) (3 / 2))
    \<and> (req \<longrightarrow> ix_sector_strong x)"
  using assms(1) unfolding intraday_confirm_def Let_def
proof (rule hard_gate_passE [OF _ assms(2)], goal_cases)
  case 1
  note stop = 1(1)
  from 1(2) have "get_default (ip_orb_ideal p) 2 \<noteq> 0" by (simp split: if_splits)
  with 1(2) show ?case
    unfolding if_not_P [OF \<open>get_default (ip_orb_ideal p) 2 \<noteq> 0\<close>]
  proof (elim hard_gate_passE [OF _ assms(2)], goal_cases)
    case 1
    have "pr_signal r = Some (intraday_signal p ins sl sd nm (ix_last x) stop) \<and> (req \<longrightarrow> ix_sector_strong x)"
      using 1(3) assms(2) by (auto split: if_splits)
    moreover have "if sd = BUY then ix_vwap x \<le> ix_last x else ix_last x \<le> ix_vwap x" using 1(2) by simp
    moreover have "0 < ix_last x \<longrightarrow> \<bar>ix_last x - stop\<bar> / ix_last x * 100 \<le> get_default (ip_max_stop p) (3 / 2)"
      using stop by (auto simp only: if_P)
    ultimately show ?case by blast
  qed
qed

lemma head_or_nonneg: "\<forall>xs x. ip_reward p = Some (x # xs) \<longrightarrow> 0 \<le> x \<Longrightarrow> 0 \<le> head_or (ip_reward p) (3 / 2)"
  by (auto simp: head_or_def split: option.splits list.splits)

lemma evaluate_intraday_pass:
  assumes "evaluate_intraday p ins x sl req = Some r" "pr_pass r"
  obtains sd nm stop gs where "intraday_setup (get_default (ip_max_extension p) (3 / 10)) x = Some (sd, nm, stop)"
    "intraday_confirm p ins x sl req sd nm stop gs = Some r" "ix_window_ok x"
    "get_default (ip_min_adv p) 500000 \<le> ix_adv x"
    "ip_breadth_gate p \<Longrightarrow> ix_day_breadth x \<noteq> ''mixed'' \<and> (ix_day_breadth x = ''bullish'' \<longrightarrow> sd = BUY)
       \<and> (ix_day_breadth x = ''bearish'' \<longrightarrow> sd = SELL)"
proof -
  let ?st = "intraday_setup (get_default (ip_max_extension p) (3 / 10)) x"
  from assms(1) have "head_or (ip_pref_adv p) 2000000 \<noteq> 0" by (simp add: evaluate_intraday_def Let_def split: if_splits)
  note ev = assms(1) [unfolded evaluate_intraday_def Let_def if_not_P [OF this]]
  show thesis using ev
  proof (elim hard_gate_passE [OF _ assms(2)], goal_cases)
    case 1
    then obtain sd nm stop where st: "?st = Some (sd, nm, stop)" by auto
    show thesis
    proof (cases "ip_breadth_gate p \<and> (ix_day_breadth x = ''bullish'' \<or> ix_day_breadth x = ''bearish'' \<or> ix_day_breadth x = ''mixed'')")
      case True
      note h = 1(5) [unfolded st option.case prod.case if_P [OF True]]
      show thesis
        by (rule hard_gate_passE [OF h assms(2)], rule that [OF st], assumption, use 1 in simp, use 1 in simp, use True in auto)
    next
      case False
      note h = 1(5) [unfolded st option.case prod.case if_not_P [OF False]]
      show thesis by (rule that [OF st h]) (use 1 False in auto)
    qed
  qed
qed

lemma orb_setup_cases:
  assumes "orb_setup ext x = Some (sd, nm, stop)"
  shows "sd = BUY \<and> ix_regime x = ''trending_up'' \<and> ix_or_high x < ix_last x \<and> stop = ix_or_low x
    \<or> sd = SELL \<and> ix_regime x = ''trending_down'' \<and> ix_last x < ix_or_low x \<and> stop = ix_or_high x"
  using assms unfolding orb_setup_def by (simp split: if_splits)

lemma pullback_setup_cases:
  assumes "pullback_setup x = Some (sd, nm, stop)"
  shows "sd = BUY \<and> ix_regime x = ''trending_up'' \<and> 0 < ix_vwap x \<and> ix_vwap x \<le> ix_last x \<and> stop = py_round 2 (ix_vwap x * (997 / 1000))
    \<or> sd = SELL \<and> ix_regime x = ''trending_down'' \<and> 0 < ix_vwap x \<and> ix_last x \<le> ix_vwap x \<and> stop = py_round 2 (ix_vwap x * (1003 / 1000))"
  using assms unfolding pullback_setup_def Let_def by (simp split: if_splits)

lemma setup_stop_side:
  assumes "intraday_setup ext x = Some (sd, nm, stop)" "ix_or_low x \<le> ix_or_high x"
  shows "(if sd = BUY then py_round 2 stop \<le> py_round 2 (ix_last x) else py_round 2 (ix_last x) \<le> py_round 2 stop)
    \<and> ix_regime x = (if sd = BUY then ''trending_up'' else ''trending_down'')"
proof (cases "orb_setup ext x")
  case None
  with assms(1) have "pullback_setup x = Some (sd, nm, stop)" by (simp add: intraday_setup_def)
  from pullback_setup_cases [OF this] show ?thesis
  proof (elim disjE conjE, goal_cases)
    case 1
    then have "ix_vwap x * (997 / 1000) \<le> ix_last x" by linarith
    with 1 show ?case by (simp add: py_round_mono)
  next
    case 2
    then have "ix_last x \<le> ix_vwap x * (1003 / 1000)" by linarith
    with 2 show ?case by (simp add: py_round_mono)
  qed
next
  case (Some s)
  with assms(1) have "orb_setup ext x = Some (sd, nm, stop)" by (simp add: intraday_setup_def)
  from orb_setup_cases [OF this] assms(2) show ?thesis by (elim disjE conjE) (simp_all add: py_round_mono)
qed

text \<open>C17. An accepted intraday signal is tradeable: it trades with the regime, its rounded stop never lies
  on the profit side of its entry and its target never on the loss side, it was taken inside the entry
  window and on the right side of VWAP, and with the breadth gate on it never goes against the day.\<close>
theorem intraday_signal_is_oriented:
  assumes "evaluate_intraday p ins x sl req = Some r" "pr_pass r" "ix_or_low x \<le> ix_or_high x"
    "\<forall>xs y. ip_reward p = Some (y # xs) \<longrightarrow> 0 \<le> y"
  shows "\<exists>s sd. pr_signal r = Some s \<and> si_side s = Some sd \<and> si_entry s = py_round 2 (ix_last x)
    \<and> (if sd = BUY then si_stop s \<le> si_entry s \<and> si_entry s \<le> si_target s \<and> ix_vwap x \<le> ix_last x
       else si_entry s \<le> si_stop s \<and> si_target s \<le> si_entry s \<and> ix_last x \<le> ix_vwap x)
    \<and> ix_regime x = (if sd = BUY then ''trending_up'' else ''trending_down'')
    \<and> ix_window_ok x \<and> (req \<longrightarrow> ix_sector_strong x)
    \<and> (ip_breadth_gate p \<longrightarrow> ix_day_breadth x \<noteq> ''mixed''
         \<and> (ix_day_breadth x = ''bullish'' \<longrightarrow> sd = BUY) \<and> (ix_day_breadth x = ''bearish'' \<longrightarrow> sd = SELL))"
proof -
  from assms(1,2) obtain sd nm stop gs where st: "intraday_setup (get_default (ip_max_extension p) (3 / 10)) x = Some (sd, nm, stop)"
    and c: "intraday_confirm p ins x sl req sd nm stop gs = Some r" and w: "ix_window_ok x"
    and b: "ip_breadth_gate p \<Longrightarrow> ix_day_breadth x \<noteq> ''mixed'' \<and> (ix_day_breadth x = ''bullish'' \<longrightarrow> sd = BUY)
       \<and> (ix_day_breadth x = ''bearish'' \<longrightarrow> sd = SELL)"
    by (rule evaluate_intraday_pass) blast
  define s where "s = intraday_signal p ins sl sd nm (ix_last x) stop"
  have pos: "0 \<le> head_or (ip_reward p) (3 / 2) * \<bar>ix_last x - stop\<bar>" using head_or_nonneg [OF assms(4)] by simp
  note pass = intraday_confirm_pass [OF c assms(2), folded s_def]
  have fields: "si_side s = Some sd" "si_entry s = py_round 2 (ix_last x)" "si_stop s = py_round 2 stop"
    by (simp_all add: s_def intraday_signal_def Let_def)
  have tgt: "if sd = BUY then si_entry s \<le> si_target s else si_target s \<le> si_entry s"
    using pos by (simp add: s_def intraday_signal_def Let_def py_round_mono)
  show ?thesis
    using fields tgt w b pass setup_stop_side [OF st assms(3)]
    by (intro exI [of _ s] exI [of _ sd]) (cases sd; simp)
qed

definition demo_iparams :: intraday_params where
  "demo_iparams = \<lparr>ip_min_adv = None, ip_pref_adv = None, ip_max_spread = None, ip_max_extension = None,
     ip_breadth_gate = True, ip_max_stop = None, ip_orb_min = None, ip_pullback_min = None, ip_orb_ideal = None,
     ip_gap = None, ip_reward = Some [3 / 2]\<rparr>"

definition demo_ictx :: intraday_ctx where
  "demo_ictx = \<lparr>ix_last = 1002 / 10, ix_or_high = 100, ix_or_low = 99, ix_vwap = 100, ix_rvol = 2, ix_adv = 3000000,
     ix_spread_pct = 5 / 100, ix_gap_pct = 1, ix_regime = ''trending_up'', ix_sector_strong = True, ix_window_ok = True,
     ix_macd_hist = 1, ix_st_dir = 1, ix_day_breadth = ''bullish''\<rparr>"

definition demo_equity :: instrument where
  "demo_equity = \<lparr>in_token = Some 42, in_symbol = Some ''INFY'', in_exchange = Some ''NSE'', in_lot = Some 1,
     in_type = Some ''EQ'', in_tick = None, in_expiry = None\<rparr>"

lemma intraday_signal_is_oriented_witness:
  "case evaluate_intraday demo_iparams demo_equity demo_ictx ''intraday_stocks'' True of
     Some r \<Rightarrow> pr_pass r \<and> (case pr_signal r of Some s \<Rightarrow> si_stop s \<le> si_entry s | None \<Rightarrow> False) | None \<Rightarrow> False"
proof -
  have "case evaluate_intraday demo_iparams demo_equity demo_ictx ''intraday_stocks'' True of
     Some r \<Rightarrow> pr_pass r \<and> (case pr_signal r of Some s \<Rightarrow> (case si_side s of Some BUY \<Rightarrow> True | _ \<Rightarrow> False) | None \<Rightarrow> False) | None \<Rightarrow> False"
    by code_simp
  then obtain r s where e: "evaluate_intraday demo_iparams demo_equity demo_ictx ''intraday_stocks'' True = Some r" "pr_pass r"
    "pr_signal r = Some s" "si_side s = Some BUY" by (auto split: option.splits order_side.splits)
  from intraday_signal_is_oriented [OF e(1,2)] have "si_stop s \<le> si_entry s"
    using e by (auto simp: demo_ictx_def demo_iparams_def)
  with e show ?thesis by simp
qed

section \<open>The swing funnel\<close>

lemma swing_tail_pass:
  "swing_tail p sl ins x gs = Some r \<Longrightarrow> pr_pass r \<Longrightarrow>
   pr_signal r = Some (swing_signal p sl ins x) \<and> sx_setup_ok x \<and> sx_sector_strong x
   \<and> (get_default (sp_event_action p) ''reduce_or_skip'' = ''reduce_or_skip'' \<longrightarrow> \<not> sx_event x)"
  unfolding swing_tail_def Let_def by (elim hard_gate_passE) (auto split: if_splits elim: hard_gate_passE)

lemma swing_evaluate_pass:
  assumes "swing_evaluate p sl ins x = Some r" "pr_pass r"
  shows "pr_signal r = Some (swing_signal p sl ins x) \<and> sx_sma200 x < sx_last x \<and> 0 < sx_sma200 x
    \<and> (sx_fund_required x \<longrightarrow> list_all id (fundamental_checks p (sx_fundamentals x)))"
proof -
  have rest: "sx_sma200 x < sx_last x \<and> 0 < sx_sma200 x \<and> pr_signal r = Some (swing_signal p sl ins x)"
    if h: "hard_gate ''above_200dma'' (sx_sma200 x < sx_last x \<and> 0 < sx_sma200 x) (ind (sx_sma200 x < sx_last x \<and> 0 < sx_sma200 x))
        R_Below_200dma gs (\<lambda>gs. if get_default (sp_require_uptrend p) True
          then hard_gate ''market_regime'' (sx_market_uptrend x) (ind (sx_market_uptrend x)) R_Market_Regime gs (swing_tail p sl ins x)
          else swing_tail p sl ins x (add_gate ''market_regime'' True 1 gs)) = Some r" for gs
    using h assms(2)
    by (elim hard_gate_passE [OF _ assms(2)])
      (auto split: if_splits elim!: hard_gate_passE dest: swing_tail_pass)
  show ?thesis
  proof (cases "sx_fund_required x")
    case True
    note h = assms(1) [unfolded swing_evaluate_def Let_def if_P [OF True]]
    show ?thesis by (rule hard_gate_passE [OF h assms(2)]) (use rest in blast)
  next
    case False
    with assms(1) rest show ?thesis unfolding swing_evaluate_def Let_def if_not_P [OF False] by blast
  qed
qed

text \<open>A long swing entry has its stop below and its target above the price it was taken at.\<close>

lemma swing_signal_oriented:
  assumes "0 \<le> get_default (sp_atr_multiple p) 2 * sx_atr x" "py_round 2 (sx_last x) = sx_last x"
  shows "si_stop (swing_signal p sl ins x) \<le> si_entry (swing_signal p sl ins x)
    \<and> si_entry (swing_signal p sl ins x) \<le> si_target (swing_signal p sl ins x)"
proof -
  let ?st = "py_round 2 (sx_last x - get_default (sp_atr_multiple p) 2 * sx_atr x)"
  have "?st \<le> py_round 2 (sx_last x)" using assms(1) by (intro py_round_mono) simp
  then have "?st \<le> sx_last x" using assms(2) by simp
  moreover have "py_round 2 (sx_last x) \<le> py_round 2 (sx_last x + 2 * (sx_last x - ?st))"
    using calculation by (intro py_round_mono) simp
  ultimately show ?thesis using assms(2) by (simp add: swing_signal_def Let_def)
qed

end
