(* ===== verification/Circuits.thy ===== *)
theory Circuits
  imports Prelude
begin

text \<open>
  \<open>risk/circuits.py\<close>, \<open>risk/dependencies.py\<close> and \<open>risk/expiry_control.py\<close>: the pure
  predicates of the soft brakes, of the fail-closed dependency policy and of the expiry-day
  controls.
\<close>

section \<open>Brakes\<close>

definition drawdown_breached :: "rupees \<Rightarrow> rupees \<Rightarrow> rupees \<Rightarrow> real \<Rightarrow> bool" where
  "drawdown_breached peak current capital max_dd_pct =
     (if capital \<le> 0 \<or> max_dd_pct \<le> 0 then False
      else peak - current \<ge> capital * max_dd_pct / 100)"

definition profit_lock_breached ::
  "rupees \<Rightarrow> rupees \<Rightarrow> rupees \<Rightarrow> real \<Rightarrow> real \<Rightarrow> bool" where
  "profit_lock_breached peak current capital trigger_pct max_giveback_pct =
     (if capital \<le> 0 \<or> trigger_pct \<le> 0 \<or> peak \<le> 0 then False
      else if peak < capital * trigger_pct / 100 then False
      else current \<le> peak * (1 - max_giveback_pct / 100))"

text \<open>\<open>min_trades \<le> 0\<close> with no trades would divide by zero: the division raises.\<close>

definition should_disable_sleeve :: "real list \<Rightarrow> int \<Rightarrow> real \<Rightarrow> bool option" where
  "should_disable_sleeve rs min_trades expectancy_floor =
     (if int (length rs) < min_trades then Some False
      else if rs = [] then None
      else Some (sum_list rs / of_nat (length rs) < expectancy_floor))"

definition period_loss_breached :: "rupees \<Rightarrow> rupees \<Rightarrow> real \<Rightarrow> bool" where
  "period_loss_breached realized capital max_loss_pct =
     (if capital \<le> 0 \<or> max_loss_pct \<le> 0 then False
      else realized \<le> - (capital * max_loss_pct / 100))"

text \<open>The loop of \<open>loss_streak_hit\<close> with its counter.\<close>

fun streak_loop :: "rupees list \<Rightarrow> int \<Rightarrow> int \<Rightarrow> bool" where
  "streak_loop [] n k = False"
| "streak_loop (p # ps) n k =
     (if p < 0 then (if k + 1 \<ge> n then True else streak_loop ps n (k + 1)) else False)"

definition loss_streak_hit :: "rupees list \<Rightarrow> int \<Rightarrow> bool" where
  "loss_streak_hit pnls max_consecutive =
     (if max_consecutive \<le> 0 then False else streak_loop pnls max_consecutive 0)"

lemma streak_loop_iff:
  assumes "k < n"
  shows "streak_loop ps n k \<longleftrightarrow>
    n - k \<le> int (length ps) \<and> (\<forall>p\<in>set (take (nat (n - k)) ps). p < 0)"
  using assms
proof (induction ps arbitrary: k)
  case (Cons p ps)
  show ?case
  proof (cases "k + 1 \<ge> n")
    case True
    with Cons.prems have "n - k = 1" by simp
    then show ?thesis by simp
  next
    case False
    then have "nat (n - k) = Suc (nat (n - (k + 1)))" using Cons.prems by simp
    with False Cons.IH [of "k + 1"] show ?thesis by auto
  qed
qed simp

lemma loss_streak_hit_iff:
  "0 < n \<Longrightarrow> loss_streak_hit ps n \<longleftrightarrow>
     n \<le> int (length ps) \<and> (\<forall>p\<in>set (take (nat n) ps). p < 0)"
  by (simp add: loss_streak_hit_def streak_loop_iff)

text \<open>A deeper loss never releases a brake, a higher peak never does either.\<close>

lemma drawdown_breached_mono:
  "drawdown_breached p c cap d \<Longrightarrow> p \<le> p' \<Longrightarrow> c' \<le> c \<Longrightarrow> drawdown_breached p' c' cap d"
  by (auto simp: drawdown_breached_def split: if_splits)

lemma period_loss_breached_mono:
  "period_loss_breached r cap m \<Longrightarrow> r' \<le> r \<Longrightarrow> period_loss_breached r' cap m"
  by (auto simp: period_loss_breached_def split: if_splits)

lemma profit_lock_breached_mono:
  "profit_lock_breached p c cap t g \<Longrightarrow> c' \<le> c \<Longrightarrow> profit_lock_breached p c' cap t g"
  by (auto simp: profit_lock_breached_def split: if_splits)

section \<open>Dependencies\<close>

datatype disposition = Dep_OK | Dep_Degraded | Dep_Failed

definition dep_disposition :: "string \<Rightarrow> bool \<Rightarrow> disposition" where
  "dep_disposition risk_profile available =
     (if available then Dep_OK
      else if risk_profile = ''live'' then Dep_Failed else Dep_Degraded)"

definition must_block :: "string \<Rightarrow> bool \<Rightarrow> bool" where
  "must_block risk_profile available = (dep_disposition risk_profile available = Dep_Failed)"

lemma must_block_iff [simp]: "must_block prof av \<longleftrightarrow> prof = ''live'' \<and> \<not> av"
  by (simp add: must_block_def dep_disposition_def)

section \<open>Expiry-day controls\<close>

text \<open>Dates are day numbers; \<open>days_to_expiry\<close> is their difference.\<close>

definition days_to_expiry :: "int \<Rightarrow> int \<Rightarrow> int" where
  "days_to_expiry expiry today = expiry - today"

definition moneyness :: "real \<Rightarrow> real \<Rightarrow> real" where
  "moneyness spot strike = (if spot \<noteq> 0 then \<bar>spot - strike\<bar> / spot else 1)"

definition pin_risk :: "real \<Rightarrow> real \<Rightarrow> int \<Rightarrow> real \<Rightarrow> int \<Rightarrow> bool" where
  "pin_risk spot strike dte atm_band dte_max \<longleftrightarrow>
     dte \<le> dte_max \<and> moneyness spot strike \<le> atm_band"

datatype expiry_act = Allow | Reduce | Block

definition expiry_action :: "int \<Rightarrow> real \<Rightarrow> bool \<Rightarrow> real \<Rightarrow> expiry_act" where
  "expiry_action dte mny is_short atm_band =
     (if dte < 0 then Block
      else if is_short \<and> mny \<le> atm_band then
        (if dte = 0 then Block else if dte = 1 then Reduce else Allow)
      else Allow)"

lemma expiry_action_block_iff:
  "expiry_action dte mny sh band = Block \<longleftrightarrow> dte < 0 \<or> (dte = 0 \<and> sh \<and> mny \<le> band)"
  by (auto simp: expiry_action_def)

text \<open>A pinned short at expiry is never simply allowed.\<close>

lemma pinned_short_not_allowed:
  "pin_risk spot strike dte band 1 \<Longrightarrow> expiry_action dte (moneyness spot strike) True band \<noteq> Allow"
  by (auto simp: pin_risk_def expiry_action_def)

end
