(* ===== verification/Options.thy ===== *)
theory Options
  imports Circuits
begin

text \<open>
  \<open>data/options.py\<close>, \<open>risk/greeks_portfolio.py\<close>, \<open>risk/scenario_var.py\<close>, \<open>backtest/span_margin.py\<close> and
  \<open>risk/structure_risk.py\<close>: Black-Scholes prices and Greeks, implied volatility by bisection, and the
  risk figures of a multi-leg book. \<open>math.erf\<close> of the Python library is an argument; what the
  proofs use of it (odd, monotone, between -1 and 1) is \<open>erf_ok\<close>. Dates are day numbers.
\<close>

definition erf_ok :: "(real \<Rightarrow> real) \<Rightarrow> bool" where
  "erf_ok erf \<longleftrightarrow> (\<forall>x. erf (- x) = - erf x) \<and> (\<forall>x y. x \<le> y \<longrightarrow> erf x \<le> erf y) \<and> (\<forall>x. \<bar>erf x\<bar> \<le> 1)"

section \<open>Black-Scholes\<close>

definition norm_cdf :: "(real \<Rightarrow> real) \<Rightarrow> real \<Rightarrow> real" where
  "norm_cdf erf x = 1 / 2 * (1 + erf (x / sqrt 2))"

definition norm_pdf :: "real \<Rightarrow> real" where
  "norm_pdf x = exp (- 1 / 2 * x * x) / sqrt (2 * pi)"

definition d1_d2 :: "real \<Rightarrow> real \<Rightarrow> real \<Rightarrow> real \<Rightarrow> real \<Rightarrow> (real \<times> real) option" where
  "d1_d2 S K t r sigma =
    (if sigma \<le> 0 \<or> t \<le> 0 \<or> S \<le> 0 \<or> K \<le> 0 then None
     else let d1 = (ln (S / K) + (r + 1 / 2 * sigma * sigma) * t) / (sigma * sqrt t)
          in Some (d1, d1 - sigma * sqrt t))"

definition intrinsic_value :: "real \<Rightarrow> real \<Rightarrow> string \<Rightarrow> real" where
  "intrinsic_value S K opt = max 0 (if opt = ''CE'' then S - K else K - S)"

definition bs_price :: "(real \<Rightarrow> real) \<Rightarrow> real \<Rightarrow> real \<Rightarrow> real \<Rightarrow> real \<Rightarrow> real \<Rightarrow> string \<Rightarrow> real" where
  "bs_price erf S K t r sigma opt = (case d1_d2 S K t r sigma of
     None \<Rightarrow> intrinsic_value S K opt
   | Some (d1, d2) \<Rightarrow>
       if opt = ''CE'' then S * norm_cdf erf d1 - K * exp (- r * t) * norm_cdf erf d2
       else K * exp (- r * t) * norm_cdf erf (- d2) - S * norm_cdf erf (- d1))"

record greek_set =
  gk_delta :: real
  gk_gamma :: real
  gk_vega :: real
  gk_theta :: real

definition greeks :: "(real \<Rightarrow> real) \<Rightarrow> real \<Rightarrow> real \<Rightarrow> real \<Rightarrow> real \<Rightarrow> real \<Rightarrow> string \<Rightarrow> greek_set" where
  "greeks erf S K t r sigma opt = (case d1_d2 S K t r sigma of
     None \<Rightarrow> \<lparr>gk_delta = 0, gk_gamma = 0, gk_vega = 0, gk_theta = 0\<rparr>
   | Some (d1, d2) \<Rightarrow>
       let pdf = norm_pdf d1; sqrt_t = sqrt t in
       \<lparr>gk_delta = (if opt = ''CE'' then norm_cdf erf d1 else norm_cdf erf d1 - 1),
        gk_gamma = pdf / (S * sigma * sqrt_t),
        gk_vega = S * pdf * sqrt_t / 100,
        gk_theta = (if opt = ''CE''
          then (- (S * pdf * sigma) / (2 * sqrt_t) - r * K * exp (- r * t) * norm_cdf erf d2) / 365
          else (- (S * pdf * sigma) / (2 * sqrt_t) + r * K * exp (- r * t) * norm_cdf erf (- d2)) / 365)\<rparr>)"

text \<open>The bisection loop: Inl when a midpoint fits, Inr the final interval after the steps left.\<close>

fun bisect :: "(real \<Rightarrow> real) \<Rightarrow> nat \<Rightarrow> real \<Rightarrow> real \<Rightarrow> real + real \<times> real" where
  "bisect f 0 lo hi = Inr (lo, hi)"
| "bisect f (Suc n) lo hi =
    (let mid = 1 / 2 * (lo + hi); diff = f mid in
     if \<bar>diff\<bar> < 1 / 1000000 then Inl mid
     else if diff > 0 then bisect f n lo mid else bisect f n mid hi)"

definition implied_vol :: "(real \<Rightarrow> real) \<Rightarrow> real \<Rightarrow> real \<Rightarrow> real \<Rightarrow> real \<Rightarrow> real \<Rightarrow> string \<Rightarrow> real" where
  "implied_vol erf price S K t r opt =
    (if price \<le> intrinsic_value S K opt \<or> t \<le> 0 then 0
     else case bisect (\<lambda>mid. bs_price erf S K t r mid opt - price) 100 (1 / 10000) 5 of
       Inl mid \<Rightarrow> mid
     | Inr (lo, hi) \<Rightarrow> let result = 1 / 2 * (lo + hi) in if result \<ge> 499 / 100 then 0 else result)"

definition iv_rank :: "real \<Rightarrow> real list \<Rightarrow> real" where
  "iv_rank current hist = (case hist of [] \<Rightarrow> 0 | h # hs \<Rightarrow>
     let lo = foldl min h hs; hi = foldl max h hs in
     if hi = lo then 0 else max 0 (min 100 ((current - lo) / (hi - lo) * 100)))"

definition iv_percentile :: "real \<Rightarrow> real list \<Rightarrow> real" where
  "iv_percentile current hist =
    (if hist = [] then 0 else 100 * of_nat (length (filter (\<lambda>v. v < current) hist)) / of_nat (length hist))"

definition year_fraction :: "int \<Rightarrow> int \<Rightarrow> real" where
  "year_fraction expiry now = of_int (max (expiry - now) 0) / 365"

record option_analysis =
  oa_iv :: real
  oa_t :: real
  oa_greeks :: greek_set

definition analyze_option :: "(real \<Rightarrow> real) \<Rightarrow> real \<Rightarrow> real \<Rightarrow> int \<Rightarrow> real \<Rightarrow> string \<Rightarrow> real \<Rightarrow> int \<Rightarrow> option_analysis" where
  "analyze_option erf spot strike expiry premium opt r now =
    (let t = year_fraction expiry now; iv = implied_vol erf premium spot strike t r opt
     in \<lparr>oa_iv = iv, oa_t = t, oa_greeks = greeks erf spot strike t r iv opt\<rparr>)"

section \<open>Risk of a book\<close>

text \<open>A leg that is neither CE nor PE is linear.\<close>

record opt_pos =
  op_S :: real
  op_K :: real
  op_t :: "real option"
  op_exp :: "int option"
  op_iv :: real
  op_opt :: "string option"
  op_qty :: real
  op_lot :: "real option"

definition is_option :: "opt_pos \<Rightarrow> bool" where
  "is_option p \<longleftrightarrow> op_opt p = Some ''CE'' \<or> op_opt p = Some ''PE''"

definition pos_t :: "int \<Rightarrow> opt_pos \<Rightarrow> real" where
  "pos_t now p = (case op_t p of Some t \<Rightarrow> t
     | None \<Rightarrow> (case op_exp p of Some x \<Rightarrow> year_fraction x now | None \<Rightarrow> 0))"

definition pos_mult :: "opt_pos \<Rightarrow> real" where
  "pos_mult p = op_qty p * py_or (op_lot p) 1"

definition scale_greeks :: "real \<Rightarrow> greek_set \<Rightarrow> greek_set" where
  "scale_greeks m g = \<lparr>gk_delta = gk_delta g * m, gk_gamma = gk_gamma g * m, gk_vega = gk_vega g * m, gk_theta = gk_theta g * m\<rparr>"

definition position_greeks :: "(real \<Rightarrow> real) \<Rightarrow> real \<Rightarrow> int \<Rightarrow> opt_pos \<Rightarrow> greek_set" where
  "position_greeks erf r now p =
    (if \<not> is_option p then \<lparr>gk_delta = pos_mult p, gk_gamma = 0, gk_vega = 0, gk_theta = 0\<rparr>
     else scale_greeks (pos_mult p) (greeks erf (op_S p) (op_K p) (pos_t now p) r (op_iv p) (get_default (op_opt p) [])))"

definition add_greeks :: "greek_set \<Rightarrow> greek_set \<Rightarrow> greek_set" where
  "add_greeks a b = \<lparr>gk_delta = gk_delta a + gk_delta b, gk_gamma = gk_gamma a + gk_gamma b,
     gk_vega = gk_vega a + gk_vega b, gk_theta = gk_theta a + gk_theta b\<rparr>"

definition zero_greeks :: greek_set where
  "zero_greeks = \<lparr>gk_delta = 0, gk_gamma = 0, gk_vega = 0, gk_theta = 0\<rparr>"

definition portfolio_greeks :: "(real \<Rightarrow> real) \<Rightarrow> real \<Rightarrow> int \<Rightarrow> opt_pos list \<Rightarrow> greek_set" where
  "portfolio_greeks erf r now ps =
    (let net = foldl (\<lambda>acc p. add_greeks acc (position_greeks erf r now p)) zero_greeks ps
     in \<lparr>gk_delta = py_round 4 (gk_delta net), gk_gamma = py_round 4 (gk_gamma net),
         gk_vega = py_round 4 (gk_vega net), gk_theta = py_round 4 (gk_theta net)\<rparr>)"

text \<open>\<open>net.get(g, 0.0)\<close>; the limits are a dictionary, a None limit is no limit.\<close>

definition greek_value :: "greek_set \<Rightarrow> string \<Rightarrow> real" where
  "greek_value g k = (if k = ''delta'' then gk_delta g else if k = ''gamma'' then gk_gamma g
     else if k = ''vega'' then gk_vega g else if k = ''theta'' then gk_theta g else 0)"

definition greek_limit_breaches :: "greek_set \<Rightarrow> (string \<times> real option) list \<Rightarrow> (string \<times> real \<times> real) list" where
  "greek_limit_breaches net limits =
    concat (map (\<lambda>(g, lim). case lim of None \<Rightarrow> []
      | Some l \<Rightarrow> if \<bar>greek_value net g\<bar> > l then [(g, py_round 4 (greek_value net g), l)] else []) limits)"

definition reprice :: "(real \<Rightarrow> real) \<Rightarrow> real \<Rightarrow> int \<Rightarrow> opt_pos \<Rightarrow> real \<Rightarrow> real \<Rightarrow> real" where
  "reprice erf r now p S sigma =
    (if \<not> is_option p then S
     else bs_price erf S (op_K p) (pos_t now p) r (max (1 / 1000000) sigma) (get_default (op_opt p) []))"

definition position_pnl :: "(real \<Rightarrow> real) \<Rightarrow> real \<Rightarrow> int \<Rightarrow> real \<Rightarrow> real \<Rightarrow> opt_pos \<Rightarrow> real" where
  "position_pnl erf r now ds dv p =
    (reprice erf r now p (op_S p * (1 + ds)) (op_iv p + dv / 100) - reprice erf r now p (op_S p) (op_iv p)) * pos_mult p"

definition scenario_pnl :: "(real \<Rightarrow> real) \<Rightarrow> real \<Rightarrow> int \<Rightarrow> opt_pos list \<Rightarrow> real \<Rightarrow> real \<Rightarrow> real" where
  "scenario_pnl erf r now ps ds dv = py_round 2 (sum_list (map (position_pnl erf r now ds dv) ps))"

text \<open>The dictionary of the grid keeps its insertion order; \<open>min\<close> takes the first smallest.\<close>

definition stress_grid :: "(real \<Rightarrow> real) \<Rightarrow> real \<Rightarrow> int \<Rightarrow> real list \<Rightarrow> real list \<Rightarrow> opt_pos list \<Rightarrow> ((real \<times> real) \<times> real) list" where
  "stress_grid erf r now ss vs ps =
    foldl (\<lambda>acc (s, v). upsert (py_round 4 s, py_round 4 v) (scenario_pnl erf r now ps s v) acc) []
      (concat (map (\<lambda>s. map (\<lambda>v. (s, v)) vs) ss))"

definition first_min :: "('k \<times> real) \<Rightarrow> ('k \<times> real) list \<Rightarrow> 'k \<times> real" where
  "first_min = foldl (\<lambda>b x. if snd x < snd b then x else b)"

definition stress_var :: "(real \<Rightarrow> real) \<Rightarrow> real \<Rightarrow> int \<Rightarrow> real list \<Rightarrow> real list \<Rightarrow> opt_pos list \<Rightarrow> real \<times> (real \<times> real) option \<times> nat" where
  "stress_var erf r now ss vs ps = (case stress_grid erf r now ss vs ps of
     [] \<Rightarrow> (0, None, 0)
   | g # gs \<Rightarrow> let w = first_min g gs in (py_round 2 (snd w), Some (fst w), Suc (length gs)))"

definition default_spot_shocks :: "real list" where
  "default_spot_shocks = [- 6 / 100, - 3 / 100, 0, 3 / 100, 6 / 100]"

definition default_vol_shocks :: "real list" where
  "default_vol_shocks = [- 3, 0, 3]"

definition scan_scenarios :: "real \<Rightarrow> real \<Rightarrow> nat \<Rightarrow> (real \<times> real) list" where
  "scan_scenarios rng shift n =
    concat (map (\<lambda>i. let s = rng * of_int i / of_nat n in [(s, shift), (s, - shift)]) [- int n..int n])"

definition span_step :: "((real \<times> real) \<Rightarrow> real) \<Rightarrow> real \<times> (real \<times> real) option \<Rightarrow> real \<times> real \<Rightarrow> real \<times> (real \<times> real) option" where
  "span_step pnl acc sv = (if pnl sv < fst acc then (pnl sv, Some (py_round 4 (fst sv), py_round 4 (snd sv))) else acc)"

definition span_margin :: "(real \<Rightarrow> real) \<Rightarrow> real \<Rightarrow> int \<Rightarrow> real \<Rightarrow> real \<Rightarrow> nat \<Rightarrow> opt_pos list \<Rightarrow> real \<times> (real \<times> real) option \<times> nat" where
  "span_margin erf r now rng shift n ps =
    (let (w, sc) = foldl (span_step (\<lambda>(s, v). scenario_pnl erf r now ps s v)) (0, None) (scan_scenarios rng shift n)
     in (py_round 2 (- w), sc, (2 * n + 1) * 2))"

section \<open>One verdict for a structure\<close>

record structure_verdict =
  sv_greeks :: greek_set
  sv_stress :: real
  sv_span :: real
  sv_expiry :: expiry_act
  sv_breaches :: "(string \<times> real \<times> real) list"
  sv_blocked :: bool

definition leg_dte :: "int \<Rightarrow> opt_pos \<Rightarrow> int" where
  "leg_dte today p = (case op_exp p of Some x \<Rightarrow> days_to_expiry x today
     | None \<Rightarrow> (case op_t p of Some t \<Rightarrow> round_half_even (t * 365) | None \<Rightarrow> 99))"

definition leg_actions :: "real \<Rightarrow> int option \<Rightarrow> int \<Rightarrow> real \<Rightarrow> opt_pos list \<Rightarrow> expiry_act list" where
  "leg_actions band dte today spot legs =
    map (\<lambda>p. expiry_action (case dte of Some d \<Rightarrow> d | None \<Rightarrow> leg_dte today p) (moneyness spot (op_K p)) (op_qty p < 0) band)
      (filter is_option legs)"

definition default_atm_band :: real where
  "default_atm_band = 2 / 100"

definition R_DEFAULT :: real where
  "R_DEFAULT = 6 / 100"

definition assess_structure :: "(real \<Rightarrow> real) \<Rightarrow> opt_pos list \<Rightarrow> real \<Rightarrow> int option \<Rightarrow> (string \<times> real option) list \<Rightarrow>
    real option \<Rightarrow> int \<Rightarrow> int \<Rightarrow> structure_verdict" where
  "assess_structure erf legs spot dte limits max_stress now today =
    (let net = portfolio_greeks erf R_DEFAULT now legs;
         sv = fst (stress_var erf R_DEFAULT now default_spot_shocks default_vol_shocks legs);
         margin = fst (span_margin erf R_DEFAULT now (6 / 100) 3 3 legs);
         breaches = greek_limit_breaches net limits;
         stressed = (case max_stress of None \<Rightarrow> False | Some m \<Rightarrow> sv < - \<bar>m\<bar>);
         acts = leg_actions default_atm_band dte today spot legs;
         expiry = (if Block \<in> set acts then Block else if Reduce \<in> set acts then Reduce else Allow)
     in \<lparr>sv_greeks = net, sv_stress = sv, sv_span = margin, sv_expiry = expiry, sv_breaches = breaches,
         sv_blocked = (breaches \<noteq> [] \<or> stressed \<or> expiry = Block)\<rparr>)"

section \<open>Facts on prices\<close>

lemma norm_cdf_sym: "erf_ok erf \<Longrightarrow> norm_cdf erf (- x) = 1 - norm_cdf erf x"
  by (simp add: norm_cdf_def erf_ok_def field_simps)

lemma norm_cdf_bounds: "erf_ok erf \<Longrightarrow> 0 \<le> norm_cdf erf x \<and> norm_cdf erf x \<le> 1"
proof -
  assume "erf_ok erf"
  then have "\<bar>erf (x / sqrt 2)\<bar> \<le> 1" by (simp add: erf_ok_def)
  then show ?thesis by (auto simp: norm_cdf_def abs_le_iff)
qed

lemma put_call_parity_nondeg:
  "erf_ok erf \<Longrightarrow> d1_d2 S K t r sigma = Some (d1, d2) \<Longrightarrow>
   bs_price erf S K t r sigma ''CE'' - bs_price erf S K t r sigma ''PE'' = S - K * exp (- r * t)"
  by (simp add: bs_price_def norm_cdf_sym algebra_simps)

lemma put_call_parity_intrinsic: "intrinsic_value S K ''CE'' - intrinsic_value S K ''PE'' = S - K"
  by (simp add: intrinsic_value_def max_def)

lemma delta_bounds:
  assumes "erf_ok erf"
  shows "\<bar>gk_delta (greeks erf S K t r sigma opt)\<bar> \<le> 1
   \<and> (if opt = ''CE'' then 0 \<le> gk_delta (greeks erf S K t r sigma opt) else gk_delta (greeks erf S K t r sigma opt) \<le> 0)"
proof (cases "d1_d2 S K t r sigma")
  case (Some d)
  obtain d1 d2 where d: "d = (d1, d2)" by fastforce
  show ?thesis using norm_cdf_bounds [OF assms, of d1] Some d by (simp add: greeks_def Let_def)
qed (simp add: greeks_def)

text \<open>Price bounds: a call is worth at most the spot, a put at most the discounted strike.\<close>

lemma bs_price_upper:
  assumes "erf_ok erf" "0 < S" "0 < K"
  shows "bs_price erf S K t r sigma opt \<le> max S (max K (K * exp (- r * t)))"
proof (cases "d1_d2 S K t r sigma")
  case None
  have "intrinsic_value S K opt \<le> max S K" using assms(2,3) by (auto simp: intrinsic_value_def max_def)
  then show ?thesis using None by (auto simp: bs_price_def)
next
  case (Some d)
  obtain d1 d2 where d: "d = (d1, d2)" by fastforce
  let ?N = "norm_cdf erf" and ?k = "K * exp (- r * t)"
  have k: "0 < ?k" using assms(3) by simp
  have "S * ?N d1 - ?k * ?N d2 \<le> S * 1 - ?k * 0"
    using norm_cdf_bounds [OF assms(1)] assms(2) k by (intro diff_mono mult_left_mono) auto
  moreover have "?k * ?N (- d2) - S * ?N (- d1) \<le> ?k * 1 - S * 0"
    using norm_cdf_bounds [OF assms(1)] assms(2) k by (intro diff_mono mult_left_mono) auto
  ultimately show ?thesis using Some d by (auto simp: bs_price_def le_max_iff_disj)
qed

section \<open>The bisection\<close>

text \<open>The loop keeps its bracket: above \<open>hi\<close>'s price the root lies below, and the interval halves.\<close>

lemma bisect_step:
  "bisect f (Suc n) lo hi =
    (if \<bar>f ((lo + hi) / 2)\<bar> < 1 / 1000000 then Inl ((lo + hi) / 2)
     else if f ((lo + hi) / 2) > 0 then bisect f n lo ((lo + hi) / 2) else bisect f n ((lo + hi) / 2) hi)"
  by (simp add: Let_def)

lemma bisect_interval:
  "lo \<le> hi \<Longrightarrow> (case bisect f n lo hi of
     Inl m \<Rightarrow> lo \<le> m \<and> m \<le> hi \<and> \<bar>f m\<bar> < 1 / 1000000
   | Inr (a, b) \<Rightarrow> lo \<le> a \<and> a \<le> b \<and> b \<le> hi \<and> b - a = (hi - lo) / 2 ^ n)"
proof (induction n arbitrary: lo hi)
  case (Suc n)
  define m where "m = (lo + hi) / 2"
  have m: "lo \<le> m" "m \<le> hi" and half: "hi - m = (hi - lo) / 2" "m - lo = (hi - lo) / 2"
    using Suc.prems by (simp_all add: m_def field_simps)
  note st = bisect_step [of f n lo hi, folded m_def]
  consider (fit) "\<bar>f m\<bar> < 1 / 1000000" | (high) "\<not> \<bar>f m\<bar> < 1 / 1000000" "f m > 0"
    | (low) "\<not> \<bar>f m\<bar> < 1 / 1000000" "\<not> f m > 0" by blast
  then show ?case
  proof cases
    case fit
    then show ?thesis using m unfolding st by simp
  next
    case high
    then have e: "bisect f (Suc n) lo hi = bisect f n lo m" unfolding st by simp
    show ?thesis unfolding e using Suc.IH [OF m(1)] m(2)
      by (cases "bisect f n lo m") (auto simp: half)
  next
    case low
    then have e: "bisect f (Suc n) lo hi = bisect f n m hi" unfolding st by simp
    show ?thesis unfolding e using Suc.IH [OF m(2)] m(1)
      by (cases "bisect f n m hi") (auto simp: half)
  qed
qed simp

lemma bisect_brackets:
  "f lo \<le> 0 \<Longrightarrow> 0 \<le> f hi \<Longrightarrow> bisect f n lo hi = Inr (a, b) \<Longrightarrow> f a \<le> 0 \<and> 0 \<le> f b"
proof (induction n arbitrary: lo hi)
  case (Suc n)
  define m where "m = (lo + hi) / 2"
  note st = bisect_step [of f n lo hi, folded m_def]
  show ?case
  proof (cases "f m > 0")
    case True
    with Suc.prems(3) have "bisect f n lo m = Inr (a, b)" unfolding st by (simp split: if_splits)
    with Suc.IH [OF Suc.prems(1) _ this] True show ?thesis by simp
  next
    case False
    with Suc.prems(3) have "bisect f n m hi = Inr (a, b)" unfolding st by (simp split: if_splits)
    with Suc.IH [OF _ Suc.prems(2) this] False show ?thesis by simp
  qed
qed simp


text \<open>A stand-in for \<open>math.erf\<close> with the documented properties.\<close>

definition demo_erf :: "real \<Rightarrow> real" where
  "demo_erf x = max (- 1) (min 1 x)"

lemma demo_erf_ok: "erf_ok demo_erf"
  by (auto simp: erf_ok_def demo_erf_def)


end
