(* ===== verification/Fno.thy ===== *)
theory Fno
  imports Strategies Options
begin

text \<open>
  \<open>strategies/fno.py\<close>: the option pipeline. It routes on the IV rank to a class of structure, builds a
  defined-risk structure from model prices, checks the delta of its leg and its risk as a book, and
  emits a signal that carries the structure and its maximum loss per lot. Dates are day numbers. A
  division by a zero strike step and the maximum of an empty list raise: the evaluation is None.
\<close>

section \<open>Context and parameters\<close>

record fno_ctx =
  fx_spot :: real
  fx_iv :: real
  fx_iv_rank :: real
  fx_dte :: int
  fx_direction :: string
  fx_lot :: int
  fx_expiry :: int
  fx_banned :: bool
  fx_step :: real
  fx_oi_signal :: string
  fx_risk_free :: real
  fx_iv_chg :: real
  fx_expiry_day :: bool
  fx_atm_oi :: real
  fx_atm_volume :: real
  fx_pcr :: "real option"

record liquidity_cfg =
  lq_per_underlying :: "string \<rightharpoonup> real"
  lq_min_oi :: "real option"
  lq_min_volume :: "real option"

record fno_params =
  fp_event_dates :: "int list option"
  fp_event_before :: "int option"
  fp_block_expiry :: "bool option"
  fp_low_max :: "real option"
  fp_high_min :: "real option"
  fp_spike :: "real option"
  fp_weekly_buy :: "(int \<times> int) option"
  fp_credit_sell :: "(int \<times> int) option"
  fp_swing_buy :: "(int \<times> int) option"
  fp_avoid :: "int list option"
  fp_credit_underlyings :: "string list option"
  fp_liquidity :: liquidity_cfg
  fp_credit_delta :: "(real \<times> real) option"
  fp_condor_delta :: "(real \<times> real) option"
  fp_buyer_delta :: "(real \<times> real) option"
  fp_width_steps :: "int option"
  fp_gating :: bool
  fp_greek_limits :: "(string \<times> real option) list"
  fp_max_stress :: "real option"

text \<open>A built structure: the plan, and the net credit or debit per unit of the model.\<close>

record built =
  bt_plan :: structure_plan
  bt_net :: real
  bt_credit :: bool

definition liquidity_floor :: "liquidity_cfg \<Rightarrow> string \<Rightarrow> real \<times> real" where
  "liquidity_floor liq s =
    (get_default (lq_per_underlying liq s) (get_default (lq_min_oi liq) 0), get_default (lq_min_volume liq) 0)"

section \<open>Building the structure\<close>

definition model_px :: "(real \<Rightarrow> real) \<Rightarrow> fno_ctx \<Rightarrow> real \<Rightarrow> string \<Rightarrow> real" where
  "model_px erf x K opt = bs_price erf (fx_spot x) K (of_int (max (fx_dte x) 0) / 365) (fx_risk_free x) (fx_iv x) opt"

definition atm_of :: "fno_ctx \<Rightarrow> real" where
  "atm_of x = of_int (round_half_even (fx_spot x / fx_step x)) * fx_step x"

text \<open>The walk away from the money over the strikes left, with the last strike seen.\<close>

fun strike_walk :: "(real \<Rightarrow> real) \<Rightarrow> real \<Rightarrow> real \<Rightarrow> real \<Rightarrow> int list \<Rightarrow> real \<Rightarrow> real" where
  "strike_walk dlt hi atm dir [] last_k = last_k"
| "strike_walk dlt hi atm dir (i # is) last_k =
    (let k = atm + dir * of_int i in
     if k \<le> 0 then last_k else if \<bar>dlt k\<bar> \<le> hi then k else strike_walk dlt hi atm dir is k)"

definition short_strike_for_delta :: "(real \<Rightarrow> real) \<Rightarrow> fno_ctx \<Rightarrow> string \<Rightarrow> real \<Rightarrow> real" where
  "short_strike_for_delta erf x opt hi =
    (let t = of_int (max (fx_dte x) 0) / 365; atm = atm_of x; dir = (if opt = ''CE'' then fx_step x else - fx_step x)
     in strike_walk (\<lambda>k. gk_delta (greeks erf (fx_spot x) k t (fx_risk_free x) (fx_iv x) opt)) hi atm dir [1..39] (atm + dir))"

definition wing_width :: "fno_ctx \<Rightarrow> int \<Rightarrow> real" where
  "wing_width x steps = fx_step x * of_int (max 1 steps)"

definition debit_built :: "(real \<Rightarrow> real) \<Rightarrow> fno_ctx \<Rightarrow> string \<Rightarrow> string \<Rightarrow> real \<Rightarrow> real \<Rightarrow> built" where
  "debit_built erf x ty opt k1 k2 =
    (let net = model_px erf x k1 opt - model_px erf x k2 opt
     in \<lparr>bt_plan = \<lparr>pl_type = ty, pl_legs = Vertical_Legs opt k1 k2,
           pl_max_loss_per_lot = py_round 2 (max (1 / 100) net * of_int (fx_lot x))\<rparr>,
         bt_net = py_round 2 net, bt_credit = False\<rparr>)"

definition credit_built :: "(real \<Rightarrow> real) \<Rightarrow> fno_ctx \<Rightarrow> string \<Rightarrow> string \<Rightarrow> real \<Rightarrow> real \<Rightarrow> real \<Rightarrow> built" where
  "credit_built erf x ty opt width ks kb =
    (let cr = model_px erf x ks opt - model_px erf x kb opt
     in \<lparr>bt_plan = \<lparr>pl_type = ty, pl_legs = Vertical_Legs opt kb ks,
           pl_max_loss_per_lot = py_round 2 (max (1 / 100) (width - cr) * of_int (fx_lot x))\<rparr>,
         bt_net = py_round 2 cr, bt_credit = True\<rparr>)"

definition condor_built :: "(real \<Rightarrow> real) \<Rightarrow> fno_ctx \<Rightarrow> real \<Rightarrow> real \<Rightarrow> real \<Rightarrow> built" where
  "condor_built erf x width ksc ksp =
    (let cr_c = model_px erf x ksc ''CE'' - model_px erf x (ksc + width) ''CE'';
         cr_p = model_px erf x ksp ''PE'' - model_px erf x (ksp - width) ''PE''
     in \<lparr>bt_plan = \<lparr>pl_type = ''iron_condor'', pl_legs = Condor_Legs ksc ksp (ksc + width) (ksp - width),
           pl_max_loss_per_lot = py_round 2 (max (1 / 100) (width - (cr_c + cr_p)) * of_int (fx_lot x))\<rparr>,
         bt_net = py_round 2 (cr_c + cr_p), bt_credit = True\<rparr>)"

definition build_structure :: "(real \<Rightarrow> real) \<Rightarrow> string \<Rightarrow> fno_ctx \<Rightarrow> real \<Rightarrow> int \<Rightarrow> real \<Rightarrow> built option" where
  "build_structure erf cls x short_max steps condor_max =
    (let atm = atm_of x; d = fx_direction x; width = wing_width x steps in
     if cls = ''buy_debit'' then
       (if d = ''bullish'' then Some (debit_built erf x ''bull_call_debit'' ''CE'' atm (atm + width))
        else if d = ''bearish'' then Some (debit_built erf x ''bear_put_debit'' ''PE'' atm (atm - width))
        else None)
     else if d = ''bullish'' then
       (let ks = short_strike_for_delta erf x ''PE'' short_max in Some (credit_built erf x ''bull_put_credit'' ''PE'' width ks (ks - width)))
     else if d = ''bearish'' then
       (let ks = short_strike_for_delta erf x ''CE'' short_max in Some (credit_built erf x ''bear_call_credit'' ''CE'' width ks (ks + width)))
     else Some (condor_built erf x width (short_strike_for_delta erf x ''CE'' condor_max) (short_strike_for_delta erf x ''PE'' condor_max)))"

definition structure_risk_legs :: "structure_plan \<Rightarrow> real \<Rightarrow> real \<Rightarrow> real \<Rightarrow> opt_pos list" where
  "structure_risk_legs pl spot t iv = map (\<lambda>(opt, strike, sd).
     \<lparr>op_S = spot, op_K = strike, op_t = Some t, op_exp = None, op_iv = iv, op_opt = Some opt,
      op_qty = (if sd = BUY then 1 else - 1), op_lot = Some 1\<rparr>) (legs_from_structure pl)"

section \<open>The gates\<close>

definition first_event :: "int \<Rightarrow> int \<Rightarrow> int list \<Rightarrow> int option" where
  "first_event today horizon dates = find (\<lambda>d. d \<in> set dates) (map (\<lambda>k. today + k) [0..horizon])"

definition iv_class :: "fno_params \<Rightarrow> fno_ctx \<Rightarrow> string \<times> int \<times> int" where
  "iv_class p x =
    (if fx_iv_rank x < get_default (fp_low_max p) 20 then (''buy_debit'', get_default (fp_weekly_buy p) (3, 10))
     else if fx_iv_rank x > get_default (fp_high_min p) 70 then (''sell_credit'', get_default (fp_credit_sell p) (15, 45))
     else (''spread'', get_default (fp_swing_buy p) (20, 45)))"

definition is_credit_type :: "string \<Rightarrow> bool" where
  "is_credit_type ty \<longleftrightarrow> contains_str ty ''credit'' \<or> ty = ''iron_condor''"

text \<open>The leg whose delta is checked, with its option type.\<close>

definition checked_leg :: "structure_plan \<Rightarrow> real \<Rightarrow> real \<times> string" where
  "checked_leg pl spot = (case pl_legs pl of
     Condor_Legs sc sp lc lp \<Rightarrow> (sc, ''CE'')
   | Vertical_Legs opt l s \<Rightarrow>
       (if is_credit_type (pl_type pl) then (if s \<noteq> 0 then s else spot, opt) else (l, opt)))"

definition delta_band :: "fno_params \<Rightarrow> string \<Rightarrow> real \<times> real" where
  "delta_band p ty =
    (if is_credit_type ty then
       (if ty = ''iron_condor'' then get_default (fp_condor_delta p) (10 / 100, 20 / 100)
        else get_default (fp_credit_delta p) (15 / 100, 22 / 100))
     else get_default (fp_buyer_delta p) (40 / 100, 60 / 100))"

definition fno_signal :: "instrument \<Rightarrow> fno_ctx \<Rightarrow> built \<Rightarrow> signal" where
  "fno_signal ins x b =
    \<lparr>si_sleeve = ''fno'', si_instrument = ins,
     si_side = (if fx_direction x = ''bullish'' then Some BUY else if fx_direction x = ''bearish'' then Some SELL else None),
     si_setup = pl_type (bt_plan b), si_entry = py_round 2 (fx_spot x), si_stop = 0, si_target = 0,
     si_detail = \<lparr>sd_structure = Some (bt_plan b), sd_max_loss = Some (pl_max_loss_per_lot (bt_plan b)),
       sd_lot = Some (fx_lot x), sd_net_credit = (if bt_credit b then Some (bt_net b) else None)\<rparr>\<rparr>"

text \<open>From the structure gate on.\<close>

definition fno_structure_gates :: "(real \<Rightarrow> real) \<Rightarrow> int \<Rightarrow> fno_params \<Rightarrow> instrument \<Rightarrow> fno_ctx \<Rightarrow> string \<Rightarrow> gate list \<Rightarrow> pipeline_result option" where
  "fno_structure_gates erf today p ins x cls gs =
    (if fx_step x = 0 then None else
     let b0 = build_structure erf cls x (snd (get_default (fp_credit_delta p) (15 / 100, 22 / 100)))
                (cfg_or (fp_width_steps p) 2 2) (snd (get_default (fp_condor_delta p) (10 / 100, 20 / 100)));
         ok = (case b0 of None \<Rightarrow> False | Some b \<Rightarrow> pl_max_loss_per_lot (bt_plan b) > 0)
     in hard_gate ''structure'' ok (if ok then 9 / 10 else 0) R_No_Structure gs (\<lambda>gs.
        case b0 of None \<Rightarrow> None | Some b \<Rightarrow>
        let pl = bt_plan b; t = year_fraction (fx_expiry x) today; (leg, opt) = checked_leg pl (fx_spot x);
            dlt = \<bar>gk_delta (greeks erf (fx_spot x) leg t (fx_risk_free x) (fx_iv x) opt)\<bar>;
            (lo, hi) = delta_band p (pl_type pl);
            srisk = assess_structure erf (structure_risk_legs pl (fx_spot x) t (fx_iv x)) (fx_spot x) (Some (fx_dte x))
                      (fp_greek_limits p) (fp_max_stress p) today today
        in hard_gate ''greeks'' (lo - 15 / 100 \<le> dlt \<and> dlt \<le> hi + 20 / 100) (if lo \<le> dlt \<and> dlt \<le> hi then 1 else 1 / 2)
             (R_Leg_Delta dlt) gs (\<lambda>gs.
           hard_gate ''structure_risk'' (\<not> (fp_gating p \<and> sv_blocked srisk)) (if sv_blocked srisk then 0 else 9 / 10)
             R_Structure_Risk gs (\<lambda>gs.
           Some (pl_accept (fno_signal ins x b) (add_gate ''risk_finite'' True (9 / 10) gs))))))"

definition credit_universe :: "fno_params \<Rightarrow> string list" where
  "credit_universe p = (case fp_credit_underlyings p of Some (u # us) \<Rightarrow> u # us | _ \<Rightarrow> [''NIFTY'', ''BANKNIFTY''])"

text \<open>Direction, universe and liquidity.\<close>

definition fno_market_gates :: "(real \<Rightarrow> real) \<Rightarrow> int \<Rightarrow> fno_params \<Rightarrow> instrument \<Rightarrow> fno_ctx \<Rightarrow> string \<Rightarrow> gate list \<Rightarrow> pipeline_result option" where
  "fno_market_gates erf today p ins x cls gs =
    (let d = fx_direction x; nm = get_default (in_symbol ins) [];
         dir_ok = (d = ''bullish'' \<or> d = ''bearish'' \<or> cls \<noteq> ''buy_debit'');
         agrees = (d \<noteq> ''neutral'' \<and> fx_oi_signal x = d);
         (min_oi, min_vol) = liquidity_floor (fp_liquidity p) nm;
         liq_ok = (fx_atm_oi x \<ge> min_oi \<and> fx_atm_volume x \<ge> min_vol);
         liq = (\<lambda>gs. if min_oi > 0 \<or> min_vol > 0
                then hard_gate ''liquidity'' liq_ok (ind liq_ok) (R_Illiquid_Options min_oi min_vol) gs
                       (fno_structure_gates erf today p ins x cls)
                else fno_structure_gates erf today p ins x cls gs)
     in hard_gate ''direction_oi'' dir_ok (if agrees then 9 / 10 else if dir_ok then 8 / 10 else 0) R_No_Bias gs (\<lambda>gs.
        if cls \<noteq> ''buy_debit''
        then hard_gate ''credit_universe'' (List.member (credit_universe p) nm) (ind (List.member (credit_universe p) nm)) R_Credit_Universe gs liq
        else liq gs))"

definition fno_evaluate :: "(real \<Rightarrow> real) \<Rightarrow> int \<Rightarrow> fno_params \<Rightarrow> instrument \<Rightarrow> fno_ctx \<Rightarrow> pipeline_result option" where
  "fno_evaluate erf today p ins x =
    (let (cls, dmin, dmax) = iv_class p x;
         spike_max = get_default (fp_spike p) 15;
         spiking = (spike_max > 0 \<and> fx_iv_chg x > spike_max);
         avoid = get_default (fp_avoid p) [0, 1];
         dte_ok = (fx_dte x > Max (set avoid) \<and> dmin \<le> fx_dte x \<and> fx_dte x \<le> dmax);
         dte = (\<lambda>gs. if avoid = [] then None
           else hard_gate ''dte'' dte_ok (ind dte_ok) (R_Dte (fx_dte x)) gs (fno_market_gates erf today p ins x cls));
         routed = (\<lambda>gs. let gs = add_gate ''iv_regime'' True (min 1 (\<bar>fx_iv_rank x - 50\<bar> / 50 + 1 / 2)) gs in
           if cls \<noteq> ''buy_debit''
           then hard_gate ''iv_direction'' (\<not> spiking) (if spiking then 0 else 9 / 10) (R_Iv_Spike (fx_iv_chg x) spike_max) gs dte
           else dte gs);
         expiry_day = (\<lambda>gs. if get_default (fp_block_expiry p) True
           then hard_gate ''expiry_day'' (\<not> fx_expiry_day x) (ind (\<not> fx_expiry_day x)) R_Expiry_Day gs routed
           else routed gs);
         dates = get_default (fp_event_dates p) [];
         hit = first_event today (get_default (fp_event_before p) 1) dates
     in hard_gate ''eligibility'' (\<not> fx_banned x) (ind (\<not> fx_banned x)) R_Ban [] (\<lambda>gs.
        if dates \<noteq> []
        then hard_gate ''event_calendar'' (hit = None) (ind (hit = None)) (R_Macro_Event (get_default hit 0)) gs expiry_day
        else expiry_day gs))"

section \<open>Defined risk\<close>

lemma strike_walk_cases:
  "strike_walk dlt hi atm dir is l = l \<or> (\<exists>i\<in>set is. strike_walk dlt hi atm dir is l = atm + dir * of_int i)"
  by (induction dlt hi atm dir "is" l rule: strike_walk.induct) (auto simp: Let_def)

text \<open>The strike it returns is inside the delta band, unless every positive strike walked is outside.\<close>

lemma strike_walk_delta:
  "\<bar>dlt (strike_walk dlt hi atm dir is l)\<bar> \<le> hi
   \<or> (\<forall>i\<in>set (takeWhile (\<lambda>i. 0 < atm + dir * of_int i) is). hi < \<bar>dlt (atm + dir * of_int i)\<bar>)"
proof (induction "is" arbitrary: l)
  case (Cons i ns)
  then show ?case using Cons.IH [of "atm + dir * of_int i"] by (auto simp: Let_def)
qed simp

lemma short_strike_otm:
  assumes "0 < fx_step x"
  shows "if opt = ''CE'' then atm_of x + fx_step x \<le> short_strike_for_delta erf x opt hi
         else short_strike_for_delta erf x opt hi \<le> atm_of x - fx_step x"
proof -
  let ?dir = "if opt = ''CE'' then fx_step x else - fx_step x"
  have "short_strike_for_delta erf x opt hi = atm_of x + ?dir
      \<or> (\<exists>i\<in>{1..39}. short_strike_for_delta erf x opt hi = atm_of x + ?dir * of_int i)"
    unfolding short_strike_for_delta_def Let_def using strike_walk_cases by force
  then show ?thesis
  proof
    assume "\<exists>i\<in>{1..39}. short_strike_for_delta erf x opt hi = atm_of x + ?dir * of_int i"
    then obtain i :: int where i: "1 \<le> i" "short_strike_for_delta erf x opt hi = atm_of x + ?dir * of_int i" by auto
    have "fx_step x * 1 \<le> fx_step x * of_int i" using assms i(1) by (intro mult_left_mono) auto
    with i(2) show ?thesis by auto
  qed auto
qed

text \<open>Each sold leg is covered by a bought one of the same type, one wing width further out of the money
  (or nearer, for a debit).\<close>

definition covered :: "structure_plan \<Rightarrow> real \<Rightarrow> bool" where
  "covered pl width \<longleftrightarrow> (\<forall>(opt, k, sd) \<in> set (legs_from_structure pl). sd = SELL \<longrightarrow>
     (\<exists>k'. (opt, k', BUY) \<in> set (legs_from_structure pl) \<and> \<bar>k - k'\<bar> = width))"

lemma wing_width_pos: "0 < fx_step x \<Longrightarrow> 0 < wing_width x steps"
  by (simp add: wing_width_def)

lemma build_structure_covered:
  assumes "build_structure erf cls x smax steps cmax = Some b" "0 < fx_step x"
  shows "covered (bt_plan b) (wing_width x steps) \<and> structure_width (bt_plan b) = wing_width x steps"
  using assms wing_width_pos [OF assms(2), of steps]
  by (auto simp: build_structure_def Let_def debit_built_def credit_built_def condor_built_def covered_def
      legs_from_structure_def structure_width_def split: if_splits)

text \<open>The plan is oriented as its type says: a credit spread sells the nearer strike, a debit spread buys it.\<close>

lemma build_structure_strikes:
  assumes "build_structure erf cls x smax steps cmax = Some b" "0 < fx_step x"
  shows "case pl_legs (bt_plan b) of
      Condor_Legs sc sp lc lp \<Rightarrow> pl_type (bt_plan b) = ''iron_condor'' \<and> lp < sp \<and> sp < sc \<and> sc < lc
    | Vertical_Legs opt l s \<Rightarrow> (opt = ''CE'' \<or> opt = ''PE'')
        \<and> (bt_credit b \<longleftrightarrow> (if opt = ''CE'' then s < l else l < s))"
proof -
  note w = wing_width_pos [OF assms(2), of steps]
  have "short_strike_for_delta erf x ''PE'' cmax < short_strike_for_delta erf x ''CE'' cmax"
    using short_strike_otm [OF assms(2), of "''PE''" erf cmax] short_strike_otm [OF assms(2), of "''CE''" erf cmax] assms(2)
    by simp
  then show ?thesis using assms(1) w
    by (auto simp: build_structure_def Let_def debit_built_def credit_built_def condor_built_def split: if_splits)
qed

section \<open>What an accepted signal went through\<close>

lemma fno_structure_pass:
  assumes "fno_structure_gates erf today p ins x cls gs = Some r" "pr_pass r"
  obtains b where "build_structure erf cls x (snd (get_default (fp_credit_delta p) (15 / 100, 22 / 100)))
        (cfg_or (fp_width_steps p) 2 2) (snd (get_default (fp_condor_delta p) (10 / 100, 20 / 100))) = Some b"
    "0 < pl_max_loss_per_lot (bt_plan b)" "pr_signal r = Some (fno_signal ins x b)" "fx_step x \<noteq> 0"
    "fp_gating p \<Longrightarrow> \<not> sv_blocked (assess_structure erf
        (structure_risk_legs (bt_plan b) (fx_spot x) (year_fraction (fx_expiry x) today) (fx_iv x)) (fx_spot x)
        (Some (fx_dte x)) (fp_greek_limits p) (fp_max_stress p) today today)"
proof -
  let ?b0 = "build_structure erf cls x (snd (get_default (fp_credit_delta p) (15 / 100, 22 / 100)))
        (cfg_or (fp_width_steps p) 2 2) (snd (get_default (fp_condor_delta p) (10 / 100, 20 / 100)))"
  from assms(1) have st: "fx_step x \<noteq> 0" by (simp add: fno_structure_gates_def split: if_splits)
  note g = assms(1) [unfolded fno_structure_gates_def Let_def if_not_P [OF st]]
  show thesis
  proof (rule hard_gate_passE [OF g assms(2)], goal_cases)
    case 1
    then obtain b where b: "?b0 = Some b" "0 < pl_max_loss_per_lot (bt_plan b)" by (auto split: option.splits)
    obtain leg opt where lo: "checked_leg (bt_plan b) (fx_spot x) = (leg, opt)" by fastforce
    obtain l h where lh: "delta_band p (pl_type (bt_plan b)) = (l, h)" by fastforce
    note g2 = 1(2) [unfolded b(1) option.case lo lh prod.case]
    show thesis
    proof (rule hard_gate_passE [OF g2 assms(2)], goal_cases)
      case 1
      show thesis
      proof (rule hard_gate_passE [OF 1(2) assms(2)], goal_cases)
        case 1
        from 1(2) have "pr_signal r = Some (fno_signal ins x b)" by auto
        then show thesis using that [OF b _ st] 1(1) by blast
      qed
    qed
  qed
qed

lemma fno_market_pass:
  assumes "fno_market_gates erf today p ins x cls gs = Some r" "pr_pass r"
  obtains gs' where "fno_structure_gates erf today p ins x cls gs' = Some r"
    "cls = ''buy_debit'' \<Longrightarrow> fx_direction x = ''bullish'' \<or> fx_direction x = ''bearish''"
    "fst (liquidity_floor (fp_liquidity p) (get_default (in_symbol ins) [])) \<le> fx_atm_oi x
       \<or> fst (liquidity_floor (fp_liquidity p) (get_default (in_symbol ins) [])) \<le> 0"
    "cls \<noteq> ''buy_debit'' \<Longrightarrow> get_default (in_symbol ins) [] \<in> set (credit_universe p)"
proof -
  obtain mo mv where lf: "liquidity_floor (fp_liquidity p) (get_default (in_symbol ins) []) = (mo, mv)" by fastforce
  note g = assms(1) [unfolded fno_market_gates_def Let_def lf prod.case]
  have liq: "\<exists>gs'. fno_structure_gates erf today p ins x cls gs' = Some r \<and> (mo \<le> fx_atm_oi x \<or> mo \<le> 0)"
    if h: "(if mo > 0 \<or> mv > 0
                then hard_gate ''liquidity'' (fx_atm_oi x \<ge> mo \<and> fx_atm_volume x \<ge> mv) s (R_Illiquid_Options mo mv) gs0
                       (fno_structure_gates erf today p ins x cls)
                else fno_structure_gates erf today p ins x cls gs0) = Some r" for s gs0
  proof (cases "mo > 0 \<or> mv > 0")
    case True
    show ?thesis by (rule hard_gate_passE [OF h [unfolded if_P [OF True]] assms(2)]) blast
  next
    case False
    with h show ?thesis by (auto simp: not_less)
  qed
  show thesis
  proof (rule hard_gate_passE [OF g assms(2)], goal_cases)
    case 1
    show thesis
    proof (cases "cls = ''buy_debit''")
      case True
      with 1(2) have "\<exists>gs'. fno_structure_gates erf today p ins x cls gs' = Some r \<and> (mo \<le> fx_atm_oi x \<or> mo \<le> 0)"
        by (intro liq) simp
      then show thesis using that 1(1) True lf by auto
    next
      case False
      then have c: "cls \<noteq> ''buy_debit''" by simp
      show thesis
      proof (rule hard_gate_passE [OF 1(2) [unfolded if_P [OF c]] assms(2)], goal_cases)
        case 1
        from liq [OF 1(2)] obtain gs' where "fno_structure_gates erf today p ins x cls gs' = Some r" "mo \<le> fx_atm_oi x \<or> mo \<le> 0"
          by blast
        then show thesis using that [of gs'] c 1(1) lf by simp
      qed
    qed
  qed
qed

lemma fno_evaluate_pass:
  assumes "fno_evaluate erf today p ins x = Some r" "pr_pass r"
  obtains gs where "fno_market_gates erf today p ins x (fst (iv_class p x)) gs = Some r" "\<not> fx_banned x"
    "Max (set (get_default (fp_avoid p) [0, 1])) < fx_dte x"
    "fst (snd (iv_class p x)) \<le> fx_dte x" "fx_dte x \<le> snd (snd (iv_class p x))"
    "fst (iv_class p x) \<noteq> ''buy_debit'' \<Longrightarrow> 0 < get_default (fp_spike p) 15 \<Longrightarrow> fx_iv_chg x \<le> get_default (fp_spike p) 15"
    "get_default (fp_block_expiry p) True \<Longrightarrow> \<not> fx_expiry_day x"
    "get_default (fp_event_dates p) [] \<noteq> [] \<Longrightarrow>
       first_event today (get_default (fp_event_before p) 1) (get_default (fp_event_dates p) []) = None"
proof -
  obtain cls dmin dmax where ic: "iv_class p x = (cls, dmin, dmax)" by (metis prod_cases3)
  let ?avoid = "get_default (fp_avoid p) [0, 1]" and ?sp = "get_default (fp_spike p) 15"
  let ?dte_ok = "fx_dte x > Max (set ?avoid) \<and> dmin \<le> fx_dte x \<and> fx_dte x \<le> dmax"
  let ?dte = "\<lambda>gs. if ?avoid = [] then None else hard_gate ''dte'' ?dte_ok (ind ?dte_ok) (R_Dte (fx_dte x)) gs (fno_market_gates erf today p ins x cls)"
  let ?spiking = "?sp > 0 \<and> fx_iv_chg x > ?sp"
  let ?routed = "\<lambda>gs. if cls \<noteq> ''buy_debit''
     then hard_gate ''iv_direction'' (\<not> ?spiking) (if ?spiking then 0 else 9 / 10) (R_Iv_Spike (fx_iv_chg x) ?sp)
            (add_gate ''iv_regime'' True (min 1 (\<bar>fx_iv_rank x - 50\<bar> / 50 + 1 / 2)) gs) ?dte
     else ?dte (add_gate ''iv_regime'' True (min 1 (\<bar>fx_iv_rank x - 50\<bar> / 50 + 1 / 2)) gs)"
  have dte: "(\<exists>gs'. fno_market_gates erf today p ins x cls gs' = Some r) \<and> ?dte_ok" if h: "?dte gs = Some r" for gs
  proof -
    from h have "?avoid \<noteq> []" by (simp split: if_splits)
    from h [unfolded if_not_P [OF this]] show ?thesis by (rule hard_gate_passE [OF _ assms(2)]) blast
  qed
  have routed: "(\<exists>gs'. fno_market_gates erf today p ins x cls gs' = Some r) \<and> ?dte_ok \<and> (cls \<noteq> ''buy_debit'' \<longrightarrow> \<not> ?spiking)"
    if h: "?routed gs = Some r" for gs
  proof (cases "cls = ''buy_debit''")
    case True
    then show ?thesis using dte h by auto
  next
    case False
    then have c: "cls \<noteq> ''buy_debit''" .
    show ?thesis by (rule hard_gate_passE [OF h [unfolded if_P [OF c]] assms(2)]) (use dte in blast)
  qed
  let ?bx = "get_default (fp_block_expiry p) True"
  have expiry: "(\<exists>gs'. fno_market_gates erf today p ins x cls gs' = Some r) \<and> ?dte_ok \<and> (cls \<noteq> ''buy_debit'' \<longrightarrow> \<not> ?spiking)
      \<and> (?bx \<longrightarrow> \<not> fx_expiry_day x)"
    if h: "(if ?bx then hard_gate ''expiry_day'' (\<not> fx_expiry_day x) (ind (\<not> fx_expiry_day x)) R_Expiry_Day gs ?routed
            else ?routed gs) = Some r" for gs
  proof (cases ?bx)
    case True
    show ?thesis by (rule hard_gate_passE [OF h [unfolded if_P [OF True]] assms(2)]) (use routed in blast)
  next
    case False
    then show ?thesis using routed [OF h [unfolded if_not_P [OF False]]] by blast
  qed
  note g = assms(1) [unfolded fno_evaluate_def Let_def ic prod.case]
  show thesis
  proof (rule hard_gate_passE [OF g assms(2)], goal_cases)
    case 1
    show thesis
    proof (cases "get_default (fp_event_dates p) [] = []")
      case True
      then have nn: "\<not> get_default (fp_event_dates p) [] \<noteq> []" by simp
      from expiry [OF 1(2) [unfolded if_not_P [OF nn]]] obtain gs' where e: "fno_market_gates erf today p ins x cls gs' = Some r"
        "?dte_ok" "cls \<noteq> ''buy_debit'' \<longrightarrow> \<not> ?spiking" "?bx \<longrightarrow> \<not> fx_expiry_day x" by blast
      show thesis by (rule that [of gs']) (use e 1(1) True ic in auto)
    next
      case False
      then have c: "get_default (fp_event_dates p) [] \<noteq> []" .
      show thesis
      proof (rule hard_gate_passE [OF 1(2) [unfolded if_P [OF c]] assms(2)], goal_cases)
        case 1
        from expiry [OF 1(2)] obtain gs' where e: "fno_market_gates erf today p ins x cls gs' = Some r"
          "?dte_ok" "cls \<noteq> ''buy_debit'' \<longrightarrow> \<not> ?spiking" "?bx \<longrightarrow> \<not> fx_expiry_day x" by blast
        show thesis by (rule that [of gs']) (use e 1(1) \<open>\<not> fx_banned x\<close> ic in auto)
      qed
    qed
  qed
qed

text \<open>C16. No naked selling. A structure that passes the option pipeline on a positive strike step has, for every
  leg it sells, a bought leg of the same type exactly one wing width away, so its loss is bounded by
  the width; its maximum loss per lot is positive; its underlying is not banned and not at its own
  expiry; its days to expiry lie in the window of its volatility class; premium is sold only on the
  configured underlyings and not into a volatility spike.\<close>
theorem fno_signal_is_defined_risk:
  assumes "fno_evaluate erf today p ins x = Some r" "pr_pass r" "0 < fx_step x"
  shows "\<exists>s pl. pr_signal r = Some s \<and> sd_structure (si_detail s) = Some pl
    \<and> covered pl (wing_width x (cfg_or (fp_width_steps p) 2 2))
    \<and> sd_max_loss (si_detail s) = Some (pl_max_loss_per_lot pl) \<and> 0 < pl_max_loss_per_lot pl
    \<and> \<not> fx_banned x \<and> (get_default (fp_block_expiry p) True \<longrightarrow> \<not> fx_expiry_day x)
    \<and> Max (set (get_default (fp_avoid p) [0, 1])) < fx_dte x
    \<and> fst (snd (iv_class p x)) \<le> fx_dte x \<and> fx_dte x \<le> snd (snd (iv_class p x))
    \<and> (fst (iv_class p x) \<noteq> ''buy_debit'' \<longrightarrow> get_default (in_symbol ins) [] \<in> set (credit_universe p)
         \<and> (0 < get_default (fp_spike p) 15 \<longrightarrow> fx_iv_chg x \<le> get_default (fp_spike p) 15))"
proof -
  from assms(1,2) show ?thesis
  proof (rule fno_evaluate_pass, goal_cases)
    case (1 gs)
    note ev = 1
    from 1(1) assms(2) show ?case
    proof (rule fno_market_pass, goal_cases)
      case (1 gs')
      note mk = 1
      from 1(1) assms(2) show ?case
      proof (rule fno_structure_pass, goal_cases)
        case (1 b)
        from build_structure_covered [OF 1(1) assms(3)] 1 ev mk show ?case
          by (intro exI [of _ "fno_signal ins x b"] exI [of _ "bt_plan b"]) (simp add: fno_signal_def)
      qed
    qed
  qed
qed

text \<open>A context with no volatility and no time left, so that model prices are intrinsic values.\<close>

definition demo_fctx :: fno_ctx where
  "demo_fctx = \<lparr>fx_spot = 1010, fx_iv = 0, fx_iv_rank = 50, fx_dte = 25, fx_direction = ''neutral'', fx_lot = 50,
     fx_expiry = 0, fx_banned = False, fx_step = 50, fx_oi_signal = [], fx_risk_free = 65 / 1000, fx_iv_chg = 0,
     fx_expiry_day = False, fx_atm_oi = 0, fx_atm_volume = 0, fx_pcr = None\<rparr>"

definition demo_fparams :: fno_params where
  "demo_fparams = \<lparr>fp_event_dates = None, fp_event_before = None, fp_block_expiry = None, fp_low_max = None, fp_high_min = None,
     fp_spike = None, fp_weekly_buy = None, fp_credit_sell = None, fp_swing_buy = None, fp_avoid = None,
     fp_credit_underlyings = None, fp_liquidity = \<lparr>lq_per_underlying = Map.empty, lq_min_oi = None, lq_min_volume = None\<rparr>,
     fp_credit_delta = None, fp_condor_delta = None, fp_buyer_delta = None, fp_width_steps = Some 2, fp_gating = False,
     fp_greek_limits = [], fp_max_stress = None\<rparr>"

definition demo_index :: instrument where
  "demo_index = \<lparr>in_token = None, in_symbol = Some ''NIFTY'', in_exchange = Some ''NFO'', in_lot = Some 50,
     in_type = Some ''CE'', in_tick = None, in_expiry = None\<rparr>"

lemma zero_vol [simp]:
  "bs_price erf S K t r 0 opt = intrinsic_value S K opt"
  "greeks erf S K t r 0 opt = \<lparr>gk_delta = 0, gk_gamma = 0, gk_vega = 0, gk_theta = 0\<rparr>"
  by (simp_all add: bs_price_def greeks_def d1_d2_def)

lemma demo_atm: "atm_of demo_fctx = 1000"
  using round_half_even_nearest [of "101 / 5" 20] by (simp add: atm_of_def demo_fctx_def)

lemma demo_strikes:
  "0 \<le> hi \<Longrightarrow> short_strike_for_delta demo_erf demo_fctx ''CE'' hi = 1050"
  "0 \<le> hi \<Longrightarrow> short_strike_for_delta demo_erf demo_fctx ''PE'' hi = 950"
  by (simp_all add: short_strike_for_delta_def demo_atm, simp_all add: demo_fctx_def upto.simps [of 1])

lemma demo_built:
  "build_structure demo_erf ''spread'' demo_fctx (22 / 100) 2 (20 / 100)
     = Some (condor_built demo_erf demo_fctx 100 1050 950)"
proof -
  have d: "fx_direction demo_fctx = ''neutral''" "fx_step demo_fctx = 50" by (simp_all add: demo_fctx_def)
  show ?thesis by (simp add: build_structure_def Let_def demo_strikes wing_width_def d)
qed

lemma demo_max_loss: "pl_max_loss_per_lot (bt_plan (condor_built demo_erf demo_fctx 100 1050 950)) = 5000"
  using round_half_even_of_int [of 500000]
  by (simp add: condor_built_def Let_def model_px_def intrinsic_value_def demo_fctx_def py_round_def)

lemma demo_fno_accepted:
  "\<exists>r. fno_evaluate demo_erf 0 demo_fparams demo_index demo_fctx = Some r \<and> pr_pass r"
proof -
  have cls: "iv_class demo_fparams demo_fctx = (''spread'', 20, 45)"
    by (simp add: iv_class_def demo_fparams_def demo_fctx_def)
  have steps: "cfg_or (fp_width_steps demo_fparams) 2 2 = 2" "fx_step demo_fctx \<noteq> 0" "fx_dte demo_fctx = 25" "fx_iv_chg demo_fctx = 0"
    "fx_banned demo_fctx = False" "fx_expiry_day demo_fctx = False" "fx_direction demo_fctx = ''neutral''" "fx_iv demo_fctx = 0"
    by (simp_all add: demo_fparams_def demo_fctx_def cfg_or_def)
  have none: "fp_event_dates demo_fparams = None" "fp_block_expiry demo_fparams = None" "fp_spike demo_fparams = None"
    "fp_avoid demo_fparams = None" "fp_credit_underlyings demo_fparams = None" "fp_credit_delta demo_fparams = None"
    "fp_condor_delta demo_fparams = None" "fp_gating demo_fparams = False" "in_symbol demo_index = Some ''NIFTY''"
    by (simp_all add: demo_fparams_def demo_index_def)
  have lf: "liquidity_floor (fp_liquidity demo_fparams) nm = (0, 0)" for nm
    by (simp add: liquidity_floor_def demo_fparams_def)
  have ty: "pl_type (bt_plan (condor_built demo_erf demo_fctx 100 1050 950)) = ''iron_condor''"
    by (simp add: condor_built_def Let_def)
  have band: "delta_band demo_fparams ''iron_condor'' = (10 / 100, 20 / 100)"
    by (simp add: delta_band_def is_credit_type_def demo_fparams_def)
  have st: "\<exists>r. fno_structure_gates demo_erf 0 demo_fparams demo_index demo_fctx ''spread'' gs = Some r \<and> pr_pass r" for gs
    unfolding fno_structure_gates_def Let_def if_not_P [OF steps(2)] steps(1) none
      get_default_simps snd_conv demo_built option.case demo_max_loss ty band split_def
    by (simp add: hard_gate_def steps)
  have mk: "\<exists>r. fno_market_gates demo_erf 0 demo_fparams demo_index demo_fctx ''spread'' gs = Some r \<and> pr_pass r" for gs
    unfolding fno_market_gates_def Let_def lf prod.case
    using st by (simp add: hard_gate_def credit_universe_def steps none)
  show ?thesis
    unfolding fno_evaluate_def Let_def cls prod.case using mk by (simp add: hard_gate_def steps none)
qed

lemma fno_signal_is_defined_risk_witness:
  "\<exists>r s pl. fno_evaluate demo_erf 0 demo_fparams demo_index demo_fctx = Some r \<and> pr_signal r = Some s
     \<and> sd_structure (si_detail s) = Some pl \<and> covered pl 100"
proof -
  obtain r where r: "fno_evaluate demo_erf 0 demo_fparams demo_index demo_fctx = Some r" "pr_pass r"
    using demo_fno_accepted by blast
  have w: "wing_width demo_fctx (cfg_or (fp_width_steps demo_fparams) 2 2) = 100"
    by (simp add: wing_width_def demo_fctx_def demo_fparams_def cfg_or_def)
  have "0 < fx_step demo_fctx" by (simp add: demo_fctx_def)
  from fno_signal_is_defined_risk [OF r this] r show ?thesis unfolding w by blast
qed

end
