(* ===== verification/Meta_Label.thy ===== *)
theory Meta_Label
  imports Fno
begin

text \<open>
  \<open>research/features.py\<close> and \<open>research/meta_label.py\<close>: the feature dictionary of a signal and the logistic
  meta-labeler that may shrink its confidence. numpy vectors are lists and matrices lists of rows, of
  equal lengths as numpy requires; a dictionary is an association list in insertion order. The
  decision time is an argument.
\<close>

section \<open>Features\<close>

datatype mkt_ctx = Cx_Intraday intraday_ctx "real" "real" | Cx_Swing swing_ctx | Cx_Fno fno_ctx

text \<open>The two reals of an intraday context are its \<open>atr_pct\<close> and \<open>rel_strength\<close>.\<close>

type_synonym features = "(string \<times> real) list"

definition put_all :: "features \<Rightarrow> features \<Rightarrow> features" where
  "put_all new f = foldl (\<lambda>acc (k, v). upsert k v acc) f new"

definition pct_of :: "real \<Rightarrow> real \<Rightarrow> real" where
  "pct_of x base = (if base \<noteq> 0 then x / base * 100 else 0)"

definition trade_features :: "signal \<Rightarrow> features" where
  "trade_features s = (let risk = \<bar>si_entry s - si_stop s\<bar> in
     [(''stop_pct'', pct_of risk (si_entry s)),
      (''reward_risk'', if risk \<noteq> 0 then \<bar>si_target s - si_entry s\<bar> / risk else 0)])"

definition intraday_features :: "intraday_ctx \<Rightarrow> real \<Rightarrow> real \<Rightarrow> features" where
  "intraday_features x atr rel =
    [(''rvol'', ix_rvol x), (''gap_pct'', ix_gap_pct x), (''vwap_dist_pct'', pct_of (ix_last x - ix_vwap x) (ix_vwap x)),
     (''macd_hist'', ix_macd_hist x), (''st_dir'', of_int (ix_st_dir x)), (''spread_pct'', ix_spread_pct x),
     (''or_range_pct'', pct_of (ix_or_high x - ix_or_low x) (ix_last x)), (''atr_pct'', atr), (''rel_strength'', rel),
     (''regime_up'', ind (ix_regime x = ''trending_up'')), (''regime_down'', ind (ix_regime x = ''trending_down'')),
     (''breadth_bull'', ind (ix_day_breadth x = ''bullish'')), (''breadth_bear'', ind (ix_day_breadth x = ''bearish''))]"

definition swing_features :: "swing_ctx \<Rightarrow> features" where
  "swing_features x =
    [(''dist_200dma_pct'', pct_of (sx_last x - sx_sma200 x) (sx_sma200 x)), (''atr_pct'', pct_of (sx_atr x) (sx_last x)),
     (''rel_strength'', 0), (''market_uptrend'', ind (sx_market_uptrend x))]"

definition near_far :: "plan_legs \<Rightarrow> real \<times> real" where
  "near_far l = (case l of Condor_Legs sc sp lc lp \<Rightarrow> (sc, lc) | Vertical_Legs opt lg s \<Rightarrow> (s, lg))"

definition structure_features :: "fno_ctx \<Rightarrow> sig_detail \<Rightarrow> features" where
  "structure_features x d = (case sd_structure d of
     None \<Rightarrow> []
   | Some pl \<Rightarrow>
       let (short, long) = near_far (pl_legs pl); mll = pl_max_loss_per_lot pl; width = \<bar>short - long\<bar>;
           cr = get_default (sd_net_credit d) 0; lot = of_int (fx_lot x)
       in (if pl_type pl \<noteq> [] then [(''is_condor'', ind (pl_type pl = ''iron_condor'')), (''is_credit'', ind (is_credit_type (pl_type pl)))] else [])
          @ (if short \<noteq> 0 \<and> fx_spot x \<noteq> 0 then [(''moneyness_pct'', (short - fx_spot x) / fx_spot x * 100)] else [])
          @ (if cr > 0 \<and> long > 0 \<and> width > 0 then [(''credit_ratio'', cr / width)] else [])
          @ (if mll > 0 \<and> lot \<noteq> 0 \<and> long > 0 \<and> width > 0 then [(''reward_risk'', max 0 (width * lot - mll) / mll)]
             else if mll > 0 \<and> fx_step x \<noteq> 0 \<and> lot \<noteq> 0 then [(''reward_risk'', max 0 (fx_step x * lot - mll) / mll)] else []))"

definition fno_features :: "fno_ctx \<Rightarrow> features" where
  "fno_features x =
    [(''iv'', fx_iv x), (''iv_rank'', fx_iv_rank x), (''iv_chg_5d'', fx_iv_chg x), (''dte'', of_int (fx_dte x)),
     (''pcr'', get_default (fx_pcr x) 1), (''strike_step'', fx_step x), (''dir_bull'', ind (fx_direction x = ''bullish'')),
     (''dir_bear'', ind (fx_direction x = ''bearish''))]"

text \<open>The sleeve chooses the block; a context of another class has none of its attributes, which
  read as their defaults, and does not occur.\<close>

definition extract_features :: "string \<Rightarrow> mkt_ctx \<Rightarrow> real \<Rightarrow> nat \<Rightarrow> nat \<Rightarrow> signal option \<Rightarrow> features" where
  "extract_features sl cx conf hour weekday s =
    put_all ((''confidence'', conf) # (''hour'', of_nat hour) # (''weekday'', of_nat weekday) #
      (case cx of
         Cx_Intraday x atr rel \<Rightarrow> intraday_features x atr rel @ (case s of None \<Rightarrow> [] | Some sg \<Rightarrow> trade_features sg)
       | Cx_Swing x \<Rightarrow> swing_features x @ (case s of None \<Rightarrow> [] | Some sg \<Rightarrow> trade_features sg)
       | Cx_Fno x \<Rightarrow> fno_features x @ (case s of None \<Rightarrow> [] | Some sg \<Rightarrow> structure_features x (si_detail sg)))) []"

definition gate_features :: "gate list \<Rightarrow> features" where
  "gate_features gs = put_all (map (\<lambda>g. (''gate_'' @ g_name g, g_score g)) (filter (\<lambda>g. g_name g \<noteq> []) gs)) []"

definition signal_features :: "string \<Rightarrow> mkt_ctx \<Rightarrow> real \<Rightarrow> gate list \<Rightarrow> nat \<Rightarrow> nat \<Rightarrow> signal option \<Rightarrow> features" where
  "signal_features sl cx conf gs hour weekday s = put_all (gate_features gs) (extract_features sl cx conf hour weekday s)"

section \<open>Training\<close>

record lr_params =
  lr_w :: "real list"
  lr_b :: real
  lr_mu :: "real list"
  lr_sd :: "real list"

definition dot :: "real list \<Rightarrow> real list \<Rightarrow> real" where
  "dot a b = sum_list (map2 (*) a b)"

definition vmean :: "real list \<Rightarrow> real" where
  "vmean xs = sum_list xs / of_nat (length xs)"

definition column :: "real list list \<Rightarrow> nat \<Rightarrow> real list" where
  "column X j = map (\<lambda>row. row ! j) X"

definition vstd :: "real list \<Rightarrow> real" where
  "vstd xs = sqrt (vmean (map (\<lambda>x. (x - vmean xs) ^ 2) xs))"

definition standardize :: "real list \<Rightarrow> real list \<Rightarrow> real list \<Rightarrow> real list" where
  "standardize mu sd x = map2 (/) (map2 (-) x mu) sd"

definition clip30 :: "real \<Rightarrow> real" where
  "clip30 z = max (- 30) (min 30 z)"

definition sigmoid :: "real \<Rightarrow> real" where
  "sigmoid z = 1 / (1 + exp (- z))"

text \<open>Normalised sample weights, after optional class balancing.\<close>

definition sample_weights :: "real list \<Rightarrow> real list option \<Rightarrow> bool \<Rightarrow> real list" where
  "sample_weights y sw balance =
    (let n = of_nat (length y); pos = max 1 (sum_list y); neg = max 1 (n - sum_list y);
         base = (case sw of None \<Rightarrow> map (\<lambda>_. 1) y | Some w \<Rightarrow> w);
         bal = (if balance then map2 (*) base (map (\<lambda>t. if t = 1 then n / (2 * pos) else n / (2 * neg)) y) else base)
     in map (\<lambda>s. s / max (1 / 1000000000000) (vmean bal)) bal)"

definition lr_step :: "real \<Rightarrow> real \<Rightarrow> real list list \<Rightarrow> real list \<Rightarrow> real list \<Rightarrow> real list \<times> real \<Rightarrow> real list \<times> real" where
  "lr_step lr l2 xs y sw wb = (case wb of (w, b) \<Rightarrow>
     let err = map2 (*) (map2 (\<lambda>row t. sigmoid (clip30 (dot row w + b)) - t) xs y) sw;
         n = of_nat (length xs)
     in (map (\<lambda>j. w ! j - lr * (dot (column xs j) err / n + l2 * w ! j)) [0..<length w], b - lr * vmean err))"

definition train :: "real list list \<Rightarrow> real list \<Rightarrow> real \<Rightarrow> nat \<Rightarrow> real \<Rightarrow> real list option \<Rightarrow> bool \<Rightarrow> lr_params" where
  "train X y lr epochs l2 sw balance =
    (let d = length (hd X); mu = map (\<lambda>j. vmean (column X j)) [0..<d];
         sd = map (\<lambda>j. let s = vstd (column X j) in if s = 0 then 1 else s) [0..<d];
         xs = map (standardize mu sd) X;
         (w, b) = (lr_step lr l2 xs y (sample_weights y sw balance) ^^ epochs) (replicate d 0, 0)
     in \<lparr>lr_w = w, lr_b = b, lr_mu = mu, lr_sd = sd\<rparr>)"

definition predict_proba :: "lr_params \<Rightarrow> real list \<Rightarrow> real" where
  "predict_proba p x = sigmoid (clip30 (dot (standardize (lr_mu p) (lr_sd p) x) (lr_w p) + lr_b p))"

section \<open>Evaluation\<close>

record lr_metrics =
  lm_accuracy :: real
  lm_base :: real
  lm_n :: nat
  lm_precision :: real
  lm_recall :: real
  lm_lift :: real

definition ratio :: "nat \<Rightarrow> nat \<Rightarrow> real" where
  "ratio a b = (if b = 0 then 0 else of_nat a / of_nat b)"

text \<open>Labels are 0 and 1.\<close>

definition evaluate_lr :: "lr_params \<Rightarrow> real list list \<Rightarrow> int list \<Rightarrow> lr_metrics" where
  "evaluate_lr p X y =
    (if y = [] then \<lparr>lm_accuracy = 0, lm_base = 0, lm_n = 0, lm_precision = 0, lm_recall = 0, lm_lift = 0\<rparr>
     else let preds = map (\<lambda>row. if predict_proba p row \<ge> 1 / 2 then 1 else 0 :: int) X; pairs = zip preds y;
              n = length y;
              acc = of_nat (length (filter (\<lambda>(a, t). a = t) pairs)) / of_nat n;
              base = of_int (sum_list y) / of_nat n;
              tp = length (filter (\<lambda>(a, t). a = 1 \<and> t = 1) pairs);
              fp = length (filter (\<lambda>(a, t). a = 1 \<and> t = 0) pairs);
              fn = length (filter (\<lambda>(a, t). a = 0 \<and> t = 1) pairs);
              precision = ratio tp (tp + fp)
          in \<lparr>lm_accuracy = py_round 3 acc, lm_base = py_round 3 base, lm_n = n, lm_precision = py_round 3 precision,
              lm_recall = py_round 3 (ratio tp (tp + fn)), lm_lift = py_round 3 (precision - base)\<rparr>)"

section \<open>The labeler\<close>

record labeler =
  lb_features :: "string list"
  lb_params :: lr_params
  lb_veto_below :: real
  lb_neutral_above :: real
  lb_soft_floor :: real

definition win_probability :: "labeler \<Rightarrow> features \<Rightarrow> real" where
  "win_probability l f = predict_proba (lb_params l) (map (\<lambda>k. get_default (map_of f k) 0) (lb_features l))"

definition meta_assess :: "labeler \<Rightarrow> features \<Rightarrow> real" where
  "meta_assess l f =
    (let p = win_probability l f in
     if p < lb_veto_below l then 0
     else if p \<ge> lb_neutral_above l \<or> lb_neutral_above l \<le> lb_veto_below l then 1
     else let frac = (p - lb_veto_below l) / (lb_neutral_above l - lb_veto_below l)
          in py_round 4 (lb_soft_floor l + (1 - lb_soft_floor l) * frac))"

section \<open>It can only shrink confidence\<close>

lemma sigmoid_bounds: "0 < sigmoid z \<and> sigmoid z < 1"
  by (simp add: sigmoid_def add_pos_pos)

lemma meta_assess_unit:
  assumes "0 \<le> lb_soft_floor l" "lb_soft_floor l \<le> 1"
  shows "0 \<le> meta_assess l f \<and> meta_assess l f \<le> 1"
proof -
  let ?p = "win_probability l f" and ?a = "lb_veto_below l" and ?b = "lb_neutral_above l" and ?s = "lb_soft_floor l"
  have "0 \<le> ?s + (1 - ?s) * ((?p - ?a) / (?b - ?a)) \<and> ?s + (1 - ?s) * ((?p - ?a) / (?b - ?a)) \<le> 1"
    if "\<not> ?p < ?a" "\<not> (?p \<ge> ?b \<or> ?b \<le> ?a)"
  proof -
    let ?f = "(?p - ?a) / (?b - ?a)"
    have f: "0 \<le> ?f" "?f \<le> 1" using that by (simp_all add: divide_le_eq)
    have "(1 - ?s) * ?f \<le> (1 - ?s) * 1" using f assms by (intro mult_left_mono) auto
    moreover have "0 \<le> (1 - ?s) * ?f" by (rule mult_nonneg_nonneg) (use f assms in simp_all)
    ultimately show ?thesis using assms by simp
  qed
  then show ?thesis using py_round_unit by (auto simp: meta_assess_def Let_def)
qed

text \<open>A standard deviation of zero is replaced, so standardising never divides by zero.\<close>

lemma train_sd_nonzero: "s \<in> set (lr_sd (train X y lr epochs l2 sw bal)) \<Longrightarrow> s \<noteq> 0"
  by (auto simp: train_def Let_def split: prod.splits)
end
