(* ===== verification/Sizing.thy ===== *)
theory Sizing
  imports Prelude
begin

text \<open>
  \<open>risk/models.py\<close> and \<open>risk/sizing.py\<close>: R-unit position sizing. \<open>size_position\<close> sizes a
  price-stop instrument, \<open>size_structure_lots\<close> a defined-risk option structure. Both take
  their keyword arguments as a record, turn the R budget into units, apply the ceilings in
  the code's order through \<open>apply_clamp\<close> (the inner function \<open>apply\<close> with its \<open>nonlocal\<close>
  state passed explicitly) and reject when less than one lot is left.

  The contract both sizers share is the locale \<open>r_sizer\<close>: an accepted size is what is left of the
  raw size after the ceilings, its risk fits the budget. Rejection texts are constructors that carry the numbers
  the text prints.
\<close>

section \<open>Data\<close>

datatype instrument_kind = EQUITY | FUTURES | OPTION_BUY | STRUCTURE

datatype clamp_label =
    Clamp_Instrument_Cap | Clamp_Sleeve_Cap | Clamp_Portfolio_Risk | Clamp_Live_Margin
  | Clamp_Underlying_Cap | Clamp_Max_Lots

text \<open>The rejection reasons of the sizing functions and of the risk engine above them.\<close>

datatype reject_reason =
    No_Risk_Budget | Zero_Stop_Distance | Invalid_Entry_Price | Below_One_Lot
  | Risk_Utilization_Low int real | Bad_Structure_Max_Loss
  | Kill_Switch_Active | Brake_Period | Brake_Trade_Budget | Brake_Loss_Streak
  | No_Live_Capital | Max_Concurrent int int | Already_In_Position
  | Dep_Broker_Margin | Dep_Basket_Margin

record sizing_result =
  rejected :: bool
  reason :: "reject_reason option"
  quantity :: int
  lots :: int
  lot_size :: int
  r_intended :: rupees
  actual_risk :: rupees
  capital_allocated :: rupees
  clamps :: "clamp_label list"
  detail :: "(string \<times> json) list"

text \<open>The dataclass defaults, and \<open>SizingResult.reject\<close>.\<close>

definition sizing_default :: sizing_result where
  "sizing_default = \<lparr>rejected = False, reason = None, quantity = 0, lots = 0, lot_size = 1,
     r_intended = 0, actual_risk = 0, capital_allocated = 0, clamps = [], detail = []\<rparr>"

definition reject :: "reject_reason \<Rightarrow> sizing_result" where
  "reject r = sizing_default\<lparr>rejected := True, reason := Some r\<rparr>"

fun kind_value :: "instrument_kind \<Rightarrow> string" where
  "kind_value EQUITY = ''equity''"
| "kind_value FUTURES = ''futures''"
| "kind_value OPTION_BUY = ''option_buy''"
| "kind_value STRUCTURE = ''structure''"

section \<open>Ceilings\<close>

definition apply_clamp :: "int \<Rightarrow> clamp_label \<Rightarrow> int \<times> clamp_label list \<Rightarrow> int \<times> clamp_label list" where
  "apply_clamp limit label st =
     (case st of (units, cs) \<Rightarrow> if limit < units then (limit, cs @ [label]) else (units, cs))"

text \<open>A ceiling that is applied only when its input is present.\<close>

definition apply_opt :: "int option \<Rightarrow> clamp_label \<Rightarrow> int \<times> clamp_label list \<Rightarrow> int \<times> clamp_label list" where
  "apply_opt limit label st = (case limit of None \<Rightarrow> st | Some l \<Rightarrow> apply_clamp l label st)"

definition floor_to_lot :: "real \<Rightarrow> int \<Rightarrow> int" where
  "floor_to_lot units lot =
     (if units \<le> 0 then 0
      else if lot \<le> 1 then \<lfloor>units\<rfloor>
      else \<lfloor>units / of_int lot\<rfloor> * lot)"

section \<open>Price-stop instruments\<close>

record position_request =
  capital :: rupees
  per_trade_risk_pct :: real
  per_instrument_cap_pct :: real
  entry_price :: rupees
  stop_price :: rupees
  req_lot :: int
  kind :: instrument_kind
  confidence :: real
  sleeve_remaining_capital :: "rupees option"
  portfolio_remaining_r :: "rupees option"
  margin_available :: "rupees option"
  margin_per_unit :: "rupees option"
  min_risk_utilization :: real

definition r_rupees :: "position_request \<Rightarrow> rupees" where
  "r_rupees q = capital q * per_trade_risk_pct q / 100"

definition effective_r :: "position_request \<Rightarrow> rupees" where
  "effective_r q = r_rupees q * clamp01 (confidence q)"

definition risk_per_unit :: "position_request \<Rightarrow> rupees" where
  "risk_per_unit q = \<bar>entry_price q - stop_price q\<bar>"

text \<open>The four ceilings of \<open>size_position\<close>, None when the code skips one.\<close>

definition position_ceilings :: "position_request \<Rightarrow> (int option \<times> clamp_label) list" where
  "position_ceilings q =
    [(Some (floor_to_lot (per_instrument_cap_pct q / 100 * capital q / entry_price q) (req_lot q)),
        Clamp_Instrument_Cap),
     (map_option (\<lambda>s. floor_to_lot (max 0 s / entry_price q) (req_lot q)) (sleeve_remaining_capital q),
        Clamp_Sleeve_Cap),
     (map_option (\<lambda>p. floor_to_lot (max 0 p / risk_per_unit q) (req_lot q)) (portfolio_remaining_r q),
        Clamp_Portfolio_Risk),
     (case (margin_available q, margin_per_unit q) of
        (Some a, Some m) \<Rightarrow> if m \<noteq> 0 then Some (floor_to_lot (max 0 a / m) (req_lot q)) else None
      | _ \<Rightarrow> None, Clamp_Live_Margin)]"

definition run_ceilings ::
  "(int option \<times> clamp_label) list \<Rightarrow> int \<times> clamp_label list \<Rightarrow> int \<times> clamp_label list" where
  "run_ceilings cs st = fold (\<lambda>(l, lab). apply_opt l lab) cs st"

definition raw_units :: "position_request \<Rightarrow> int" where
  "raw_units q = floor_to_lot (effective_r q / risk_per_unit q) (req_lot q)"

definition size_position :: "position_request \<Rightarrow> sizing_result" where
  "size_position q =
    (if effective_r q \<le> 0 then reject No_Risk_Budget
     else if risk_per_unit q \<le> 0 then reject Zero_Stop_Distance
     else if entry_price q \<le> 0 then reject Invalid_Entry_Price
     else
       let (units, cs) = run_ceilings (position_ceilings q) (raw_units q, []) in
       if units < max 1 (req_lot q) then
         (reject Below_One_Lot)\<lparr>clamps := cs, r_intended := effective_r q, lot_size := req_lot q\<rparr>
       else if min_risk_utilization q > 0
               \<and> of_int units * risk_per_unit q < effective_r q * min_risk_utilization q then
         (reject (Risk_Utilization_Low units (min_risk_utilization q)))
           \<lparr>clamps := cs, r_intended := effective_r q, lot_size := req_lot q\<rparr>
       else
         \<lparr>rejected = False, reason = None, quantity = units,
          lots = (if req_lot q > 1 then units div req_lot q else units),
          lot_size = req_lot q, r_intended = effective_r q,
          actual_risk = of_int units * risk_per_unit q,
          capital_allocated = of_int units * entry_price q, clamps = cs,
          detail = [(''kind'', JStr (kind_value (kind q))),
                    (''risk_per_unit'', JNum (risk_per_unit q)),
                    (''raw_R'', JNum (r_rupees q))]\<rparr>)"

section \<open>Defined-risk structures\<close>

record structure_request =
  s_capital :: rupees
  s_per_trade_risk_pct :: real
  max_loss_per_lot :: rupees
  s_lot_size :: int
  s_confidence :: real
  s_portfolio_remaining_r :: "rupees option"
  underlying_remaining_r :: "rupees option"
  s_margin_available :: "rupees option"
  margin_per_lot :: "rupees option"
  max_lots :: "int option"

definition s_effective_r :: "structure_request \<Rightarrow> rupees" where
  "s_effective_r q = s_capital q * s_per_trade_risk_pct q / 100 * clamp01 (s_confidence q)"

definition structure_ceilings :: "structure_request \<Rightarrow> (int option \<times> clamp_label) list" where
  "structure_ceilings q =
    [(map_option (\<lambda>p. \<lfloor>max 0 p / max_loss_per_lot q\<rfloor>) (s_portfolio_remaining_r q),
        Clamp_Portfolio_Risk),
     (map_option (\<lambda>u. \<lfloor>max 0 u / max_loss_per_lot q\<rfloor>) (underlying_remaining_r q),
        Clamp_Underlying_Cap),
     (case (s_margin_available q, margin_per_lot q) of
        (Some a, Some m) \<Rightarrow> if m \<noteq> 0 then Some \<lfloor>max 0 a / m\<rfloor> else None
      | _ \<Rightarrow> None, Clamp_Live_Margin),
     (case max_lots q of Some n \<Rightarrow> if n > 0 then Some n else None | None \<Rightarrow> None, Clamp_Max_Lots)]"

definition size_structure_lots :: "structure_request \<Rightarrow> sizing_result" where
  "size_structure_lots q =
    (if s_effective_r q \<le> 0 then reject No_Risk_Budget
     else if max_loss_per_lot q \<le> 0 then reject Bad_Structure_Max_Loss
     else
       let (n, cs) = run_ceilings (structure_ceilings q)
                       (\<lfloor>s_effective_r q / max_loss_per_lot q\<rfloor>, []) in
       if n < 1 then
         (reject Below_One_Lot)\<lparr>clamps := cs, r_intended := s_effective_r q, lot_size := s_lot_size q\<rparr>
       else
         \<lparr>rejected = False, reason = None, quantity = n * s_lot_size q, lots = n,
          lot_size = s_lot_size q, r_intended = s_effective_r q,
          actual_risk = of_int n * max_loss_per_lot q,
          capital_allocated = of_int n * max_loss_per_lot q, clamps = cs,
          detail = [(''kind'', JStr (kind_value STRUCTURE)),
                    (''max_loss_per_lot'', JNum (max_loss_per_lot q))]\<rparr>)"

definition max_concurrent_positions :: "real \<Rightarrow> real \<Rightarrow> int" where
  "max_concurrent_positions limit_pct per_trade =
     (if per_trade \<le> 0 then 0 else \<lfloor>limit_pct / per_trade\<rfloor>)"


section \<open>The ceiling chain\<close>

lemma apply_opt_simps [simp]:
  "apply_opt None lab st = st"
  "apply_opt (Some l) lab st = apply_clamp l lab st"
  by (simp_all add: apply_opt_def)

lemma fst_apply_clamp [simp]: "fst (apply_clamp l lab st) = min l (fst st)"
  by (cases st) (auto simp: apply_clamp_def)

lemma run_ceilings_simps [simp]:
  "run_ceilings [] st = st"
  "run_ceilings ((l, lab) # cs) st = run_ceilings cs (apply_opt l lab st)"
  by (simp_all add: run_ceilings_def)

lemma run_ceilings_le_start: "fst (run_ceilings cs st) \<le> fst st"
proof (induction cs arbitrary: st)
  case (Cons c cs)
  obtain l lab where c: "c = (l, lab)" by (cases c)
  have "fst (apply_opt l lab st) \<le> fst st" by (cases l) auto
  with Cons.IH [of "apply_opt l lab st"] c show ?case by simp
qed simp

lemma run_ceilings_le_limit: "(Some l, lab) \<in> set cs \<Longrightarrow> fst (run_ceilings cs st) \<le> l"
proof (induction cs arbitrary: st)
  case (Cons c cs)
  show ?case
  proof (cases "c = (Some l, lab)")
    case True
    have "fst (run_ceilings cs (apply_clamp l lab st)) \<le> fst (apply_clamp l lab st)"
      by (rule run_ceilings_le_start)
    with True show ?thesis by simp
  next
    case False
    with Cons.IH [of "apply_opt (fst c) (snd c) st"] Cons.prems show ?thesis
      by (cases c) auto
  qed
qed simp

lemma run_ceilings_greatest:
  "n \<le> fst st \<Longrightarrow> (\<And>l lab. (Some l, lab) \<in> set cs \<Longrightarrow> n \<le> l) \<Longrightarrow> n \<le> fst (run_ceilings cs st)"
proof (induction cs arbitrary: st)
  case (Cons c cs)
  obtain l lab where c: "c = (l, lab)" by (cases c)
  have "n \<le> fst (apply_opt l lab st)"
    using Cons.prems c by (cases l) auto
  then show ?case using Cons c by (simp, blast)
qed simp

text \<open>The result is the start value or one of the limits, so it keeps what they share.\<close>

lemma run_ceilings_cases:
  assumes "P (fst st)" "\<And>l lab. (Some l, lab) \<in> set cs \<Longrightarrow> P l"
  shows "P (fst (run_ceilings cs st))"
  using assms
proof (induction cs arbitrary: st)
  case (Cons c cs)
  obtain l lab where c: "c = (l, lab)" by (cases c)
  have "P (fst (apply_opt l lab st))"
    using Cons.prems c by (cases l) (auto simp: min_def)
  then show ?case using Cons c by (simp, blast)
qed simp

text \<open>A label is recorded exactly when its ceiling lowered the size.\<close>

lemma run_ceilings_no_label:
  "snd (run_ceilings cs (u, ls)) = ls \<Longrightarrow> fst (run_ceilings cs (u, ls)) = u"
proof (induction cs arbitrary: u ls)
  case (Cons c cs)
  obtain l lab where c: "c = (l, lab)" by (cases c)
  have len: "length ls' \<le> length (snd (run_ceilings cs' (u', ls')))" for cs' u' ls'
  proof (induction cs' arbitrary: u' ls')
    case (Cons d ds)
    obtain m mlab where d: "d = (m, mlab)" by (cases d)
    show ?case
    proof (cases "apply_opt m mlab (u', ls')")
      case (Pair u'' ls'')
      then have "length ls' \<le> length ls''"
        by (cases m) (auto simp: apply_clamp_def split: if_splits)
      with Cons.IH [of ls'' u''] Pair d show ?thesis by simp
    qed
  qed simp
  show ?case
  proof (cases l)
    case None with Cons c show ?thesis by simp
  next
    case (Some k)
    with Cons c len [of "ls @ [lab]" cs k] show ?thesis
      by (auto simp: apply_clamp_def split: if_splits)
  qed
qed simp

section \<open>Rounding down to lots\<close>

lemma floor_to_lot_nonneg: "0 \<le> floor_to_lot x lot"
  by (auto simp: floor_to_lot_def)

lemma floor_to_lot_dvd: "1 < lot \<Longrightarrow> lot dvd floor_to_lot x lot"
  by (auto simp: floor_to_lot_def)

lemma floor_to_lot_le: "0 \<le> x \<Longrightarrow> of_int (floor_to_lot x lot) \<le> x"
proof (cases "lot \<le> 1")
  case True
  then show "0 \<le> x \<Longrightarrow> ?thesis" by (simp add: floor_to_lot_def)
next
  case False
  assume "0 \<le> x"
  have "of_int \<lfloor>x / of_int lot\<rfloor> * (of_int lot :: real) \<le> x / of_int lot * of_int lot"
    using False by (intro mult_right_mono) auto
  with False \<open>0 \<le> x\<close> show ?thesis by (auto simp: floor_to_lot_def)
qed

text \<open>A whole number of lots fits below \<open>x\<close> exactly when it fits below the rounded value.\<close>

lemma le_floor_to_lot_iff:
  assumes "0 < n" "1 < lot \<Longrightarrow> lot dvd n"
  shows "n \<le> floor_to_lot x lot \<longleftrightarrow> of_int n \<le> x"
proof (cases "x \<le> 0")
  case True
  with assms(1) show ?thesis by (auto simp: floor_to_lot_def)
next
  case False
  show ?thesis
  proof (cases "lot \<le> 1")
    case True with False show ?thesis by (simp add: floor_to_lot_def le_floor_iff)
  next
    case lot: False
    then obtain k where n: "n = lot * k" using assms(2) by (auto elim: dvdE)
    have "n \<le> floor_to_lot x lot \<longleftrightarrow> k \<le> \<lfloor>x / of_int lot\<rfloor>"
      using lot False n by (simp add: floor_to_lot_def mult.commute)
    also have "\<dots> \<longleftrightarrow> of_int k \<le> x / of_int lot" by (rule le_floor_iff)
    also have "\<dots> \<longleftrightarrow> of_int n \<le> x" using lot n by (simp add: field_simps)
    finally show ?thesis .
  qed
qed

section \<open>The contract both sizing functions share\<close>

text \<open>
  A sizer turns a request into a result from a raw size and a chain of ceilings. What its
  callers rely on: an accepted result has the size the chain computes, at least the minimum
  size, and carries a risk of size times unit risk, where the raw size already fits the budget.
\<close>

locale r_sizer =
  fixes size :: "'q \<Rightarrow> sizing_result"
    and budget :: "'q \<Rightarrow> rupees"
    and unit_risk :: "'q \<Rightarrow> rupees"
    and raw :: "'q \<Rightarrow> int"
    and ceilings :: "'q \<Rightarrow> (int option \<times> clamp_label) list"
    and min_units :: "'q \<Rightarrow> int"
    and units :: "sizing_result \<Rightarrow> int"
  assumes accept_units: "\<not> rejected (size q) \<Longrightarrow> units (size q) = fst (run_ceilings (ceilings q) (raw q, []))"
    and accept_clamps: "\<not> rejected (size q) \<Longrightarrow> clamps (size q) = snd (run_ceilings (ceilings q) (raw q, []))"
    and accept_min: "\<not> rejected (size q) \<Longrightarrow> min_units q \<le> units (size q)"
    and min_pos: "0 < min_units q"
    and accept_risk: "\<not> rejected (size q) \<Longrightarrow> actual_risk (size q) = of_int (units (size q)) * unit_risk q"
    and unit_risk_pos: "\<not> rejected (size q) \<Longrightarrow> 0 < unit_risk q"
    and raw_fits: "\<not> rejected (size q) \<Longrightarrow> of_int (raw q) * unit_risk q \<le> budget q"
begin

lemma units_le_raw: "\<not> rejected (size q) \<Longrightarrow> units (size q) \<le> raw q"
  using run_ceilings_le_start [of "ceilings q" "(raw q, [])"] by (simp add: accept_units)

lemma units_le_ceiling:
  "\<not> rejected (size q) \<Longrightarrow> (Some l, lab) \<in> set (ceilings q) \<Longrightarrow> units (size q) \<le> l"
  using run_ceilings_le_limit by (fastforce simp: accept_units)

lemma risk_within_budget: "\<not> rejected (size q) \<Longrightarrow> actual_risk (size q) \<le> budget q"
proof -
  assume a: "\<not> rejected (size q)"
  have "of_int (units (size q)) * unit_risk q \<le> of_int (raw q) * unit_risk q"
    using units_le_raw [OF a] unit_risk_pos [OF a] by (intro mult_right_mono) auto
  with raw_fits [OF a] accept_risk [OF a] show ?thesis by linarith
qed

lemma risk_pos: "\<not> rejected (size q) \<Longrightarrow> 0 < actual_risk (size q)"
  using accept_min [of q] min_pos [of q] unit_risk_pos [of q] by (simp add: accept_risk)

lemma unclamped_is_raw: "\<not> rejected (size q) \<Longrightarrow> clamps (size q) = [] \<Longrightarrow> units (size q) = raw q"
  using run_ceilings_no_label [of "ceilings q" "raw q" "[]"] by (simp add: accept_units accept_clamps)

end


section \<open>Both functions satisfy the contract\<close>

lemma size_position_accepted:
  assumes "\<not> rejected (size_position q)"
  shows "0 < effective_r q" "0 < risk_per_unit q" "0 < entry_price q"
    "quantity (size_position q) = fst (run_ceilings (position_ceilings q) (raw_units q, []))"
    "clamps (size_position q) = snd (run_ceilings (position_ceilings q) (raw_units q, []))"
    "max 1 (req_lot q) \<le> quantity (size_position q)"
    "actual_risk (size_position q) = of_int (quantity (size_position q)) * risk_per_unit q"
    "capital_allocated (size_position q) = of_int (quantity (size_position q)) * entry_price q"
    "reason (size_position q) = None"
  using assms
  by (auto simp: size_position_def reject_def Let_def split: if_splits prod.splits)

lemma size_structure_accepted:
  assumes "\<not> rejected (size_structure_lots q)"
  shows "0 < s_effective_r q" "0 < max_loss_per_lot q"
    "lots (size_structure_lots q)
       = fst (run_ceilings (structure_ceilings q) (\<lfloor>s_effective_r q / max_loss_per_lot q\<rfloor>, []))"
    "clamps (size_structure_lots q)
       = snd (run_ceilings (structure_ceilings q) (\<lfloor>s_effective_r q / max_loss_per_lot q\<rfloor>, []))"
    "1 \<le> lots (size_structure_lots q)"
    "quantity (size_structure_lots q) = lots (size_structure_lots q) * s_lot_size q"
    "actual_risk (size_structure_lots q) = of_int (lots (size_structure_lots q)) * max_loss_per_lot q"
  using assms
  by (auto simp: size_structure_lots_def reject_def Let_def split: if_splits prod.splits)

interpretation pos: r_sizer size_position effective_r risk_per_unit raw_units position_ceilings
  "\<lambda>q. max 1 (req_lot q)" quantity
proof (unfold_locales, goal_cases)
  case (7 q)
  have "of_int (raw_units q) \<le> effective_r q / risk_per_unit q"
    using size_position_accepted(1,2) [OF 7] by (simp add: raw_units_def floor_to_lot_le)
  with size_position_accepted(2) [OF 7] show ?case by (simp add: field_simps)
qed (use size_position_accepted in auto)

interpretation struct: r_sizer size_structure_lots s_effective_r max_loss_per_lot
  "\<lambda>q. \<lfloor>s_effective_r q / max_loss_per_lot q\<rfloor>" structure_ceilings "\<lambda>_. 1" lots
proof (unfold_locales, goal_cases)
  case (7 q)
  have "of_int \<lfloor>s_effective_r q / max_loss_per_lot q\<rfloor> \<le> s_effective_r q / max_loss_per_lot q"
    by (rule of_int_floor_le)
  with size_structure_accepted(2) [OF 7] show ?case by (simp only: pos_le_divide_eq)
qed (use size_structure_accepted in auto)

section \<open>Budgets\<close>

lemma effective_r_le:
  "0 \<le> capital q \<Longrightarrow> 0 \<le> per_trade_risk_pct q \<Longrightarrow> effective_r q \<le> r_rupees q"
  by (simp add: effective_r_def r_rupees_def mult_left_le)

lemma s_effective_r_le:
  "0 \<le> s_capital q \<Longrightarrow> 0 \<le> s_per_trade_risk_pct q \<Longrightarrow>
   s_effective_r q \<le> s_capital q * s_per_trade_risk_pct q / 100"
  by (simp add: s_effective_r_def mult_left_le)

section \<open>The specification of a feasible size\<close>

text \<open>
  What the ceilings promise, written without the chain: \<open>n\<close> units are whole lots, at least
  one, and respect the R budget, the instrument cap, the sleeve's remaining capital, the
  portfolio's remaining R and the live margin.
\<close>

definition feasible_position :: "position_request \<Rightarrow> int \<Rightarrow> bool" where
  "feasible_position q n \<longleftrightarrow>
     max 1 (req_lot q) \<le> n \<and> (1 < req_lot q \<longrightarrow> req_lot q dvd n)
     \<and> of_int n * risk_per_unit q \<le> effective_r q
     \<and> of_int n * entry_price q \<le> per_instrument_cap_pct q / 100 * capital q
     \<and> (case sleeve_remaining_capital q of None \<Rightarrow> True
         | Some s \<Rightarrow> of_int n * entry_price q \<le> max 0 s)
     \<and> (case portfolio_remaining_r q of None \<Rightarrow> True
         | Some p \<Rightarrow> of_int n * risk_per_unit q \<le> max 0 p)
     \<and> (case (margin_available q, margin_per_unit q) of
          (Some a, Some m) \<Rightarrow> m \<noteq> 0 \<longrightarrow> of_int n \<le> max 0 a / m
        | _ \<Rightarrow> True)"

definition fits_limit :: "int \<Rightarrow> int option \<Rightarrow> bool" where
  "fits_limit n l = (case l of None \<Rightarrow> True | Some k \<Rightarrow> n \<le> k)"

lemma all_fits_limit:
  "(\<forall>l lab. (Some l, lab) \<in> set cs \<longrightarrow> n \<le> l) \<longleftrightarrow> list_all (\<lambda>c. fits_limit n (fst c)) cs"
  by (induction cs) (auto simp: fits_limit_def split: option.splits)

lemma feasible_iff_ceilings:
  assumes "0 < risk_per_unit q" "0 < entry_price q" "max 1 (req_lot q) \<le> n"
    "1 < req_lot q \<Longrightarrow> req_lot q dvd n"
  shows "feasible_position q n \<longleftrightarrow>
    n \<le> raw_units q \<and> (\<forall>l lab. (Some l, lab) \<in> set (position_ceilings q) \<longrightarrow> n \<le> l)"
proof -
  have n: "0 < n" using assms(3) by simp
  note fl = le_floor_to_lot_iff [OF n assms(4)]
  have "n \<le> raw_units q \<longleftrightarrow> of_int n * risk_per_unit q \<le> effective_r q"
    using assms(1) by (simp add: raw_units_def fl field_simps)
  moreover have "fits_limit n (fst c) \<longleftrightarrow> (case sleeve_remaining_capital q of None \<Rightarrow> True
         | Some s \<Rightarrow> of_int n * entry_price q \<le> max 0 s)"
    if "c = position_ceilings q ! 1" for c
    using that assms(2) by (simp add: position_ceilings_def fits_limit_def fl pos_le_divide_eq split: option.split)
  moreover have "fits_limit n (fst c) \<longleftrightarrow> (case portfolio_remaining_r q of None \<Rightarrow> True
         | Some p \<Rightarrow> of_int n * risk_per_unit q \<le> max 0 p)"
    if "c = position_ceilings q ! 2" for c
    using that assms(1) by (simp add: position_ceilings_def fits_limit_def fl pos_le_divide_eq split: option.split)
  moreover have "fits_limit n (fst c) \<longleftrightarrow> (case (margin_available q, margin_per_unit q) of
          (Some a, Some m) \<Rightarrow> m \<noteq> 0 \<longrightarrow> of_int n \<le> max 0 a / m
        | _ \<Rightarrow> True)"
    if "c = position_ceilings q ! 3" for c
    using that by (simp add: position_ceilings_def fits_limit_def fl split: option.split)
  moreover have "fits_limit n (fst c) \<longleftrightarrow> of_int n * entry_price q \<le> per_instrument_cap_pct q / 100 * capital q"
    if "c = position_ceilings q ! 0" for c
    using that assms(2) by (simp add: position_ceilings_def fits_limit_def fl pos_le_divide_eq mult_ac)
  moreover have "list_all (\<lambda>c. fits_limit n (fst c)) (position_ceilings q) \<longleftrightarrow>
      fits_limit n (fst (position_ceilings q ! 0)) \<and> fits_limit n (fst (position_ceilings q ! 1))
      \<and> fits_limit n (fst (position_ceilings q ! 2)) \<and> fits_limit n (fst (position_ceilings q ! 3))"
    by (simp add: position_ceilings_def)
  ultimately show ?thesis
    unfolding all_fits_limit feasible_position_def using assms(3,4) by simp
qed

lemma size_position_whole_lots:
  "\<not> rejected (size_position q) \<Longrightarrow> 1 < req_lot q \<Longrightarrow> req_lot q dvd quantity (size_position q)"
  unfolding size_position_accepted(4)
  by (rule run_ceilings_cases)
    (auto simp: raw_units_def position_ceilings_def floor_to_lot_dvd Some_eq_map_option_iff
       split: option.splits if_splits)

lemma size_position_feasible:
  assumes "\<not> rejected (size_position q)"
  shows "feasible_position q (quantity (size_position q))"
  by (subst feasible_iff_ceilings)
    (use assms size_position_accepted(2,3,6) [OF assms] in
      \<open>auto simp: size_position_whole_lots pos.units_le_raw intro: pos.units_le_ceiling\<close>)

lemma feasible_le_chain:
  assumes "0 < risk_per_unit q" "0 < entry_price q" "feasible_position q n"
  shows "n \<le> fst (run_ceilings (position_ceilings q) (raw_units q, []))"
proof (rule run_ceilings_greatest)
  have "max 1 (req_lot q) \<le> n" "1 < req_lot q \<Longrightarrow> req_lot q dvd n"
    using assms(3) by (auto simp: feasible_position_def)
  note iff = feasible_iff_ceilings [OF assms(1,2) this]
  show "n \<le> fst (raw_units q, [])" using iff assms(3) by simp
  show "n \<le> l" if "(Some l, lab) \<in> set (position_ceilings q)" for l lab
    using iff assms(3) that by blast
qed

lemma feasible_not_rejected:
  assumes "0 < risk_per_unit q" "0 < entry_price q" "min_risk_utilization q \<le> 0"
    "feasible_position q n"
  shows "\<not> rejected (size_position q)"
proof -
  have "1 \<le> n" "of_int n * risk_per_unit q \<le> effective_r q" "max 1 (req_lot q) \<le> n"
    using assms(4) by (auto simp: feasible_position_def)
  moreover have "0 < of_int n * risk_per_unit q" using \<open>1 \<le> n\<close> assms(1) by simp
  ultimately have "0 < effective_r q" "max 1 (req_lot q) \<le> n" by linarith+
  with assms feasible_le_chain [OF assms(1,2,4)] show ?thesis
    by (auto simp: size_position_def Let_def split: prod.splits if_splits)
qed

lemma structure_lots_within:
  assumes "\<not> rejected (size_structure_lots q)"
  shows "1 \<le> lots (size_structure_lots q)
    \<and> of_int (lots (size_structure_lots q)) * max_loss_per_lot q \<le> s_effective_r q
    \<and> (\<forall>p. s_portfolio_remaining_r q = Some p \<longrightarrow> of_int (lots (size_structure_lots q)) * max_loss_per_lot q \<le> max 0 p)
    \<and> (\<forall>u. underlying_remaining_r q = Some u \<longrightarrow> of_int (lots (size_structure_lots q)) * max_loss_per_lot q \<le> max 0 u)
    \<and> (\<forall>a m. s_margin_available q = Some a \<longrightarrow> margin_per_lot q = Some m \<longrightarrow> 0 < m \<longrightarrow> of_int (lots (size_structure_lots q)) * m \<le> max 0 a)
    \<and> (\<forall>n. max_lots q = Some n \<longrightarrow> 0 < n \<longrightarrow> lots (size_structure_lots q) \<le> n)"
proof -
  let ?n = "lots (size_structure_lots q)" and ?m = "max_loss_per_lot q"
  note acc = size_structure_accepted [OF assms]
  have le: "of_int ?n * ?m \<le> x" if "?n \<le> \<lfloor>x / ?m\<rfloor>" for x
    using that acc(2) by (simp add: le_floor_iff pos_le_divide_eq)
  have "of_int ?n * ?m \<le> s_effective_r q" using struct.units_le_raw [OF assms] by (rule le)
  moreover have "of_int ?n * ?m \<le> max 0 p" if "s_portfolio_remaining_r q = Some p" for p
    by (rule le, rule struct.units_le_ceiling [OF assms, where lab = Clamp_Portfolio_Risk])
      (simp add: structure_ceilings_def that)
  moreover have "of_int ?n * ?m \<le> max 0 u" if "underlying_remaining_r q = Some u" for u
    by (rule le, rule struct.units_le_ceiling [OF assms, where lab = Clamp_Underlying_Cap])
      (simp add: structure_ceilings_def that)
  moreover have "of_int ?n * m \<le> max 0 a" if "s_margin_available q = Some a" "margin_per_lot q = Some m" "0 < m" for a m
  proof -
    have "?n \<le> \<lfloor>max 0 a / m\<rfloor>" by (rule struct.units_le_ceiling [OF assms, where lab = Clamp_Live_Margin])
      (use that in \<open>simp add: structure_ceilings_def\<close>)
    then have "of_int ?n \<le> max 0 a / m" by (simp only: le_floor_iff)
    then show ?thesis using that(3) by (simp add: pos_le_divide_eq)
  qed
  moreover have "?n \<le> k" if "max_lots q = Some k" "0 < k" for k
    by (rule struct.units_le_ceiling [OF assms, where lab = Clamp_Max_Lots])
      (simp add: structure_ceilings_def that)
  ultimately show ?thesis using acc(5) by blast
qed

end
