(* ===== verification/Risk_Engine.thy ===== *)
theory Risk_Engine
  imports Structures Sizing Circuits
begin

text \<open>
  \<open>risk/capital.py\<close> and \<open>risk/engine.py\<close>: the gate every entry passes. The capital reader keeps a
  cache, the engine a cached volatility scalar; both are state that each sizing call returns. The
  broker's margin endpoints and the last India-VIX close are parameters of the environment, None where
  the call raises; the operator table and the position book are arguments, they are only read.

  The lemmas show what an accepted size means for the book it is added to: with the new risk the
  open R, the sleeve, the margin and the number of trades stay inside the configured limits.
\<close>

section \<open>Capital\<close>

record margins =
  mg_net :: "real option"
  mg_live_balance :: "real option"

datatype margins_reply = Mg_Raised | Mg_Not_A_Dict | Mg_Dict margins

definition segment_available :: "margins_reply \<Rightarrow> real" where
  "segment_available r = (case r of
     Mg_Dict m \<Rightarrow> py_or (case mg_net m of None \<Rightarrow> mg_live_balance m | Some n \<Rightarrow> Some n) 0
   | _ \<Rightarrow> 0)"

record capital_reader =
  cr_static :: "rupees option"
  cr_compound :: bool
  cr_provider :: bool
  cr_cache :: "rupees option"

text \<open>The realized P&L of the closed rows, of the active namespace only when a mode provider is set.\<close>

definition realized_closed :: "(position \<Rightarrow> bool) \<Rightarrow> book \<Rightarrow> rupees" where
  "realized_closed P bk = sum_list (map b_realized
     (filter (\<lambda>r. pos_status r = Closed \<and> P (position.truncate r)) (rows bk)))"

definition get_capital ::
  "(string \<Rightarrow> margins_reply) \<Rightarrow> string \<Rightarrow> bool \<Rightarrow> config_state \<Rightarrow> book \<Rightarrow> capital_reader \<Rightarrow> rupees \<times> capital_reader" where
  "get_capital mg now refresh st bk rd =
    (let state = load_runtime_mode now st;
         live = cr_provider rd \<and> use_broker_capital state;
         cached = (case cr_cache rd of Some c \<Rightarrow> if refresh then None else Some c | None \<Rightarrow> None)
     in case (if live then None else cr_static rd) of
          Some base \<Rightarrow>
            (if \<not> cr_compound rd then (base, rd)
             else case cached of Some c \<Rightarrow> (c, rd)
             | None \<Rightarrow>
                 let scope = (if cr_provider rd then where_clause (position_scope state) else (\<lambda>p. True));
                     c = max 0 (base + realized_closed scope bk)
                 in (c, rd\<lparr>cr_cache := Some c\<rparr>))
        | None \<Rightarrow>
            (case cached of Some c \<Rightarrow> (c, rd)
             | None \<Rightarrow>
                 let c = sum_list (map (\<lambda>seg. segment_available (mg seg)) [''equity'', ''commodity''])
                 in (c, rd\<lparr>cr_cache := Some c\<rparr>)))"

section \<open>The engine's configuration and state\<close>

record vol_cfg =
  vs_enabled :: bool
  vs_reference :: "real option"
  vs_min_scale :: "real option"

record risk_cfg =
  rc_overlay :: "real option"
  rc_per_trade :: real
  rc_portfolio_limit :: real
  rc_instrument_cap :: real
  rc_underlying_pct :: "real option"
  rc_min_utilization :: "real option"
  rc_sleeves :: "string \<rightharpoonup> real"
  rc_vol :: vol_cfg
  rc_max_lots :: "int option"

record margin_order =
  mo_exchange :: "string option"
  mo_symbol :: "sym option"
  mo_side :: order_side
  mo_variety :: string
  mo_product :: string
  mo_type :: string
  mo_qty :: int
  mo_price :: rupees

record risk_env =
  re_cfg :: risk_cfg
  re_broker :: bool
  re_margins :: "string \<Rightarrow> margins_reply"
  re_order_margins :: "margin_order list \<Rightarrow> real option list option"
  re_basket_margins :: "margin_order list \<Rightarrow> real option option"
  re_options :: "option_row list"
  re_vix :: "real option"
  re_clock :: real
  re_today :: string
  re_now :: string

record risk_state =
  rs_reader :: capital_reader
  rs_vscale :: real
  rs_vscale_ts :: real

definition sleeve_product :: "string \<Rightarrow> string" where
  "sleeve_product s =
    (if s = ''intraday_stocks'' then ''MIS'' else if s = ''swing_stocks'' then ''CNC''
     else if s = ''fno'' \<or> s = ''mcx_commodities'' then ''NRML'' else ''MIS'')"

definition kind_from_instrument :: "instrument \<Rightarrow> instrument_kind" where
  "kind_from_instrument ins =
    (let ty = py_upper (get_default (in_type ins) []) in
     if ty = ''CE'' \<or> ty = ''PE'' then OPTION_BUY else if ty = ''FUT'' then FUTURES else EQUITY)"

definition per_trade :: "risk_cfg \<Rightarrow> real" where
  "per_trade c = py_or (rc_overlay c) (rc_per_trade c)"

text \<open>The size scalar: cached for 300 s; a VIX that cannot be read counts as no scaling.\<close>

definition vix_scale :: "vol_cfg \<Rightarrow> real option \<Rightarrow> real" where
  "vix_scale v vix =
    (let ref = cfg_or (vs_reference v) 15 15; floor = cfg_or (vs_min_scale v) (4 / 10) (4 / 10) in
     case vix of None \<Rightarrow> 1
     | Some x \<Rightarrow> if x > ref \<and> ref > 0 then max floor (ref / x) else 1)"

definition vol_scale :: "risk_env \<Rightarrow> risk_state \<Rightarrow> real \<times> risk_state" where
  "vol_scale env s =
    (if \<not> vs_enabled (rc_vol (re_cfg env)) then (1, s)
     else if rs_vscale_ts s \<noteq> 0 \<and> re_clock env - rs_vscale_ts s < 300 then (rs_vscale s, s)
     else let k = vix_scale (rc_vol (re_cfg env)) (re_vix env)
          in (k, s\<lparr>rs_vscale := k, rs_vscale_ts := re_clock env\<rparr>))"

section \<open>Brakes\<close>

definition jfield :: "json \<Rightarrow> string \<Rightarrow> json" where
  "jfield v k = (case v of JObj d \<Rightarrow> get_default (map_of d k) JNull | _ \<Rightarrow> JNull)"

definition brake_key :: "string \<Rightarrow> string" where
  "brake_key sl = ''sleeve_'' @ sl @ ''_brake''"

definition dated :: "string \<Rightarrow> json \<Rightarrow> bool" where
  "dated today v \<longleftrightarrow> json_truthy v \<and> jfield v ''date'' = JStr today"

definition active_brake :: "string \<Rightarrow> string \<Rightarrow> config_state \<Rightarrow> reject_reason option" where
  "active_brake today sl st =
    (if json_truthy (get_state st ''period_brake_active'' JNull) then Some Brake_Period
     else if dated today (get_state st ''trade_budget_exhausted'' JNull) then Some Brake_Trade_Budget
     else if dated today (get_state st (brake_key sl) JNull) then Some Brake_Loss_Streak
     else None)"

section \<open>Ceilings\<close>

definition sleeve_remaining :: "risk_cfg \<Rightarrow> string \<Rightarrow> rupees \<Rightarrow> position list \<Rightarrow> rupees option" where
  "sleeve_remaining c sl cap ps = (case rc_sleeves c sl of
     None \<Rightarrow> None
   | Some pct \<Rightarrow> Some (max 0 (pct / 100 * cap - get_default (map_of (deployed_by_sleeve ps) (Some sl)) 0)))"

definition portfolio_remaining :: "risk_cfg \<Rightarrow> rupees \<Rightarrow> position list \<Rightarrow> rupees" where
  "portfolio_remaining c cap ps = max 0 (rc_portfolio_limit c / 100 * cap - total_open_r ps)"

definition deployed_total :: "position list \<Rightarrow> rupees" where
  "deployed_total ps = sum_list (map snd (deployed_by_sleeve ps))"

definition open_positions :: "(position \<Rightarrow> bool) \<Rightarrow> book \<Rightarrow> position list" where
  "open_positions P bk = filter P (map position.truncate (filter (\<lambda>r. pos_status r = Open) (rows bk)))"

definition scoped_positions :: "risk_env \<Rightarrow> config_state \<Rightarrow> book \<Rightarrow> position list" where
  "scoped_positions env st bk = open_positions (where_clause (position_scope (load_runtime_mode (re_now env) st))) bk"

definition live_profile :: "risk_env \<Rightarrow> config_state \<Rightarrow> string" where
  "live_profile env st = risk_profile (load_runtime_mode (re_now env) st)"

definition margin_per_unit_of :: "risk_env \<Rightarrow> instrument \<Rightarrow> order_side \<Rightarrow> string \<Rightarrow> int \<Rightarrow> rupees option" where
  "margin_per_unit_of env ins sd sl lot =
    (if \<not> re_broker env then None
     else case re_order_margins env [\<lparr>mo_exchange = in_exchange ins, mo_symbol = in_symbol ins, mo_side = sd,
                mo_variety = ''regular'', mo_product = sleeve_product sl, mo_type = ''MARKET'',
                mo_qty = max 1 lot, mo_price = 0\<rparr>] of
            None \<Rightarrow> None
          | Some [] \<Rightarrow> None
          | Some (None # _) \<Rightarrow> None
          | Some (Some t0 # _) \<Rightarrow> if t0 > 0 then Some (t0 / of_int (max 1 lot)) else None)"

fun leg_orders :: "option_row list \<Rightarrow> string \<Rightarrow> int option \<Rightarrow> int \<Rightarrow> (string \<times> real \<times> order_side) list \<Rightarrow>
    margin_order list \<Rightarrow> margin_order list option" where
  "leg_orders tbl nm expiry lot [] acc = Some acc"
| "leg_orders tbl nm expiry lot ((opt, strike, sd) # ls) acc = (case resolve_option tbl nm expiry strike opt of
     None \<Rightarrow> None
   | Some oi \<Rightarrow> leg_orders tbl nm expiry lot ls (acc @ [\<lparr>mo_exchange = Some ''NFO'', mo_symbol = Some (op_symbol oi),
       mo_side = sd, mo_variety = ''regular'', mo_product = ''NRML'', mo_type = ''MARKET'', mo_qty = max 1 lot,
       mo_price = 0\<rparr>]))"

definition structure_margin_per_lot :: "risk_env \<Rightarrow> string option \<Rightarrow> int option \<Rightarrow> structure_plan option \<Rightarrow> int \<Rightarrow> rupees option" where
  "structure_margin_per_lot env underlying expiry pl lot = (case (underlying, expiry, pl) of
     (Some u, Some x, Some p) \<Rightarrow>
       (if \<not> re_broker env \<or> u = [] then None
        else case leg_orders (re_options env) u (Some x) lot (legs_from_structure p) [] of
          None \<Rightarrow> None
        | Some os \<Rightarrow> (case re_basket_margins env os of
            None \<Rightarrow> None
          | Some t \<Rightarrow> if py_or t 0 > 0 then Some (py_or t 0) else None))
   | _ \<Rightarrow> None)"

section \<open>Sizing\<close>

text \<open>The gates both sizing calls open with: switch and brakes, capital, concurrency.\<close>

definition entry_gate :: "risk_env \<Rightarrow> string \<Rightarrow> config_state \<Rightarrow> reject_reason option" where
  "entry_gate env sl st =
    (if state_flag ''kill_switch_active'' st then Some Kill_Switch_Active else active_brake (re_today env) sl st)"

definition read_capital :: "risk_env \<Rightarrow> config_state \<Rightarrow> book \<Rightarrow> risk_state \<Rightarrow> rupees \<times> risk_state" where
  "read_capital env st bk s =
    (case get_capital (re_margins env) (re_now env) False st bk (rs_reader s) of
       (cap, rd) \<Rightarrow> (cap, s\<lparr>rs_reader := rd\<rparr>))"

definition max_trades :: "risk_cfg \<Rightarrow> int" where
  "max_trades c = max_concurrent_positions (rc_portfolio_limit c) (per_trade c)"

definition capital_gate :: "risk_env \<Rightarrow> rupees \<Rightarrow> position list \<Rightarrow> reject_reason option" where
  "capital_gate env cap ps =
    (if cap \<le> 0 then Some No_Live_Capital
     else if int (open_trades_count ps) \<ge> max_trades (re_cfg env)
     then Some (Max_Concurrent (int (open_trades_count ps)) (max_trades (re_cfg env)))
     else None)"

definition instrument_lot :: "instrument \<Rightarrow> int" where
  "instrument_lot ins = (if kind_from_instrument ins \<noteq> EQUITY then py_or (in_lot ins) 1 else 1)"

definition risk_request ::
  "risk_env \<Rightarrow> rupees \<Rightarrow> position list \<Rightarrow> rupees \<Rightarrow> rupees \<Rightarrow> instrument \<Rightarrow> string \<Rightarrow> real \<Rightarrow> rupees option \<Rightarrow> real \<Rightarrow> position_request" where
  "risk_request env cap ps entry stop ins sl conf margin scale =
    \<lparr>capital = cap, per_trade_risk_pct = per_trade (re_cfg env) * scale,
     per_instrument_cap_pct = rc_instrument_cap (re_cfg env), entry_price = entry, stop_price = stop,
     req_lot = instrument_lot ins, kind = kind_from_instrument ins, confidence = conf,
     sleeve_remaining_capital = sleeve_remaining (re_cfg env) sl cap ps,
     portfolio_remaining_r = Some (portfolio_remaining (re_cfg env) cap ps),
     margin_available = (if truthy margin then Some (max 0 (cap - deployed_total ps)) else None),
     margin_per_unit = margin,
     min_risk_utilization = get_default (rc_min_utilization (re_cfg env)) (1 / 100)\<rparr>"

definition holds_instrument :: "position list \<Rightarrow> instrument \<Rightarrow> bool" where
  "holds_instrument ps ins \<longleftrightarrow> truthy (in_token ins) \<and> list_ex (\<lambda>p. instrument_token p = in_token ins) ps"

definition risk_size ::
  "risk_env \<Rightarrow> rupees \<Rightarrow> rupees \<Rightarrow> instrument \<Rightarrow> string \<Rightarrow> real \<Rightarrow> order_side \<Rightarrow> config_state \<Rightarrow> book \<Rightarrow> risk_state \<Rightarrow> sizing_result \<times> risk_state" where
  "risk_size env entry stop ins sl conf sd st bk s =
    (case entry_gate env sl st of Some why \<Rightarrow> (reject why, s)
     | None \<Rightarrow>
       let (cap, s1) = read_capital env st bk s; ps = scoped_positions env st bk in
       case capital_gate env cap ps of Some why \<Rightarrow> (reject why, s1)
       | None \<Rightarrow>
         if holds_instrument ps ins then (reject Already_In_Position, s1)
         else let margin = margin_per_unit_of env ins sd sl (instrument_lot ins) in
           if must_block (live_profile env st) (margin \<noteq> None) then (reject Dep_Broker_Margin, s1)
           else let (scale, s2) = vol_scale env s1
                in (size_position (risk_request env cap ps entry stop ins sl conf margin scale), s2))"

definition structure_risk_request ::
  "risk_env \<Rightarrow> rupees \<Rightarrow> position list \<Rightarrow> rupees \<Rightarrow> int \<Rightarrow> string \<Rightarrow> real \<Rightarrow> string option \<Rightarrow> rupees option \<Rightarrow> real \<Rightarrow> structure_request" where
  "structure_risk_request env cap ps max_loss lot sl conf underlying margin scale =
    (let u_pct = py_or (rc_underlying_pct (re_cfg env)) 0 in
    \<lparr>s_capital = cap, s_per_trade_risk_pct = per_trade (re_cfg env) * scale, max_loss_per_lot = max_loss,
     s_lot_size = lot, s_confidence = conf,
     s_portfolio_remaining_r = Some (portfolio_remaining (re_cfg env) cap ps),
     underlying_remaining_r =
       (if underlying \<noteq> None \<and> underlying \<noteq> Some [] \<and> u_pct > 0
        then Some (max 0 (u_pct / 100 * cap - open_r_by_underlying ps underlying)) else None),
     s_margin_available =
       (if truthy margin then
          Some (case sleeve_remaining (re_cfg env) sl cap ps of
                  None \<Rightarrow> max 0 (cap - deployed_total ps)
                | Some rem \<Rightarrow> min (max 0 (cap - deployed_total ps)) rem)
        else None),
     margin_per_lot = margin,
     max_lots = (case rc_max_lots (re_cfg env) of None \<Rightarrow> None | Some n \<Rightarrow> if n = 0 then None else Some n)\<rparr>)"

definition risk_size_structure ::
  "risk_env \<Rightarrow> rupees \<Rightarrow> int \<Rightarrow> string \<Rightarrow> real \<Rightarrow> rupees option \<Rightarrow> string option \<Rightarrow> int option \<Rightarrow> structure_plan option \<Rightarrow>
   config_state \<Rightarrow> book \<Rightarrow> risk_state \<Rightarrow> sizing_result \<times> risk_state" where
  "risk_size_structure env max_loss lot sl conf given underlying expiry pl st bk s =
    (case entry_gate env sl st of Some why \<Rightarrow> (reject why, s)
     | None \<Rightarrow>
       let (cap, s1) = read_capital env st bk s; ps = scoped_positions env st bk in
       case capital_gate env cap ps of Some why \<Rightarrow> (reject why, s1)
       | None \<Rightarrow>
         let margin = (case given of None \<Rightarrow> structure_margin_per_lot env underlying expiry pl lot | Some m \<Rightarrow> Some m) in
         if must_block (live_profile env st) (margin \<noteq> None) then (reject Dep_Basket_Margin, s1)
         else let (scale, s2) = vol_scale env s1
              in (size_structure_lots (structure_risk_request env cap ps max_loss lot sl conf underlying margin scale), s2))"

section \<open>What an accepted size was checked against\<close>

lemma max0_pos: "(0::real) < x \<Longrightarrow> x \<le> max 0 y \<Longrightarrow> x \<le> y"
  by (simp add: max_def split: if_splits)

lemma deployed_total_eq: "deployed_total ps = sum_list (map pos_value ps)"
  by (simp add: deployed_total_def deployed_total)

lemma risk_size_accepted:
  assumes "risk_size env entry stop ins sl conf sd st bk s = (r, s')" "\<not> rejected r"
  obtains cap s1 scale where "read_capital env st bk s = (cap, s1)" "entry_gate env sl st = None"
    "capital_gate env cap (scoped_positions env st bk) = None" "\<not> holds_instrument (scoped_positions env st bk) ins"
    "live_profile env st = ''live'' \<Longrightarrow> margin_per_unit_of env ins sd sl (instrument_lot ins) \<noteq> None"
    "vol_scale env s1 = (scale, s')"
    "r = size_position (risk_request env cap (scoped_positions env st bk) entry stop ins sl conf
           (margin_per_unit_of env ins sd sl (instrument_lot ins)) scale)"
proof -
  obtain cap s1 where c: "read_capital env st bk s = (cap, s1)" by fastforce
  obtain scale s2 where v: "vol_scale env s1 = (scale, s2)" by fastforce
  from assms show ?thesis unfolding risk_size_def Let_def c v
    by (intro that [OF c, of scale])
      (auto simp: v reject_def sizing_default_def split: option.splits if_splits prod.splits)
qed

lemma risk_size_structure_accepted:
  assumes "risk_size_structure env max_loss lot sl conf given underlying expiry pl st bk s = (r, s')" "\<not> rejected r"
  obtains cap s1 scale margin where "read_capital env st bk s = (cap, s1)" "entry_gate env sl st = None"
    "capital_gate env cap (scoped_positions env st bk) = None"
    "margin = (case given of None \<Rightarrow> structure_margin_per_lot env underlying expiry pl lot | Some m \<Rightarrow> Some m)"
    "live_profile env st = ''live'' \<Longrightarrow> margin \<noteq> None" "vol_scale env s1 = (scale, s')"
    "r = size_structure_lots (structure_risk_request env cap (scoped_positions env st bk) max_loss lot sl conf underlying margin scale)"
proof -
  obtain cap s1 where c: "read_capital env st bk s = (cap, s1)" by fastforce
  obtain scale s2 where v: "vol_scale env s1 = (scale, s2)" by fastforce
  from assms show ?thesis unfolding risk_size_structure_def Let_def c v
    by (intro that [OF c, of "case given of None \<Rightarrow> structure_margin_per_lot env underlying expiry pl lot | Some m \<Rightarrow> Some m" scale])
      (auto simp: v reject_def sizing_default_def split: option.splits if_splits prod.splits)
qed

lemma margin_per_unit_pos: "margin_per_unit_of env ins sd sl lot = Some m \<Longrightarrow> 0 < m"
  by (auto simp: margin_per_unit_of_def split: if_splits option.splits list.splits)

lemma structure_margin_pos: "structure_margin_per_lot env u x pl lot = Some m \<Longrightarrow> 0 < m"
  by (auto simp: structure_margin_per_lot_def split: if_splits option.splits list.splits)

lemma capital_gate_None:
  "capital_gate env cap ps = None \<Longrightarrow> 0 < cap \<and> int (open_trades_count ps) + 1 \<le> max_trades (re_cfg env)"
  by (auto simp: capital_gate_def split: if_splits)

text \<open>The size scalar only ever shrinks a position, and never below its floor.\<close>

lemma vix_scale_bounds:
  "vs_min_scale v = Some f \<Longrightarrow> 0 < f \<Longrightarrow> f \<le> 1 \<Longrightarrow> f \<le> vix_scale v vix \<and> vix_scale v vix \<le> 1"
  by (auto simp: vix_scale_def cfg_or_def Let_def split: option.splits)

end
