(* ===== verification/Orchestrator.thy ===== *)
theory Orchestrator
  imports Meta_Label Risk_Engine Executor_Facts
begin

text \<open>
  \<open>engine/orchestrator.py\<close> and \<open>llm/context.py\<close>: the decision chain from the pipeline's verdict to the
  executor. The context carries what the chain reads of it; the language model's reply and the id of
  the stored signal are arguments. The audit log, the stored rows and the published events are
  left out, they do not feed back. An exception of a stage leaves the chain with None, before any
  order is sent.
\<close>

section \<open>The language model layer\<close>

text \<open>The downsize of the reply is None when it is not a number, which raises.\<close>

datatype llm_reply = Llm_No_Provider | Llm_Raised | Llm_Empty | Llm_Data "bool option" "real option option" string

record verdict =
  v_veto :: bool
  v_downsize :: real
  v_reason :: string

definition neutral_verdict :: verdict where
  "neutral_verdict = \<lparr>v_veto = False, v_downsize = 1, v_reason = ''LLM unavailable''\<rparr>"

definition llm_assess :: "llm_reply \<Rightarrow> verdict" where
  "llm_assess r = (case r of
     Llm_Data veto (Some (Some d)) why \<Rightarrow> \<lparr>v_veto = get_default veto False, v_downsize = max 0 (min 1 d), v_reason = why\<rparr>
   | Llm_Data veto None why \<Rightarrow> \<lparr>v_veto = get_default veto False, v_downsize = max 0 (min 1 1), v_reason = why\<rparr>
   | _ \<Rightarrow> neutral_verdict)"

lemma llm_downsize_unit: "0 \<le> v_downsize (llm_assess r) \<and> v_downsize (llm_assess r) \<le> 1"
  by (auto simp: llm_assess_def neutral_verdict_def split: llm_reply.splits option.splits)

section \<open>The chain\<close>

record orch_cfg =
  oc_confidence :: confidence_model
  oc_labeler :: "labeler option"
  oc_cost_fraction :: "real option"

text \<open>What the chain reads of the market context and of the clock.\<close>

record orch_ctx =
  ox_ctx :: mkt_ctx
  ox_hour :: nat
  ox_weekday :: nat
  ox_expiry :: "int option"
  ox_lot :: int

datatype skip_reason =
    Sk_No_Pipeline | Sk_Gates "gate_reason option" | Sk_Low_Confidence real | Sk_Risk "reject_reason option"
  | Sk_Llm_Veto | Sk_Downsized | Sk_Cost_Edge

datatype orch_result =
    Or_Skip skip_reason
  | Or_Structure "struct_reject + struct_result" int
  | Or_Order decision exec_result

definition product_of :: "string \<Rightarrow> string" where
  "product_of = sleeve_product"

text \<open>Confidence: the weighted score of the gates, then the meta-labeler on a passing signal.\<close>

definition chain_confidence :: "orch_cfg \<Rightarrow> string \<Rightarrow> orch_ctx \<Rightarrow> pipeline_result \<Rightarrow> real" where
  "chain_confidence oc sl x r =
    (let c = conf_score (oc_confidence oc) (pr_gates r);
         f = signal_features sl (ox_ctx x) c (pr_gates r) (ox_hour x) (ox_weekday x) (pr_signal r)
     in case oc_labeler oc of
          None \<Rightarrow> c
        | Some l \<Rightarrow> if pr_pass r then py_round 4 (c * meta_assess l f) else c)"

text \<open>\<open>round\<close> of the sized lots; a downsize never goes below the one lot that was approved.\<close>

definition downsized_lots :: "int \<Rightarrow> real \<Rightarrow> int" where
  "downsized_lots n downsize = (if downsize < 1 then max 1 (round_half_even (of_int n * downsize)) else n)"

definition downsized_qty :: "int \<Rightarrow> int \<Rightarrow> real \<Rightarrow> int" where
  "downsized_qty nq lot downsize =
    (if downsize < 1 then
       (let scaled = of_int nq * downsize in if lot > 1 then \<lfloor>scaled / of_int lot\<rfloor> * lot else \<lfloor>scaled\<rfloor>)
     else nq)"

definition cost_edge_fails :: "orch_cfg \<Rightarrow> cost_model \<Rightarrow> string \<Rightarrow> instrument \<Rightarrow> int \<Rightarrow> signal \<Rightarrow> bool" where
  "cost_edge_fails oc cm sl ins nq s =
    (let frac = get_default (oc_cost_fraction oc) (15 / 100) in
     if frac = 0 \<or> si_target s = 0 then False
     else let seg = segment_key sl (in_type ins);
              trip = round_trip_cost cm seg nq (si_entry s) (si_target s);
              reward = \<bar>si_target s - si_entry s\<bar> * of_int nq
          in reward \<le> 0 \<or> trip > reward * frac)"

definition chain_decision :: "string \<Rightarrow> instrument \<Rightarrow> corr_id \<Rightarrow> int option \<Rightarrow> real \<Rightarrow> int \<Rightarrow> signal \<Rightarrow> decision" where
  "chain_decision sl ins corr sid conf nq s =
    \<lparr>d_corr = corr, d_sleeve = sl, d_instrument = ins, d_side = get_default (si_side s) SELL, d_qty = nq,
     d_order_type = ''MARKET'', d_entry = si_entry s, d_stop = si_stop s, d_target = si_target s,
     d_product = product_of sl, d_r = py_round 2 (of_int nq * \<bar>si_entry s - si_stop s\<bar>), d_confidence = conf, d_signal = sid\<rparr>"

text \<open>The part after sizing, for one instrument. A size larger than zero lots but below one lot after
  the downsize is skipped.\<close>

definition order_stage :: "orch_cfg \<Rightarrow> 'b senv \<Rightarrow> string \<Rightarrow> instrument \<Rightarrow> corr_id \<Rightarrow> int option \<Rightarrow> int option \<Rightarrow> real \<Rightarrow>
    signal \<Rightarrow> sizing_result \<Rightarrow> verdict \<Rightarrow> 'b sworld \<Rightarrow> orch_result \<times> 'b sworld" where
  "order_stage oc se sl ins corr sid force conf s sized v w =
    (let lot = (if lot_size sized = 0 then 1 else lot_size sized); nq = downsized_qty (quantity sized) lot (v_downsize v) in
     if v_downsize v < 1 \<and> nq < lot then (Or_Skip Sk_Downsized, w)
     else if cost_edge_fails oc (e_costs (se_env se)) sl ins nq s then (Or_Skip Sk_Cost_Edge, w)
     else let d = chain_decision sl ins corr sid conf nq s; (res, w') = execute (se_env se) d force w in (Or_Order d res, w'))"

definition structure_stage :: "'b senv \<Rightarrow> instrument \<Rightarrow> corr_id \<Rightarrow> int option \<Rightarrow> orch_ctx \<Rightarrow> structure_plan \<Rightarrow>
    sizing_result \<Rightarrow> verdict \<Rightarrow> 'b sworld \<Rightarrow> orch_result \<times> 'b sworld" where
  "structure_stage se ins corr sid x pl sized v w =
    (let n = downsized_lots (lots sized) (v_downsize v);
         (res, w') = execute_structure se (get_default (in_symbol ins) []) (ox_expiry x) pl n (ox_lot x) corr sid w
     in (Or_Structure res n, w'))"

text \<open>\<open>persist_signal\<close> stores every evaluated signal before anything is decided on it. The table's constraints
  \<open>ck_signals_side\<close> and \<open>ck_signals_confidence\<close> (\<open>migrations/sql/0022_data_integrity.sql\<close>) admit a missing
  side, BUY and SELL, and a confidence that is not negative; the side of a signal without a direction is
  the text NEUTRAL, here None. The insert of any other row raises.\<close>

definition persist_signal :: "real \<Rightarrow> pipeline_result \<Rightarrow> bool" where
  "persist_signal conf r \<longleftrightarrow> 0 \<le> conf \<and> (case pr_signal r of None \<Rightarrow> True | Some s \<Rightarrow> si_side s \<noteq> None)"

text \<open>The whole chain on the pipeline's result. A passing result without a signal, and an F&O signal
  without a structure, raise.\<close>

definition chain :: "orch_cfg \<Rightarrow> 'b senv \<Rightarrow> risk_env \<Rightarrow> string \<Rightarrow> instrument \<Rightarrow> orch_ctx \<Rightarrow> corr_id \<Rightarrow> int option \<Rightarrow> int option \<Rightarrow> llm_reply \<Rightarrow>
    pipeline_result \<Rightarrow> 'b sworld \<times> risk_state \<Rightarrow> orch_result option \<times> 'b sworld \<times> risk_state" where
  "chain oc se re sl ins x corr sid force reply r ws = (case ws of (w, rs) \<Rightarrow>
    (let conf = chain_confidence oc sl x r in
     if \<not> persist_signal conf r then (None, w, rs)
     else if \<not> pr_pass r then (Some (Or_Skip (Sk_Gates (pr_reason r))), w, rs)
     else if \<not> conf_passes (oc_confidence oc) conf then (Some (Or_Skip (Sk_Low_Confidence conf)), w, rs)
     else case pr_signal r of None \<Rightarrow> (None, w, rs) | Some s \<Rightarrow>
       let fno = (sl = ''fno'');
           (sized, rs') = (if fno
             then risk_size_structure re (get_default (sd_max_loss (si_detail s)) 0) (get_default (sd_lot (si_detail s)) 1) sl conf
                    None (in_symbol ins) (ox_expiry x) (sd_structure (si_detail s)) (w_config w) (w_book w) rs
             else risk_size re (si_entry s) (si_stop s) ins sl conf (get_default (si_side s) SELL) (w_config w) (w_book w) rs);
           v = llm_assess reply
       in if rejected sized then (Some (Or_Skip (Sk_Risk (reason sized))), w, rs')
          else if v_veto v then (Some (Or_Skip Sk_Llm_Veto), w, rs')
          else if fno then
            (case sd_structure (si_detail s) of None \<Rightarrow> (None, w, rs')
             | Some pl \<Rightarrow> (case structure_stage se ins corr sid x pl sized v w of (o1, w') \<Rightarrow> (Some o1, w', rs')))
          else (case order_stage oc se sl ins corr sid force conf s sized v w of (o1, w') \<Rightarrow> (Some o1, w', rs'))))"

text \<open>\<open>_evaluate\<close>: no pipeline for the sleeve skips, a pipeline that raises leaves the world alone.\<close>

definition orch_evaluate :: "orch_cfg \<Rightarrow> 'b senv \<Rightarrow> risk_env \<Rightarrow> (string \<Rightarrow> (instrument \<Rightarrow> mkt_ctx \<Rightarrow> pipeline_result option) option) \<Rightarrow>
    string \<Rightarrow> instrument \<Rightarrow> orch_ctx \<Rightarrow> corr_id \<Rightarrow> int option \<Rightarrow> int option \<Rightarrow> llm_reply \<Rightarrow>
    'b sworld \<times> risk_state \<Rightarrow> orch_result option \<times> 'b sworld \<times> risk_state" where
  "orch_evaluate oc se re pipes sl ins x corr sid force reply ws = (case pipes sl of
     None \<Rightarrow> (Some (Or_Skip Sk_No_Pipeline), ws)
   | Some pipe \<Rightarrow> (case pipe ins (ox_ctx x) of
       None \<Rightarrow> (None, ws)
     | Some r \<Rightarrow> chain oc se re sl ins x corr sid force reply r ws))"

text \<open>The pipelines the engine registers; a context of another class does not occur and raises.\<close>

definition engine_pipelines :: "(real \<Rightarrow> real) \<Rightarrow> int \<Rightarrow> intraday_params \<Rightarrow> swing_params \<Rightarrow> fno_params \<Rightarrow>
    string \<Rightarrow> (instrument \<Rightarrow> mkt_ctx \<Rightarrow> pipeline_result option) option" where
  "engine_pipelines erf today ip sp fp sl =
    (if sl = ''intraday_stocks'' then Some (\<lambda>ins c. case c of Cx_Intraday x _ _ \<Rightarrow> intraday_pipeline ip ins x | _ \<Rightarrow> None)
     else if sl = ''swing_stocks'' then Some (\<lambda>ins c. case c of Cx_Swing x \<Rightarrow> swing_evaluate sp ''swing_stocks'' ins x | _ \<Rightarrow> None)
     else if sl = ''fno'' then Some (\<lambda>ins c. case c of Cx_Fno x \<Rightarrow> fno_evaluate erf today fp ins x | _ \<Rightarrow> None)
     else if sl = ''mcx_commodities'' then Some (\<lambda>ins c. case c of Cx_Intraday x _ _ \<Rightarrow> mcx_intraday_pipeline ip ins x | _ \<Rightarrow> None)
     else None)"
end
