(* ===== verification/Risk_Limits.thy ===== *)
theory Risk_Limits
  imports Risk_Engine
begin

text \<open>
  What the risk engine guarantees, stated over the book a position is added to, and what its capital
  cache does when the mode changes. The demonstration values are an engine with a broker, one stock and
  one two-legged spread.
\<close>

section \<open>Demonstration values\<close>

definition demo_risk_env :: risk_env where
  "demo_risk_env = \<lparr>re_cfg = \<lparr>rc_overlay = None, rc_per_trade = 1, rc_portfolio_limit = 6, rc_instrument_cap = 20,
      rc_underlying_pct = Some 4, rc_min_utilization = None, rc_sleeves = [''intraday_stocks'' \<mapsto> 50, ''fno'' \<mapsto> 40],
      rc_vol = \<lparr>vs_enabled = True, vs_reference = Some 15, vs_min_scale = Some (4 / 10)\<rparr>, rc_max_lots = Some 3\<rparr>,
    re_broker = True, re_margins = (\<lambda>seg. Mg_Dict \<lparr>mg_net = Some 500000, mg_live_balance = None\<rparr>),
    re_order_margins = (\<lambda>os. Some [Some 50]), re_basket_margins = (\<lambda>os. Some (Some 30000)),
    re_options = [], re_vix = Some 20, re_clock = 1000, re_today = ''2026-01-01'', re_now = ''t''\<rparr>"

definition demo_reader :: capital_reader where
  "demo_reader = \<lparr>cr_static = Some 1000000, cr_compound = True, cr_provider = True, cr_cache = None\<rparr>"

definition demo_risk_state :: risk_state where
  "demo_risk_state = \<lparr>rs_reader = demo_reader, rs_vscale = 1, rs_vscale_ts = 0\<rparr>"

definition demo_stock :: instrument where
  "demo_stock = \<lparr>in_token = Some 42, in_symbol = Some ''INFY'', in_exchange = Some ''NSE'', in_lot = Some 1,
     in_type = Some ''EQ'', in_tick = None, in_expiry = None\<rparr>"

definition demo_spread :: structure_plan where
  "demo_spread = \<lparr>pl_type = ''debit_spread'', pl_legs = Vertical_Legs ''CE'' 100 110, pl_max_loss_per_lot = 250\<rparr>"

abbreviation paper_table :: config_state where
  "paper_table \<equiv> [''execution_mode'' \<mapsto> JStr PAPER]"

abbreviation live_table :: config_state where
  "live_table \<equiv> [''execution_mode'' \<mapsto> JStr LIVE]"

section \<open>The risk an accepted entry adds\<close>

lemma entry_open_r:
  assumes "risk_size env entry stop ins sl conf sd st bk s = (r, s')" "\<not> rejected r"
  shows "total_open_r (scoped_positions env st bk) + actual_risk r \<le> rc_portfolio_limit (re_cfg env) / 100 * fst (read_capital env st bk s)"
    and "actual_risk r = of_int (quantity r) * \<bar>entry - stop\<bar>" and "0 < quantity r"
    and "lot_size r = instrument_lot ins" and "1 < instrument_lot ins \<longrightarrow> instrument_lot ins dvd quantity r"
    and "instrument_lot ins \<le> quantity r"
proof -
  from assms obtain cap s1 scale margin where x: "read_capital env st bk s = (cap, s1)"
    and r: "r = size_position (risk_request env cap (scoped_positions env st bk) entry stop ins sl conf margin scale)"
    by (rule risk_size_accepted) blast
  let ?q = "risk_request env cap (scoped_positions env st bk) entry stop ins sl conf margin scale"
  have nr: "\<not> rejected (size_position ?q)" using assms(2) r by simp
  note acc = size_position_accepted [OF nr]
  have f: "feasible_position ?q (quantity r)" using size_position_feasible [OF nr] r by simp
  show "0 < quantity r" "actual_risk r = of_int (quantity r) * \<bar>entry - stop\<bar>" "instrument_lot ins \<le> quantity r"
    using acc(6,7) r by (simp_all add: risk_request_def risk_per_unit_def)
  show "1 < instrument_lot ins \<longrightarrow> instrument_lot ins dvd quantity r"
    using size_position_whole_lots [OF nr] r by (simp add: risk_request_def)
  show "lot_size r = instrument_lot ins"
    using nr unfolding r by (auto simp: size_position_def reject_def Let_def risk_request_def split: if_splits prod.splits)
  have risk: "0 < actual_risk r" using pos.risk_pos [OF nr] r by simp
  have "actual_risk r \<le> portfolio_remaining (re_cfg env) cap (scoped_positions env st bk)"
    using f acc(7) r by (simp add: feasible_position_def portfolio_remaining_def risk_request_def)
  then show "total_open_r (scoped_positions env st bk) + actual_risk r \<le> rc_portfolio_limit (re_cfg env) / 100 * fst (read_capital env st bk s)"
    using max0_pos [OF risk] x by (fastforce simp: portfolio_remaining_def)
qed

section \<open>Properties\<close>

text \<open>C5. An accepted entry keeps the portfolio inside its limits. With the position added, the open R
  of the active namespace stays within the portfolio limit, the number of trades within the maximum,
  the sleeve's deployment and the instrument's cost within their caps, the margin within the free
  capital; the kill switch is off, no brake holds, the instrument is not held already, and in the
  live profile the broker's margin was known.\<close>
theorem accepted_entry_keeps_the_limits:
  assumes "risk_size env entry stop ins sl conf sd st bk s = (r, s')" "\<not> rejected r"
  shows "let cap = fst (read_capital env st bk s); ps = scoped_positions env st bk; c = re_cfg env;
      margin = margin_per_unit_of env ins sd sl (instrument_lot ins) in
    0 < quantity r
    \<and> total_open_r ps + actual_risk r \<le> rc_portfolio_limit c / 100 * cap
    \<and> int (open_trades_count ps) + 1 \<le> max_trades c
    \<and> capital_allocated r \<le> rc_instrument_cap c / 100 * cap
    \<and> (\<forall>pct. rc_sleeves c sl = Some pct \<longrightarrow>
         sum_list (map pos_value (filter (\<lambda>p. position.sleeve p = Some sl) ps)) + capital_allocated r \<le> pct / 100 * cap)
    \<and> (\<forall>m. margin = Some m \<longrightarrow> sum_list (map pos_value ps) + of_int (quantity r) * m \<le> cap)
    \<and> (live_profile env st = ''live'' \<longrightarrow> margin \<noteq> None)
    \<and> (\<forall>p\<in>set ps. \<forall>t. in_token ins = Some t \<and> t \<noteq> 0 \<longrightarrow> instrument_token p \<noteq> Some t)
    \<and> \<not> state_flag ''kill_switch_active'' st \<and> active_brake (re_today env) sl st = None"
proof -
  let ?ps = "scoped_positions env st bk" and ?m = "margin_per_unit_of env ins sd sl (instrument_lot ins)"
  from assms obtain cap s1 scale where x: "read_capital env st bk s = (cap, s1)" "entry_gate env sl st = None"
    "capital_gate env cap ?ps = None" "\<not> holds_instrument ?ps ins"
    "live_profile env st = ''live'' \<Longrightarrow> ?m \<noteq> None"
    and r: "r = size_position (risk_request env cap ?ps entry stop ins sl conf ?m scale)"
    by (rule risk_size_accepted) blast
  let ?q = "risk_request env cap ?ps entry stop ins sl conf ?m scale"
  have nr: "\<not> rejected (size_position ?q)" using assms(2) r by simp
  note acc = size_position_accepted [OF nr]
  have f: "feasible_position ?q (quantity r)" using size_position_feasible [OF nr] r by simp
  have q: "0 < quantity r" using acc(6) r by simp
  have ca: "capital_allocated r = of_int (quantity r) * entry"
    using acc(8) r by (simp add: risk_request_def)
  have pr: "total_open_r ?ps + actual_risk r \<le> rc_portfolio_limit (re_cfg env) / 100 * cap"
    using entry_open_r(1) [OF assms] x(1) by simp
  have ic: "capital_allocated r \<le> rc_instrument_cap (re_cfg env) / 100 * cap"
    using f ca by (simp add: feasible_position_def risk_request_def)
  have cpos: "0 < capital_allocated r" using q acc(3) ca by (simp add: risk_request_def)
  have sc: "sum_list (map pos_value (filter (\<lambda>p. position.sleeve p = Some sl) ?ps)) + capital_allocated r \<le> pct / 100 * cap"
    if "rc_sleeves (re_cfg env) sl = Some pct" for pct
  proof -
    have "capital_allocated r \<le> max 0 (pct / 100 * cap - get_default (map_of (deployed_by_sleeve ?ps) (Some sl)) 0)"
      using f ca that by (simp add: feasible_position_def risk_request_def sleeve_remaining_def)
    from max0_pos [OF cpos this] show ?thesis by (simp add: deployed_lookup)
  qed
  have mg: "sum_list (map pos_value ?ps) + of_int (quantity r) * m \<le> cap" if "?m = Some m" for m
  proof -
    have m: "0 < m" using margin_per_unit_pos [OF that] .
    then have "of_int (quantity r) \<le> max 0 (cap - deployed_total ?ps) / m"
      using f that by (simp add: feasible_position_def risk_request_def)
    then have "of_int (quantity r) * m \<le> max 0 (cap - deployed_total ?ps)" using m by (simp add: pos_le_divide_eq)
    moreover have "0 < of_int (quantity r) * m" using q m by simp
    ultimately show ?thesis using max0_pos deployed_total_eq [of ?ps] by fastforce
  qed
  have h: "\<forall>p\<in>set ?ps. \<forall>t. in_token ins = Some t \<and> t \<noteq> 0 \<longrightarrow> instrument_token p \<noteq> Some t"
    using x(4) by (auto simp: holds_instrument_def list_ex_iff)
  have g: "\<not> state_flag ''kill_switch_active'' st \<and> active_brake (re_today env) sl st = None"
    using x(2) by (simp add: entry_gate_def split: if_splits)
  show ?thesis unfolding Let_def x(1) fst_conv
    using q pr capital_gate_None [OF x(3)] ic sc mg x(5) h g by blast
qed

lemma accepted_entry_keeps_the_limits_witness:
  "\<exists>q::int. 0 < q \<and> total_open_r (scoped_positions demo_risk_env paper_table empty_book) + of_int q * 2 \<le> 60000"
proof -
  obtain r s' where x: "risk_size demo_risk_env 100 98 demo_stock ''intraday_stocks'' 1 BUY paper_table empty_book demo_risk_state = (r, s')"
    by fastforce
  have "\<not> rejected (fst (risk_size demo_risk_env 100 98 demo_stock ''intraday_stocks'' 1 BUY paper_table empty_book demo_risk_state))
    \<and> actual_risk (fst (risk_size demo_risk_env 100 98 demo_stock ''intraday_stocks'' 1 BUY paper_table empty_book demo_risk_state))
        = of_int (quantity (fst (risk_size demo_risk_env 100 98 demo_stock ''intraday_stocks'' 1 BUY paper_table empty_book demo_risk_state))) * 2
    \<and> rc_portfolio_limit (re_cfg demo_risk_env) / 100 * fst (read_capital demo_risk_env paper_table empty_book demo_risk_state) = 60000"
    by code_simp
  then have nr: "\<not> rejected r" and a: "actual_risk r = of_int (quantity r) * 2"
    and c: "rc_portfolio_limit (re_cfg demo_risk_env) / 100 * fst (read_capital demo_risk_env paper_table empty_book demo_risk_state) = 60000"
    unfolding x by simp_all
  from accepted_entry_keeps_the_limits [OF x nr] show ?thesis
    unfolding Let_def c a by blast
qed

lemma structure_margin_fits:
  fixes env cap ps max_loss lot sl conf underlying margin scale
  defines "q \<equiv> structure_risk_request env cap ps max_loss lot sl conf underlying margin scale"
  assumes nr: "\<not> rejected (size_structure_lots q)" and mx: "margin = Some x" "0 < x"
  shows "sum_list (map pos_value ps) + of_int (lots (size_structure_lots q)) * x \<le> cap
      \<and> (\<forall>pct. rc_sleeves (re_cfg env) sl = Some pct \<longrightarrow>
           sum_list (map pos_value (filter (\<lambda>p. position.sleeve p = Some sl) ps))
             + of_int (lots (size_structure_lots q)) * x \<le> pct / 100 * cap)"
proof -
  let ?x = "of_int (lots (size_structure_lots q)) * x"
  define free where "free = (case sleeve_remaining (re_cfg env) sl cap ps of
                None \<Rightarrow> max 0 (cap - deployed_total ps) | Some rem \<Rightarrow> min (max 0 (cap - deployed_total ps)) rem)"
  have "s_margin_available q = Some free" "margin_per_lot q = Some x"
    using mx by (simp_all add: q_def structure_risk_request_def Let_def free_def)
  with structure_lots_within [OF nr] mx(2) have le: "?x \<le> max 0 free" by blast
  have p: "0 < ?x" using size_structure_accepted(5) [OF nr] mx(2) by simp
  from max0_pos [OF p le] have fr: "?x \<le> free" .
  have "free \<le> max 0 (cap - deployed_total ps)" by (simp add: free_def split: option.splits)
  from max0_pos [OF p order_trans [OF fr this]] have "?x \<le> cap - deployed_total ps" .
  moreover have "?x \<le> pct / 100 * cap - get_default (map_of (deployed_by_sleeve ps) (Some sl)) 0"
    if sc: "rc_sleeves (re_cfg env) sl = Some pct" for pct
  proof (rule max0_pos [OF p])
    show "?x \<le> max 0 (pct / 100 * cap - get_default (map_of (deployed_by_sleeve ps) (Some sl)) 0)"
      using fr sc by (simp add: free_def sleeve_remaining_def)
  qed
  ultimately show ?thesis by (force simp: deployed_total_eq deployed_lookup)
qed

text \<open>C10. An accepted structure keeps the portfolio inside its limits too: with its maximum loss added,
  the open R of the namespace and of its underlying stay within their limits, it takes one of the
  allowed trade slots, never more than the configured lots, and its margin fits the free capital and
  what is left of the sleeve; in the live profile the basket margin was known.\<close>
theorem accepted_structure_keeps_the_limits:
  assumes "risk_size_structure env max_loss lot sl conf given underlying expiry pl st bk s = (r, s')" "\<not> rejected r"
  shows "let cap = fst (read_capital env st bk s); ps = scoped_positions env st bk; c = re_cfg env;
      margin = (case given of None \<Rightarrow> structure_margin_per_lot env underlying expiry pl lot | Some m \<Rightarrow> Some m) in
    1 \<le> lots r \<and> quantity r = lots r * lot \<and> actual_risk r = of_int (lots r) * max_loss
    \<and> total_open_r ps + actual_risk r \<le> rc_portfolio_limit c / 100 * cap
    \<and> (\<forall>u pct. underlying = Some u \<longrightarrow> u \<noteq> [] \<longrightarrow> rc_underlying_pct c = Some pct \<longrightarrow> 0 < pct \<longrightarrow>
         open_r_by_underlying ps (Some u) + actual_risk r \<le> pct / 100 * cap)
    \<and> int (open_trades_count ps) + 1 \<le> max_trades c
    \<and> (\<forall>n. rc_max_lots c = Some n \<longrightarrow> 0 < n \<longrightarrow> lots r \<le> n)
    \<and> (\<forall>m. margin = Some m \<longrightarrow> 0 < m \<longrightarrow> sum_list (map pos_value ps) + of_int (lots r) * m \<le> cap
         \<and> (\<forall>pct. rc_sleeves c sl = Some pct \<longrightarrow>
              sum_list (map pos_value (filter (\<lambda>p. position.sleeve p = Some sl) ps)) + of_int (lots r) * m \<le> pct / 100 * cap))
    \<and> (live_profile env st = ''live'' \<longrightarrow> margin \<noteq> None)
    \<and> \<not> state_flag ''kill_switch_active'' st \<and> active_brake (re_today env) sl st = None"
proof -
  let ?ps = "scoped_positions env st bk"
  from assms obtain cap s1 scale margin where x: "read_capital env st bk s = (cap, s1)" "entry_gate env sl st = None"
    "capital_gate env cap ?ps = None"
    and m: "margin = (case given of None \<Rightarrow> structure_margin_per_lot env underlying expiry pl lot | Some m \<Rightarrow> Some m)"
    and lm: "live_profile env st = ''live'' \<Longrightarrow> margin \<noteq> None"
    and r: "r = size_structure_lots (structure_risk_request env cap ?ps max_loss lot sl conf underlying margin scale)"
    by (rule risk_size_structure_accepted) blast
  let ?q = "structure_risk_request env cap ?ps max_loss lot sl conf underlying margin scale"
  have nr: "\<not> rejected (size_structure_lots ?q)" using assms(2) r by simp
  note acc = size_structure_accepted [OF nr] and within = structure_lots_within [OF nr]
  have n: "1 \<le> lots r" "quantity r = lots r * lot" "actual_risk r = of_int (lots r) * max_loss" "0 < max_loss"
    using acc r by (simp_all add: structure_risk_request_def Let_def)
  have risk: "0 < actual_risk r" using n by simp
  have "actual_risk r \<le> max 0 (rc_portfolio_limit (re_cfg env) / 100 * cap - total_open_r ?ps)"
    using within r n(3) by (simp add: structure_risk_request_def Let_def portfolio_remaining_def)
  from max0_pos [OF risk this] have pr: "total_open_r ?ps + actual_risk r \<le> rc_portfolio_limit (re_cfg env) / 100 * cap"
    by simp
  have ur: "open_r_by_underlying ?ps (Some u) + actual_risk r \<le> pct / 100 * cap"
    if "underlying = Some u" "u \<noteq> []" "rc_underlying_pct (re_cfg env) = Some pct" "0 < pct" for u pct
  proof -
    have "underlying_remaining_r ?q = Some (max 0 (pct / 100 * cap - open_r_by_underlying ?ps (Some u)))"
      using that by (simp add: structure_risk_request_def Let_def)
    with within r n(3) have "actual_risk r \<le> max 0 (pct / 100 * cap - open_r_by_underlying ?ps (Some u))"
      by (simp add: structure_risk_request_def Let_def)
    from max0_pos [OF risk this] show ?thesis by simp
  qed
  have ml: "lots r \<le> k" if "rc_max_lots (re_cfg env) = Some k" "0 < k" for k
    using within r that by (simp add: structure_risk_request_def Let_def)
  have g: "\<not> state_flag ''kill_switch_active'' st \<and> active_brake (re_today env) sl st = None"
    using x(2) by (simp add: entry_gate_def split: if_splits)
  show ?thesis unfolding Let_def x(1) fst_conv
    m [symmetric]
    using n pr ur ml structure_margin_fits [OF nr, folded r] lm capital_gate_None [OF x(3)] g by blast
qed

lemma accepted_structure_keeps_the_limits_witness:
  "\<exists>n. 1 \<le> n \<and> n \<le> 3 \<and> total_open_r (scoped_positions demo_risk_env paper_table empty_book) + of_int n * 2500 \<le> 60000"
proof -
  obtain r s' where x: "risk_size_structure demo_risk_env 2500 50 ''fno'' 1 (Some 30000) (Some ''NIFTY'') (Some 30)
      (Some demo_spread) paper_table empty_book demo_risk_state = (r, s')" by fastforce
  have "\<not> rejected (fst (risk_size_structure demo_risk_env 2500 50 ''fno'' 1 (Some 30000) (Some ''NIFTY'') (Some 30)
      (Some demo_spread) paper_table empty_book demo_risk_state))
    \<and> rc_portfolio_limit (re_cfg demo_risk_env) / 100 * fst (read_capital demo_risk_env paper_table empty_book demo_risk_state) = 60000"
    by code_simp
  then have nr: "\<not> rejected r"
    and c: "rc_portfolio_limit (re_cfg demo_risk_env) / 100 * fst (read_capital demo_risk_env paper_table empty_book demo_risk_state) = 60000"
    unfolding x by simp_all
  have ml: "rc_max_lots (re_cfg demo_risk_env) = Some 3" by (simp add: demo_risk_env_def)
  note acc = accepted_structure_keeps_the_limits [OF x nr, unfolded Let_def c ml]
  then have "1 \<le> lots r" "actual_risk r = of_int (lots r) * 2500" by blast+
  moreover have "lots r \<le> 3" using acc by simp
  moreover have "total_open_r (scoped_positions demo_risk_env paper_table empty_book) + actual_risk r \<le> 60000" using acc by blast
  ultimately show ?thesis by (intro exI [of _ "lots r"]) simp
qed

section \<open>The capital cache and the mode\<close>

lemma get_capital_live:
  "cr_provider rd \<Longrightarrow> use_broker_capital (load_runtime_mode now st) \<Longrightarrow> refresh \<or> cr_cache rd = None \<Longrightarrow>
   fst (get_capital mg now refresh st bk rd) = segment_available (mg ''equity'') + segment_available (mg ''commodity'')"
  by (auto simp: get_capital_def Let_def split: option.splits)

text \<open>Paper capital survives a switch to live. A compounding reader that was asked once in paper
  mode answers every later question without a refresh, in live mode too, with that paper balance,
  whatever margins the broker reports; only a refresh reads the broker. Sizing never asks for a refresh.\<close>
theorem paper_capital_survives_going_live:
  assumes "cr_static rd = Some base" "cr_compound rd" "cr_provider rd"
    "\<not> use_broker_capital (load_runtime_mode now st)" "use_broker_capital (load_runtime_mode now' st')"
    "get_capital mg now refresh st bk rd = (c, rd')"
  shows "get_capital mg' now' False st' bk' rd' = (c, rd')
    \<and> fst (get_capital mg' now' True st' bk' rd') = segment_available (mg' ''equity'') + segment_available (mg' ''commodity'')
    \<and> (rs_reader s = rd' \<longrightarrow> re_now env = now' \<longrightarrow> fst (read_capital env st' bk' s) = c)"
proof -
  have rd': "cr_cache rd' = Some c" "cr_compound rd'" "cr_provider rd'"
    using assms by (auto simp: get_capital_def Let_def split: option.splits if_splits)
  have same: "get_capital mg'' now' False st' bk' rd' = (c, rd')" for mg''
    using rd' assms(5) by (simp add: get_capital_def Let_def)
  moreover have "fst (get_capital mg' now' True st' bk' rd') = segment_available (mg' ''equity'') + segment_available (mg' ''commodity'')"
    by (rule get_capital_live) (use rd' assms(5) in simp_all)
  moreover have "fst (read_capital env st' bk' s) = c" if "rs_reader s = rd'" "re_now env = now'"
    using same [of "re_margins env"] that by (simp add: read_capital_def)
  ultimately show ?thesis by blast
qed

lemma paper_capital_survives_going_live_witness:
  "fst (get_capital (\<lambda>seg. Mg_Raised) ''t'' False live_table empty_book
     (snd (get_capital (\<lambda>seg. Mg_Raised) ''t'' False paper_table empty_book demo_reader))) = 1000000"
proof -
  obtain c rd' where x: "get_capital (\<lambda>seg. Mg_Raised) ''t'' False paper_table empty_book demo_reader = (c, rd')" by fastforce
  have "fst (get_capital (\<lambda>seg. Mg_Raised) ''t'' False paper_table empty_book demo_reader) = 1000000" by code_simp
  then have c: "c = 1000000" using x by simp
  have "\<not> use_broker_capital (load_runtime_mode ''t'' paper_table)" "use_broker_capital (load_runtime_mode ''t'' live_table)"
    by code_simp+
  from paper_capital_survives_going_live [OF _ _ _ this x, of 1000000 "\<lambda>seg. Mg_Raised" empty_book] show ?thesis
    unfolding x c by (simp add: demo_reader_def)
qed

end
