(* ===== verification/Structures_Facts.thy ===== *)
theory Structures_Facts
  imports Structures
begin

text \<open>
  The lemmas of the option structures: the manager provides the token registry, opening is all or
  nothing, closing is total or postponed within its bound, and the risk computed from the fills
  bounds the payoff at expiry.
\<close>

section \<open>The manager is a token registry\<close>

definition smgr_inv :: "struct_mgr \<Rightarrow> bool" where
  "smgr_inv m \<longleftrightarrow> (\<forall>c g. map_of (by_corr m) c = Some g \<longrightarrow>
     sg_corr g = c \<and> (\<forall>t\<in>set (sg_tokens g). c \<in> get_default (s_by_token m t) {}))"

lemma fold_add_index:
  "get_default (foldl (add_index c) idx ts t) {} =
     (if t \<in> set ts then insert c (get_default (idx t) {}) else get_default (idx t) {})"
  by (induction ts arbitrary: idx) (auto simp: add_index_def get_default_def split: option.splits)

lemma fold_del_index:
  "get_default (foldl (del_index c) idx ts t) {} =
     (if t \<in> set ts then get_default (idx t) {} - {c} else get_default (idx t) {})"
  by (induction ts arbitrary: idx) (auto simp: del_index_def get_default_def split: option.splits)

lemma map_of_filter_key: "map_of (filter (\<lambda>(k, v). k \<noteq> c) xs) = (map_of xs)(c := None)"
  by (induction xs) (auto simp: fun_eq_iff)

lemma map_of_register [simp]: "map_of (by_corr (register g m)) = (map_of (by_corr m))(sg_corr g \<mapsto> g)"
  by (simp add: register_def)

lemma map_of_unregister [simp]: "map_of (by_corr (unregister c m)) = (map_of (by_corr m))(c := None)"
  by (auto simp: unregister_def map_of_filter_key fun_eq_iff split: option.split)

lemma register_inv: "smgr_inv m \<Longrightarrow> smgr_inv (register g m)"
  by (auto simp: smgr_inv_def register_def fold_add_index)

lemma unregister_inv: "smgr_inv m \<Longrightarrow> smgr_inv (unregister c m)"
  by (cases "map_of (by_corr m) c")
    (auto simp: smgr_inv_def unregister_def fold_del_index map_of_filter_key split: if_splits)

interpretation sm: token_registry register unregister "\<lambda>m. map_of (by_corr m)" s_for_token sg_corr
  "\<lambda>g. set (sg_tokens g)" smgr_inv
proof (unfold_locales, goal_cases)
  case (3 m g) then show ?case by (rule register_inv)
next
  case (4 m i) then show ?case by (rule unregister_inv)
next
  case (5 m i g t) then show ?case by (auto simp: smgr_inv_def s_for_token_def)
qed simp_all

section \<open>Closing legs\<close>

definition not_open :: "pid \<Rightarrow> book \<Rightarrow> bool" where
  "not_open i b \<longleftrightarrow> (\<forall>r. find_row i b = Some r \<longrightarrow> pos_status r \<noteq> Open)"

lemma close_effect:
  assumes "close env i why price fb w = (p, w')"
  shows "not_open i (w_book w')" "j \<noteq> i \<Longrightarrow> find_row j (w_book w') = find_row j (w_book w)"
    "w_config w' = w_config w" "find_row i (w_book w) = None \<Longrightarrow> find_row i (w_book w') = None"
proof -
  have "not_open i (w_book w') \<and> (j \<noteq> i \<longrightarrow> find_row j (w_book w') = find_row j (w_book w)) \<and> w_config w' = w_config w
    \<and> (find_row i (w_book w) = None \<longrightarrow> find_row i (w_book w') = None)"
  proof (cases "\<exists>r. find_row i (w_book w) = Some r \<and> pos_status r = Open")
    case False
    then have "close env i why price fb w = (None, w)" by (intro close_not_open) auto
    with assms False show ?thesis by (auto simp: not_open_def)
  next
    case True
    then obtain r where r: "find_row i (w_book w) = Some r" "pos_status r = Open" by blast
    from close_open_cases [OF r assms] r show ?thesis
      by (cases p) (auto simp: not_open_def parked_def closed_as_def others_kept_def)
  qed
  then show "not_open i (w_book w')" "j \<noteq> i \<Longrightarrow> find_row j (w_book w') = find_row j (w_book w)"
    "w_config w' = w_config w" "find_row i (w_book w) = None \<Longrightarrow> find_row i (w_book w') = None" by blast+
qed

lemma not_open_cong: "find_row i b' = find_row i b \<Longrightarrow> not_open i b' = not_open i b"
  by (simp add: not_open_def)

lemma close_legs_effect:
  "close_legs env why px marks ls acc w = (t, w') \<Longrightarrow>
   (\<forall>l\<in>set ls. not_open (lg_pid l) (w_book w'))
   \<and> (\<forall>i. i \<notin> lg_pid ` set ls \<longrightarrow> find_row i (w_book w') = find_row i (w_book w))
   \<and> (\<forall>i. not_open i (w_book w) \<longrightarrow> not_open i (w_book w')) \<and> w_config w' = w_config w"
proof (induction ls arbitrary: acc w)
  case (Cons l ls)
  obtain r w1 where c: "close env (lg_pid l) why (px (lg_token l)) (marks (lg_token l)) w = (r, w1)" by fastforce
  with Cons.prems have "close_legs env why px marks ls (acc + get_default r 0) w1 = (t, w')" by simp
  note ih = Cons.IH [OF this] and ef = close_effect [OF c]
  have k: "not_open i (w_book w) \<Longrightarrow> not_open i (w_book w1)" for i
    using ef(1) ef(2) [of i] by (cases "i = lg_pid l") (auto simp: not_open_def)
  show ?case using ih ef k by auto
qed auto

lemma close_structs [simp]: "w_structs (snd (close env i why price fb (w :: 'b sworld))) = w_structs w"
proof -
  have l: "w_structs (snd (do_live_exit env i r why (u :: 'b sworld))) = w_structs u" for r u
    by (simp add: do_live_exit_def split: option.split prod.split)
  have c: "w_structs (cancel_bracket env r (u :: 'b sworld)) = w_structs u" for r u
    by (simp add: cancel_bracket_def split: option.split)
  have cl: "w_structs (snd (close_live env i r why (u :: 'b sworld))) = w_structs u" for r u
    by (simp add: close_live_def Let_def l c split: prod.split option.split)
  have cs: "w_structs (snd (close_sim env i r why price fb (u :: 'b sworld))) = w_structs u" for r u
    by (simp add: close_sim_def Let_def split_def)
  have rc: "w_structs (reentry_cooldown env r (u :: 'b sworld)) = w_structs u" for r u
    by (simp add: reentry_cooldown_def set_cooldown_def split: option.split)
  show ?thesis by (simp add: close_def split_def rc cl cs split: option.split)
qed

lemma close_legs_structs [simp]:
  "w_structs (snd (close_legs env why px marks ls acc (w :: 'b sworld))) = w_structs w"
proof (induction ls arbitrary: acc w)
  case (Cons l ls)
  obtain r w1 where c: "close env (lg_pid l) why (px (lg_token l)) (marks (lg_token l)) w = (r, w1)" by fastforce
  with close_structs [of env "lg_pid l" why "px (lg_token l)" "marks (lg_token l)" w] have "w_structs w1 = w_structs w"
    by simp
  with c Cons.IH show ?case by simp
qed simp

section \<open>Opening is all or nothing\<close>

text \<open>The legs opened since book \<open>b0\<close>, and nothing else, are new.\<close>

definition leg_row_ok :: "leg \<Rightarrow> book \<Rightarrow> bool" where
  "leg_row_ok l b \<longleftrightarrow> (\<exists>r. find_row (lg_pid l) b = Some r \<and> pos_status r = Open \<and> qty r = Some (lg_qty l)
     \<and> average_price r = Some (lg_entry l) \<and> side r = lg_side l \<and> mode r = PAPER)"

definition legs_inv :: "book \<Rightarrow> leg list \<Rightarrow> book \<Rightarrow> bool" where
  "legs_inv b0 legs b \<longleftrightarrow> book_ok b \<and> next_id b0 \<le> next_id b
     \<and> (\<forall>i < next_id b0. find_row i b = find_row i b0)
     \<and> (\<forall>i \<ge> next_id b0. find_row i b \<noteq> None \<longrightarrow> i \<in> lg_pid ` set legs)
     \<and> (\<forall>l \<in> set legs. next_id b0 \<le> lg_pid l \<and> lg_pid l < next_id b \<and> leg_row_ok l b)
     \<and> distinct (map lg_pid legs)"

lemma find_row_below: "book_ok b \<Longrightarrow> find_row i b = Some r \<Longrightarrow> i < next_id b"
  using find_row_Some [of i b r] by (auto simp: book_ok_def)

lemma find_row_above: "book_ok b \<Longrightarrow> next_id b \<le> i \<Longrightarrow> find_row i b = None"
  using find_row_below [of b i] by (cases "find_row i b") auto

lemma legs_inv_start: "book_ok b \<Longrightarrow> legs_inv b [] b"
  by (simp add: legs_inv_def find_row_above)

lemma legs_inv_unwind:
  assumes "legs_inv b0 legs (w_book w)" "close_legs env why px marks legs acc w = (t, w')"
  shows "(\<forall>i < next_id b0. find_row i (w_book w') = find_row i b0) \<and> (\<forall>i \<ge> next_id b0. not_open i (w_book w'))
    \<and> w_config w' = w_config w"
proof -
  note e = close_legs_effect [OF assms(2)]
  have "i \<notin> lg_pid ` set legs" if "i < next_id b0" for i
    using assms(1) that by (force simp: legs_inv_def)
  moreover have "not_open i (w_book w)" if "i \<ge> next_id b0" "i \<notin> lg_pid ` set legs" for i
    using assms(1) that by (auto simp: legs_inv_def not_open_def)
  moreover have "not_open i (w_book w')" if "i \<in> lg_pid ` set legs" for i using e that by auto
  ultimately show ?thesis using e assms(1) by (auto simp: legs_inv_def) blast
qed

lemma legs_inv_step:
  assumes inv: "legs_inv b0 legs b" and op: "open_position acct d f PAPER b = (i, b')"
    and l: "lg_pid l = i" "lg_qty l = f_qty f" "lg_entry l = f_price f" "lg_side l = d_side d"
  shows "legs_inv b0 (legs @ [l]) b'"
proof -
  have ok: "book_ok b" using inv by (simp add: legs_inv_def)
  have i: "i = next_id b" using op open_position_fst by (metis fst_conv)
  have ok': "book_ok b'" using open_position_ok [OF ok, of acct d f PAPER] op by simp
  have nx: "next_id b' = next_id b + 1" using op by (auto simp: open_position_def Let_def)
  have row: "leg_row_ok l b'"
    using open_position_find [OF ok, of acct d f PAPER] op l by (auto simp: leg_row_ok_def)
  have oth: "find_row j b' = find_row j b" if "j \<noteq> i" for j
    using open_position_find_other [of j b acct d f PAPER] op that i by simp
  have old: "leg_row_ok k b'" if "k \<in> set legs" for k
  proof -
    have "lg_pid k \<noteq> i" "leg_row_ok k b" using inv that i by (auto simp: legs_inv_def)
    then show ?thesis using oth [of "lg_pid k"] by (simp add: leg_row_ok_def)
  qed
  show ?thesis unfolding legs_inv_def
  proof (intro conjI allI impI ballI)
    show "book_ok b'" by (rule ok')
    show "next_id b0 \<le> next_id b'" using inv nx by (simp add: legs_inv_def)
    show "find_row j b' = find_row j b0" if "j < next_id b0" for j
      using inv that oth [of j] i by (simp add: legs_inv_def)
    show "j \<in> lg_pid ` set (legs @ [l])" if "next_id b0 \<le> j" "find_row j b' \<noteq> None" for j
      using inv that oth [of j] l(1) by (cases "j = i") (auto simp: legs_inv_def)
    show "next_id b0 \<le> lg_pid k" if "k \<in> set (legs @ [l])" for k
      using inv that l(1) i by (auto simp: legs_inv_def)
    show "lg_pid k < next_id b'" if "k \<in> set (legs @ [l])" for k
      using inv that l(1) i nx by (force simp: legs_inv_def)
    show "leg_row_ok k b'" if "k \<in> set (legs @ [l])" for k
      using that row old by auto
    show "distinct (map lg_pid (legs @ [l]))"
      using inv l(1) i by (auto simp: legs_inv_def)
  qed
qed

lemma simulate_qty: "simulate cm slip reply d None = Some f \<Longrightarrow> f_qty f = d_qty d"
  by (auto simp: simulate_def Let_def py_or_def split: option.splits if_splits)

lemma open_legs_effect:
  "legs_inv b0 legs (w_book w) \<Longrightarrow>
   open_legs se nm expiry corr q lot signal specs legs fees w = (res, w') \<Longrightarrow>
   (case res of
      Inl why \<Rightarrow> (\<forall>i < next_id b0. find_row i (w_book w') = find_row i b0) \<and> (\<forall>i \<ge> next_id b0. not_open i (w_book w'))
    | Inr (ls, fs) \<Rightarrow> legs_inv b0 ls (w_book w') \<and> map lg_side ls = map lg_side legs @ map (snd \<circ> snd) specs
        \<and> (\<forall>l\<in>set ls. l \<in> set legs \<or> lg_qty l = q))
   \<and> w_config w' = w_config w"
proof (induction specs arbitrary: legs fees w)
  case Nil
  then show ?case by auto
next
  case (Cons spec specs)
  obtain opt strike sd where spec: "spec = (opt, strike, sd)" by (metis prod_cases3)
  show ?case
  proof (cases "resolve_option (se_options se) nm expiry strike opt")
    case None
    obtain t w1 where c: "close_legs (se_env se) ''structure_leg_unresolved'' Map.empty Map.empty legs 0 w = (t, w1)"
      by fastforce
    with Cons.prems(2) spec None have "res = Inl (Leg_Unresolved opt strike)" "w' = w1" by auto
    with legs_inv_unwind [OF Cons.prems(1) c] show ?thesis by simp
  next
    case (Some oi)
    define d where "d = leg_decision corr oi opt sd q lot signal"
    obtain reply b' where qo: "quote_one (se_env se) (Some ''NFO'', Some (op_symbol oi)) (w_broker w) = (reply, b')"
      by fastforce
    define w1 where "w1 = w\<lparr>w_broker := b'\<rparr>"
    have inv1: "legs_inv b0 legs (w_book w1)" using Cons.prems(1) by (simp add: w1_def)
    show ?thesis
    proof (cases "simulate (e_costs (se_env se)) (e_slip (se_env se)) reply d None")
      case None
      obtain t w2 where c: "close_legs (se_env se) ''structure_leg_no_quote'' Map.empty Map.empty legs 0 w1 = (t, w2)"
        by fastforce
      with Cons.prems(2) spec Some None qo have "res = Inl (Leg_No_Quote (op_symbol oi))" "w' = w2"
        by (auto simp: Let_def d_def w1_def)
      with legs_inv_unwind [OF inv1 c] show ?thesis by (simp add: w1_def)
    next
      case (Some f)
      obtain i bk where op: "open_position None d f PAPER (w_book w1) = (i, bk)" by fastforce
      define l where "l = \<lparr>lg_pid = i, lg_token = op_token oi, lg_symbol = Some (op_symbol oi), lg_side = sd,
          lg_qty = q, lg_entry = f_price f, lg_fees = fee_total (f_fees f)\<rparr>"
      have inv2: "legs_inv b0 (legs @ [l]) bk"
        by (rule legs_inv_step [OF inv1 op])
          (use simulate_qty [OF Some] in \<open>simp_all add: l_def d_def leg_decision_def\<close>)
      have "open_legs se nm expiry corr q lot signal specs (legs @ [l]) (fees + fee_total (f_fees f)) (w1\<lparr>w_book := bk\<rparr>) = (res, w')"
        using Cons.prems(2) spec \<open>resolve_option _ _ _ _ _ = Some oi\<close> Some qo op
        by (simp add: Let_def d_def [symmetric] w1_def [symmetric] l_def)
      from Cons.IH [OF _ this] inv2 have ih: "(case res of
          Inl why \<Rightarrow> (\<forall>i < next_id b0. find_row i (w_book w') = find_row i b0) \<and> (\<forall>i \<ge> next_id b0. not_open i (w_book w'))
        | Inr (ls, fs) \<Rightarrow> legs_inv b0 ls (w_book w') \<and> map lg_side ls = map lg_side (legs @ [l]) @ map (snd \<circ> snd) specs
            \<and> (\<forall>k\<in>set ls. k \<in> set (legs @ [l]) \<or> lg_qty k = q)) \<and> w_config w' = w_config w"
        by (simp add: w1_def)
      show ?thesis
      proof (cases res)
        case (Inl a) with ih show ?thesis by simp
      next
        case (Inr p)
        with ih spec show ?thesis by (cases p) (auto simp: l_def)
      qed
    qed
  qed
qed

lemma open_legs_structs [simp]:
  "w_structs (snd (open_legs se nm expiry corr q lot signal specs legs fees (w :: 'b sworld))) = w_structs w"
proof (induction specs arbitrary: legs fees w)
  case (Cons spec specs)
  obtain opt strike sd where spec: "spec = (opt, strike, sd)" by (metis prod_cases3)
  show ?case
  proof (cases "resolve_option (se_options se) nm expiry strike opt")
    case None with spec show ?thesis by simp
  next
    case (Some oi)
    obtain reply b' where qo: "quote_one (se_env se) (Some ''NFO'', Some (op_symbol oi)) (w_broker w) = (reply, b')"
      by fastforce
    show ?thesis
    proof (cases "simulate (e_costs (se_env se)) (e_slip (se_env se)) reply (leg_decision corr oi opt sd q lot signal) None")
      case None with spec Some qo show ?thesis by (simp add: Let_def)
    next
      case (Some f)
      obtain i bk where op: "open_position None (leg_decision corr oi opt sd q lot signal) f PAPER (w_book w) = (i, bk)"
        by fastforce
      show ?thesis
        using spec \<open>resolve_option _ _ _ _ _ = Some oi\<close> qo Some op Cons.IH [where w = "w\<lparr>w_broker := b', w_book := bk\<rparr>"]
        by (simp add: Let_def)
    qed
  qed
qed simp

lemma find_row_write_meta:
  "find_row i (write_meta ids r m b) = map_option (\<lambda>row. if i \<in> set ids
     then row\<lparr>pos_r := Some r, b_raw := (b_raw row)\<lparr>rw_meta := Some m\<rparr>\<rparr> else row) (find_row i b)"
proof -
  have "find (\<lambda>x. pos_id x = i) (map (\<lambda>row. if pos_id row \<in> set ids then row\<lparr>pos_r := Some r, b_raw := (b_raw row)\<lparr>rw_meta := Some m\<rparr>\<rparr> else row) rs)
    = map_option (\<lambda>row. if i \<in> set ids then row\<lparr>pos_r := Some r, b_raw := (b_raw row)\<lparr>rw_meta := Some m\<rparr>\<rparr> else row)
        (find (\<lambda>x. pos_id x = i) rs)" for rs
    by (induction rs) auto
  then show ?thesis by (simp add: find_row_def write_meta_def)
qed

lemma leg_row_ok_write_meta: "leg_row_ok l b \<Longrightarrow> leg_row_ok l (write_meta ids r m b)"
  unfolding leg_row_ok_def find_row_write_meta by (elim exE conjE) simp

text \<open>What an opened structure looks like: its guard, its legs, and the R on each leg.\<close>

definition opened_ok :: "'b senv \<Rightarrow> structure_plan \<Rightarrow> int \<Rightarrow> int \<Rightarrow> corr_id \<Rightarrow> book \<Rightarrow> struct_result \<Rightarrow> 'b sworld \<Rightarrow> struct_guard \<Rightarrow> bool" where
  "opened_ok se pl n_lots lot corr b0 sr w' g \<longleftrightarrow>
     map_of (by_corr (w_structs w')) corr = Some g
     \<and> sr_ids sr = map lg_pid (sg_legs g) \<and> distinct (sr_ids sr)
     \<and> map lg_side (sg_legs g) = map (snd \<circ> snd) (legs_from_structure pl)
     \<and> (\<forall>l\<in>set (sg_legs g). next_id b0 \<le> lg_pid l \<and> leg_row_ok l (w_book w') \<and> lg_qty l = n_lots * lot
          \<and> (\<exists>row. find_row (lg_pid l) (w_book w') = Some row
               \<and> pos_r row = Some (py_round 2 (sg_max_loss g / of_nat (max 1 (length (sg_legs g)))))))
     \<and> (\<forall>i \<ge> next_id b0. find_row i (w_book w') \<noteq> None \<longrightarrow> i \<in> set (sr_ids sr))
     \<and> (\<exists>net. fill_based_risk pl (sg_legs g) = (net, sg_max_loss g, sg_max_profit g))
     \<and> (0 < pl_max_loss_per_lot pl * of_int n_lots \<longrightarrow>
          sg_max_loss g \<le> pl_max_loss_per_lot pl * of_int n_lots * cfg_or (ex_fill_overrun (se_exits se)) (125 / 100) (125 / 100))"

lemma open_structure_effect:
  assumes "book_ok (w_book w)" "open_structure se nm expiry pl n_lots lot corr signal w = (res, w')"
  shows "(\<forall>i < next_id (w_book w). find_row i (w_book w') = find_row i (w_book w)) \<and> w_config w' = w_config w
    \<and> (case res of
         Inl why \<Rightarrow> (\<forall>i \<ge> next_id (w_book w). not_open i (w_book w')) \<and> w_structs w' = w_structs w
       | Inr sr \<Rightarrow> (\<exists>g. opened_ok se pl n_lots lot corr (w_book w) sr w' g))"
proof -
  let ?b0 = "w_book w"
  obtain r1 w1 where ol: "open_legs se nm expiry corr (n_lots * lot) lot signal (legs_from_structure pl) [] 0 w = (r1, w1)"
    by fastforce
  note ef = open_legs_effect [OF legs_inv_start [OF assms(1)] ol]
  have st1: "w_structs w1 = w_structs w"
    using open_legs_structs [of se nm expiry corr "n_lots * lot" lot signal "legs_from_structure pl" "[]" 0 w] ol by simp
  show ?thesis
  proof (cases r1)
    case (Inl why)
    with assms(2) ol have "res = Inl why" "w' = w1" by (auto simp: open_structure_def)
    with ef Inl st1 show ?thesis by simp
  next
    case (Inr p)
    obtain legs fees where p: "p = (legs, fees)" by fastforce
    have inv: "legs_inv ?b0 legs (w_book w1)" and sides: "map lg_side legs = map (snd \<circ> snd) (legs_from_structure pl)"
      and q: "\<forall>l\<in>set legs. lg_qty l = n_lots * lot" and c1: "w_config w1 = w_config w"
      using ef Inr p by auto
    obtain net ml mp where risk: "fill_based_risk pl legs = (net, ml, mp)" by (metis prod_cases3)
    let ?m = "pl_max_loss_per_lot pl * of_int n_lots"
    let ?o = "cfg_or (ex_fill_overrun (se_exits se)) (125 / 100) (125 / 100)"
    show ?thesis
    proof (cases "?m > 0 \<and> ml > ?m * ?o")
      case True
      obtain t w2 where cl: "close_legs (se_env se) ''fill_risk_overrun'' Map.empty Map.empty legs 0 w1 = (t, w2)" by fastforce
      with assms(2) ol Inr p risk True have "res = Inl (Fill_Risk_Overrun ml ?m)" "w' = w2"
        by (simp_all add: open_structure_def Let_def)
      moreover have "w_structs w2 = w_structs w1"
        using close_legs_structs [of "se_env se" "''fill_risk_overrun''" Map.empty Map.empty legs 0 w1] cl by simp
      ultimately show ?thesis using legs_inv_unwind [OF inv cl] st1 c1 by simp
    next
      case False
      define g where "g = \<lparr>sg_corr = corr, sg_name = nm, sg_type = pl_type pl, sg_legs = legs, sg_max_loss = ml,
            sg_max_profit = mp, sg_entry_fees = fees,
            sg_target_fraction = cfg_or (ex_target_fraction (se_exits se)) (1 / 2) (1 / 2),
            sg_stop_fraction = cfg_or (ex_stop_fraction (se_exits se)) (1 / 2) (1 / 2),
            sg_expiry = expiry, sg_opened_on = Some (e_today (se_env se)), sg_retries = 0\<rparr>"
      define meta where "meta = \<lparr>sm_name = nm, sm_type = pl_type pl, sm_max_loss = py_round 2 ml,
            sm_max_profit = py_round 2 mp, sm_entry_fees = py_round 2 fees,
            sm_target_fraction = sg_target_fraction g, sm_stop_fraction = sg_stop_fraction g,
            sm_expiry = expiry, sm_opened_on = sg_opened_on g\<rparr>"
      define rl where "rl = py_round 2 (ml / of_nat (max 1 (length legs)))"
      have w': "w' = w1\<lparr>w_book := write_meta (map lg_pid legs) rl meta (w_book w1), w_structs := register g (w_structs w1)\<rparr>"
        and res: "res = Inr \<lparr>sr_legs = length legs, sr_net = py_round 2 net, sr_max_loss = py_round 2 ml,
              sr_max_profit = py_round 2 mp, sr_ids = map lg_pid legs\<rparr>"
        using assms(2) ol Inr p risk False unfolding open_structure_def Let_def g_def meta_def rl_def
        by (auto simp del: times_divide_eq_left)
      have low: "find_row i (w_book w') = find_row i ?b0" if "i < next_id ?b0" for i
      proof -
        have "i \<notin> set (map lg_pid legs)" using inv that by (force simp: legs_inv_def)
        then show ?thesis using inv that unfolding w'
          by (auto simp: legs_inv_def find_row_write_meta option.map_ident)
      qed
      have row: "leg_row_ok l (w_book w') \<and> (\<exists>row. find_row (lg_pid l) (w_book w') = Some row \<and> pos_r row = Some rl)"
        if "l \<in> set legs" for l
      proof -
        have "leg_row_ok l (w_book w1)" using inv that by (simp add: legs_inv_def)
        then show ?thesis using that leg_row_ok_write_meta [of l "w_book w1"] unfolding w'
          by (auto simp: leg_row_ok_def find_row_write_meta)
      qed
      have "opened_ok se pl n_lots lot corr ?b0 \<lparr>sr_legs = length legs, sr_net = py_round 2 net, sr_max_loss = py_round 2 ml,
              sr_max_profit = py_round 2 mp, sr_ids = map lg_pid legs\<rparr> w' g"
        unfolding opened_ok_def
        using inv sides q risk False row
        by (auto simp: g_def rl_def w' legs_inv_def find_row_write_meta)
      with res low w' c1 show ?thesis by auto
    qed
  qed
qed

section \<open>Closing is total or postponed within its bound\<close>

lemma set_cooldown_fields [simp]:
  "w_book (set_cooldown k m w) = w_book w" "w_config (set_cooldown k m w) = w_config w"
  by (simp_all add: set_cooldown_def)

lemma set_cooldown_structs [simp]: "w_structs (set_cooldown k m (w :: 'b sworld)) = w_structs w"
  by (simp add: set_cooldown_def)

lemma cross_legs_effect:
  assumes "cross_legs se g why px marks w = (r, w')"
  shows "(\<forall>l\<in>set (sg_legs g). not_open (lg_pid l) (w_book w'))
    \<and> (\<forall>i. i \<notin> lg_pid ` set (sg_legs g) \<longrightarrow> find_row i (w_book w') = find_row i (w_book w))
    \<and> w_config w' = w_config w \<and> map_of (by_corr (w_structs w')) = (map_of (by_corr (w_structs w)))(sg_corr g := None)"
proof -
  obtain t w1 where c: "close_legs (se_env se) why px marks (sg_legs g) 0 w = (t, w1)" by fastforce
  have st: "w_structs w1 = w_structs w"
    using close_legs_structs [of "se_env se" why px marks "sg_legs g" 0 w] c by simp
  from c assms st close_legs_effect [OF c] show ?thesis
    by (auto simp: cross_legs_def Let_def split: if_splits)
qed

lemma map_of_set_guard:
  "map_of (by_corr (set_guard g m)) = (case map_of (by_corr m) (sg_corr g) of
     None \<Rightarrow> map_of (by_corr m) | Some _ \<Rightarrow> (map_of (by_corr m))(sg_corr g \<mapsto> g))"
  by (simp add: set_guard_def split: option.split)

lemma close_structure_effect:
  assumes "close_structure se g why prices force w = (r, w')"
  shows "w_config w' = w_config w \<and> (case r of
      None \<Rightarrow> \<not> force \<and> w_book w' = w_book w \<and> sg_retries g + 1 \<le> cfg_or (ex_max_retries (se_exits se)) 5 0
        \<and> w_structs w' = set_guard (g\<lparr>sg_retries := sg_retries g + 1\<rparr>) (w_structs w)
    | Some _ \<Rightarrow> (\<forall>l\<in>set (sg_legs g). not_open (lg_pid l) (w_book w'))
        \<and> (\<forall>i. i \<notin> lg_pid ` set (sg_legs g) \<longrightarrow> find_row i (w_book w') = find_row i (w_book w))
        \<and> map_of (by_corr (w_structs w')) (sg_corr g) = None)"
proof -
  define marks where "marks = get_default prices Map.empty"
  define mr where "mr = cfg_or (ex_max_retries (se_exits se)) 5 0"
  define g' where "g' = g\<lparr>sg_retries := sg_retries g + 1\<rparr>"
  obtain e b' where eb: "exit_book se g (w_broker w) = (e, b')" by fastforce
  define w1 where "w1 = w\<lparr>w_broker := b', w_structs := set_guard g' (w_structs w)\<rparr>"
  note d = assms [unfolded close_structure_def Let_def, folded marks_def mr_def, unfolded eb]
  consider (forced) "\<not> (\<not> force \<and> cfg_or (ex_max_spread (se_exits se)) 8 0 > 0)"
    | (sane) px where "\<not> force" "cfg_or (ex_max_spread (se_exits se)) 8 0 > 0" "e = Some px"
    | (bad) "\<not> force" "cfg_or (ex_max_spread (se_exits se)) 8 0 > 0" "e = None"
    by (cases e) auto
  then show ?thesis
  proof cases
    case forced
    obtain t w2 where c: "cross_legs se g why marks marks w = (t, w2)" by fastforce
    with d forced have "r = Some t" "w' = w2" by auto
    with cross_legs_effect [OF c] show ?thesis by simp
  next
    case sane
    obtain t w2 where c: "cross_legs se g why px marks (w\<lparr>w_broker := b'\<rparr>) = (t, w2)" by fastforce
    with d sane have "r = Some t" "w' = w2" by auto
    with cross_legs_effect [OF c] show ?thesis by simp
  next
    case bad
    show ?thesis
    proof (cases "sg_retries g + 1 \<le> mr")
      case True
      with d bad have "r = None" "w' = w1" by (auto simp: w1_def g'_def)
      with bad True show ?thesis by (simp add: mr_def w1_def g'_def)
    next
      case False
      obtain t w2 where c: "cross_legs se g' why marks marks w1 = (t, w2)" by fastforce
      with d bad False have "r = Some t" "w' = w2" by (auto simp: w1_def g'_def)
      with cross_legs_effect [OF c] show ?thesis by (simp add: g'_def w1_def)
    qed
  qed
qed

text \<open>The caller's retry: one attempt per cycle on the guard that is registered.\<close>

fun retry_close :: "'b senv \<Rightarrow> corr_id \<Rightarrow> string \<Rightarrow> nat \<Rightarrow> 'b sworld \<Rightarrow> 'b sworld" where
  "retry_close se c why 0 w = w"
| "retry_close se c why (Suc n) w = (case map_of (by_corr (w_structs w)) c of
     None \<Rightarrow> w | Some g \<Rightarrow> retry_close se c why n (snd (close_structure se g why None False w)))"

lemma retry_close_done: "map_of (by_corr (w_structs w)) c = None \<Longrightarrow> retry_close se c why n w = w"
  by (cases n) auto

lemma retry_close_bounded:
  "map_of (by_corr (w_structs w)) c = Some g \<Longrightarrow> sg_corr g = c \<Longrightarrow>
   cfg_or (ex_max_retries (se_exits se)) 5 0 < sg_retries g + int n \<Longrightarrow>
   map_of (by_corr (w_structs (retry_close se c why (Suc n) w))) c = None"
proof (induction n arbitrary: w g)
  case 0
  obtain r w' where cs: "close_structure se g why None False w = (r, w')" by fastforce
  show ?case
  proof (cases r)
    case None
    with close_structure_effect [OF cs] 0 show ?thesis by simp
  next
    case (Some x)
    with close_structure_effect [OF cs] 0 cs show ?thesis by simp
  qed
next
  case (Suc n)
  obtain r w' where cs: "close_structure se g why None False w = (r, w')" by fastforce
  show ?case
  proof (cases r)
    case None
    with close_structure_effect [OF cs] Suc.prems
    have "map_of (by_corr (w_structs w')) c = Some (g\<lparr>sg_retries := sg_retries g + 1\<rparr>)"
      by (simp add: map_of_set_guard)
    from Suc.IH [OF this] Suc.prems cs show ?thesis by simp
  next
    case (Some x)
    with close_structure_effect [OF cs] Suc.prems have "map_of (by_corr (w_structs w')) c = None" by simp
    with Suc.prems cs show ?thesis by simp
  qed
qed

section \<open>The risk from the fills bounds the payoff at expiry\<close>

definition intrinsic :: "string \<Rightarrow> real \<Rightarrow> real \<Rightarrow> real" where
  "intrinsic opt strike spot = (if opt = ''CE'' then max 0 (spot - strike) else max 0 (strike - spot))"

text \<open>The legs are those of the plan, each for \<open>q\<close> units, and each is priced at its intrinsic value.\<close>

definition at_expiry :: "structure_plan \<Rightarrow> leg list \<Rightarrow> (token \<rightharpoonup> rupees) \<Rightarrow> real \<Rightarrow> int \<Rightarrow> bool" where
  "at_expiry pl legs prices spot q \<longleftrightarrow>
    list_all2 (\<lambda>(opt, strike, sd) l. lg_side l = sd \<and> lg_qty l = q \<and> prices (lg_token l) = Some (intrinsic opt strike spot))
      (legs_from_structure pl) legs"

text \<open>A credit spread sells the nearer strike, a debit spread buys it; a condor is two symmetric
  credit spreads.\<close>

definition oriented :: "structure_plan \<Rightarrow> rupees \<Rightarrow> bool" where
  "oriented pl net = (case pl_legs pl of
     Condor_Legs sc sp lc lp \<Rightarrow> 0 \<le> net \<and> sp \<le> sc \<and> sc \<le> lc \<and> lp \<le> sp \<and> lc - sc = sp - lp
   | Vertical_Legs opt l s \<Rightarrow> if (opt = ''CE'') = (0 \<le> net) then s \<le> l else l \<le> s)"

lemma spread_bounds:
  assumes "x \<le> (y::real)"
  shows "intrinsic ''CE'' y spot \<le> intrinsic ''CE'' x spot" "intrinsic ''CE'' x spot \<le> intrinsic ''CE'' y spot + (y - x)"
    "opt \<noteq> ''CE'' \<Longrightarrow> intrinsic opt x spot \<le> intrinsic opt y spot"
    "opt \<noteq> ''CE'' \<Longrightarrow> intrinsic opt y spot \<le> intrinsic opt x spot + (y - x)"
  using assms by (auto simp: intrinsic_def)

lemma condor_one_side:
  assumes "sp \<le> (sc::real)"
  shows "intrinsic ''CE'' sc spot = 0 \<or> intrinsic ''PE'' sp spot = 0"
  using assms by (auto simp: intrinsic_def)

lemma vertical_payoff_bounded:
  assumes "pl_legs pl = Vertical_Legs opt l s" "fill_based_risk pl legs = (net, ml, mp)"
    "at_expiry pl legs prices spot q" "0 \<le> q" "oriented pl net"
  shows "\<exists>p. pnl_loop prices legs 0 = Some p \<and> - ml \<le> p \<and> p \<le> mp"
proof -
  obtain b1 b2 where legs: "legs = [b1, b2]" and q: "lg_qty b1 = q" "lg_qty b2 = q"
    and sd: "lg_side b1 = BUY" "lg_side b2 = SELL"
    and px: "prices (lg_token b1) = Some (intrinsic opt l spot)" "prices (lg_token b2) = Some (intrinsic opt s spot)"
    using assms(1,3) by (auto simp: at_expiry_def legs_from_structure_def list_all2_Cons1)
  let ?d = "intrinsic opt l spot - intrinsic opt s spot" and ?w = "\<bar>s - l\<bar>"
  have net: "net = (lg_entry b2 - lg_entry b1) * of_int q"
    and ml: "ml = (if net \<ge> 0 then max (1 / 100) (?w * of_int q - net) else max (1 / 100) (- net))"
    and mp: "mp = (if net \<ge> 0 then max (1 / 100) net else max (1 / 100) (?w * of_int q + net))"
    using assms(1,2) legs q sd
    by (auto simp: fill_based_risk_def net_premium_def structure_width_def Let_def algebra_simps split: if_splits)
  have pnl: "pnl_loop prices legs 0 = Some (net + ?d * of_int q)"
    using legs q sd px net by (simp add: leg_gain_def algebra_simps)
  have bounds: "if net \<ge> 0 then - ?w \<le> ?d \<and> ?d \<le> 0 else 0 \<le> ?d \<and> ?d \<le> ?w"
    using spread_bounds(1,2) [of l s spot] spread_bounds(3,4) [of l s opt spot]
      spread_bounds(1,2) [of s l spot] spread_bounds(3,4) [of s l opt spot] assms(1,5)
    by (cases "opt = ''CE''") (auto simp: oriented_def split: if_splits)
  have qr: "0 \<le> (of_int q :: real)" using assms(4) by simp
  have "if net \<ge> 0 then - ?w * of_int q \<le> ?d * of_int q \<and> ?d * of_int q \<le> 0
     else 0 \<le> ?d * of_int q \<and> ?d * of_int q \<le> ?w * of_int q"
    using bounds mult_right_mono [OF _ qr, of "- ?w" ?d] mult_right_mono [OF _ qr, of ?d 0]
      mult_right_mono [OF _ qr, of 0 ?d] mult_right_mono [OF _ qr, of ?d ?w] by auto
  then have "- ml \<le> net + ?d * of_int q \<and> net + ?d * of_int q \<le> mp"
    unfolding ml mp by (auto split: if_splits)
  with pnl show ?thesis by blast
qed

lemma condor_payoff_bounded:
  assumes "pl_legs pl = Condor_Legs sc sp lc lp" "fill_based_risk pl legs = (net, ml, mp)"
    "at_expiry pl legs prices spot q" "0 \<le> q" "oriented pl net"
  shows "\<exists>p. pnl_loop prices legs 0 = Some p \<and> - ml \<le> p \<and> p \<le> mp"
proof -
  obtain a b c d where legs: "legs = [a, b, c, d]"
    and q: "lg_qty a = q" "lg_qty b = q" "lg_qty c = q" "lg_qty d = q"
    and sd: "lg_side a = SELL" "lg_side b = BUY" "lg_side c = SELL" "lg_side d = BUY"
    and px: "prices (lg_token a) = Some (intrinsic ''CE'' sc spot)" "prices (lg_token b) = Some (intrinsic ''CE'' lc spot)"
      "prices (lg_token c) = Some (intrinsic ''PE'' sp spot)" "prices (lg_token d) = Some (intrinsic ''PE'' lp spot)"
    using assms(1,3) by (auto simp: at_expiry_def legs_from_structure_def list_all2_Cons1)
  have o1: "0 \<le> net" "sp \<le> sc" "sc \<le> lc" "lp \<le> sp" "lc - sc = sp - lp"
    using assms(1,5) by (auto simp: oriented_def)
  let ?d = "(intrinsic ''CE'' lc spot - intrinsic ''CE'' sc spot) + (intrinsic ''PE'' lp spot - intrinsic ''PE'' sp spot)"
  let ?w = "\<bar>sc - lc\<bar>"
  have net: "net = (lg_entry a - lg_entry b + lg_entry c - lg_entry d) * of_int q"
    and ml: "ml = max (1 / 100) (?w * of_int q - net)" and mp: "mp = max (1 / 100) net"
    using assms(1,2) legs q sd o1(1)
    by (auto simp: fill_based_risk_def net_premium_def structure_width_def Let_def algebra_simps split: if_splits)
  have pnl: "pnl_loop prices legs 0 = Some (net + ?d * of_int q)"
    using legs q sd px net by (simp add: leg_gain_def algebra_simps)
  have nonneg: "0 \<le> intrinsic x y z" for x y z by (simp add: intrinsic_def)
  have "- ?w \<le> ?d \<and> ?d \<le> 0"
    using condor_one_side [OF o1(2), of spot] spread_bounds(1,2) [OF o1(3), of spot]
      spread_bounds(3,4) [OF o1(4), of "''PE''" spot] o1 nonneg [of "''CE''" lc spot] nonneg [of "''PE''" lp spot]
    by (auto simp: abs_if)
  then have "- ?w * of_int q \<le> ?d * of_int q \<and> ?d * of_int q \<le> 0"
    using mult_right_mono [of "- ?w" ?d "of_int q"] mult_right_mono [of ?d 0 "of_int q"] assms(4) by simp
  then have "- ml \<le> net + ?d * of_int q \<and> net + ?d * of_int q \<le> mp"
    unfolding ml mp by auto
  with pnl show ?thesis by blast
qed

end
