(* ===== verification/Recovery.thy ===== *)
theory Recovery
  imports Structures_Facts
begin

text \<open>
  \<open>execution/recovery.py\<close>, \<open>execution/reconciler.py\<close> and \<open>execution/failsafe.py\<close>: what the engine
  does when it starts, every slow cycle, and when something breaks. The broker's list of GTTs is
  an argument, as is the source of fresh correlation ids; alerts and log lines are left out.
\<close>

section \<open>Cold start\<close>

record gtt_row =
  gt_symbol :: "sym option"
  gt_triggers :: "rupees list"

fun stops_from_gtts :: "gtt_row list \<Rightarrow> sym option \<Rightarrow> (rupees \<times> rupees) option" where
  "stops_from_gtts [] s = None"
| "stops_from_gtts (g # gs) s =
    (let tv = sort (gt_triggers g) in
     if gt_symbol g = s \<and> length tv = 2 then Some (tv ! 0, tv ! 1) else stops_from_gtts gs s)"

record adopt_report =
  ad_adopted :: "pid list"
  ad_flagged :: "pid list"

definition adopted_guard :: "pid \<Rightarrow> order_side \<Rightarrow> rupees \<Rightarrow> rupees \<Rightarrow> rupees \<Rightarrow> token \<Rightarrow> guard" where
  "adopted_guard i sd entry stop target t =
    \<lparr>g_id = i, g_side = sd, g_entry = entry, g_stop = stop, g_target = target, g_token = t,
     trail_distance = None, square_off = None, high_water = 0, breakeven_at_r = 0,
     lock_trigger_frac = 0, max_giveback_frac = 35 / 100, init_risk = 0, best_gain = 0\<rparr>"

definition adopt_one :: "(pid \<Rightarrow> corr_id) \<Rightarrow> gtt_row list \<Rightarrow> adopt_report \<times> ('b, 'z) world_scheme \<Rightarrow> broker_pos \<Rightarrow>
    adopt_report \<times> ('b, 'z) world_scheme" where
  "adopt_one fresh gtts acc p =
    (case acc of (rep, w) \<Rightarrow>
       if bp_qty p = 0 then (rep, w)
       else
         let st = stops_from_gtts gtts (bp_symbol p);
             sd = (if bp_qty p > 0 then BUY else SELL);
             entry = py_or (bp_avg p) (py_or (bp_last p) 0);
             (i, bk) = adopt_row (fresh (next_id (w_book w))) p sd \<bar>bp_qty p\<bar> entry (map_option fst st)
                         (map_option snd st) LIVE (if st = None then Flagged else Open) (w_book w);
             w1 = w\<lparr>w_book := bk\<rparr>
         in case st of
              None \<Rightarrow> (rep\<lparr>ad_flagged := ad_flagged rep @ [i]\<rparr>, w1)
            | Some (stop, target) \<Rightarrow>
                (rep\<lparr>ad_adopted := ad_adopted rep @ [i]\<rparr>,
                 w1\<lparr>w_guards := arm (adopted_guard i sd entry stop target (get_default (bp_token p) 0)) (w_guards w1)\<rparr>))"

definition empty_report :: adopt_report where
  "empty_report = \<lparr>ad_adopted = [], ad_flagged = []\<rparr>"

definition adopt_live :: "'b env \<Rightarrow> (pid \<Rightarrow> corr_id) \<Rightarrow> gtt_row list \<Rightarrow> ('b, 'z) world_scheme \<Rightarrow>
    adopt_report \<times> ('b, 'z) world_scheme" where
  "adopt_live env fresh gtts w =
    (case api_positions (e_api env) (w_broker w) of
       (None, b') \<Rightarrow> (empty_report, w\<lparr>w_broker := b'\<rparr>)
     | (Some net, b') \<Rightarrow> foldl (adopt_one fresh gtts) (empty_report, w\<lparr>w_broker := b'\<rparr>) net)"

definition rearmed_guard :: "'b env \<Rightarrow> book_row \<Rightarrow> rupees \<Rightarrow> guard" where
  "rearmed_guard env r stop =
    (let dyn = e_dyn env (get_default (sleeve r) []) in
     \<lparr>g_id = pos_id r, g_side = side r, g_entry = b_entry r, g_stop = stop,
      g_target = get_default (b_target r) 0, g_token = get_default (instrument_token r) 0,
      trail_distance = None, square_off = e_square_off env (get_default (sleeve r) []), high_water = 0,
      breakeven_at_r = dc_breakeven dyn, lock_trigger_frac = dc_lock dyn,
      max_giveback_frac = (if dc_giveback dyn = 0 then 35 / 100 else dc_giveback dyn),
      init_risk = \<bar>b_entry r - stop\<bar>, best_gain = 0\<rparr>)"

definition rearm_one :: "'b env \<Rightarrow> pid list \<Rightarrow> adopt_report \<times> ('b, 'z) world_scheme \<Rightarrow> book_row \<Rightarrow>
    adopt_report \<times> ('b, 'z) world_scheme" where
  "rearm_one env covered acc r =
    (case acc of (rep, w) \<Rightarrow>
       if pos_id r \<in> set covered then (rep, w)
       else case b_stop r of
         None \<Rightarrow> (rep\<lparr>ad_flagged := ad_flagged rep @ [pos_id r]\<rparr>, w)
       | Some stop \<Rightarrow> (rep\<lparr>ad_adopted := ad_adopted rep @ [pos_id r]\<rparr>,
           w\<lparr>w_guards := arm (rearmed_guard env r stop) (w_guards w)\<rparr>))"

definition adopt_paper :: "'b env \<Rightarrow> string \<Rightarrow> 'b sworld \<Rightarrow> adopt_report \<times> 'b sworld" where
  "adopt_paper env m w =
    (case rebuild_structures w of (covered, w1) \<Rightarrow>
       foldl (rearm_one env covered) (\<lparr>ad_adopted = covered, ad_flagged = []\<rparr>, w1) (get_open (Some m) (w_book w1)))"

definition adopt_open_positions :: "'b env \<Rightarrow> (pid \<Rightarrow> corr_id) \<Rightarrow> gtt_row list \<Rightarrow> 'b sworld \<Rightarrow> adopt_report \<times> 'b sworld" where
  "adopt_open_positions env fresh gtts w =
    (if current_mode env w = LIVE then adopt_live env fresh gtts w
     else adopt_paper env (current_mode env w) w)"

section \<open>Reconciliation\<close>

datatype severity = S_Info | S_Blocked | S_Flatten

definition classify_severity :: "mismatch list \<Rightarrow> severity" where
  "classify_severity ms =
    (if ms = [] then S_Info
     else if \<exists>m\<in>set ms. mm_book m = 0 \<and> mm_broker m \<noteq> 0 then S_Flatten
     else S_Blocked)"

definition run_reconcile :: "broker_pos list \<Rightarrow> ('b, 'z) world_scheme \<Rightarrow> (severity \<times> mismatch list) \<times> ('b, 'z) world_scheme" where
  "run_reconcile net w =
    (let ms = reconcile_book net LIVE (w_book w); sev = classify_severity ms in
     ((sev, ms), if sev = S_Blocked \<or> sev = S_Flatten
        then w\<lparr>w_config := set_state ''block_new_entries'' (JBool True) (w_config w)\<rparr> else w))"

section \<open>Fail-safe\<close>

text \<open>\<open>m\<close> is the executor's cached mode.\<close>

fun close_rows :: "'b env \<Rightarrow> book_row list \<Rightarrow> ('b, 'z) world_scheme \<Rightarrow> (pid \<times> rupees option) list \<times> ('b, 'z) world_scheme" where
  "close_rows env [] w = ([], w)"
| "close_rows env (r # rs) w =
    (let (realized, w1) = close env (pos_id r) (exit_reason_text X_FAILSAFE) None None w;
         (done1, w2) = close_rows env rs w1
     in ((pos_id r, realized) # done1, w2))"

definition safe_exit_all :: "'b env \<Rightarrow> string \<Rightarrow> ('b, 'z) world_scheme \<Rightarrow> (pid \<times> rupees option) list \<times> ('b, 'z) world_scheme" where
  "safe_exit_all env m w =
    (case close_rows env (get_open (Some m) (w_book w)) w of
       (report, w1) \<Rightarrow> (report, w1\<lparr>w_config := set_state ''engine_paused'' (JBool True)
           (set_state ''engine_halted'' (JBool True) (w_config w1))\<rparr>))"

section \<open>Lemmas\<close>

lemma close_rows_effect:
  "close_rows env rs w = (rep, w') \<Longrightarrow>
   (\<forall>r\<in>set rs. not_open (pos_id r) (w_book w')) \<and> (\<forall>i. not_open i (w_book w) \<longrightarrow> not_open i (w_book w'))
   \<and> (\<forall>i. i \<notin> pos_id ` set rs \<longrightarrow> find_row i (w_book w') = find_row i (w_book w)) \<and> map fst rep = map pos_id rs
   \<and> w_config w' = w_config w"
proof (induction rs arbitrary: w rep)
  case (Cons r rs)
  obtain p w1 where c: "close env (pos_id r) (exit_reason_text X_FAILSAFE) None None w = (p, w1)" by fastforce
  obtain rep1 w2 where cr: "close_rows env rs w1 = (rep1, w2)" by fastforce
  from Cons.prems c cr have eq: "rep = (pos_id r, p) # rep1" "w' = w2" by simp_all
  note ih = Cons.IH [OF cr [folded eq(2)]] and ef = close_effect [OF c]
  have "not_open i (w_book w) \<Longrightarrow> not_open i (w_book w1)" for i
    using ef(1) ef(2) [of i] by (cases "i = pos_id r") (auto simp: not_open_def)
  with ih ef eq show ?case by auto
qed auto

lemma get_open_empty_iff:
  "book_ok b \<Longrightarrow> get_open (Some m) b = [] \<longleftrightarrow> (\<forall>i r. find_row i b = Some r \<longrightarrow> mode r = m \<longrightarrow> pos_status r \<noteq> Open)"
proof -
  assume ok: "book_ok b"
  have "r \<in> set (rows b) \<longleftrightarrow> (\<exists>i. find_row i b = Some r)" for r
    using find_row_unique [OF ok] find_row_Some by blast
  then show ?thesis by (auto simp: get_open_def filter_empty_conv)
qed

lemma adopt_one_report:
  "adopt_one fresh gtts (rep, w) p = (rep', w') \<Longrightarrow>
   length (ad_adopted rep') + length (ad_flagged rep') =
     length (ad_adopted rep) + length (ad_flagged rep) + (if bp_qty p = 0 then 0 else 1)
   \<and> set (ad_adopted rep) \<subseteq> set (ad_adopted rep') \<and> set (ad_flagged rep) \<subseteq> set (ad_flagged rep')
   \<and> (\<forall>i\<in>set (ad_adopted rep') - set (ad_adopted rep). guards (w_guards w') i \<noteq> None)
   \<and> (\<forall>i. guards (w_guards w) i \<noteq> None \<longrightarrow> guards (w_guards w') i \<noteq> None)"
  by (auto simp: adopt_one_def adopted_guard_def Let_def split_def split: if_splits option.splits)

lemma adopt_fold_report:
  "foldl (adopt_one fresh gtts) (rep, w) ps = (rep', w') \<Longrightarrow>
   \<forall>i\<in>set (ad_adopted rep). guards (w_guards w) i \<noteq> None \<Longrightarrow>
   length (ad_adopted rep') + length (ad_flagged rep') =
     length (ad_adopted rep) + length (ad_flagged rep) + length (filter (\<lambda>p. bp_qty p \<noteq> 0) ps)
   \<and> (\<forall>i\<in>set (ad_adopted rep'). guards (w_guards w') i \<noteq> None)"
proof (induction ps arbitrary: rep w)
  case (Cons p ps)
  obtain rep1 w1 where a: "adopt_one fresh gtts (rep, w) p = (rep1, w1)" by fastforce
  note r = adopt_one_report [OF a]
  have g1: "\<forall>i\<in>set (ad_adopted rep1). guards (w_guards w1) i \<noteq> None"
    using r Cons.prems(2) by blast
  from Cons.prems(1) a have "foldl (adopt_one fresh gtts) (rep1, w1) ps = (rep', w')" by simp
  from Cons.IH [OF this g1] r show ?case by simp
qed auto

end
