(* ===== verification/Commands.thy ===== *)
theory Commands
  imports Prelude
begin

text \<open>
  \<open>common/commands.py\<close>: the durable command queue between the API and the engine. The table is the
  list of its rows in creation order; an UPDATE maps over it. The engine's protocol (complete or fail
  only what was claimed, recover after a restart) is the step relation.
\<close>

datatype cmd_status = CREATED | CLAIMED | EXECUTING | SUCCEEDED | FAILED | RETRYING | DEAD_LETTER

datatype cmd_event = Cmd_Claim | Cmd_Succeed | Cmd_Fail

definition max_attempts_default :: int where
  "max_attempts_default = 5"

definition next_state :: "cmd_status \<Rightarrow> cmd_event \<Rightarrow> int \<Rightarrow> int \<Rightarrow> cmd_status" where
  "next_state current event attempts max_attempts =
    (if event = Cmd_Claim \<and> current \<in> {CREATED, RETRYING} then CLAIMED
     else if event = Cmd_Succeed \<and> current \<in> {CLAIMED, EXECUTING} then SUCCEEDED
     else if event = Cmd_Fail \<and> current \<in> {CLAIMED, EXECUTING}
     then (if attempts + 1 \<ge> max_attempts then DEAD_LETTER else RETRYING)
     else current)"

record command =
  cm_id :: nat
  cm_key :: "string option"
  cm_type :: string
  cm_payload :: "(string \<times> json) list"
  cm_status :: cmd_status
  cm_attempts :: int
  cm_claimed_by :: "string option"
  cm_error :: string

record cmd_queue =
  cq_rows :: "command list"
  cq_next :: nat

definition empty_queue :: cmd_queue where
  "empty_queue = \<lparr>cq_rows = [], cq_next = 1\<rparr>"

text \<open>NULL keys never conflict; an empty key is a key for the index, and no key for the lookup.\<close>

definition enqueue_command :: "string \<Rightarrow> (string \<times> json) list \<Rightarrow> string option \<Rightarrow> cmd_queue \<Rightarrow> nat option \<times> cmd_queue" where
  "enqueue_command ctype payload key q =
    (let row = \<lparr>cm_id = cq_next q, cm_key = key, cm_type = ctype, cm_payload = payload, cm_status = CREATED,
                cm_attempts = 0, cm_claimed_by = None, cm_error = []\<rparr>;
         inserted = (Some (cq_next q), q\<lparr>cq_rows := cq_rows q @ [row], cq_next := cq_next q + 1\<rparr>)
     in case key of
          None \<Rightarrow> inserted
        | Some k \<Rightarrow> (case find (\<lambda>r. cm_key r = Some k) (cq_rows q) of
            None \<Rightarrow> inserted
          | Some r \<Rightarrow> (if k \<noteq> [] then Some (cm_id r) else None, q)))"

definition pending :: "command \<Rightarrow> bool" where
  "pending r \<longleftrightarrow> cm_status r \<in> {CREATED, RETRYING}"

definition update_cmd :: "(command \<Rightarrow> bool) \<Rightarrow> (command \<Rightarrow> command) \<Rightarrow> cmd_queue \<Rightarrow> cmd_queue" where
  "update_cmd P f q = q\<lparr>cq_rows := map (\<lambda>r. if P r then f r else r) (cq_rows q)\<rparr>"

definition claim_commands :: "string \<Rightarrow> nat \<Rightarrow> cmd_queue \<Rightarrow> (nat \<times> (string \<times> json) list) list \<times> cmd_queue" where
  "claim_commands worker max_n q =
    (let picked = take max_n (filter pending (cq_rows q)); ids = map cm_id picked in
     (map (\<lambda>r. (cm_id r, cm_payload r)) picked,
      update_cmd (\<lambda>r. cm_id r \<in> set ids) (\<lambda>r. r\<lparr>cm_status := CLAIMED, cm_claimed_by := Some worker\<rparr>) q))"

definition complete_command :: "nat \<Rightarrow> cmd_queue \<Rightarrow> cmd_queue" where
  "complete_command i q = update_cmd (\<lambda>r. cm_id r = i) (\<lambda>r. r\<lparr>cm_status := SUCCEEDED\<rparr>) q"

definition fail_command :: "nat \<Rightarrow> string \<Rightarrow> int \<Rightarrow> cmd_queue \<Rightarrow> cmd_queue" where
  "fail_command i err max_attempts q =
    (let attempts = (case find (\<lambda>r. cm_id r = i) (cq_rows q) of None \<Rightarrow> 0 | Some r \<Rightarrow> cm_attempts r);
         new = next_state CLAIMED Cmd_Fail attempts max_attempts
     in update_cmd (\<lambda>r. cm_id r = i)
          (\<lambda>r. r\<lparr>cm_status := new, cm_attempts := cm_attempts r + 1, cm_error := take 500 err\<rparr>) q)"

definition recover_stuck_commands :: "cmd_queue \<Rightarrow> nat \<times> cmd_queue" where
  "recover_stuck_commands q =
    (length (filter (\<lambda>r. cm_status r \<in> {CLAIMED, EXECUTING}) (cq_rows q)),
     update_cmd (\<lambda>r. cm_status r \<in> {CLAIMED, EXECUTING}) (\<lambda>r. r\<lparr>cm_status := RETRYING\<rparr>) q)"

section \<open>The engine's protocol\<close>

definition is_claimed :: "nat \<Rightarrow> cmd_queue \<Rightarrow> bool" where
  "is_claimed i q \<longleftrightarrow> (\<exists>r\<in>set (cq_rows q). cm_id r = i \<and> cm_status r = CLAIMED)"

inductive cmd_step :: "cmd_queue \<Rightarrow> cmd_queue \<Rightarrow> bool" where
  enqueue: "cmd_step q (snd (enqueue_command ty payload key q))"
| claim: "cmd_step q (snd (claim_commands worker n q))"
| complete: "is_claimed i q \<Longrightarrow> cmd_step q (complete_command i q)"
| failed: "is_claimed i q \<Longrightarrow> cmd_step q (fail_command i err max_attempts_default q)"
| restart: "cmd_step q (snd (recover_stuck_commands q))"

inductive cmd_reach :: "cmd_queue \<Rightarrow> cmd_queue \<Rightarrow> bool" where
  here: "cmd_reach q q"
| onward: "cmd_reach q0 q \<Longrightarrow> cmd_step q q' \<Longrightarrow> cmd_reach q0 q'"

inductive_cases cmd_stepE: "cmd_step q q'"

definition find_cmd :: "nat \<Rightarrow> cmd_queue \<Rightarrow> command option" where
  "find_cmd i q = find (\<lambda>r. cm_id r = i) (cq_rows q)"

section \<open>Invariant\<close>

definition row_inv :: "command \<Rightarrow> bool" where
  "row_inv r \<longleftrightarrow> 0 \<le> cm_attempts r \<and> cm_attempts r \<le> 5 \<and> cm_status r \<noteq> FAILED \<and> cm_status r \<noteq> EXECUTING
     \<and> (cm_status r = DEAD_LETTER \<longleftrightarrow> cm_attempts r = 5)"

definition queue_inv :: "cmd_queue \<Rightarrow> bool" where
  "queue_inv q \<longleftrightarrow> distinct (map cm_id (cq_rows q)) \<and> (\<forall>r\<in>set (cq_rows q). cm_id r < cq_next q \<and> row_inv r)
     \<and> distinct (map cm_key (filter (\<lambda>r. cm_key r \<noteq> None) (cq_rows q)))"

lemma row_unique:
  assumes "queue_inv q" "r \<in> set (cq_rows q)" "r' \<in> set (cq_rows q)" "cm_id r = cm_id r'"
  shows "r = r'"
proof -
  have "inj_on cm_id (set (cq_rows q))" using assms(1) by (simp add: queue_inv_def distinct_map)
  from inj_onD [OF this assms(4,2,3)] show ?thesis .
qed

lemma find_cmd_row:
  assumes inv: "queue_inv q" and r: "r \<in> set (cq_rows q)"
  shows "find_cmd (cm_id r) q = Some r"
proof -
  from r obtain r' where f: "find_cmd (cm_id r) q = Some r'"
    by (cases "find_cmd (cm_id r) q") (auto simp: find_cmd_def find_None_iff)
  then have "r' \<in> set (cq_rows q)" "cm_id r' = cm_id r" by (auto simp: find_cmd_def find_Some_iff)
  with row_unique [OF inv this(1) r] f show ?thesis by simp
qed

lemma keys_update:
  assumes "\<And>r. cm_key (f r) = cm_key r"
  shows "map cm_key (filter (\<lambda>r. cm_key r \<noteq> None) (map (\<lambda>r. if P r then f r else r) rs))
       = map cm_key (filter (\<lambda>r. cm_key r \<noteq> None) rs)"
  using assms by (induction rs) auto

lemma queue_inv_update:
  assumes "queue_inv q" "\<And>r. cm_id (f r) = cm_id r" "\<And>r. cm_key (f r) = cm_key r"
    "\<And>r. r \<in> set (cq_rows q) \<Longrightarrow> P r \<Longrightarrow> row_inv r \<Longrightarrow> row_inv (f r)"
  shows "queue_inv (update_cmd P f q)"
proof -
  have ids: "map cm_id (cq_rows (update_cmd P f q)) = map cm_id (cq_rows q)"
    using assms(2) by (simp add: update_cmd_def comp_def)
  have keys: "map cm_key (filter (\<lambda>r. cm_key r \<noteq> None) (cq_rows (update_cmd P f q)))
      = map cm_key (filter (\<lambda>r. cm_key r \<noteq> None) (cq_rows q))"
    using keys_update [of f P "cq_rows q"] assms(3) by (simp add: update_cmd_def)
  show ?thesis unfolding queue_inv_def ids keys
    using assms by (auto simp: queue_inv_def update_cmd_def)
qed

lemma find_cmd_update:
  assumes "\<And>r. cm_id (f r) = cm_id r"
  shows "find_cmd i (update_cmd P f q) = map_option (\<lambda>r. if P r then f r else r) (find_cmd i q)"
proof -
  have "find (\<lambda>r. cm_id r = i) (map (\<lambda>r. if P r then f r else r) rs)
    = map_option (\<lambda>r. if P r then f r else r) (find (\<lambda>r. cm_id r = i) rs)" for rs
    using assms by (induction rs) auto
  then show ?thesis by (simp add: find_cmd_def update_cmd_def)
qed

lemma enqueue_cases:
  obtains (fresh) row where "enqueue_command ty p key q = (Some (cq_next q), q\<lparr>cq_rows := cq_rows q @ [row], cq_next := cq_next q + 1\<rparr>)"
      "cm_id row = cq_next q" "cm_key row = key" "cm_status row = CREATED" "cm_attempts row = 0" "cm_payload row = p"
      "key = None \<or> (\<forall>r\<in>set (cq_rows q). cm_key r \<noteq> key)"
    | (known) r where "key \<noteq> None" "r \<in> set (cq_rows q)" "cm_key r = key" "snd (enqueue_command ty p key q) = q"
      "key \<noteq> Some [] \<Longrightarrow> fst (enqueue_command ty p key q) = Some (cm_id r)"
proof -
  define row where "row = \<lparr>cm_id = cq_next q, cm_key = key, cm_type = ty, cm_payload = p, cm_status = CREATED,
                cm_attempts = 0, cm_claimed_by = None, cm_error = []\<rparr>"
  have row: "cm_id row = cq_next q" "cm_key row = key" "cm_status row = CREATED" "cm_attempts row = 0" "cm_payload row = p"
    by (simp_all add: row_def)
  show ?thesis
proof (cases key)
  case None
  show ?thesis by (rule fresh [OF _ row]) (auto simp: enqueue_command_def Let_def None row_def)
next
  case (Some k)
  show ?thesis
  proof (cases "find (\<lambda>r. cm_key r = Some k) (cq_rows q)")
    case None
    then have "\<forall>r\<in>set (cq_rows q). cm_key r \<noteq> key" using Some by (simp add: find_None_iff)
    then show ?thesis using None Some by (intro fresh [OF _ row]) (simp_all add: enqueue_command_def Let_def row_def)
  next
    case (Some r)
    then have "r \<in> set (cq_rows q)" "cm_key r = Some k" by (auto simp: find_Some_iff)
    then show ?thesis using Some \<open>key = Some k\<close> by (intro known) (auto simp: enqueue_command_def Let_def)
  qed
qed
qed

lemma enqueue_inv: "queue_inv q \<Longrightarrow> queue_inv (snd (enqueue_command ty p key q))"
proof (cases rule: enqueue_cases [of ty p key q])
  case (fresh row)
  assume inv: "queue_inv q"
  have ids: "\<forall>r\<in>set (cq_rows q). cm_id r < cq_next q \<and> row_inv r" "distinct (map cm_id (cq_rows q))"
    using inv by (simp_all add: queue_inv_def)
  have "cq_next q \<notin> cm_id ` set (cq_rows q)" using ids(1) by auto
  moreover have "row_inv row" using fresh by (simp add: row_inv_def)
  moreover have "key \<noteq> None \<Longrightarrow> cm_key row \<notin> set (map cm_key (filter (\<lambda>r. cm_key r \<noteq> None) (cq_rows q)))"
  proof
    assume k: "key \<noteq> None" and "cm_key row \<in> set (map cm_key (filter (\<lambda>r. cm_key r \<noteq> None) (cq_rows q)))"
    then obtain x where "x \<in> set (cq_rows q)" "cm_key x = key" using fresh(3) by auto
    with fresh(7) k show False by blast
  qed
  moreover have "distinct (map cm_key (filter (\<lambda>r. cm_key r \<noteq> None) (cq_rows q)))"
    using inv by (simp add: queue_inv_def)
  ultimately show ?thesis
    unfolding fresh(1) queue_inv_def snd_conv using ids fresh(2,3)
    by (cases "key = None") (simp_all add: less_SucI)
qed simp

lemma claim_inv: "queue_inv q \<Longrightarrow> queue_inv (snd (claim_commands worker n q))"
proof -
  assume inv: "queue_inv q"
  let ?ids = "map cm_id (take n (filter pending (cq_rows q)))"
  have p: "pending r" if a: "r \<in> set (cq_rows q)" and b: "cm_id r \<in> set ?ids" for r
  proof -
    from b obtain r' where t: "r' \<in> set (take n (filter pending (cq_rows q)))" and i: "cm_id r' = cm_id r"
      by (metis imageE list.set_map)
    from in_set_takeD [OF t] have r': "r' \<in> set (cq_rows q)" "pending r'" "cm_id r' = cm_id r" using i by simp_all
    from row_unique [OF inv r'(1) a r'(3)] r'(2) show ?thesis by simp
  qed
  show ?thesis unfolding claim_commands_def Let_def snd_conv
  proof (rule queue_inv_update [OF inv])
    fix r assume "r \<in> set (cq_rows q)" "cm_id r \<in> set ?ids" "row_inv r"
    with p [OF this(1,2)] show "row_inv (r\<lparr>cm_status := CLAIMED, cm_claimed_by := Some worker\<rparr>)"
      unfolding row_inv_def pending_def by auto
  qed simp_all
qed

lemma claimed_row_attempts: "row_inv r \<Longrightarrow> cm_status r = CLAIMED \<Longrightarrow> cm_attempts r < 5"
  by (auto simp: row_inv_def)

lemma step_inv: "cmd_step q q' \<Longrightarrow> queue_inv q \<Longrightarrow> queue_inv q'"
proof (erule cmd_stepE)
  fix i assume c: "is_claimed i q" and inv: "queue_inv q" and q': "q' = complete_command i q"
  have "row_inv (r\<lparr>cm_status := SUCCEEDED\<rparr>)" if "r \<in> set (cq_rows q)" "cm_id r = i" for r
  proof -
    from c obtain r0 where "r0 \<in> set (cq_rows q)" "cm_id r0 = i" "cm_status r0 = CLAIMED" by (auto simp: is_claimed_def)
    with row_unique [OF inv that(1), of r0] that have "cm_status r = CLAIMED" by simp
    moreover have "row_inv r" using that(1) inv by (simp add: queue_inv_def)
    ultimately show ?thesis by (auto simp: row_inv_def)
  qed
  then show "queue_inv q'" unfolding q' complete_command_def by (intro queue_inv_update [OF inv]) auto
next
  fix i err assume c: "is_claimed i q" and inv: "queue_inv q" and q': "q' = fail_command i err max_attempts_default q"
  then obtain r0 where r0: "r0 \<in> set (cq_rows q)" "cm_id r0 = i" "cm_status r0 = CLAIMED" by (auto simp: is_claimed_def)
  then have f: "find (\<lambda>r. cm_id r = i) (cq_rows q) = Some r0" using find_cmd_row [OF inv r0(1)] by (simp add: find_cmd_def)
  have "row_inv (r\<lparr>cm_status := next_state CLAIMED Cmd_Fail (cm_attempts r0) max_attempts_default,
      cm_attempts := cm_attempts r + 1, cm_error := take 500 err\<rparr>)"
    if "r \<in> set (cq_rows q)" "cm_id r = i" for r
  proof -
    have "r = r0" using row_unique [OF inv that(1) r0(1)] that(2) r0(2) by simp
    moreover have "row_inv r0" using r0(1) inv by (simp add: queue_inv_def)
    ultimately show ?thesis using claimed_row_attempts [OF _ r0(3)]
      by (auto simp: row_inv_def next_state_def max_attempts_default_def)
  qed
  then show "queue_inv q'" unfolding q' fail_command_def Let_def f option.case
    by (intro queue_inv_update [OF inv]) auto
next
  assume inv: "queue_inv q" and q': "q' = snd (recover_stuck_commands q)"
  show "queue_inv q'" unfolding q' recover_stuck_commands_def snd_conv
    by (rule queue_inv_update [OF inv]) (auto simp: row_inv_def)
qed (simp_all add: enqueue_inv claim_inv)

lemma reach_inv: "cmd_reach q0 q \<Longrightarrow> queue_inv q0 \<Longrightarrow> queue_inv q"
  by (induction rule: cmd_reach.induct) (auto intro: step_inv)

lemma queue_inv_empty [simp]: "queue_inv empty_queue"
  by (simp add: queue_inv_def empty_queue_def)

section \<open>Commands are never lost and terminal rows never change\<close>

definition terminal :: "command \<Rightarrow> bool" where
  "terminal r \<longleftrightarrow> cm_status r \<in> {SUCCEEDED, DEAD_LETTER}"

lemma find_append_Some: "find P xs = Some x \<Longrightarrow> find P (xs @ ys) = Some x"
  by (induction xs) (auto split: if_splits)

lemma step_keeps:
  assumes "cmd_step q q'" "queue_inv q" "find_cmd i q = Some r"
  shows "\<exists>r'. find_cmd i q' = Some r' \<and> cm_payload r' = cm_payload r \<and> cm_key r' = cm_key r
     \<and> cm_attempts r \<le> cm_attempts r' \<and> (terminal r \<longrightarrow> r' = r)"
proof -
  have row: "r \<in> set (cq_rows q)" "cm_id r = i" using assms(3) by (auto simp: find_cmd_def find_Some_iff)
  have only: "r1 = r" if "r1 \<in> set (cq_rows q)" "cm_id r1 = i" for r1
    using row_unique [OF assms(2) that(1) row(1)] that(2) row(2) by simp
  show ?thesis
    using assms(1)
  proof cases
    case (enqueue ty p key)
    then show ?thesis
      by (cases rule: enqueue_cases [of ty p key q])
        (use assms(3) find_append_Some [of "\<lambda>r. cm_id r = i" "cq_rows q" r] in \<open>auto simp: find_cmd_def\<close>)
  next
    case (claim worker n)
    have "cm_id r \<in> cm_id ` set (take n (filter pending (cq_rows q))) \<Longrightarrow> pending r"
      using only row(2) by (auto dest!: in_set_takeD)
    then show ?thesis unfolding claim claim_commands_def Let_def snd_conv
      by (subst find_cmd_update) (auto simp: assms(3) terminal_def pending_def)
  next
    case (complete j)
    then have "j = i \<Longrightarrow> cm_status r = CLAIMED" using only by (auto simp: is_claimed_def)
    then show ?thesis unfolding complete complete_command_def
      by (subst find_cmd_update) (auto simp: assms(3) terminal_def row(2))
  next
    case (failed j err)
    then have "j = i \<Longrightarrow> cm_status r = CLAIMED" using only by (auto simp: is_claimed_def)
    then show ?thesis unfolding failed fail_command_def Let_def
      by (subst find_cmd_update) (auto simp: assms(3) terminal_def row(2))
  next
    case restart
    then show ?thesis unfolding restart recover_stuck_commands_def snd_conv
      by (subst find_cmd_update) (auto simp: assms(3) terminal_def)
  qed
qed

lemma reach_keeps:
  "cmd_reach q q' \<Longrightarrow> queue_inv q \<Longrightarrow> find_cmd i q = Some r \<Longrightarrow>
   \<exists>r'. find_cmd i q' = Some r' \<and> cm_payload r' = cm_payload r \<and> cm_key r' = cm_key r \<and> cm_attempts r \<le> cm_attempts r' \<and> (terminal r \<longrightarrow> r' = r)"
proof (induction rule: cmd_reach.induct)
  case (onward q0 q q')
  then obtain r1 where r1: "find_cmd i q = Some r1" "cm_payload r1 = cm_payload r" "cm_key r1 = cm_key r" "cm_attempts r \<le> cm_attempts r1"
    "terminal r \<longrightarrow> r1 = r" by blast
  from step_keeps [OF onward.hyps(2) reach_inv [OF onward.hyps(1) onward.prems(1)] r1(1)] r1 show ?case by fastforce
qed auto

lemma reach_trans: "cmd_reach b c \<Longrightarrow> cmd_reach a b \<Longrightarrow> cmd_reach a c"
  by (induction rule: cmd_reach.induct) (auto intro: cmd_reach.onward)

text \<open>Everything that is pending is handed out when the batch is large enough.\<close>

lemma claim_all:
  assumes "queue_inv q" "length (filter pending (cq_rows q)) \<le> n" "find_cmd i q = Some r" "pending r"
  shows "(i, cm_payload r) \<in> set (fst (claim_commands worker n q))
    \<and> (\<exists>r'. find_cmd i (snd (claim_commands worker n q)) = Some r' \<and> cm_status r' = CLAIMED)"
proof -
  have r: "r \<in> set (cq_rows q)" "cm_id r = i" using assms(3) by (auto simp: find_cmd_def find_Some_iff)
  then have "r \<in> set (take n (filter pending (cq_rows q)))" using assms(2,4) by simp
  then show ?thesis using r unfolding claim_commands_def Let_def fst_conv snd_conv
    by (subst find_cmd_update) (auto simp: assms(3) image_iff)
qed

lemma enqueue_row:
  assumes "enqueue_command ty p key q = (Some i, q1)" "queue_inv q"
  shows "\<exists>r. find_cmd i q1 = Some r \<and> cm_key r = key
    \<and> (key = None \<or> (\<forall>x\<in>set (cq_rows q). cm_key x \<noteq> key) \<longrightarrow> cm_payload r = p \<and> cm_status r = CREATED)"
proof (cases rule: enqueue_cases [of ty p key q])
  case (fresh row)
  have "queue_inv q1" using enqueue_inv [OF assms(2), of ty p key] assms(1) by simp
  moreover have "row \<in> set (cq_rows q1)" "cm_id row = i" using fresh(1,2) assms(1) by auto
  ultimately show ?thesis using find_cmd_row [of q1 row] fresh(3,4,6) by auto
next
  case (known r)
  from known(1,4) assms(1) have q1: "q1 = q" by simp
  have "key \<noteq> Some []"
    using assms(1) known(2,3) by (auto simp: enqueue_command_def Let_def find_None_iff split: option.splits)
  then have "cm_id r = i" using known(5) assms(1) by simp
  then show ?thesis using find_cmd_row [OF assms(2) known(2)] known(1-3) q1 by auto
qed

lemma recovered_pending:
  assumes "queue_inv q" "find_cmd i q = Some r" "\<not> terminal r"
  shows "\<exists>r'. find_cmd i (snd (recover_stuck_commands q)) = Some r' \<and> pending r' \<and> cm_payload r' = cm_payload r"
proof -
  have "row_inv r" using assms(1,2) by (auto simp: queue_inv_def find_cmd_def find_Some_iff)
  then have "cm_status r \<in> {CREATED, CLAIMED, RETRYING}" using assms(3)
    by (cases "cm_status r") (auto simp: row_inv_def terminal_def)
  then show ?thesis unfolding recover_stuck_commands_def snd_conv
    by (subst find_cmd_update) (auto simp: assms(2) pending_def)
qed

lemma recover_rows: "length (cq_rows (snd (recover_stuck_commands q))) = length (cq_rows q)"
  by (simp add: recover_stuck_commands_def update_cmd_def)

lemma same_key_same_row:
  assumes inv: "queue_inv q" and r: "r \<in> set (cq_rows q)" "cm_key r = Some k"
  shows "find (\<lambda>r. cm_key r = Some k) (cq_rows q) = Some r"
proof -
  obtain r' where f: "find (\<lambda>r. cm_key r = Some k) (cq_rows q) = Some r'"
    using r by (cases "find (\<lambda>r. cm_key r = Some k) (cq_rows q)") (auto simp: find_None_iff)
  then have r': "r' \<in> set (cq_rows q)" "cm_key r' = Some k" by (auto simp: find_Some_iff)
  have "inj_on cm_key (set (filter (\<lambda>r. cm_key r \<noteq> None) (cq_rows q)))"
    using inv unfolding queue_inv_def distinct_map by blast
  from inj_onD [OF this, of r' r] r r' f show ?thesis by simp
qed

end
