(* ===== verification/Demo.thy ===== *)
theory Demo
  imports Recovery Sizing Commands
begin

text \<open>
  Concrete values at which the properties are instantiated: an instrument, a decision, the
  simulated broker in each of its scenarios, and worlds in paper and in live mode.
\<close>

definition demo_instrument :: instrument where
  "demo_instrument = \<lparr>in_token = Some 408065, in_symbol = Some ''INFY'', in_exchange = Some ''NSE'',
     in_lot = Some 1, in_type = Some ''EQ'', in_tick = None, in_expiry = None\<rparr>"

definition demo_decision :: "int \<Rightarrow> decision" where
  "demo_decision q = \<lparr>d_corr = ''c1'', d_sleeve = ''intraday'', d_instrument = demo_instrument,
     d_side = BUY, d_qty = q, d_order_type = ''MARKET'', d_entry = 100, d_stop = 98, d_target = 104,
     d_product = ''MIS'', d_r = 1, d_confidence = 1 / 2, d_signal = None\<rparr>"

definition demo_env :: "mock env" where
  "demo_env = \<lparr>e_api = mock_api, e_costs = Map.empty, e_slip = 0,
     e_instrument = (\<lambda>t. if t = 408065 then Some demo_instrument else None),
     e_square_off = (\<lambda>_. None),
     e_dyn = (\<lambda>_. \<lparr>dc_breakeven = 1, dc_lock = 1 / 2, dc_giveback = 0\<rparr>),
     e_clip = 0, e_stop_type = ''MARKET'', e_fno_live = False, e_cooldown_min = 0,
     e_today = 0, e_clock = 600, e_mono = 0, e_now = ''10:00''\<rparr>"

definition demo_world :: "string \<Rightarrow> scenario \<Rightarrow> mock world" where
  "demo_world m sc = \<lparr>w_config = [''execution_mode'' \<mapsto> JStr m], w_book = empty_book,
     w_guards = empty_mgr, w_broker = init_mock sc 100, w_cooldown = Map.empty, w_persist = Map.empty\<rparr>"

lemma mock_ok_init [simp]: "mock_ok (init_mock sc px)"
  by (simp add: mock_ok_def init_mock_def)

lemma mock_quiet_init [simp]: "ms.quiet (init_mock sc px)"
  by (simp add: ms.quiet_def dom_def mock_qty_def init_mock_def)

lemma demo_world_fields [simp]:
  "w_broker (demo_world m sc) = init_mock sc 100" "w_book (demo_world m sc) = empty_book"
  "w_guards (demo_world m sc) = empty_mgr" "w_config (demo_world m sc) = [''execution_mode'' \<mapsto> JStr m]"
  "e_api demo_env = mock_api"
  by (simp_all add: demo_world_def demo_env_def)

lemma demo_mode [simp]:
  "current_mode demo_env (demo_world LIVE sc) = LIVE"
  "current_mode demo_env (demo_world PAPER sc) = PAPER"
  by (simp_all add: current_mode_def load_runtime_mode_def get_state_def derive_for_mode_def Let_def)

text \<open>A broker whose order placement always raises.\<close>

definition lossy_env :: "mock env" where
  "lossy_env = demo_env\<lparr>e_api := mock_api\<lparr>api_place := (\<lambda>r b. (None, b))\<rparr>\<rparr>"

text \<open>The world after an entry of ten shares, in paper and in live mode.\<close>

definition demo_entered :: "string \<Rightarrow> scenario \<Rightarrow> mock world" where
  "demo_entered m sc = snd (execute demo_env (demo_decision 10) None (demo_world m sc))"

lemma demo_row: "\<exists>r. find_row 1 (w_book (demo_entered LIVE Complete)) = Some r \<and> pos_status r = Open \<and> row_qty r = 10"
proof -
  have "case find_row 1 (w_book (demo_entered LIVE Complete)) of None \<Rightarrow> False
    | Some r \<Rightarrow> pos_status r = Open \<and> row_qty r = 10"
    by code_simp
  then show ?thesis by (simp split: option.splits)
qed

lemma demo_entered_mode: "current_mode demo_env (demo_entered LIVE Complete) = LIVE"
  by code_simp

text \<open>A request for a share at 500 with a stop at 490, one percent of a lakh at full confidence.\<close>

definition demo_request :: position_request where
  "demo_request = \<lparr>capital = 100000, per_trade_risk_pct = 1, per_instrument_cap_pct = 20,
     entry_price = 500, stop_price = 490, req_lot = 1, kind = EQUITY, confidence = 1,
     sleeve_remaining_capital = Some 50000, portfolio_remaining_r = Some 3000,
     margin_available = None, margin_per_unit = None, min_risk_utilization = 0\<rparr>"

definition demo_guard :: guard where
  "demo_guard = \<lparr>g_id = 1, g_side = BUY, g_entry = 100, g_stop = 98, g_target = 104, g_token = 7,
     trail_distance = Some 3, square_off = Some 915, high_water = 0, breakeven_at_r = 1,
     lock_trigger_frac = 1 / 2, max_giveback_frac = 1 / 4, init_risk = 2, best_gain = 0\<rparr>"

text \<open>An option table with two strikes, a world for structures, and a bull call spread.\<close>

definition demo_senv :: "mock senv" where
  "demo_senv = \<lparr>se_env = demo_env,
     se_exits = \<lparr>ex_target_fraction = None, ex_stop_fraction = None, ex_fill_overrun = None, ex_max_spread = None,
       ex_close_overrun = None, ex_max_retries = Some 2, ex_no_mark_before = None, ex_credit_min_dte = None,
       ex_credit_max_days = None, ex_min_dte = None, ex_max_days = None\<rparr>,
     se_options = [\<lparr>op_token = 11, op_symbol = ''N100CE'', op_name = ''NIFTY'', op_expiry = Some 30, op_strike = 100, op_type = ''CE''\<rparr>,
       \<lparr>op_token = 12, op_symbol = ''N110CE'', op_name = ''NIFTY'', op_expiry = Some 30, op_strike = 110, op_type = ''CE''\<rparr>]\<rparr>"

definition demo_sworld :: "mock sworld" where
  "demo_sworld = \<lparr>w_config = [''execution_mode'' \<mapsto> JStr PAPER], w_book = empty_book,
     w_guards = empty_mgr, w_broker = init_mock Complete 100, w_cooldown = Map.empty, w_persist = Map.empty,
     w_structs = empty_smgr\<rparr>"

definition demo_plan :: structure_plan where
  "demo_plan = \<lparr>pl_type = ''debit_spread'', pl_legs = Vertical_Legs ''CE'' 100 110, pl_max_loss_per_lot = 500\<rparr>"

definition demo_legs :: "leg list" where
  "demo_legs = [\<lparr>lg_pid = 1, lg_token = 11, lg_symbol = None, lg_side = BUY, lg_qty = 50, lg_entry = 8, lg_fees = 0\<rparr>,
     \<lparr>lg_pid = 2, lg_token = 12, lg_symbol = None, lg_side = SELL, lg_qty = 50, lg_entry = 3, lg_fees = 0\<rparr>]"

definition demo_q1 :: cmd_queue where
  "demo_q1 = snd (enqueue_command ''close'' [] (Some ''k1'') empty_queue)"

end
