(* ===== verification/Orchestrator_Facts.thy ===== *)
theory Orchestrator_Facts
  imports Orchestrator Risk_Limits Demo
begin

text \<open>
  What the decision chain guarantees from the signal to the book: the stages after sizing can only
  refuse or shrink, and the entry it books keeps the limits the risk engine checked.
\<close>

section \<open>The book after an entry\<close>

abbreviation book_positions :: "book \<Rightarrow> position list" where
  "book_positions bk \<equiv> map position.truncate (rows bk)"

lemma book_positions_update:
  "(\<And>r. position.truncate (f r) = position.truncate r) \<Longrightarrow> book_positions (update_rows i f bk) = book_positions bk"
  by (simp add: update_rows_def comp_def if_distrib cong: if_cong)

lemma book_positions_attach [simp]: "book_positions (attach_bracket i br bk) = book_positions bk"
  by (simp add: attach_bracket_def book_positions_update position.truncate_def)

lemma book_positions_record [simp]: "book_positions (record_bracket i g t lo hi bk) = book_positions bk"
  by (simp add: record_bracket_def)

lemma book_positions_persist [simp]: "book_positions (persist_order_fill d f m st oid bk) = book_positions bk"
  by (simp add: persist_order_fill_def)

lemma create_bracket_positions [simp]:
  "book_positions (w_book (snd (create_bracket env d f i m w))) = book_positions (w_book w)"
  by (auto simp: create_bracket_def Let_def split: prod.splits option.splits)

lemma open_position_positions:
  "\<exists>p. book_positions (snd (open_position acct d f m bk)) = book_positions bk @ [p] \<and> pos_r p = Some (d_r d) \<and> pos_status p = Open
     \<and> position.sleeve p = Some (d_sleeve d) \<and> qty p = Some (f_qty f) \<and> mode p = m"
  by (simp add: open_position_def Let_def position.truncate_def)

text \<open>An entry adds one position at most, and that position carries the decision's R.\<close>

definition added_position :: "decision \<Rightarrow> book \<Rightarrow> book \<Rightarrow> bool" where
  "added_position d bk bk' \<longleftrightarrow> book_positions bk' = book_positions bk
     \<or> (\<exists>p. book_positions bk' = book_positions bk @ [p] \<and> pos_r p = Some (d_r d) \<and> position.sleeve p = Some (d_sleeve d))"

lemma entry_tail_positions:
  assumes "open_position acct d f m (w_book w) = (i, bk)" "create_bracket env d f i m (w1\<lparr>w_book := persist_order_fill d f m st oid bk\<rparr>) = (br, w2)"
  shows "added_position d (w_book w) (w_book w2)"
  using open_position_positions [of acct d f m "w_book w"] assms
    create_bracket_positions [of env d f i m "w1\<lparr>w_book := persist_order_fill d f m st oid bk\<rparr>"]
  by (auto simp: added_position_def)

lemma settle_live_positions: "added_position d (w_book w) (w_book (snd (settle_live env d s w)))"
proof (cases "0 < cs_filled s")
  case True
  let ?avg = "py_round 2 (cs_notional s / of_int (cs_filled s))"
  let ?f = "\<lparr>f_qty = cs_filled s, f_price = ?avg,
      f_fees = compute_leg (e_costs env) (segment_key (d_sleeve d) (in_type (d_instrument d))) (d_side d) (cs_filled s) ?avg\<rparr>"
  obtain i bk where o: "open_position (active_account env w) d ?f LIVE (w_book w) = (i, bk)" by fastforce
  show ?thesis
    using True entry_tail_positions [OF o, where ?w1.0 = w]
    by (auto simp: settle_live_def Let_def o flag_unsafe_entry_def split: prod.splits)
next
  case False
  then show ?thesis by (simp add: settle_live_def Let_def added_position_def flag_unsafe_entry_def)
qed

lemma execute_positions: "execute env d force w = (res, w') \<Longrightarrow> added_position d (w_book w) (w_book w')"
proof (erule execute_cases)
  fix why show "w' = w \<Longrightarrow> added_position d (w_book w) (w_book w')" by (simp add: added_position_def)
next
  assume "execute_live env d w = (res, w')"
  then show "added_position d (w_book w) (w_book w')"
    using settle_live_positions [of d "w\<lparr>w_broker := b\<rparr>" env s for b s]
    by (auto simp: execute_live_def added_position_def split: if_splits prod.splits) (metis snd_conv)+
next
  assume "execute_sim env d force w = (res, w')"
  then show "added_position d (w_book w) (w_book w')"
    using entry_tail_positions [where ?w1.0 = "w\<lparr>w_broker := b\<rparr>" and w = w for b]
    by (auto simp: execute_sim_def added_position_def Let_def split: prod.splits option.splits)
qed
lemma total_open_r_added:
  assumes "added_position d bk bk'"
  shows "total_open_r (scoped_positions re st bk') \<le> total_open_r (scoped_positions re st bk)
      \<or> total_open_r (scoped_positions re st bk') = total_open_r (scoped_positions re st bk) + d_r d"
    and "length (rows bk') \<le> length (rows bk) + 1"
proof -
  have sc: "scoped_positions re st b = filter (\<lambda>p. where_clause (position_scope (load_runtime_mode (re_now re) st)) p \<and> pos_status p = Open)
      (book_positions b)" for b
    by (simp add: scoped_positions_def open_positions_def filter_map comp_def position.truncate_def conj_commute)
  show "total_open_r (scoped_positions re st bk') \<le> total_open_r (scoped_positions re st bk)
      \<or> total_open_r (scoped_positions re st bk') = total_open_r (scoped_positions re st bk) + d_r d"
    using assms unfolding added_position_def sc by (auto simp: total_open_r_def py_or_def truthy_def)
  show "length (rows bk') \<le> length (rows bk) + 1"
    using assms [unfolded added_position_def] by - (elim disjE exE conjE; drule arg_cong [where f = length]; simp)
qed

section \<open>Shrinking\<close>

lemma downsized_qty_le:
  assumes "0 \<le> n" "d \<le> 1"
  shows "downsized_qty n lot d \<le> n"
proof (cases "d < 1")
  case True
  have le: "of_int n * d \<le> (of_int n :: real)" using assms by (simp add: mult_left_le)
  show ?thesis
  proof (cases "1 < lot")
    case lot: True
    have "of_int (\<lfloor>of_int n * d / of_int lot\<rfloor> * lot) \<le> of_int n * d / of_int lot * of_int lot"
      unfolding of_int_mult using lot by (intro mult_right_mono) auto
    also have "\<dots> \<le> of_int n" using lot le by simp
    finally show ?thesis using lot True by (simp add: downsized_qty_def Let_def flip: of_int_mult)
  next
    case False
    then show ?thesis using True le by (simp add: downsized_qty_def Let_def floor_le_iff)
  qed
qed (simp add: downsized_qty_def)

lemma downsized_qty_dvd: "lot dvd n \<Longrightarrow> 0 < lot \<Longrightarrow> lot dvd downsized_qty n lot d"
  by (cases "lot = 1") (auto simp: downsized_qty_def Let_def)

lemma downsized_lots_le:
  assumes "1 \<le> n" "d \<le> 1"
  shows "1 \<le> downsized_lots n d" "downsized_lots n d \<le> n"
proof -
  have "of_int n * d \<le> (of_int n :: real)" using assms by (simp add: mult_left_le)
  from round_half_even_mono [OF this] show "1 \<le> downsized_lots n d" "downsized_lots n d \<le> n"
    using assms by (auto simp: downsized_lots_def)
qed

section \<open>What acted\<close>

text \<open>The chain ends without an action, or in one of the two stages on an accepted size.\<close>

lemma chain_cases:
  assumes "chain oc se re sl ins x corr sid force reply r (w, rs) = (o1, w', rs')"
  obtains (idle) "w' = w" "\<And>d res. o1 \<noteq> Some (Or_Order d res)" "\<And>res n. o1 \<noteq> Some (Or_Structure res n)"
  | (order) s sized where "pr_pass r" "conf_passes (oc_confidence oc) (chain_confidence oc sl x r)" "pr_signal r = Some s"
      "risk_size re (si_entry s) (si_stop s) ins sl (chain_confidence oc sl x r) (get_default (si_side s) SELL) (w_config w) (w_book w) rs = (sized, rs')"
      "\<not> rejected sized" "\<not> v_veto (llm_assess reply)"
      "order_stage oc se sl ins corr sid force (chain_confidence oc sl x r) s sized (llm_assess reply) w = (the o1, w')" "o1 \<noteq> None"
  | (struct) s sized pl where "pr_pass r" "conf_passes (oc_confidence oc) (chain_confidence oc sl x r)" "pr_signal r = Some s"
      "sl = ''fno''" "sd_structure (si_detail s) = Some pl"
      "risk_size_structure re (get_default (sd_max_loss (si_detail s)) 0) (get_default (sd_lot (si_detail s)) 1) sl (chain_confidence oc sl x r)
         None (in_symbol ins) (ox_expiry x) (Some pl) (w_config w) (w_book w) rs = (sized, rs')"
      "\<not> rejected sized" "\<not> v_veto (llm_assess reply)"
      "structure_stage se ins corr sid x pl sized (llm_assess reply) w = (the o1, w')" "o1 \<noteq> None"
proof -
  let ?c = "chain_confidence oc sl x r"
  show ?thesis
  proof (cases "persist_signal ?c r \<and> pr_pass r \<and> conf_passes (oc_confidence oc) ?c \<and> pr_signal r \<noteq> None")
    case False
    with assms show ?thesis by (intro idle) (auto simp: chain_def Let_def split: if_splits option.splits)
  next
    case True
    then obtain s where s: "pr_pass r" "conf_passes (oc_confidence oc) ?c" "pr_signal r = Some s"
      and stored: "persist_signal ?c r" by blast
    show ?thesis
    proof (cases "sl = ''fno''")
      case fno: True
      obtain sized rs1 where z: "risk_size_structure re (get_default (sd_max_loss (si_detail s)) 0) (get_default (sd_lot (si_detail s)) 1) sl ?c
         None (in_symbol ins) (ox_expiry x) (sd_structure (si_detail s)) (w_config w) (w_book w) rs = (sized, rs1)" by fastforce
      show ?thesis
      proof (cases "rejected sized \<or> v_veto (llm_assess reply) \<or> sd_structure (si_detail s) = None")
        case True
        with assms s stored fno z show ?thesis by (intro idle) (auto simp: chain_def Let_def split: if_splits)
      next
        case False
        then obtain pl where pl: "sd_structure (si_detail s) = Some pl" by blast
        with False z have z': "\<not> rejected sized" "\<not> v_veto (llm_assess reply)"
          "risk_size_structure re (get_default (sd_max_loss (si_detail s)) 0) (get_default (sd_lot (si_detail s)) 1) sl ?c
             None (in_symbol ins) (ox_expiry x) (Some pl) (w_config w) (w_book w) rs = (sized, rs1)" by simp_all
        obtain o2 w2 where st: "structure_stage se ins corr sid x pl sized (llm_assess reply) w = (o2, w2)" by fastforce
        from assms s stored fno z'(1,2) z'(3) [unfolded fno] pl st [unfolded fno] have "o1 = Some o2 \<and> w' = w2 \<and> rs' = rs1"
          by (simp add: chain_def Let_def)
        with st show ?thesis by (intro struct [OF s fno pl]) (simp_all add: z')
      qed
    next
      case eq: False
      obtain sized rs1 where z: "risk_size re (si_entry s) (si_stop s) ins sl ?c (get_default (si_side s) SELL) (w_config w) (w_book w) rs = (sized, rs1)"
        by fastforce
      obtain o2 w2 where st: "order_stage oc se sl ins corr sid force ?c s sized (llm_assess reply) w = (o2, w2)" by fastforce
      show ?thesis
      proof (cases "rejected sized \<or> v_veto (llm_assess reply)")
        case True
        with assms s stored eq z show ?thesis by (intro idle) (auto simp: chain_def Let_def split: if_splits)
      next
        case False
        with assms s stored eq z st have "o1 = Some o2 \<and> w' = w2 \<and> rs' = rs1" by (simp add: chain_def Let_def)
        with False z st show ?thesis by (intro order [OF s]) simp_all
      qed
    qed
  qed
qed

text \<open>The order stage: it skips, or executes at most the sized quantity in whole lots.\<close>

lemma order_stage_cases:
  assumes "order_stage oc se sl ins corr sid force conf s sized v w = (o1, w')"
    and "0 \<le> v_downsize v" "v_downsize v \<le> 1" "lot_size sized = instrument_lot ins" "instrument_lot ins \<le> quantity sized"
    "0 < quantity sized" "1 < instrument_lot ins \<longrightarrow> instrument_lot ins dvd quantity sized"
  obtains (skip) why where "o1 = Or_Skip why" "w' = w"
  | (act) d res where "o1 = Or_Order d res" "execute (se_env se) d force w = (res, w')"
      "d = chain_decision sl ins corr sid conf (d_qty d) s" "d_qty d \<le> quantity sized" "0 \<le> d_qty d"
      "0 < instrument_lot ins \<longrightarrow> instrument_lot ins dvd d_qty d \<and> instrument_lot ins \<le> d_qty d"
proof -
  let ?lot = "instrument_lot ins" and ?n = "downsized_qty (quantity sized) (instrument_lot ins) (v_downsize v)"
  have lot: "(if lot_size sized = 0 then 1 else lot_size sized) = ?lot"
    using assms(4) by (auto simp: instrument_lot_def py_or_def truthy_def split: option.splits)
  show ?thesis
  proof (cases "(v_downsize v < 1 \<and> ?n < ?lot) \<or> cost_edge_fails oc (e_costs (se_env se)) sl ins ?n s")
    case True
    with assms(1) have "(\<exists>why. o1 = Or_Skip why) \<and> w' = w" by (auto simp: order_stage_def lot Let_def split: if_splits)
    then show ?thesis using skip by blast
  next
    case False
    obtain res w2 where x: "execute (se_env se) (chain_decision sl ins corr sid conf ?n s) force w = (res, w2)" by fastforce
    have o1: "o1 = Or_Order (chain_decision sl ins corr sid conf ?n s) res" "w' = w2"
      using assms(1) False x by (auto simp: order_stage_def lot Let_def)
    have d: "d_qty (chain_decision sl ins corr sid conf ?n s) = ?n" by (simp add: chain_decision_def)
    have le: "?n \<le> quantity sized" using assms(3,6) by (intro downsized_qty_le) simp_all
    have nn: "0 \<le> ?n" using assms(2,6) by (auto simp: downsized_qty_def Let_def)
    have dvd: "?lot dvd ?n" if "0 < ?lot"
    proof (rule downsized_qty_dvd [OF _ that])
      show "?lot dvd quantity sized" using assms(7) that by (cases "?lot = 1") auto
    qed
    have "?lot \<le> ?n" using False assms(5) by (auto simp: downsized_qty_def)
    with le nn dvd show ?thesis by (intro act [OF o1(1)]) (simp_all add: o1 x d)
  qed
qed
section \<open>Demonstration values\<close>

definition demo_orch_cfg :: orch_cfg where
  "demo_orch_cfg = \<lparr>oc_confidence = \<lparr>cf_weights = Map.empty, cf_default = 1, cf_min = 1 / 2\<rparr>, oc_labeler = None, oc_cost_fraction = None\<rparr>"

definition demo_octx :: orch_ctx where
  "demo_octx = \<lparr>ox_ctx = Cx_Intraday demo_ictx 1 0, ox_hour = 10, ox_weekday = 2, ox_expiry = None, ox_lot = 1\<rparr>"

definition demo_pass :: pipeline_result where
  "demo_pass = pl_accept \<lparr>si_sleeve = ''intraday_stocks'', si_instrument = demo_stock, si_side = Some BUY, si_setup = ''orb'',
     si_entry = 100, si_stop = 98, si_target = 104, si_detail = no_detail\<rparr> [\<lparr>g_name = ''setup'', g_passed = True, g_score = 1\<rparr>]"

definition demo_half :: llm_reply where
  "demo_half = Llm_Data (Some False) (Some (Some (1 / 2))) ''caution''"

definition demo_chain :: "orch_result option \<times> mock sworld \<times> risk_state" where
  "demo_chain = chain demo_orch_cfg demo_senv demo_risk_env ''intraday_stocks'' demo_stock demo_octx ''c1'' None None demo_half demo_pass
     (demo_sworld, demo_risk_state)"

lemma demo_conf: "chain_confidence demo_orch_cfg sl x demo_pass = 1"
  by (simp add: chain_confidence_def Let_def demo_orch_cfg_def demo_pass_def pl_accept_def conf_score_def gate_weight_def py_round_def
      round_half_even_def)

definition demo_sized :: "sizing_result \<times> risk_state" where
  "demo_sized = risk_size demo_risk_env 100 98 demo_stock ''intraday_stocks'' 1 BUY (w_config demo_sworld) (w_book demo_sworld) demo_risk_state"

definition demo_pass_signal :: signal where
  "demo_pass_signal = the (pr_signal demo_pass)"

definition demo_order :: "orch_result \<times> mock sworld" where
  "demo_order = order_stage demo_orch_cfg demo_senv ''intraday_stocks'' demo_stock ''c1'' None None 1 demo_pass_signal (fst demo_sized)
     (llm_assess demo_half) demo_sworld"

lemma demo_chain_unfold: "demo_chain = (Some (fst demo_order), snd demo_order, snd demo_sized)"
proof -
  have "\<not> rejected (fst demo_sized) \<and> \<not> v_veto (llm_assess demo_half) \<and> pr_pass demo_pass" by code_simp
  moreover have "pr_signal demo_pass = Some demo_pass_signal \<and> si_entry demo_pass_signal = 100 \<and> si_stop demo_pass_signal = 98
      \<and> get_default (si_side demo_pass_signal) SELL = BUY"
    by (simp add: demo_pass_signal_def demo_pass_def pl_accept_def)
  moreover have "conf_passes (oc_confidence demo_orch_cfg) 1" by (simp add: conf_passes_def demo_orch_cfg_def)
  moreover have "persist_signal 1 demo_pass" by (simp add: persist_signal_def demo_pass_def pl_accept_def)
  ultimately show ?thesis
    by (simp add: demo_chain_def chain_def Let_def demo_conf demo_sized_def [symmetric] demo_order_def case_prod_beta split: option.splits)
qed

lemma demo_chain_acts:
  "(case fst demo_chain of Some (Or_Order d res) \<Rightarrow> d_qty d = 1000 | _ \<Rightarrow> False) \<and> length (rows (w_book (fst (snd demo_chain)))) = 1"
  unfolding demo_chain_unfold fst_conv snd_conv by code_simp

section \<open>Properties\<close>



text \<open>C6. The limit the risk engine checked still holds once the order is booked. When the chain sends an
  order, the book gains one position at most, and the open R of the namespace it was sized in,
  counted over the book after the execution, is within the portfolio limit up to half a paisa of
  rounding.\<close>
theorem booked_entry_keeps_the_open_risk_limit:
  assumes "chain oc se re sl ins x corr sid force reply r (w, rs) = (Some (Or_Order d res), w', rs')"
  shows "total_open_r (scoped_positions re (w_config w) (w_book w'))
      \<le> rc_portfolio_limit (re_cfg re) / 100 * fst (read_capital re (w_config w) (w_book w) rs) + 1 / 200
    \<and> length (rows (w_book w')) \<le> length (rows (w_book w)) + 1"
  using assms
proof (cases rule: chain_cases)
  case idle
  then show ?thesis by blast
next
  case (order s sized)
  note size = entry_open_r [OF order(4,5)]
  have act: "execute (se_env se) d force w = (res, w')" "d = chain_decision sl ins corr sid (chain_confidence oc sl x r) (d_qty d) s"
    "d_qty d \<le> quantity sized"
    by (rule order_stage_cases [OF order(7) llm_downsize_unit [THEN conjunct1] llm_downsize_unit [THEN conjunct2] size(4,6,3,5)];
        force)+
  from act(2) have "d_r d = py_round 2 (of_int (d_qty d) * \<bar>si_entry s - si_stop s\<bar>)"
    by (rule ssubst [where P = "\<lambda>e. d_r e = py_round 2 (of_int (d_qty d) * \<bar>si_entry s - si_stop s\<bar>)"])
      (simp add: chain_decision_def)
  moreover have "py_round 2 (of_int (d_qty d) * \<bar>si_entry s - si_stop s\<bar>) \<le> of_int (d_qty d) * \<bar>si_entry s - si_stop s\<bar> + 1 / 200"
    using py_round_error [of 2 "of_int (d_qty d) * \<bar>si_entry s - si_stop s\<bar>", unfolded abs_le_iff] by simp
  moreover have "of_int (d_qty d) * \<bar>si_entry s - si_stop s\<bar> \<le> actual_risk sized"
      unfolding size(2) using act by (intro mult_right_mono) auto
  ultimately have "d_r d \<le> actual_risk sized + 1 / 200" by simp
  moreover have "0 \<le> actual_risk sized" unfolding size(2) using size(3) by simp
  ultimately show ?thesis
    using total_open_r_added(1) [OF execute_positions [OF act(1)], of re "w_config w"]
      total_open_r_added(2) [OF execute_positions [OF act(1)]] size(1) by auto
next
  case struct
  then show ?thesis by (auto simp: structure_stage_def Let_def split: prod.splits)
qed

lemma booked_entry_keeps_the_open_risk_limit_witness:
  "length (rows (w_book (fst (snd demo_chain)))) = 1
   \<and> total_open_r (scoped_positions demo_risk_env (w_config demo_sworld) (w_book (fst (snd demo_chain)))) \<le> 60000 + 1 / 200"
proof -
  obtain o1 w' rs' where x: "demo_chain = (o1, w', rs')" by (rule prod_cases3)
  from demo_chain_acts obtain d res where "o1 = Some (Or_Order d res)" unfolding x by (auto split: option.splits orch_result.splits)
  with x have "demo_chain = (Some (Or_Order d res), w', rs')" by simp
  from booked_entry_keeps_the_open_risk_limit [OF this [unfolded demo_chain_def]]
  have "total_open_r (scoped_positions demo_risk_env (w_config demo_sworld) (w_book w'))
      \<le> rc_portfolio_limit (re_cfg demo_risk_env) / 100 * fst (read_capital demo_risk_env (w_config demo_sworld) (w_book demo_sworld) demo_risk_state) + 1 / 200"
    by (rule conjunct1)
  moreover have "rc_portfolio_limit (re_cfg demo_risk_env) / 100
      * fst (read_capital demo_risk_env (w_config demo_sworld) (w_book demo_sworld) demo_risk_state) = 60000" by code_simp
  ultimately show ?thesis using demo_chain_acts unfolding x by simp
qed

lemma build_structure_condor:
  assumes "build_structure erf cls x smax steps cmax = Some b"
  shows "pl_type (bt_plan b) = ''iron_condor'' \<longleftrightarrow> fx_direction x \<noteq> ''bullish'' \<and> fx_direction x \<noteq> ''bearish''"
  using assms by (auto simp: build_structure_def Let_def debit_built_def credit_built_def condor_built_def split: if_splits)

text \<open>C27. An iron condor is never opened. The option pipeline accepts one exactly when it has no directional
  view; its signal then carries no side the signal table admits, so storing it raises and the chain
  ends before sizing, whatever the configuration, the risk state and the model say.\<close>
theorem condor_is_never_opened:
  assumes "fno_evaluate erf today fp ins fx = Some r" "pr_pass r" "ox_ctx x = Cx_Fno fx"
  shows "\<exists>s pl. pr_signal r = Some s \<and> sd_structure (si_detail s) = Some pl
    \<and> (pl_type pl = ''iron_condor'' \<longleftrightarrow> fx_direction fx \<noteq> ''bullish'' \<and> fx_direction fx \<noteq> ''bearish'')
    \<and> (pl_type pl = ''iron_condor'' \<longrightarrow>
         orch_evaluate oc se re (engine_pipelines erf today ip sp fp) ''fno'' ins x corr sid force reply (w, rs) = (None, w, rs))"
  using assms(1,2)
proof (rule fno_evaluate_pass, goal_cases)
  case (1 gs)
  from 1(1) assms(2) show ?case
  proof (rule fno_market_pass, goal_cases)
    case (1 gs')
    from 1(1) assms(2) show ?case
    proof (rule fno_structure_pass, goal_cases)
      case (1 b)
      note ty = build_structure_condor [OF 1(1)]
      have "orch_evaluate oc se re (engine_pipelines erf today ip sp fp) ''fno'' ins x corr sid force reply (w, rs) = (None, w, rs)"
        if "pl_type (bt_plan b) = ''iron_condor''"
        using that ty 1(3) assms by (simp add: orch_evaluate_def engine_pipelines_def chain_def persist_signal_def fno_signal_def)
      with ty 1(3) show ?case by (intro exI [of _ "fno_signal ins fx b"] exI [of _ "bt_plan b"]) (simp add: fno_signal_def)
    qed
  qed
qed

definition demo_sparams :: swing_params where
  "demo_sparams = \<lparr>sp_cap = None, sp_roe = None, sp_rev = None, sp_eps = None, sp_debt = None, sp_adv = None,
     sp_require_uptrend = None, sp_event_action = None, sp_atr_multiple = None\<rparr>"

lemma condor_is_never_opened_witness:
  "orch_evaluate demo_orch_cfg demo_senv demo_risk_env (engine_pipelines demo_erf 0 demo_iparams demo_sparams demo_fparams) ''fno'' demo_index
     (demo_octx\<lparr>ox_ctx := Cx_Fno demo_fctx\<rparr>) ''c1'' None None demo_half (demo_sworld, demo_risk_state)
   = (None, demo_sworld, demo_risk_state)"
proof -
  obtain r where r: "fno_evaluate demo_erf 0 demo_fparams demo_index demo_fctx = Some r" "pr_pass r"
    using demo_fno_accepted by blast
  have d: "fx_direction demo_fctx \<noteq> ''bullish'' \<and> fx_direction demo_fctx \<noteq> ''bearish''" by (simp add: demo_fctx_def)
  have "ox_ctx (demo_octx\<lparr>ox_ctx := Cx_Fno demo_fctx\<rparr>) = Cx_Fno demo_fctx" by simp
  from condor_is_never_opened [OF r this, of demo_orch_cfg demo_senv demo_risk_env demo_iparams demo_sparams "''c1''" None None demo_half
      demo_sworld demo_risk_state] d
  show ?thesis by blast
qed

end
