(* ===== verification/Tick_Feed.thy ===== *)
theory Tick_Feed
  imports Demo
begin

text \<open>
  The fast loop: \<open>common/dataquality.py\<close> (the tick gate), \<open>common/tick_buffer.py\<close> (the bounded buffer of
  latest ticks) and \<open>make_on_ltp\<close> of \<open>engine/main.py\<close>, which drives the guards. A dictionary is an
  association list in insertion order; the order in which Python walks the set of position ids of a
  token is an argument. A price or token that does not convert is None; exceptions of a guard are
  caught in the loop.
\<close>

section \<open>The tick gate\<close>

datatype tick_check = Tick_Ok | Tick_Non_Positive | Tick_Stale | Tick_Bad_Quote | Tick_Crossed | Tick_Jump | Tick_Volume

definition validate_tick :: "rupees option \<Rightarrow> rupees option \<Rightarrow> real option \<Rightarrow> rupees option \<Rightarrow> rupees option \<Rightarrow> int option \<Rightarrow>
    real \<Rightarrow> real \<Rightarrow> tick_check" where
  "validate_tick price prev age bid ask volume max_age max_jump =
    (case price of None \<Rightarrow> Tick_Non_Positive
     | Some p \<Rightarrow>
       if p \<le> 0 then Tick_Non_Positive
       else if (case age of None \<Rightarrow> False | Some a \<Rightarrow> a > max_age) then Tick_Stale
       else let quote_check = (case (bid, ask) of
                (Some b, Some a) \<Rightarrow> if b \<le> 0 \<or> a \<le> 0 then Tick_Bad_Quote else if b > a then Tick_Crossed else Tick_Ok
              | _ \<Rightarrow> Tick_Ok)
            in if quote_check \<noteq> Tick_Ok then quote_check
               else if (case prev of None \<Rightarrow> False | Some q \<Rightarrow> q > 0 \<and> \<bar>p - q\<bar> / q > max_jump) then Tick_Jump
               else if (case volume of None \<Rightarrow> False | Some v \<Rightarrow> v < 0) then Tick_Volume
               else Tick_Ok)"

section \<open>The buffer\<close>

record ('k, 'v) tick_buffer =
  bf_max :: int
  bf_latest :: "('k \<times> 'v) list"
  bf_order :: "'k list"
  bf_coalesced :: nat
  bf_evicted :: nat

definition empty_buffer :: "int \<Rightarrow> ('k, 'v) tick_buffer" where
  "empty_buffer n = \<lparr>bf_max = n, bf_latest = [], bf_order = [], bf_coalesced = 0, bf_evicted = 0\<rparr>"

text \<open>None: the deque is empty and \<open>popleft\<close> raises.\<close>

definition put :: "'k \<Rightarrow> 'v \<Rightarrow> ('k, 'v) tick_buffer \<Rightarrow> ('k, 'v) tick_buffer option" where
  "put k v b =
    (if k \<in> fst ` set (bf_latest b)
     then Some (b\<lparr>bf_coalesced := bf_coalesced b + 1, bf_latest := upsert k v (bf_latest b)\<rparr>)
     else if int (length (bf_latest b)) \<ge> bf_max b
     then (case bf_order b of
             [] \<Rightarrow> None
           | oldest # ks \<Rightarrow> Some (b\<lparr>bf_latest := upsert k v (filter (\<lambda>e. fst e \<noteq> oldest) (bf_latest b)),
               bf_order := ks @ [k], bf_evicted := bf_evicted b + 1\<rparr>))
     else Some (b\<lparr>bf_order := bf_order b @ [k], bf_latest := upsert k v (bf_latest b)\<rparr>))"

definition drain :: "('k, 'v) tick_buffer \<Rightarrow> ('k \<times> 'v) list \<times> ('k, 'v) tick_buffer" where
  "drain b = (bf_latest b, b\<lparr>bf_latest := [], bf_order := []\<rparr>)"

fun put_batch :: "('k \<times> 'v) list \<Rightarrow> ('k, 'v) tick_buffer \<Rightarrow> ('k, 'v) tick_buffer option" where
  "put_batch [] b = Some b"
| "put_batch ((k, v) # ts) b = (case put k v b of None \<Rightarrow> None | Some b' \<Rightarrow> put_batch ts b')"

section \<open>The fast loop\<close>

text \<open>One message of the feed. The baseline of the jump check is the last price that was accepted.\<close>

type_synonym baseline = "token \<rightharpoonup> rupees"

definition fast_tick :: "'b env \<Rightarrow> (pid set \<Rightarrow> pid list) \<Rightarrow> baseline \<times> ('b, 'z) world_scheme \<Rightarrow> token \<times> rupees \<Rightarrow>
    baseline \<times> ('b, 'z) world_scheme" where
  "fast_tick env walk s tick = (case s of (lg, w) \<Rightarrow> case tick of (t, px) \<Rightarrow>
    (if validate_tick (Some px) (lg t) None None None None 30 (1 / 2) \<noteq> Tick_Ok then (lg, w)
     else (lg(t \<mapsto> px), foldl (\<lambda>w i. snd (on_price env i px w)) w (walk (for_token (w_guards w) t)))))"

definition converted :: "(token option \<times> rupees option) list \<Rightarrow> (token \<times> rupees) list" where
  "converted items = concat (map (\<lambda>e. case e of (Some t, Some p) \<Rightarrow> [(t, p)] | _ \<Rightarrow> []) items)"

definition on_ltp :: "'b env \<Rightarrow> (pid set \<Rightarrow> pid list) \<Rightarrow> (token option \<times> rupees option) list \<Rightarrow>
    (token, rupees) tick_buffer \<times> baseline \<times> ('b, 'z) world_scheme \<Rightarrow>
    (token, rupees) tick_buffer \<times> baseline \<times> ('b, 'z) world_scheme" where
  "on_ltp env walk items s = (case s of (b, lg, w) \<Rightarrow>
    (case put_batch (converted items) b of
       None \<Rightarrow> (b, lg, w)
     | Some b1 \<Rightarrow> (case drain b1 of (ticks, b2) \<Rightarrow> (b2, foldl (fast_tick env walk) (lg, w) ticks))))"

section \<open>The buffer keeps the latest tick of each symbol\<close>

lemma put_all_append: "put_batch (ts @ us) b = Option.bind (put_batch ts b) (put_batch us)"
proof (induction ts arbitrary: b)
  case (Cons t ts)
  then show ?case by (cases t) (auto split: option.split)
qed simp

lemma upsert_new: "k \<notin> fst ` set ps \<Longrightarrow> upsert k v ps = ps @ [(k, v)]"
  by (induction k v ps rule: upsert.induct) auto

lemma upsert_keys: "k \<in> fst ` set ps \<Longrightarrow> map fst (upsert k v ps) = map fst ps"
  by (induction k v ps rule: upsert.induct) auto

definition buffer_inv :: "('k, 'v) tick_buffer \<Rightarrow> bool" where
  "buffer_inv b \<longleftrightarrow> 1 \<le> bf_max b \<and> bf_order b = map fst (bf_latest b) \<and> distinct (map fst (bf_latest b))
     \<and> int (length (bf_latest b)) \<le> bf_max b"

lemma put_cases:
  assumes "buffer_inv b"
  obtains (coalesce) b' where "put k v b = Some b'" "k \<in> fst ` set (bf_latest b)" "bf_latest b' = upsert k v (bf_latest b)"
      "bf_coalesced b' = bf_coalesced b + 1" "bf_evicted b' = bf_evicted b"
  | (evict) b' e es where "put k v b = Some b'" "k \<notin> fst ` set (bf_latest b)" "bf_latest b = e # es" "bf_latest b' = es @ [(k, v)]"
      "bf_coalesced b' = bf_coalesced b" "bf_evicted b' = bf_evicted b + 1" "int (length (bf_latest b)) = bf_max b"
  | (add) b' where "put k v b = Some b'" "k \<notin> fst ` set (bf_latest b)" "bf_latest b' = bf_latest b @ [(k, v)]"
      "bf_coalesced b' = bf_coalesced b" "bf_evicted b' = bf_evicted b" "int (length (bf_latest b)) < bf_max b"
proof (cases "k \<in> fst ` set (bf_latest b)")
  case True
  then show ?thesis
    by (intro coalesce [of "b\<lparr>bf_coalesced := bf_coalesced b + 1, bf_latest := upsert k v (bf_latest b)\<rparr>"]) (simp_all add: put_def)
next
  case new: False
  show ?thesis
  proof (cases "int (length (bf_latest b)) < bf_max b")
    case True
    with new show ?thesis
      by (intro add [of "b\<lparr>bf_order := bf_order b @ [k], bf_latest := bf_latest b @ [(k, v)]\<rparr>"]) (simp_all add: put_def upsert_new)
  next
    case False
    with assms obtain e es where l: "bf_latest b = e # es" by (cases "bf_latest b") (auto simp: buffer_inv_def)
    with assms have o: "bf_order b = fst e # map fst es" "fst e \<notin> fst ` set es" by (auto simp: buffer_inv_def)
    then have f: "filter (\<lambda>x. fst x \<noteq> fst e) es = es" using o(2) by (intro filter_True ballI) (metis imageI)
    have "k \<notin> fst ` set es" using new l by auto
    with new False assms l o f show ?thesis by (intro evict [of "b\<lparr>bf_latest := es @ [(k, v)], bf_order := map fst es @ [k], bf_evicted := bf_evicted b + 1\<rparr>" e es]) (auto simp: put_def upsert_new buffer_inv_def)
  qed
qed

lemma put_inv:
  assumes "buffer_inv b" "put k v b = Some b'"
  shows "buffer_inv b'" and "bf_max b' = bf_max b"
proof -
  show m: "bf_max b' = bf_max b" using assms(2) by (auto simp: put_def split: if_splits list.splits)
  have o: "bf_order b' = (if k \<in> fst ` set (bf_latest b) then bf_order b
      else if int (length (bf_latest b)) \<ge> bf_max b then tl (bf_order b) @ [k] else bf_order b @ [k])"
    using assms(2) by (auto simp: put_def split: if_splits list.splits)
  note inv = assms(1) [unfolded buffer_inv_def]
  from assms(1) show "buffer_inv b'"
  proof (cases rule: put_cases [of b k v])
    case (coalesce b2)
    then have b': "b2 = b'" using assms(2) by simp
    have k: "map fst (bf_latest b') = map fst (bf_latest b)" using coalesce(2,3) b' upsert_keys by metis
    then have "length (bf_latest b') = length (bf_latest b)" by (metis length_map)
    with inv o m k coalesce(2) show ?thesis by (simp add: buffer_inv_def)
  next
    case (evict b2 e es)
    then have "b2 = b'" using assms(2) by simp
    with inv o m evict(2-4,7) show ?thesis by (auto simp: buffer_inv_def)
  next
    case (add b2)
    then have "b2 = b'" using assms(2) by simp
    with inv o m add(2,3,6) show ?thesis by (auto simp: buffer_inv_def)
  qed
qed

lemma put_all_facts:
  assumes "1 \<le> n"
  shows "\<exists>b. put_batch ts (empty_buffer n) = Some b \<and> buffer_inv b \<and> bf_max b = n
    \<and> (\<forall>k v. map_of (bf_latest b) k = Some v \<longrightarrow> map_of (rev ts) k = Some v)
    \<and> length ts = bf_coalesced b + bf_evicted b + length (bf_latest b)
    \<and> (int (card (fst ` set ts)) \<le> n \<longrightarrow> bf_evicted b = 0 \<and> map_of (bf_latest b) = map_of (rev ts))"
proof (induction ts rule: rev_induct)
  case Nil
  then show ?case using assms by (simp add: empty_buffer_def buffer_inv_def)
next
  case (snoc t ts)
  obtain k v where t: "t = (k, v)" by fastforce
  from snoc obtain b where b: "put_batch ts (empty_buffer n) = Some b" "buffer_inv b" "bf_max b = n"
    "\<And>k v. map_of (bf_latest b) k = Some v \<Longrightarrow> map_of (rev ts) k = Some v"
    "length ts = bf_coalesced b + bf_evicted b + length (bf_latest b)"
    "int (card (fst ` set ts)) \<le> n \<Longrightarrow> bf_evicted b = 0 \<and> map_of (bf_latest b) = map_of (rev ts)" by blast
  have d: "distinct (map fst (bf_latest b))" using b(2) by (simp add: buffer_inv_def)
  have keys: "int (card (fst ` set ts)) \<le> n" if "int (card (fst ` set (ts @ [t]))) \<le> n"
  proof -
    have "card (fst ` set ts) \<le> card (fst ` set (ts @ [t]))" by (rule card_mono) auto
    with that show ?thesis by simp
  qed
  from b(2) show ?case
  proof (cases rule: put_cases [of b k v])
    case (coalesce b')
    have "length (bf_latest b') = length (bf_latest b)"
      using coalesce(3) upsert_keys [OF coalesce(2), of v] by (metis length_map)
    with coalesce b keys put_inv [OF b(2) coalesce(1)] show ?thesis
      by (intro exI [of _ b']) (auto simp: put_all_append t)
  next
    case (evict b' e es)
    have "\<not> int (card (fst ` set (ts @ [t]))) \<le> n"
    proof
      assume le: "int (card (fst ` set (ts @ [t]))) \<le> n"
      then have m: "map_of (bf_latest b) = map_of (rev ts)" using b(6) keys by blast
      then have "fst ` set ts = fst ` set (bf_latest b)" using dom_map_of_conv_image_fst [of "rev ts"] dom_map_of_conv_image_fst [of "bf_latest b"] by simp
      moreover have "card (fst ` set (bf_latest b)) = length (bf_latest b)" using d distinct_card by fastforce
      ultimately have "int (card (fst ` set (ts @ [t]))) = n + 1"
        using evict(2,7) b(3) by (simp add: t card_insert_if)
      with le show False by simp
    qed
    moreover have "map_of (rev (ts @ [t])) j = Some u" if "map_of (bf_latest b') j = Some u" for j u
    proof -
      have es: "map_of (es @ [(k, v)]) j = (if j = k then Some v else map_of es j)"
        using evict(2,3) by (auto simp: map_add_def split: option.split dest: weak_map_of_SomeI) (metis map_of_eq_None_iff option.distinct(1))
      have "j \<noteq> fst e" if "map_of es j = Some u"
        using d evict(3) map_of_SomeD [OF that] by (auto simp: image_iff)
      then have "if j = k then u = v else map_of (bf_latest b) j = Some u"
        using that es evict(3,4) by (cases e) (auto split: if_splits)
      with b(4) show ?thesis by (auto simp: t split: if_splits)
    qed
    ultimately show ?thesis
      using evict b put_inv [OF b(2) evict(1)] by (intro exI [of _ b']) (auto simp: put_all_append t)
  next
    case (add b')
    have m: "map_of (bf_latest b') = (map_of (bf_latest b))(k \<mapsto> v)"
      using add(2,3) upsert_new [of k "bf_latest b" v] by (metis map_of_upsert)
    show ?thesis
    proof (intro exI [of _ b'] conjI impI)
      show "put_batch (ts @ [t]) (empty_buffer n) = Some b'" using b(1) add(1) by (simp add: put_all_append t)
      show "buffer_inv b'" "bf_max b' = n" using put_inv [OF b(2) add(1)] b(3) by simp_all
      show "\<forall>k v. map_of (bf_latest b') k = Some v \<longrightarrow> map_of (rev (ts @ [t])) k = Some v" using b(4) by (simp add: m t)
      show "length (ts @ [t]) = bf_coalesced b' + bf_evicted b' + length (bf_latest b')" using b(5) add(3-5) by simp
      assume "int (card (fst ` set (ts @ [t]))) \<le> n"
      note k = b(6) [OF keys [OF this]]
      show "bf_evicted b' = 0" using k add(5) by simp
      show "map_of (bf_latest b') = map_of (rev (ts @ [t]))" using k by (simp add: m t)
    qed
  qed
qed

lemma upsert_set: "e \<in> set (upsert k v ps) \<Longrightarrow> e = (k, v) \<or> e \<in> set ps"
  by (induction k v ps rule: upsert.induct) (auto split: if_splits)

lemma put_set: "put k v b = Some b' \<Longrightarrow> set (bf_latest b') \<subseteq> insert (k, v) (set (bf_latest b))"
  by (auto simp: put_def dest!: upsert_set split: if_splits list.splits)

lemma put_all_set: "put_batch ts b = Some b' \<Longrightarrow> set (bf_latest b') \<subseteq> set ts \<union> set (bf_latest b)"
proof (induction ts b rule: put_batch.induct)
  case (2 k v ts b)
  then obtain b1 where p: "put k v b = Some b1" by (auto split: option.splits)
  with 2 have "set (bf_latest b') \<subseteq> set ts \<union> set (bf_latest b1)" by simp
  with put_set [OF p] show ?case by auto
qed simp

section \<open>The loop and the guards\<close>

lemma validate_tick_ok_iff:
  "validate_tick (Some p) prev None None None None m j = Tick_Ok \<longleftrightarrow>
     0 < p \<and> (\<forall>q. prev = Some q \<longrightarrow> 0 < q \<longrightarrow> \<bar>p - q\<bar> / q \<le> j)"
  by (auto simp: validate_tick_def split: option.splits)

lemma on_price_other_guard:
  assumes "j \<noteq> i"
  shows "guards (w_guards (snd (on_price env j p w))) i = guards (w_guards w) i"
proof -
  obtain gm x where t: "process_tick j p (e_clock env) (w_guards w) = (gm, x)" by fastforce
  then have g: "guards gm i = guards (w_guards w) i" using assms by (auto simp: process_tick_def split: option.splits prod.splits)
  show ?thesis
  proof (cases x)
    case None
    with t g show ?thesis by (simp add: on_price_def Let_def)
  next
    case (Some s)
    let ?w = "w\<lparr>w_guards := disarm j gm\<rparr>"
    obtain q w2 where c: "close env j (exit_reason_text (x_reason s)) (Some (x_price s)) None ?w = (q, w2)" by fastforce
    have "guards (w_guards w2) i = guards (w_guards ?w) i"
    proof (cases "\<exists>r. find_row j (w_book ?w) = Some r \<and> pos_status r = Open")
      case True
      then obtain r where "find_row j (w_book ?w) = Some r" "pos_status r = Open" by blast
      from close_open_cases [OF this c] assms show ?thesis by simp
    next
      case False
      then have "close env j (exit_reason_text (x_reason s)) (Some (x_price s)) None ?w = (None, ?w)"
        by (intro close_not_open) auto
      with c show ?thesis by simp
    qed
    with t Some c g assms show ?thesis by (simp add: on_price_def)
  qed
qed

text \<open>A guard that is not armed stays so; one whose check exits is disarmed by its own step.\<close>

lemma on_price_keeps_disarmed:
  "guards (w_guards w) i = None \<Longrightarrow> guards (w_guards (snd (on_price env j p w))) i = None"
proof (cases "j = i")
  case True
  assume g: "guards (w_guards w) i = None"
  with True have "process_tick j p (e_clock env) (w_guards w) = (w_guards w, None)" by (simp add: process_tick_no_guard)
  with g True show ?thesis by (simp add: on_price_def Let_def)
qed (simp add: on_price_other_guard)

lemma on_price_hit:
  assumes "guards (w_guards w) i = Some g" "snd (guard_check p (e_clock env) g) \<noteq> None"
  shows "guards (w_guards (snd (on_price env i p w))) i = None"
proof -
  obtain g' x where c: "guard_check p (e_clock env) g = (g', Some x)" using assms(2) by (cases "guard_check p (e_clock env) g") auto
  then have "process_tick i p (e_clock env) (w_guards w) = ((w_guards w)\<lparr>guards := (guards (w_guards w))(i \<mapsto> g')\<rparr>, Some x)"
    using assms(1) by (simp add: process_tick_def)
  then have "\<exists>pnl. fst (on_price env i p w) = Some pnl" by (simp add: on_price_def split: prod.splits)
  then obtain pnl where "fst (on_price env i p w) = Some pnl" by blast
  then show ?thesis using on_price_fired [of env i p w pnl "snd (on_price env i p w)"] by (metis prod.collapse)
qed

lemma tick_fold_keeps_disarmed:
  "guards (w_guards w) i = None \<Longrightarrow>
   guards (w_guards (foldl (\<lambda>w j. snd (on_price env j p w)) w js)) i = None"
  by (induction js arbitrary: w) (simp_all add: on_price_keeps_disarmed)

lemma tick_fold_hit:
  assumes "guards (w_guards w) i = Some g" "snd (guard_check p (e_clock env) g) \<noteq> None" "i \<in> set js"
  shows "guards (w_guards (foldl (\<lambda>w j. snd (on_price env j p w)) w js)) i = None"
  using assms
proof (induction js arbitrary: w)
  case (Cons j js)
  show ?case
  proof (cases "j = i")
    case True
    then show ?thesis using on_price_hit [OF Cons.prems(1,2)] by (simp add: tick_fold_keeps_disarmed)
  next
    case False
    then have "guards (w_guards (snd (on_price env j p w))) i = Some g" using Cons.prems(1) by (simp add: on_price_other_guard)
    from Cons.IH [OF this Cons.prems(2)] False Cons.prems(3) show ?thesis by simp
  qed
qed simp

text \<open>The same for the row of the position: closed or parked, it stays so.\<close>

lemma not_open_unrealized: "not_open i b \<Longrightarrow> not_open i (snd (update_unrealized j p b))"
  by (auto simp: update_unrealized_def not_open_def Let_def find_row_update touch_ltp_def find_row_def [of _ "b\<lparr>redis_ltp := x\<rparr>" for x]
      split: option.splits if_splits)

lemma on_price_keeps_not_open: "not_open i (w_book w) \<Longrightarrow> not_open i (w_book (snd (on_price env j p w)))"
proof -
  assume n: "not_open i (w_book w)"
  obtain gm x where t: "process_tick j p (e_clock env) (w_guards w) = (gm, x)" by fastforce
  show ?thesis
  proof (cases x)
    case None
    with t n not_open_unrealized [OF n] show ?thesis
      by (simp add: on_price_def Let_def) (simp add: touch_ltp_def not_open_def find_row_def)
  next
    case (Some s)
    obtain q w2 where c: "close env j (exit_reason_text (x_reason s)) (Some (x_price s)) None (w\<lparr>w_guards := disarm j gm\<rparr>) = (q, w2)" by fastforce
    have "not_open i (w_book w2)"
      using n close_effect(1) [OF c] close_effect(2) [OF c, of i] by (cases "i = j") (auto simp: not_open_def)
    with t Some c show ?thesis by (simp add: on_price_def)
  qed
qed

lemma on_price_hit_closes:
  assumes "guards (w_guards w) i = Some g" "snd (guard_check p (e_clock env) g) \<noteq> None"
  shows "not_open i (w_book (snd (on_price env i p w)))"
proof -
  obtain g' x where "guard_check p (e_clock env) g = (g', Some x)" using assms(2) by (cases "guard_check p (e_clock env) g") auto
  then have t: "process_tick i p (e_clock env) (w_guards w) = ((w_guards w)\<lparr>guards := (guards (w_guards w))(i \<mapsto> g')\<rparr>, Some x)"
    using assms(1) by (simp add: process_tick_def)
  let ?w = "w\<lparr>w_guards := disarm i ((w_guards w)\<lparr>guards := (guards (w_guards w))(i \<mapsto> g')\<rparr>)\<rparr>"
  obtain q w2 where c: "close env i (exit_reason_text (x_reason x)) (Some (x_price x)) None ?w = (q, w2)" by fastforce
  with t close_effect(1) [OF c] show ?thesis by (simp add: on_price_def)
qed

lemma tick_fold_keeps_not_open:
  "not_open i (w_book w) \<Longrightarrow> not_open i (w_book (foldl (\<lambda>w j. snd (on_price env j p w)) w js))"
  by (induction js arbitrary: w) (simp_all add: on_price_keeps_not_open)

lemma tick_fold_hit_closes:
  assumes "guards (w_guards w) i = Some g" "snd (guard_check p (e_clock env) g) \<noteq> None" "i \<in> set js"
  shows "not_open i (w_book (foldl (\<lambda>w j. snd (on_price env j p w)) w js))"
  using assms
proof (induction js arbitrary: w)
  case (Cons j js)
  show ?case
  proof (cases "j = i")
    case True
    then show ?thesis using on_price_hit_closes [OF Cons.prems(1,2)] by (simp add: tick_fold_keeps_not_open)
  next
    case False
    then have "guards (w_guards (snd (on_price env j p w))) i = Some g" using Cons.prems(1) by (simp add: on_price_other_guard)
    from Cons.IH [OF this Cons.prems(2)] False Cons.prems(3) show ?thesis by simp
  qed
qed simp

section \<open>Properties\<close>

text \<open>The tick buffer never raises, never holds more symbols than its bound, hands out for every symbol it
  kept the latest tick that was put, and counts every tick it dropped; while no more symbols than the
  bound were seen, nothing was evicted and draining yields exactly the latest tick of every symbol.
  After draining it is empty.\<close>
theorem buffer_keeps_the_latest_ticks:
  assumes "1 \<le> n"
  shows "case put_batch ts (empty_buffer n) of None \<Rightarrow> False
    | Some b \<Rightarrow> (case drain b of (ticks, b') \<Rightarrow>
        int (length ticks) \<le> n \<and> distinct (map fst ticks)
        \<and> (\<forall>k v. map_of ticks k = Some v \<longrightarrow> map_of (rev ts) k = Some v)
        \<and> length ts = bf_coalesced b + bf_evicted b + length ticks
        \<and> (int (card (fst ` set ts)) \<le> n \<longrightarrow> bf_evicted b = 0 \<and> map_of ticks = map_of (rev ts))
        \<and> bf_latest b' = [] \<and> bf_order b' = [])"
  using put_all_facts [OF assms, of ts] by (auto simp: drain_def buffer_inv_def)

lemma buffer_keeps_the_latest_ticks_witness:
  "case put_batch [(1::nat, 10::int), (2, 20), (1, 11)] (empty_buffer 2) of None \<Rightarrow> False
    | Some b \<Rightarrow> map_of (fst (drain b)) 1 = Some 11 \<and> bf_evicted b = 0"
proof -
  have c: "card (fst ` set [(1::nat, 10::int), (2, 20), (1, 11)]) = 2" by (simp add: insert_commute)
  show ?thesis
    using buffer_keeps_the_latest_ticks [of 2 "[(1::nat, 10::int), (2, 20), (1, 11)]"] c
    by (auto simp: drain_def split: option.splits)
qed


definition demo_walk :: "pid set \<Rightarrow> pid list" where
  "demo_walk S = sorted_list_of_set S"

definition demo_baseline :: baseline where
  "demo_baseline = [408065 \<mapsto> 100]"

lemma demo_entered_guard:
  "\<exists>g. guards (w_guards (demo_entered PAPER Complete)) 1 = Some g \<and> g_token g = 408065
     \<and> snd (guard_check 97 (e_clock demo_env) g) \<noteq> None \<and> snd (guard_check 40 (e_clock demo_env) g) \<noteq> None"
proof -
  have "case guards (w_guards (demo_entered PAPER Complete)) 1 of None \<Rightarrow> False
     | Some g \<Rightarrow> g_token g = 408065 \<and> (case snd (guard_check 97 (e_clock demo_env) g) of None \<Rightarrow> False | Some _ \<Rightarrow> True)
         \<and> (case snd (guard_check 40 (e_clock demo_env) g) of None \<Rightarrow> False | Some _ \<Rightarrow> True)" by code_simp
  then show ?thesis by (auto split: option.splits)
qed

lemma execute_sim_guards:
  "w_guards (snd (execute_sim env d force w)) = w_guards w
   \<or> (\<exists>g. w_guards (snd (execute_sim env d force w)) = arm g (w_guards w))"
  by (auto simp: execute_sim_def Let_def case_prod_beta split: option.split)

lemma demo_entered_mgr:
  "mgr_inv (w_guards (demo_entered PAPER Complete))" "finite (for_token (w_guards (demo_entered PAPER Complete)) t)"
proof -
  have "w_guards (demo_entered PAPER Complete) = empty_mgr \<or> (\<exists>g. w_guards (demo_entered PAPER Complete) = arm g empty_mgr)"
    using execute_sim_guards [of demo_env "demo_decision 10" None "demo_world PAPER Complete"]
    by (auto simp: demo_entered_def execute_def rejected_result_def)
  then show "mgr_inv (w_guards (demo_entered PAPER Complete))" "finite (for_token (w_guards (demo_entered PAPER Complete)) t)"
    by (auto simp: mgr_inv_def arm_def for_token_def empty_mgr_def split: if_splits)
qed


text \<open>C28. A price that settles more than half away from the last accepted one is never accepted again: the
  baseline of the jump check only moves on accepted ticks, so however many messages repeat the new
  price, the baseline, the guards and the book stay as they are, and a stop between the two prices is
  not executed by the fast loop.\<close>
theorem price_gap_stops_the_guards:
  assumes "lg t = Some p0" "0 < p0" "bf_latest b = []"
    and "\<And>m e. m \<in> set msgs \<Longrightarrow> e \<in> set m \<Longrightarrow> fst e = Some t \<and> (\<forall>q. snd e = Some q \<longrightarrow> \<bar>q - p0\<bar> > p0 / 2)"
  shows "snd (foldl (\<lambda>s m. on_ltp env walk m s) (b, lg, w) msgs) = (lg, w)"
proof -
  have tick: "foldl (fast_tick env walk) (lg, w) ticks = (lg, w)"
    if "\<And>e. e \<in> set ticks \<Longrightarrow> fst e = t \<and> \<bar>snd e - p0\<bar> > p0 / 2" for ticks
    using that
  proof (induction ticks)
    case (Cons e ticks)
    obtain q where e: "e = (t, q)" "\<bar>q - p0\<bar> > p0 / 2" using Cons.prems [of e] by (cases e) auto
    then have "validate_tick (Some q) (lg t) None None None None 30 (1 / 2) \<noteq> Tick_Ok"
      using assms(1,2) by (auto simp: validate_tick_ok_iff field_simps)
    with Cons.IH Cons.prems e show ?case by (simp add: fast_tick_def)
  qed simp
  have "snd (foldl (\<lambda>s m. on_ltp env walk m s) (b, lg, w) msgs) = (lg, w)
      \<and> bf_latest (fst (foldl (\<lambda>s m. on_ltp env walk m s) (b, lg, w) msgs)) = []"
    using assms(3,4)
  proof (induction msgs arbitrary: b)
    case (Cons m ms)
    have step: "\<exists>b'. on_ltp env walk m (b, lg, w) = (b', lg, w) \<and> bf_latest b' = []"
    proof (cases "put_batch (converted m) b")
      case None
      with Cons.prems(1) show ?thesis by (simp add: on_ltp_def)
    next
      case (Some b1)
      have "fst e = t \<and> \<bar>snd e - p0\<bar> > p0 / 2" if e: "e \<in> set (bf_latest b1)" for e
      proof -
        have "e \<in> set (converted m)" using put_all_set [OF Some] e Cons.prems(1) by auto
        then have "(Some (fst e), Some (snd e)) \<in> set m"
          by (auto simp: converted_def split: option.splits)
        from Cons.prems(2) [OF _ this] show ?thesis by auto
      qed
      from tick [OF this] Some show ?thesis by (simp add: on_ltp_def drain_def)
    qed
    then obtain b' where b': "on_ltp env walk m (b, lg, w) = (b', lg, w)" "bf_latest b' = []" by blast
    have "snd (foldl (\<lambda>s m. on_ltp env walk m s) (b', lg, w) ms) = (lg, w)
      \<and> bf_latest (fst (foldl (\<lambda>s m. on_ltp env walk m s) (b', lg, w) ms)) = []"
      by (rule Cons.IH [OF b'(2)]) (erule Cons.prems(2) [rotated], simp)
    with b'(1) show ?case by simp
  qed simp
  then show ?thesis by blast
qed

lemma price_gap_stops_the_guards_witness:
  "\<exists>g. guards (w_guards (demo_entered PAPER Complete)) 1 = Some g \<and> snd (guard_check 40 (e_clock demo_env) g) \<noteq> None
    \<and> snd (foldl (\<lambda>s m. on_ltp demo_env demo_walk m s) (empty_buffer 5000, demo_baseline, demo_entered PAPER Complete)
        (replicate 1000 [(Some 408065, Some 40)])) = (demo_baseline, demo_entered PAPER Complete)"
proof -
  obtain g where g: "guards (w_guards (demo_entered PAPER Complete)) 1 = Some g"
    "snd (guard_check 40 (e_clock demo_env) g) \<noteq> None" using demo_entered_guard by blast
  have "snd (foldl (\<lambda>s m. on_ltp demo_env demo_walk m s) (empty_buffer 5000, demo_baseline, demo_entered PAPER Complete)
        (replicate 1000 [(Some 408065, Some 40)])) = (demo_baseline, demo_entered PAPER Complete)"
    by (rule price_gap_stops_the_guards [where t = 408065 and ?p0.0 = 100])
      (auto simp: demo_baseline_def empty_buffer_def)
  with g show ?thesis by blast
qed

end
