(* ===== verification/Engine.thy ===== *)
theory Engine
  imports Orchestrator_Facts Tick_Feed Kill_Switch Circuits
begin

text \<open>
  \<open>engine/main.py\<close>: the always-on risk loop, the decision loop and the operator's command loop, one
  cycle each. The state of the engine is the executor's world, the \<open>daily_pnl\<close> table, the risk
  engine's caches and the loop's own variables. The rows of the book carry no timestamps, so the
  columns \<open>opened_at\<close> and \<open>closed_at\<close> are functions of the environment, in seconds; the clock, the
  session calendar, the contexts the builders return and the models' replies are arguments. Events,
  alerts and log lines are left out. An exception of a stage that the code catches skips that stage.
\<close>

section \<open>State and configuration\<close>

text \<open>The missing settings are the numbers the code reads for them.\<close>

record brakes_cfg =
  bc_weekly :: real
  bc_monthly :: real
  bc_max_trades :: int
  bc_max_losses :: int
  bc_max_drawdown :: real
  bc_lock_trigger :: real
  bc_lock_giveback :: real
  bc_lookback :: nat
  bc_min_trades :: int
  bc_floor :: real
  bc_review_trades :: int
  bc_review_floor :: real

record 'b eenv =
  ee_senv :: "'b senv"
  ee_risk :: risk_env
  ee_ks :: ks_cfg
  ee_brakes :: brakes_cfg
  ee_flatten :: bool
  ee_today :: int
  ee_week :: string
  ee_month :: string
  ee_day_start :: int
  ee_week_start :: int
  ee_month_start :: int
  ee_opened_at :: "pid \<Rightarrow> int"
  ee_closed_at :: "pid \<Rightarrow> int"
  ee_mode :: string
  ee_any_open :: bool
  ee_ymd :: "int \<times> int \<times> int"
  ee_expiries :: "(int \<times> int \<times> int) list option"

record 'b estate =
  en_world :: "'b sworld"
  en_pnl :: "(int \<times> string) \<rightharpoonup> pnl_row"
  en_risk :: risk_state
  en_day :: "int option"
  en_expiry :: bool
  en_flattened :: bool

definition ks_view :: "'b estate \<Rightarrow> ks_state" where
  "ks_view s = \<lparr>ks_config = w_config (en_world s), daily_pnl = en_pnl s\<rparr>"

definition put_ks :: "ks_state \<Rightarrow> 'b estate \<Rightarrow> 'b estate" where
  "put_ks k s = s\<lparr>en_world := (en_world s)\<lparr>w_config := ks_config k\<rparr>, en_pnl := daily_pnl k\<rparr>"

definition now_of :: "'b eenv \<Rightarrow> string" where
  "now_of e = re_now (ee_risk e)"

definition put_config :: "config_state \<Rightarrow> 'b estate \<Rightarrow> 'b estate" where
  "put_config c s = s\<lparr>en_world := (en_world s)\<lparr>w_config := c\<rparr>\<rparr>"

text \<open>\<open>risk.capital.get_capital\<close>, with and without \<open>refresh\<close>.\<close>

definition capital_now :: "'b eenv \<Rightarrow> bool \<Rightarrow> 'b estate \<Rightarrow> rupees \<times> 'b estate" where
  "capital_now e refresh s =
    (case get_capital (re_margins (ee_risk e)) (now_of e) refresh (w_config (en_world s)) (w_book (en_world s)) (rs_reader (en_risk s)) of
       (cap, rd) \<Rightarrow> (cap, s\<lparr>en_risk := (en_risk s)\<lparr>rs_reader := rd\<rparr>\<rparr>))"

section \<open>The kill switch\<close>

definition closed_since :: "'b eenv \<Rightarrow> int \<Rightarrow> book_row \<Rightarrow> bool" where
  "closed_since e t r \<longleftrightarrow> pos_status r = Closed \<and> ee_closed_at e (pos_id r) \<ge> t"

definition realized_since :: "'b eenv \<Rightarrow> (position \<Rightarrow> bool) \<Rightarrow> int \<Rightarrow> book \<Rightarrow> rupees" where
  "realized_since e P t bk = sum_list (map b_realized (filter (\<lambda>r. P (position.truncate r) \<and> closed_since e t r) (rows bk)))"

definition unrealized_open :: "(position \<Rightarrow> bool) \<Rightarrow> book \<Rightarrow> rupees" where
  "unrealized_open P bk = sum_list (map b_unrealized (filter (\<lambda>r. P (position.truncate r) \<and> pos_status r = Open) (rows bk)))"

definition active_scope :: "'b eenv \<Rightarrow> config_state \<Rightarrow> position \<Rightarrow> bool" where
  "active_scope e c = where_clause (position_scope (load_runtime_mode (now_of e) c))"

fun close_all_structures :: "'b senv \<Rightarrow> string \<Rightarrow> struct_guard list \<Rightarrow> 'b sworld \<Rightarrow> 'b sworld" where
  "close_all_structures se why [] w = w"
| "close_all_structures se why (g # gs) w = close_all_structures se why gs (snd (close_structure se g why None True w))"

definition flatten_all :: "'b senv \<Rightarrow> string \<Rightarrow> string \<Rightarrow> 'b sworld \<Rightarrow> 'b sworld" where
  "flatten_all se m why w = snd (safe_exit_all (se_env se) m (close_all_structures se why (all_guards (w_structs w)) w))"

definition update_killswitch :: "'b eenv \<Rightarrow> 'b estate \<Rightarrow> 'b estate" where
  "update_killswitch e s =
    (let w = en_world s; P = active_scope e (w_config w);
         k1 = update_pnl (ee_today e) (now_of e) (Some (realized_since e P (ee_day_start e) (w_book w)))
                (Some (unrealized_open P (w_book w))) (ks_view s);
         (k2, st) = check_and_maybe_trip (ee_today e) (now_of e) k1;
         s1 = put_ks k2 s
     in if ks_active st \<and> tripped_today st \<and> ee_flatten e \<and> \<not> state_flag ''engine_halted'' (ks_config k2)
        then s1\<lparr>en_world := flatten_all (ee_senv e) (ee_mode e) ''killswitch_flatten'' (en_world s1)\<rparr>
        else s1)"

section \<open>Brakes\<close>

text \<open>Month before week; the loop stops at the first breach.\<close>

definition period_brake :: "'b eenv \<Rightarrow> book \<Rightarrow> rupees \<Rightarrow> config_state \<Rightarrow> config_state" where
  "period_brake e bk cap c =
    (let v = get_state c ''period_brake_active'' JNull;
         c1 = (if json_truthy v \<and> jfield v ''period'' \<noteq> JStr (ee_week e) \<and> jfield v ''period'' \<noteq> JStr (ee_month e)
               then set_state ''period_brake_active'' JNull c else c)
     in if json_truthy (get_state c1 ''period_brake_active'' JNull) then c1
        else case find (\<lambda>(scope, start, key, pct). pct > 0
               \<and> period_loss_breached (realized_since e (\<lambda>_. True) start bk) cap pct)
             [(''month'', ee_month_start e, ee_month e, bc_monthly (ee_brakes e)),
              (''week'', ee_week_start e, ee_week e, bc_weekly (ee_brakes e))] of
          None \<Rightarrow> c1
        | Some (scope, start, key, pct) \<Rightarrow> set_state ''period_brake_active''
            (JObj [(''scope'', JStr scope), (''period'', JStr key),
               (''realized'', JNum (py_round 2 (realized_since e (\<lambda>_. True) start bk))), (''limit_pct'', JNum pct)]) c1)"

text \<open>A dated flag of an earlier day is cleared first.\<close>

definition clear_stale :: "string \<Rightarrow> string \<Rightarrow> config_state \<Rightarrow> config_state" where
  "clear_stale key date c =
    (let v = get_state c key JNull in
     if json_truthy v \<and> jfield v ''date'' \<noteq> JStr date then set_state key JNull c else c)"

definition trades_today :: "'b eenv \<Rightarrow> book \<Rightarrow> nat" where
  "trades_today e bk = length (remdups (concat (map (\<lambda>r. case correlation_id r of None \<Rightarrow> [] | Some c \<Rightarrow> [c])
     (filter (\<lambda>r. ee_opened_at e (pos_id r) \<ge> ee_day_start e) (rows bk)))))"

definition trade_budget :: "'b eenv \<Rightarrow> book \<Rightarrow> config_state \<Rightarrow> config_state" where
  "trade_budget e bk c =
    (let today = re_today (ee_risk e); c1 = clear_stale ''trade_budget_exhausted'' today c in
     if bc_max_trades (ee_brakes e) \<noteq> 0 \<and> \<not> json_truthy (get_state c1 ''trade_budget_exhausted'' JNull)
        \<and> int (trades_today e bk) \<ge> bc_max_trades (ee_brakes e)
     then set_state ''trade_budget_exhausted'' (JObj [(''date'', JStr today), (''trades'', JNum (of_nat (trades_today e bk)))]) c1
     else c1)"

text \<open>The closed trades of today, newest first: one sum per sleeve and correlation id. The name of a row
  without a sleeve is \<open>?\<close>.\<close>

definition closed_trades :: "'b eenv \<Rightarrow> book \<Rightarrow> (string option \<times> rupees) list" where
  "closed_trades e bk =
    (let rs = filter (closed_since e (ee_day_start e)) (rows bk);
         key = (\<lambda>r. (sleeve r, correlation_id r));
         last_close = (\<lambda>k. foldr max (map (\<lambda>r. ee_closed_at e (pos_id r)) (filter (\<lambda>r. key r = k) rs)) 0)
     in map (\<lambda>k. (fst k, sum_list (map b_realized (filter (\<lambda>r. key r = k) rs))))
          (sort_key (\<lambda>k. - last_close k) (remdups (map key rs))))"

definition sleeve_name :: "string option \<Rightarrow> string" where
  "sleeve_name s = (case s of None \<Rightarrow> ''?'' | Some x \<Rightarrow> if x = [] then ''?'' else x)"

definition streak_one :: "'b eenv \<Rightarrow> (string option \<times> rupees) list \<Rightarrow> config_state \<Rightarrow> string \<Rightarrow> config_state" where
  "streak_one e trades c sl =
    (let today = re_today (ee_risk e); c1 = clear_stale (brake_key sl) today c;
         pnls = map snd (filter (\<lambda>t. sleeve_name (fst t) = sl) trades)
     in if \<not> json_truthy (get_state c1 (brake_key sl) JNull) \<and> loss_streak_hit pnls (bc_max_losses (ee_brakes e))
        then set_state (brake_key sl) (JObj [(''date'', JStr today), (''streak'', JNum (of_int (bc_max_losses (ee_brakes e))))]) c1
        else c1)"

definition loss_streaks :: "'b eenv \<Rightarrow> book \<Rightarrow> config_state \<Rightarrow> config_state" where
  "loss_streaks e bk c =
    (if bc_max_losses (ee_brakes e) = 0 then c
     else let trades = closed_trades e bk
          in foldl (streak_one e trades) c (rev (remdups (rev (map (sleeve_name \<circ> fst) trades)))))"

definition update_brakes :: "'b eenv \<Rightarrow> 'b estate \<Rightarrow> 'b estate" where
  "update_brakes e s =
    (case capital_now e False s of (cap, s1) \<Rightarrow>
       if cap \<le> 0 then s1
       else let bk = w_book (en_world s1)
            in put_config (loss_streaks e bk (trade_budget e bk (period_brake e bk cap (w_config (en_world s1))))) s1)"

section \<open>Circuits and kill criteria\<close>

definition guarded_sleeves :: "string list" where
  "guarded_sleeves = [''intraday_stocks'', ''fno'', ''swing_stocks'', ''mcx_commodities'']"

definition enabled_key :: "string \<Rightarrow> string" where
  "enabled_key sl = ''sleeve_'' @ sl @ ''_enabled''"

definition sleeve_enabled :: "string \<Rightarrow> config_state \<Rightarrow> bool" where
  "sleeve_enabled sl c = json_truthy (get_state c (enabled_key sl) (JBool True))"

text \<open>The R multiples of a sleeve's closed trades, newest first.\<close>

definition r_multiples :: "'b eenv \<Rightarrow> string \<Rightarrow> book \<Rightarrow> real list" where
  "r_multiples e sl bk =
    (let rs = filter (\<lambda>r. sleeve r = Some sl \<and> pos_status r = Closed \<and> get_default (pos_r r) 0 > 0) (rows bk);
         key = (\<lambda>r. case correlation_id r of Some c \<Rightarrow> (Some c, None) | None \<Rightarrow> (None, Some (pos_id r)));
         last_close = (\<lambda>k. foldr max (map (\<lambda>r. ee_closed_at e (pos_id r)) (filter (\<lambda>r. key r = k) rs)) 0)
     in map (\<lambda>k. sum_list (map b_realized (filter (\<lambda>r. key r = k) rs))
               / sum_list (map (\<lambda>r. get_default (pos_r r) 0) (filter (\<lambda>r. key r = k) rs)))
          (sort_key (\<lambda>k. - last_close k) (remdups (map key rs))))"

text \<open>The expectancy guard; False: it raised, the sleeves before it are done.\<close>

fun expectancy_guard :: "'b eenv \<Rightarrow> book \<Rightarrow> string list \<Rightarrow> config_state \<Rightarrow> bool \<times> config_state" where
  "expectancy_guard e bk [] c = (True, c)"
| "expectancy_guard e bk (sl # sls) c =
    (if \<not> sleeve_enabled sl c then expectancy_guard e bk sls c
     else case should_disable_sleeve (take (bc_lookback (ee_brakes e)) (r_multiples e sl bk)) (bc_min_trades (ee_brakes e)) (bc_floor (ee_brakes e)) of
            None \<Rightarrow> (False, c)
          | Some b \<Rightarrow> expectancy_guard e bk sls (if b then set_state (enabled_key sl) (JBool False) c else c))"

definition day_net :: "'b eenv \<Rightarrow> book \<Rightarrow> rupees" where
  "day_net e bk = realized_since e (\<lambda>_. True) (ee_day_start e) bk + unrealized_open (\<lambda>_. True) bk"

definition stored_peak :: "string \<Rightarrow> config_state \<Rightarrow> rupees" where
  "stored_peak today c =
    (let v = get_state c ''dd_peak'' JNull in
     if jfield v ''date'' = JStr today then (case jfield v ''peak'' of JNum x \<Rightarrow> x | _ \<Rightarrow> 0) else 0)"

definition drawdown_circuit :: "'b eenv \<Rightarrow> book \<Rightarrow> rupees \<Rightarrow> config_state \<Rightarrow> config_state" where
  "drawdown_circuit e bk cap c =
    (let today = re_today (ee_risk e); net = day_net e bk;
         peak = max (max (stored_peak today c) net) 0;
         c1 = set_state ''dd_peak'' (JObj [(''date'', JStr today), (''peak'', JNum peak)]) c
     in if (drawdown_breached peak net cap (bc_max_drawdown (ee_brakes e))
            \<or> profit_lock_breached peak net cap (bc_lock_trigger (ee_brakes e)) (bc_lock_giveback (ee_brakes e)))
           \<and> \<not> state_flag ''dd_circuit_active'' c1
        then set_state ''dd_circuit_active'' (JBool True) c1 else c1)"

definition update_circuits :: "'b eenv \<Rightarrow> 'b estate \<Rightarrow> bool \<times> 'b estate" where
  "update_circuits e s =
    (case capital_now e False s of (cap, s1) \<Rightarrow>
       if cap \<le> 0 then (True, s1)
       else let bk = w_book (en_world s1);
                (ok, c) = expectancy_guard e bk guarded_sleeves (drawdown_circuit e bk cap (w_config (en_world s1)))
            in (ok, put_config c s1))"

definition kill_criterion :: "'b eenv \<Rightarrow> book \<Rightarrow> config_state \<Rightarrow> string \<Rightarrow> config_state" where
  "kill_criterion e bk c sl =
    (let rs = r_multiples e sl bk in
     if \<not> sleeve_enabled sl c \<or> int (length rs) < bc_review_trades (ee_brakes e) then c
     else if sum_list rs / of_nat (length rs) < bc_review_floor (ee_brakes e)
     then set_state (''sleeve_'' @ sl @ ''_review_required'') (JBool True) (set_state (enabled_key sl) (JBool False) c)
     else c)"

definition check_kill_criteria :: "'b eenv \<Rightarrow> 'b estate \<Rightarrow> 'b estate" where
  "check_kill_criteria e s =
    (if bc_review_trades (ee_brakes e) \<le> 0 then s
     else put_config (foldl (kill_criterion e (w_book (en_world s))) (w_config (en_world s)) guarded_sleeves) s)"

section \<open>The risk loop\<close>

text \<open>Dates are (year, month, day).\<close>

definition is_monthly_expiry :: "(int \<times> int \<times> int) list option \<Rightarrow> int \<times> int \<times> int \<Rightarrow> bool" where
  "is_monthly_expiry exps today = (case exps of None \<Rightarrow> False | Some ds \<Rightarrow>
     today \<in> set ds \<and> \<not> list_ex (\<lambda>d. fst d = fst today \<and> fst (snd d) = fst (snd today) \<and> snd (snd d) > snd (snd today)) ds)"

text \<open>Once a day: the daily row, the expiry flag and the kill criteria. An unfunded account retries.\<close>

definition start_of_day :: "'b eenv \<Rightarrow> 'b estate \<Rightarrow> 'b estate" where
  "start_of_day e s =
    (if en_day s = Some (ee_today e) then s
     else case capital_now e True s of (cap, s1) \<Rightarrow>
       if cap > 0
       then let s2 = put_ks (ensure_daily_row (ee_ks e) (ee_today e) (now_of e) cap (ks_view s1)) s1;
                s3 = s2\<lparr>en_expiry := is_monthly_expiry (ee_expiries e) (ee_ymd e), en_flattened := False\<rparr>
            in (check_kill_criteria e s3)\<lparr>en_day := Some (ee_today e)\<rparr>
       else s1)"

definition close_each :: "'b env \<Rightarrow> string \<Rightarrow> book_row list \<Rightarrow> 'b sworld \<Rightarrow> 'b sworld" where
  "close_each env why rs w = foldl (\<lambda>w r. snd (close env (pos_id r) why None None w)) w rs"

text \<open>14:30 is minute 870 of the day.\<close>

definition expiry_day_exit :: "'b eenv \<Rightarrow> 'b estate \<Rightarrow> 'b estate" where
  "expiry_day_exit e s =
    (if en_expiry s \<and> \<not> en_flattened s \<and> e_clock (se_env (ee_senv e)) \<ge> 870
     then let w = en_world s
          in s\<lparr>en_world := close_each (se_env (ee_senv e)) ''expiry_day_early_exit''
                 (filter (\<lambda>r. sleeve r = Some ''intraday_stocks'') (get_open None (w_book w))) w,
               en_flattened := True\<rparr>
     else s)"

definition manage_cycle :: "'b eenv \<Rightarrow> 'b estate \<Rightarrow> 'b estate" where
  "manage_cycle e s =
    (if \<not> ee_any_open e then s
     else let s1 = start_of_day e s;
              s2 = s1\<lparr>en_world := snd (mark_structures (ee_senv e) (en_world s1))\<rparr>
          in expiry_day_exit e (update_brakes e (update_killswitch e s2)))"

section \<open>Operator commands\<close>

text \<open>What \<open>str(cmd.get('id'))\<close> names: a position when it is all digits, else a correlation id.\<close>

datatype cmd_target = To_Position pid | To_Trade corr_id

definition digit_val :: "char \<Rightarrow> int option" where
  "digit_val ch = (let n = of_char ch - (48 :: int) in if 0 \<le> n \<and> n \<le> 9 then Some n else None)"

fun parse_digits :: "string \<Rightarrow> int \<Rightarrow> int option" where
  "parse_digits [] acc = Some acc"
| "parse_digits (ch # cs) acc = (case digit_val ch of None \<Rightarrow> None | Some d \<Rightarrow> parse_digits cs (acc * 10 + d))"

definition target_of :: "json \<Rightarrow> cmd_target" where
  "target_of v = (case v of
     JStr s \<Rightarrow> (if s = [] then To_Trade [] else case parse_digits s 0 of Some i \<Rightarrow> To_Position i | None \<Rightarrow> To_Trade s)
   | JNum x \<Rightarrow> (if 0 \<le> x \<and> x = of_int \<lfloor>x\<rfloor> then To_Position \<lfloor>x\<rfloor> else To_Trade ''number'')
   | _ \<Rightarrow> To_Trade ''None'')"

text \<open>A level is applied when it lies on its side of the entry; one that is not a number raises
  (None).\<close>

definition modify_level :: "json \<Rightarrow> (rupees \<Rightarrow> bool) \<Rightarrow> (rupees \<Rightarrow> guard \<Rightarrow> guard) \<Rightarrow> guard \<Rightarrow> guard option" where
  "modify_level v ok upd g = (case v of
     JNull \<Rightarrow> Some g | JNum x \<Rightarrow> Some (if ok x then upd x g else g) | _ \<Rightarrow> None)"

definition modify_guard :: "json \<Rightarrow> json \<Rightarrow> guard \<Rightarrow> guard option \<times> guard" where
  "modify_guard stop target g =
    (let long = (g_side g = BUY);
         g1 = modify_level stop (\<lambda>x. if long then x < g_entry g else x > g_entry g) (\<lambda>x g. g\<lparr>g_stop := x\<rparr>) g
     in case g1 of None \<Rightarrow> (None, g)
        | Some g1 \<Rightarrow> (modify_level target (\<lambda>x. if long then x > g_entry g else x < g_entry g) (\<lambda>x g. g\<lparr>g_target := x\<rparr>) g1, g1))"

text \<open>One command; the boolean says whether it ran without raising.\<close>

definition run_command :: "'b senv \<Rightarrow> string \<Rightarrow> (string \<times> json) list \<Rightarrow> 'b sworld \<Rightarrow> bool \<times> 'b sworld" where
  "run_command se m cmd w =
    (let kind = jfield (JObj cmd) ''type''; target = target_of (jfield (JObj cmd) ''id'') in
     if kind = JStr ''flatten'' then (True, flatten_all se m ''operator_flatten'' w)
     else if kind = JStr ''close'' then
       (case target of
          To_Position i \<Rightarrow> (True, snd (close (se_env se) i ''operator_close'' None None w))
        | To_Trade c \<Rightarrow> (True, close_all_structures se ''operator_close'' (filter (\<lambda>g. sg_corr g = c) (all_guards (w_structs w))) w))
     else if kind = JStr ''modify'' then
       (case target of
          To_Position i \<Rightarrow>
            (case guards (w_guards w) i of
               None \<Rightarrow> (True, w)
             | Some g \<Rightarrow> (case modify_guard (jfield (JObj cmd) ''stop'') (jfield (JObj cmd) ''target'') g of
                 (done1, partial) \<Rightarrow> (done1 \<noteq> None,
                   w\<lparr>w_guards := (w_guards w)\<lparr>guards := (guards (w_guards w))(i \<mapsto> get_default done1 partial)\<rparr>\<rparr>)))
        | To_Trade c \<Rightarrow> (True, w))
     else (True, w))"

definition command_one :: "'b senv \<Rightarrow> string \<Rightarrow> cmd_queue \<times> 'b sworld \<Rightarrow> nat \<times> (string \<times> json) list \<Rightarrow> cmd_queue \<times> 'b sworld" where
  "command_one se m qw cmd = (case qw of (q, w) \<Rightarrow> case run_command se m (snd cmd) w of
     (True, w') \<Rightarrow> (complete_command (fst cmd) q, w')
   | (False, w') \<Rightarrow> (fail_command (fst cmd) ''error'' max_attempts_default q, w'))"

definition command_cycle :: "'b senv \<Rightarrow> string \<Rightarrow> cmd_queue \<times> 'b sworld \<Rightarrow> cmd_queue \<times> 'b sworld" where
  "command_cycle se m qw = (case qw of (q, w) \<Rightarrow>
     case claim_commands ''engine'' 50 q of (cmds, q1) \<Rightarrow> foldl (command_one se m) (q1, w) cmds)"

end
