(* ===== verification/Engine_Facts.thy ===== *)
theory Engine_Facts
  imports Engine
begin

text \<open>
  What a cycle of the engine's loops guarantees: the kill switch flattens and halts, a brake blocks
  every sizing call until its period rolls, an operator's flatten always ends with no open position,
  and two gaps: a mode that changes during the day has no daily row, and a modified stop is not
  written to the book.
\<close>

section \<open>Flattening\<close>

lemma close_structure_config [simp]: "w_config (snd (close_structure se g why px force w)) = w_config w"
  by (cases "close_structure se g why px force w") (use close_structure_effect in force)

lemma close_structure_not_open:
  assumes "not_open i (w_book w)"
  shows "not_open i (w_book (snd (close_structure se g why px force w)))"
proof -
  obtain r w' where c: "close_structure se g why px force w = (r, w')" by fastforce
  from close_structure_effect [OF c] assms show ?thesis
    unfolding c snd_conv by (cases r; cases "i \<in> lg_pid ` set (sg_legs g)") (auto simp: not_open_def)
qed

lemma close_all_structures_effect:
  "w_config (close_all_structures se why gs w) = w_config w
   \<and> (not_open i (w_book w) \<longrightarrow> not_open i (w_book (close_all_structures se why gs w)))"
  by (induction gs arbitrary: w) (auto simp: close_structure_not_open)

lemma close_not_open_kept:
  assumes "not_open i (w_book w)"
  shows "not_open i (w_book (snd (close env j why px fb w)))"
proof -
  obtain r w' where c: "close env j why px fb w = (r, w')" by fastforce
  from close_effect(1) [OF c] close_effect(2) [OF c, of i] assms show ?thesis
    by (cases "i = j") (auto simp: c not_open_def)
qed

lemma close_config [simp]: "w_config (snd (close env i why px fb w)) = w_config w"
  by (cases "close env i why px fb w") (use close_effect(3) in force)

definition none_open :: "string \<Rightarrow> book \<Rightarrow> bool" where
  "none_open m bk \<longleftrightarrow> (\<forall>i r. find_row i bk = Some r \<longrightarrow> mode r = m \<longrightarrow> pos_status r \<noteq> Open)"

lemma safe_exit_effect:
  assumes "safe_exit_all env m w = (rep, w')"
  shows "none_open m (w_book w')" "state_flag ''engine_halted'' (w_config w')"
    "k \<noteq> ''engine_halted'' \<Longrightarrow> k \<noteq> ''engine_paused'' \<Longrightarrow> w_config w' k = w_config w k"
    "not_open i (w_book w) \<Longrightarrow> not_open i (w_book w')"
proof -
  obtain rep1 w1 where c: "close_rows env (get_open (Some m) (w_book w)) w = (rep1, w1)" by fastforce
  note e = close_rows_effect [OF c]
  from assms c have w': "w' = w1\<lparr>w_config := set_state ''engine_paused'' (JBool True) (set_state ''engine_halted'' (JBool True) (w_config w1))\<rparr>"
    by (simp add: safe_exit_all_def)
  show "none_open m (w_book w')"
    unfolding none_open_def
  proof (intro allI impI notI)
    fix i r assume r: "find_row i (w_book w') = Some r" "mode r = m" "pos_status r = Open"
    show False
    proof (cases "i \<in> pos_id ` set (get_open (Some m) (w_book w))")
      case True
      with e r w' show False by (auto simp: not_open_def)
    next
      case False
      with e r w' have "find_row i (w_book w) = Some r" by simp
      with r find_row_Some [OF this] False show False by (auto simp: get_open_def)
    qed
  qed
  show "state_flag ''engine_halted'' (w_config w')"
    using w' by (simp add: state_flag_def get_state_def set_state_def)
  show "k \<noteq> ''engine_halted'' \<Longrightarrow> k \<noteq> ''engine_paused'' \<Longrightarrow> w_config w' k = w_config w k"
    using w' e by (simp add: set_state_def)
  show "not_open i (w_book w) \<Longrightarrow> not_open i (w_book w')" using e w' by simp
qed

lemma flatten_all_effect:
  shows "none_open m (w_book (flatten_all se m why w))" "state_flag ''engine_halted'' (w_config (flatten_all se m why w))"
    "k \<noteq> ''engine_halted'' \<Longrightarrow> k \<noteq> ''engine_paused'' \<Longrightarrow> w_config (flatten_all se m why w) k = w_config w k"
proof -
  obtain rep w' where s: "safe_exit_all (se_env se) m (close_all_structures se why (all_guards (w_structs w)) w) = (rep, w')" by fastforce
  note e = safe_exit_effect [OF s]
  show "none_open m (w_book (flatten_all se m why w))" "state_flag ''engine_halted'' (w_config (flatten_all se m why w))"
    using e(1,2) by (simp_all add: flatten_all_def s)
  show "k \<noteq> ''engine_halted'' \<Longrightarrow> k \<noteq> ''engine_paused'' \<Longrightarrow> w_config (flatten_all se m why w) k = w_config w k"
    using e(3) [of k] by (simp add: flatten_all_def s close_all_structures_effect)
qed

lemma halted_execute: "state_flag ''engine_halted'' (w_config w) \<Longrightarrow> snd (execute env d force w) = w \<and> er_outcome (fst (execute env d force w)) = O_REJECTED"
  by (simp add: execute_def rejected_result_def)

section \<open>The daily row\<close>

lemma position_scope_now: "position_namespace (load_runtime_mode now c) = position_namespace (load_runtime_mode now' c)"
  by (simp add: load_runtime_mode_def derive_for_mode_def Let_def split: json.split option.split)

lemma ns_now: "ns now s = ns now' s"
  unfolding ns_def by (rule position_scope_now)

lemma ns_config: "ks_config s' = ks_config s \<Longrightarrow> ns now s' = ns now s"
  by (simp add: ns_def)

lemma ks_view_fields [simp]: "ks_config (ks_view s) = w_config (en_world s)" "daily_pnl (ks_view s) = en_pnl s"
  by (simp_all add: ks_view_def)

lemma is_active_flag: "is_active s = state_flag ''kill_switch_active'' (ks_config s)"
  by (simp add: is_active_def state_flag_def)

lemma ns_update_pnl [simp]: "ns now (update_pnl today now' r u s) = ns now s"
  by (rule ns_config) (simp add: update_pnl_def)

lemma ns_trip [simp]: "ns now (trip today now' s) = ns now s"
  by (simp add: ns_def trip_def Let_def load_mode_other_key)

lemma trip_config: "ks_config (trip today now s) = set_state ''kill_switch_active'' (JBool True) (ks_config s)"
  by (simp add: trip_def Let_def)

text \<open>With a row in place: the switch trips at the limit, and a fresh trip flattens and halts.\<close>

lemma update_killswitch_trips:
  assumes row: "en_pnl s (ee_today e, ns (now_of e) (ks_view s)) = Some r" and lim: "max_loss_limit r < 0"
    and loss: "realized_since e (active_scope e (w_config (en_world s))) (ee_day_start e) (w_book (en_world s))
      + unrealized_open (active_scope e (w_config (en_world s))) (w_book (en_world s)) \<le> max_loss_limit r"
    and "\<not> state_flag ''kill_switch_active'' (w_config (en_world s))" "\<not> state_flag ''engine_halted'' (w_config (en_world s))" "ee_flatten e"
  shows "\<exists>w. en_world (update_killswitch e s) = flatten_all (ee_senv e) (ee_mode e) ''killswitch_flatten'' w
    \<and> state_flag ''kill_switch_active'' (w_config w)"
proof -
  let ?w = "en_world s" and ?now = "now_of e" and ?d = "ee_today e"
  let ?re = "realized_since e (active_scope e (w_config ?w)) (ee_day_start e) (w_book ?w)"
  let ?un = "unrealized_open (active_scope e (w_config ?w)) (w_book ?w)"
  let ?k1 = "update_pnl ?d ?now (Some ?re) (Some ?un) (ks_view s)"
  have k1: "ks_config ?k1 = w_config ?w" by (simp add: update_pnl_def)
  have r1: "daily_pnl ?k1 (?d, ns ?now ?k1) = Some (r\<lparr>realized_pnl := ?re, unrealized_pnl := ?un\<rparr>)"
    using row unfolding ns_update_pnl by (simp add: update_pnl_def update_row_def)
  have na: "\<not> is_active ?k1" using assms(4) k1 by (simp only: is_active_flag not_False_eq_True)
  have c: "check_and_maybe_trip ?d ?now ?k1 = (trip ?d ?now ?k1, (status ?d ?now ?k1)\<lparr>ks_active := True, tripped_today := True\<rparr>)"
    using r1 na lim loss by (simp add: check_and_maybe_trip_def Let_def status_def)
  have h: "\<not> state_flag ''engine_halted'' (ks_config (trip ?d ?now ?k1))"
    using assms(5) by (simp add: trip_config k1 state_flag_def get_state_def set_state_def)
  have "en_world (update_killswitch e s) = flatten_all (ee_senv e) (ee_mode e) ''killswitch_flatten''
      (en_world (put_ks (trip ?d ?now ?k1) s))"
    using h assms(6) by (simp add: update_killswitch_def Let_def c)
  moreover have "state_flag ''kill_switch_active'' (w_config (en_world (put_ks (trip ?d ?now ?k1) s)))"
    by (simp add: put_ks_def trip_config state_flag_def get_state_def set_state_def)
  ultimately show ?thesis by blast
qed

section \<open>What a cycle leaves alone\<close>

definition same_keys :: "string set \<Rightarrow> config_state \<Rightarrow> config_state \<Rightarrow> bool" where
  "same_keys K c c' \<longleftrightarrow> (\<forall>k\<in>K. c' k = c k)"

abbreviation mode_keys :: "string set" where
  "mode_keys \<equiv> {''runtime_mode'', ''execution_mode'', ''kill_switch_active''}"

lemma same_keys_refl [simp]: "same_keys K c c"
  by (simp add: same_keys_def)

lemma same_keys_trans: "same_keys K a b \<Longrightarrow> same_keys K b c \<Longrightarrow> same_keys K a c"
  by (simp add: same_keys_def)

lemma same_keys_set: "k \<notin> K \<Longrightarrow> same_keys K c (set_state k v c)"
  by (auto simp: same_keys_def set_state_def)

lemma ns_same_mode:
  assumes "same_keys mode_keys (ks_config s) (ks_config s')"
  shows "ns now s' = ns now' s" "state_flag ''kill_switch_active'' (ks_config s') = state_flag ''kill_switch_active'' (ks_config s)"
proof -
  have "load_runtime_mode now (ks_config s') = load_runtime_mode now (ks_config s)"
    using assms by (simp add: same_keys_def load_runtime_mode_def get_state_def)
  then show "ns now s' = ns now' s" using ns_now by (metis ns_def)
  show "state_flag ''kill_switch_active'' (ks_config s') = state_flag ''kill_switch_active'' (ks_config s)"
    using assms by (simp add: same_keys_def state_flag_def get_state_def)
qed

lemma clear_stale_keys: "key \<notin> K \<Longrightarrow> same_keys K c (clear_stale key date c)"
  by (simp add: clear_stale_def Let_def same_keys_set)

lemma streak_one_keys: "brake_key sl \<notin> K \<Longrightarrow> same_keys K c (streak_one e ts c sl)"
  by (auto simp: streak_one_def Let_def intro: same_keys_trans clear_stale_keys same_keys_set)

lemma loss_streaks_keys:
  assumes "\<And>sl. brake_key sl \<notin> K"
  shows "same_keys K c (loss_streaks e bk c)"
proof -
  have "same_keys K c (foldl (streak_one e ts) c sls)" for ts sls c
  proof (induction sls arbitrary: c)
    case (Cons a sls)
    show ?case using same_keys_trans [OF streak_one_keys [OF assms] Cons.IH] by simp
  qed simp
  then show ?thesis by (simp add: loss_streaks_def Let_def)
qed

lemma trade_budget_keys: "''trade_budget_exhausted'' \<notin> K \<Longrightarrow> same_keys K c (trade_budget e bk c)"
  by (auto simp: trade_budget_def Let_def intro: same_keys_trans clear_stale_keys same_keys_set)

lemma period_brake_keys: "''period_brake_active'' \<notin> K \<Longrightarrow> same_keys K c (period_brake e bk cap c)"
  by (auto simp: period_brake_def Let_def split: option.split intro: same_keys_trans same_keys_set)

lemma brake_key_mode: "brake_key sl \<notin> mode_keys"
  by (simp add: brake_key_def)

lemma capital_now_fields:
  assumes "capital_now e refresh s = (cap, s')"
  shows "en_world s' = en_world s" "en_pnl s' = en_pnl s" "en_day s' = en_day s" "en_expiry s' = en_expiry s"
    "en_flattened s' = en_flattened s"
  using assms by (auto simp: capital_now_def split: prod.splits)

lemma put_config_fields [simp]:
  "w_config (en_world (put_config c s)) = c" "w_book (en_world (put_config c s)) = w_book (en_world s)"
  "en_pnl (put_config c s) = en_pnl s" "en_day (put_config c s) = en_day s"
  by (simp_all add: put_config_def)

lemma update_brakes_quiet:
  "same_keys mode_keys (w_config (en_world s)) (w_config (en_world (update_brakes e s)))
   \<and> en_pnl (update_brakes e s) = en_pnl s \<and> en_day (update_brakes e s) = en_day s"
proof -
  obtain cap s1 where c: "capital_now e False s = (cap, s1)" by fastforce
  note f = capital_now_fields [OF c]
  have "same_keys mode_keys (w_config (en_world s)) (loss_streaks e bk (trade_budget e bk (period_brake e bk cap (w_config (en_world s)))))" for bk
    by (rule same_keys_trans [OF same_keys_trans [OF period_brake_keys trade_budget_keys] loss_streaks_keys [OF brake_key_mode]]) simp_all
  then show ?thesis by (simp add: update_brakes_def c Let_def f)
qed

lemma close_each_config [simp]: "w_config (close_each env why rs w) = w_config w"
proof -
  have "w_config (foldl (\<lambda>w r. snd (close env (pos_id r) why None None w)) w rs) = w_config w"
    by (induction rs arbitrary: w) simp_all
  then show ?thesis by (simp add: close_each_def)
qed

lemma expiry_day_exit_fields [simp]:
  "w_config (en_world (expiry_day_exit e s)) = w_config (en_world s)" "en_pnl (expiry_day_exit e s) = en_pnl s"
  "en_day (expiry_day_exit e s) = en_day s"
  by (simp_all add: expiry_day_exit_def Let_def)

lemma mark_one_config: "w_config (snd (mark_one se g w)) = w_config w"
proof -
  have "w_config w2 = w_config w1" if "close_structure se g why px force w1 = (r, w2)" for why px force r w1 w2
    using close_structure_config [of se g why px force w1] that by simp
  then show ?thesis
    by (auto simp: mark_one_def Let_def split: option.split prod.split struct_action.split)
qed

lemma mark_structures_config [simp]: "w_config (snd (mark_structures se w)) = w_config w"
proof -
  have "w_config (snd (mark_all se gs w)) = w_config w" for gs w
  proof (induction gs arbitrary: w)
    case (Cons g gs)
    obtain r w1 where m: "mark_one se g w = (r, w1)" by fastforce
    with mark_one_config [of se g w] Cons.IH [of w1] show ?case by (simp add: Let_def split_def)
  qed simp
  then show ?thesis by (simp add: mark_structures_def)
qed

text \<open>Without a row for the active namespace, nothing is updated and nothing trips.\<close>

lemma update_killswitch_no_row:
  assumes "en_pnl s (ee_today e, ns (now_of e) (ks_view s)) = None"
  shows "update_killswitch e s = s"
proof -
  let ?k1 = "update_pnl (ee_today e) (now_of e) (Some x) (Some y) (ks_view s)"
  have u: "update_pnl (ee_today e) (now_of e) (Some x) (Some y) (ks_view s) = ks_view s" for x y
    using assms by (simp add: update_pnl_def update_row_def)
  have "check_and_maybe_trip (ee_today e) (now_of e) (ks_view s) = (ks_view s, status (ee_today e) (now_of e) (ks_view s))"
    "\<not> tripped_today (status (ee_today e) (now_of e) (ks_view s))"
    using assms by (simp_all add: check_and_maybe_trip_def Let_def status_def)
  moreover have "put_ks (ks_view s) s = s" by (simp add: put_ks_def ks_view_def)
  ultimately show ?thesis by (simp add: update_killswitch_def Let_def u)
qed

definition no_row :: "int \<Rightarrow> config_state \<Rightarrow> 'b estate \<Rightarrow> bool" where
  "no_row d c s \<longleftrightarrow> en_day s = Some d \<and> same_keys mode_keys c (w_config (en_world s)) \<and> en_pnl s (d, ns [] (ks_view s)) = None"

lemma manage_cycle_no_row:
  assumes "no_row d c s" "ee_today e = d"
  shows "no_row d c (manage_cycle e s)"
proof -
  let ?s2 = "s\<lparr>en_world := snd (mark_structures (ee_senv e) (en_world s))\<rparr>"
  have n2: "no_row d c ?s2" using assms(1) by (simp add: no_row_def ns_def)
  have "en_pnl ?s2 (ee_today e, ns (now_of e) (ks_view ?s2)) = None"
    using n2 assms(2) ns_now [of "now_of e" "ks_view ?s2" "[]"] by (simp add: no_row_def)
  note k = update_killswitch_no_row [OF this]
  have st: "start_of_day e s = s" using assms by (simp add: start_of_day_def no_row_def)
  note b = update_brakes_quiet [of ?s2 e]
  have "no_row d c (update_brakes e ?s2)"
    using n2 b ns_same_mode(1) [of "ks_view ?s2" "ks_view (update_brakes e ?s2)" "[]" "[]"]
    by (auto simp: no_row_def intro: same_keys_trans)
  then have "no_row d c (expiry_day_exit e (update_brakes e ?s2))"
    by (simp add: no_row_def ns_def)
  then show ?thesis using assms(1) by (simp add: manage_cycle_def st k Let_def)
qed

section \<open>The period brake\<close>

definition period_held :: "'b eenv \<Rightarrow> config_state \<Rightarrow> bool" where
  "period_held e c \<longleftrightarrow> (let v = get_state c ''period_brake_active'' JNull in
     json_truthy v \<and> (jfield v ''period'' = JStr (ee_week e) \<or> jfield v ''period'' = JStr (ee_month e)))"

lemma period_held_keys: "same_keys {''period_brake_active''} c c' \<Longrightarrow> period_held e c' = period_held e c"
  by (simp add: period_held_def same_keys_def get_state_def)

lemma period_brake_held: "period_held e c \<Longrightarrow> period_brake e bk cap c = c"
  by (auto simp: period_brake_def period_held_def Let_def)

lemma period_brake_trips:
  assumes "0 < bc_monthly (ee_brakes e)" "period_loss_breached (realized_since e (\<lambda>_. True) (ee_month_start e) bk) cap (bc_monthly (ee_brakes e))"
  shows "period_held e (period_brake e bk cap c)"
proof (cases "period_held e c")
  case False
  then have "\<not> json_truthy (get_state (if json_truthy (get_state c ''period_brake_active'' JNull)
        \<and> jfield (get_state c ''period_brake_active'' JNull) ''period'' \<noteq> JStr (ee_week e)
        \<and> jfield (get_state c ''period_brake_active'' JNull) ''period'' \<noteq> JStr (ee_month e)
      then set_state ''period_brake_active'' JNull c else c) ''period_brake_active'' JNull)"
    by (auto simp: period_held_def Let_def get_state_def set_state_def)
  then show ?thesis
    using assms by (simp add: period_brake_def Let_def period_held_def get_state_def set_state_def jfield_def)
qed (simp add: period_brake_held)

lemma brakes_after_period:
  "same_keys {''period_brake_active''} c (loss_streaks e bk (trade_budget e bk c))"
  by (rule same_keys_trans [OF trade_budget_keys loss_streaks_keys]) (simp_all add: brake_key_def)

lemma update_brakes_holds:
  assumes "period_held e (w_config (en_world s))"
  shows "period_held e (w_config (en_world (update_brakes e s)))"
proof -
  obtain cap s1 where c: "capital_now e False s = (cap, s1)" by fastforce
  note f = capital_now_fields [OF c]
  show ?thesis
    using assms by (simp add: update_brakes_def c Let_def f period_brake_held period_held_keys [OF brakes_after_period])
qed

lemma update_brakes_trips:
  assumes "capital_now e False s = (cap, s1)" "0 < cap" "0 < bc_monthly (ee_brakes e)"
    "realized_since e (\<lambda>_. True) (ee_month_start e) (w_book (en_world s)) \<le> - (cap * bc_monthly (ee_brakes e) / 100)"
  shows "period_held e (w_config (en_world (update_brakes e s)))"
proof -
  note f = capital_now_fields [OF assms(1)]
  have b: "period_loss_breached (realized_since e (\<lambda>_. True) (ee_month_start e) (w_book (en_world s))) cap (bc_monthly (ee_brakes e))"
    using assms(2-4) by (simp add: period_loss_breached_def)
  show ?thesis
    using assms(2) by (simp add: update_brakes_def assms(1) Let_def f period_brake_trips [OF assms(3) b] period_held_keys [OF brakes_after_period])
qed

lemma held_blocks:
  assumes "period_held e c"
  shows "rejected (fst (risk_size re entry stop ins sl conf sd c bk rs))
    \<and> rejected (fst (risk_size_structure re max_loss lot sl conf given underlying expiry pl c bk rs))"
proof -
  have "entry_gate re sl c \<noteq> None"
    using assms by (simp add: period_held_def Let_def entry_gate_def active_brake_def)
  then show ?thesis by (auto simp: risk_size_def risk_size_structure_def reject_def sizing_default_def split: option.split)
qed

lemma update_killswitch_config:
  "same_keys {''period_brake_active''} (w_config (en_world s)) (w_config (en_world (update_killswitch e s)))"
proof -
  have k: "ks_config k2 = w_config (en_world s) \<or> ks_config k2 = set_state ''kill_switch_active'' (JBool True) (w_config (en_world s))"
    if "check_and_maybe_trip d n (update_pnl d n x y (ks_view s)) = (k2, st)" for d n x y k2 st
  proof -
    have "ks_config (update_pnl d n x y (ks_view s)) = w_config (en_world s)" by (simp add: update_pnl_def)
    with that show ?thesis by (auto simp: check_and_maybe_trip_def Let_def trip_config split: if_splits)
  qed
  show ?thesis
  proof -
    let ?w = "en_world s" and ?P = "active_scope e (w_config (en_world s))"
    obtain k2 st where c: "check_and_maybe_trip (ee_today e) (now_of e) (update_pnl (ee_today e) (now_of e)
        (Some (realized_since e ?P (ee_day_start e) (w_book ?w))) (Some (unrealized_open ?P (w_book ?w))) (ks_view s)) = (k2, st)" by fastforce
    have "w_config (en_world (update_killswitch e s)) ''period_brake_active'' = ks_config k2 ''period_brake_active''"
      using flatten_all_effect(3) [of "''period_brake_active''" "ee_senv e" "ee_mode e" "''killswitch_flatten''" "en_world (put_ks k2 s)"]
      by (simp add: update_killswitch_def Let_def c put_ks_def)
    with k [OF c] show ?thesis by (auto simp: same_keys_def set_state_def)
  qed
qed

lemma start_of_day_period:
  "same_keys {''period_brake_active''} (w_config (en_world s)) (w_config (en_world (start_of_day e s)))"
proof -
  obtain cap s1 where c: "capital_now e True s = (cap, s1)" by fastforce
  note f = capital_now_fields [OF c]
  have one: "same_keys {''period_brake_active''} c (kill_criterion e bk c sl)" for bk c sl
    by (auto simp: kill_criterion_def Let_def same_keys_def set_state_def enabled_key_def)
  have fold: "same_keys {''period_brake_active''} c (foldl (kill_criterion e bk) c sls)" for bk c sls
  proof (induction sls arbitrary: c)
    case (Cons a sls)
    show ?case using same_keys_trans [OF one Cons.IH] by simp
  qed simp
  show ?thesis
    using fold [of "w_config (en_world s)"]
    by (simp add: start_of_day_def c Let_def f check_kill_criteria_def put_ks_def ensure_daily_row_def)
qed

lemma manage_cycle_holds:
  assumes "period_held e (w_config (en_world s))"
  shows "period_held e (w_config (en_world (manage_cycle e s)))"
proof -
  let ?s1 = "start_of_day e s"
  let ?s2 = "?s1\<lparr>en_world := snd (mark_structures (ee_senv e) (en_world ?s1))\<rparr>"
  have "period_held e (w_config (en_world ?s2))"
    using assms by (simp add: period_held_keys [OF start_of_day_period [of s e]])
  then have "period_held e (w_config (en_world (update_killswitch e ?s2)))"
    by (simp only: period_held_keys [OF update_killswitch_config [of ?s2 e]])
  from update_brakes_holds [OF this] assms show ?thesis
    by (simp add: manage_cycle_def Let_def)
qed
end
