(* ===== verification/Engine_Properties.thy ===== *)
theory Engine_Properties
  imports Engine_Facts
begin

text \<open>
  The properties of the engine's loops, each with its instance on a demonstration engine in the state
  after one paper entry that runs at a loss.
\<close>

section \<open>Commands keep what a flatten achieved\<close>

lemma close_none_open: "none_open m (w_book w) \<Longrightarrow> none_open m (w_book (snd (close env i why px fb w)))"
proof -
  assume n: "none_open m (w_book w)"
  obtain p w' where c: "close env i why px fb w = (p, w')" by fastforce
  show ?thesis
    using n close_effect(1) [OF c] close_effect(2) [OF c]
    unfolding none_open_def c snd_conv not_open_def by metis
qed

lemma close_structure_none_open:
  "none_open m (w_book w) \<Longrightarrow> none_open m (w_book (snd (close_structure se g why px force w)))"
proof -
  assume n: "none_open m (w_book w)"
  obtain p w' where c: "close_structure se g why px force w = (p, w')" by fastforce
  show ?thesis
  proof (cases p)
    case None
    with close_structure_effect [OF c] n show ?thesis unfolding c snd_conv by simp
  next
    case (Some x)
    with close_structure_effect [OF c] have e: "\<forall>l\<in>set (sg_legs g). not_open (lg_pid l) (w_book w')"
      "\<forall>i. i \<notin> lg_pid ` set (sg_legs g) \<longrightarrow> find_row i (w_book w') = find_row i (w_book w)" by simp_all
    show ?thesis unfolding none_open_def c snd_conv
    proof (intro allI impI)
      fix i r assume "find_row i (w_book w') = Some r" "mode r = m"
      then show "pos_status r \<noteq> Open"
        using e n by (cases "i \<in> lg_pid ` set (sg_legs g)") (auto simp: none_open_def not_open_def)
    qed
  qed
qed

lemma close_all_none_open: "none_open m (w_book w) \<Longrightarrow> none_open m (w_book (close_all_structures se why gs w))"
  by (induction gs arbitrary: w) (simp_all add: close_structure_none_open)

definition flattened :: "string \<Rightarrow> 'b sworld \<Rightarrow> bool" where
  "flattened m w \<longleftrightarrow> none_open m (w_book w) \<and> state_flag ''engine_halted'' (w_config w)"

lemma flatten_flattened: "flattened m (flatten_all se m why w)"
  by (simp add: flattened_def flatten_all_effect)

lemma run_command_flattened: "flattened m w \<Longrightarrow> flattened m (snd (run_command se m cmd w))"
  by (auto simp: run_command_def Let_def flatten_flattened split: cmd_target.split option.split prod.split)
    (auto simp: flattened_def close_none_open close_all_none_open close_all_structures_effect)

lemma command_one_world: "snd (command_one se m (q, w) cmd) = snd (run_command se m (snd cmd) w)"
  by (auto simp: command_one_def split: prod.split bool.split)

lemma commands_flattened:
  "flattened m w \<Longrightarrow> flattened m (snd (foldl (command_one se m) (q, w) cmds))"
proof (induction cmds arbitrary: q w)
  case (Cons cmd cmds)
  obtain q1 w1 where c: "command_one se m (q, w) cmd = (q1, w1)" by fastforce
  with command_one_world [of se m q w cmd] run_command_flattened [OF Cons.prems, of se "snd cmd"] have "flattened m w1" by simp
  with Cons.IH c show ?case by simp
qed simp

lemma commands_reach_flatten:
  assumes "(i, payload) \<in> set cmds" "jfield (JObj payload) ''type'' = JStr ''flatten''"
  shows "flattened m (snd (foldl (command_one se m) (q, w) cmds))"
  using assms(1)
proof (induction cmds arbitrary: q w)
  case (Cons cmd cmds)
  obtain q1 w1 where c: "command_one se m (q, w) cmd = (q1, w1)" by fastforce
  show ?case
  proof (cases "cmd = (i, payload)")
    case True
    with c command_one_world [of se m q w cmd] assms(2) have "flattened m w1"
      by (simp add: run_command_def Let_def flatten_flattened)
    with c show ?thesis by (simp add: commands_flattened)
  next
    case False
    with Cons c show ?thesis by simp
  qed
qed simp

section \<open>Demonstration values\<close>

definition demo_brakes :: brakes_cfg where
  "demo_brakes = \<lparr>bc_weekly = 0, bc_monthly = 1 / 100, bc_max_trades = 0, bc_max_losses = 0, bc_max_drawdown = 0, bc_lock_trigger = 0,
     bc_lock_giveback = 40, bc_lookback = 20, bc_min_trades = 10, bc_floor = - 1 / 5, bc_review_trades = 0, bc_review_floor = - 1 / 10\<rparr>"

definition demo_eenv :: "mock eenv" where
  "demo_eenv = \<lparr>ee_senv = demo_senv, ee_risk = demo_risk_env, ee_ks = \<lparr>daily_loss_pct = Some 2, daily_max_loss_default = 2\<rparr>,
     ee_brakes = demo_brakes, ee_flatten = True, ee_today = 0, ee_week = ''2026-W01'', ee_month = ''2026-01'',
     ee_day_start = 0, ee_week_start = 0, ee_month_start = 0, ee_opened_at = (\<lambda>_. 1), ee_closed_at = (\<lambda>_. 1), ee_mode = PAPER,
     ee_any_open = True, ee_ymd = (2026, 1, 1), ee_expiries = None\<rparr>"

text \<open>Ten shares bought at 100, marked at 90; and the same shares closed at 90.\<close>

definition demo_held :: "mock sworld" where
  "demo_held = (let w = snd (execute demo_env (demo_decision 10) None demo_sworld) in w\<lparr>w_book := snd (update_unrealized 1 90 (w_book w))\<rparr>)"

definition demo_lost :: "mock sworld" where
  "demo_lost = (let w = snd (execute demo_env (demo_decision 10) None demo_sworld) in w\<lparr>w_book := snd (close_position 1 90 [] ''stop'' (w_book w))\<rparr>)"

definition demo_row :: pnl_row where
  "demo_row = \<lparr>starting_capital = 1000, realized_pnl = 0, unrealized_pnl = 0, max_loss_limit = - 50, kill_switch_tripped = False\<rparr>"

definition demo_estate :: "mock sworld \<Rightarrow> mock estate" where
  "demo_estate w = \<lparr>en_world = w, en_pnl = [(0, PAPER) \<mapsto> demo_row], en_risk = demo_risk_state, en_day = Some 0, en_expiry = False,
     en_flattened = False\<rparr>"

lemma execute_sim_config: "w_config (snd (execute_sim env d force w)) = w_config w"
  by (simp add: execute_sim_def Let_def case_prod_beta split: option.split)

lemma demo_config: "w_config demo_held = w_config demo_sworld" "w_config demo_lost = w_config demo_sworld"
proof -
  have "current_mode demo_env demo_sworld \<noteq> LIVE" by code_simp
  then have "w_config (snd (execute demo_env (demo_decision 10) None demo_sworld)) = w_config demo_sworld"
    by (simp add: execute_def execute_sim_config)
  then show "w_config demo_held = w_config demo_sworld" "w_config demo_lost = w_config demo_sworld"
    by (simp_all add: demo_held_def demo_lost_def Let_def)
qed

lemma demo_ns: "w_config w = [''execution_mode'' \<mapsto> JStr PAPER] \<Longrightarrow> ns now (ks_view (demo_estate w)) = PAPER"
  by (simp add: ns_def demo_estate_def load_runtime_mode_def get_state_def derive_for_mode_def Let_def)

section \<open>Properties\<close>



text \<open>A mode that changes during the day runs without a kill switch. The daily row is only written by the
  first pass of the day, for the namespace that was active then; when the namespace that is active now
  has no row, no number of passes of the risk loop creates one or sets the switch that day, whatever
  the positions lose.\<close>
theorem mode_change_leaves_no_kill_switch:
  assumes "en_day s = Some d" "en_pnl s (d, ns now (ks_view s)) = None" "\<forall>e\<in>set es. ee_today e = d"
  shows "let s' = foldl (\<lambda>s e. manage_cycle e s) s es in
    state_flag ''kill_switch_active'' (w_config (en_world s')) = state_flag ''kill_switch_active'' (w_config (en_world s))
    \<and> en_pnl s' (d, ns now (ks_view s')) = None"
proof -
  let ?c = "w_config (en_world s)"
  have "no_row d ?c (foldl (\<lambda>s e. manage_cycle e s) s es)"
    using assms(3)
  proof (induction es rule: rev_induct)
    case Nil
    then show ?case using assms(1,2) ns_now [of now "ks_view s" "[]"] by (simp add: no_row_def)
  next
    case (snoc e es)
    then show ?case by (simp add: manage_cycle_no_row)
  qed
  then show ?thesis
    using ns_same_mode(2) [of "ks_view s" "ks_view (foldl (\<lambda>s e. manage_cycle e s) s es)"]
      ns_now [of now _ "[]"] by (simp add: no_row_def Let_def)
qed

definition demo_live_held :: "mock sworld" where
  "demo_live_held = demo_held\<lparr>w_config := [''execution_mode'' \<mapsto> JStr LIVE]\<rparr>"

lemma mode_change_leaves_no_kill_switch_witness:
  "\<not> state_flag ''kill_switch_active'' (w_config (en_world
      (foldl (\<lambda>s e. manage_cycle e s) (demo_estate demo_live_held) (replicate 500 demo_eenv))))"
proof -
  have n: "ns now (ks_view (demo_estate demo_live_held)) = LIVE" for now
    by (simp add: ns_def demo_estate_def demo_live_held_def load_runtime_mode_def get_state_def derive_for_mode_def Let_def)
  have "\<not> state_flag ''kill_switch_active'' (w_config demo_live_held)"
    by (simp add: demo_live_held_def state_flag_def get_state_def)
  then show ?thesis
    using mode_change_leaves_no_kill_switch [of "demo_estate demo_live_held" 0 "[]" "replicate 500 demo_eenv"] n
    by (simp add: demo_estate_def demo_eenv_def Let_def)
qed

text \<open>The monthly loss brake stops new entries for the rest of the period. If the realized loss since the
  start of the month has reached the configured share of the capital when the brakes are updated, then,
  whatever passes of the risk loop follow within the same week and month, every sizing call of the
  risk engine, for an instrument or for a structure, is rejected.\<close>
theorem monthly_loss_blocks_entries:
  assumes "capital_now e False s = (cap, s1)" "0 < cap" "0 < bc_monthly (ee_brakes e)"
    and "realized_since e (\<lambda>_. True) (ee_month_start e) (w_book (en_world s)) \<le> - (cap * bc_monthly (ee_brakes e) / 100)"
    and "\<forall>e'\<in>set es. ee_week e' = ee_week e \<and> ee_month e' = ee_month e"
  shows "let c = w_config (en_world (foldl (\<lambda>s e. manage_cycle e s) (update_brakes e s) es)) in
    rejected (fst (risk_size re entry stop ins sl conf sd c bk rs))
    \<and> rejected (fst (risk_size_structure re max_loss lot sl conf given underlying expiry pl c bk rs))"
proof -
  have "period_held e (w_config (en_world (foldl (\<lambda>s e. manage_cycle e s) (update_brakes e s) es)))"
    using assms(5)
  proof (induction es rule: rev_induct)
    case Nil
    show ?case using update_brakes_trips [OF assms(1-4)] by simp
  next
    case (snoc e' es)
    then have h: "period_held e' c = period_held e c" for c by (simp add: period_held_def Let_def)
    from snoc have "period_held e' (w_config (en_world (foldl (\<lambda>s e. manage_cycle e s) (update_brakes e s) es)))"
      unfolding h by simp
    from manage_cycle_holds [OF this] show ?case unfolding h by simp
  qed
  from held_blocks [OF this] show ?thesis unfolding Let_def .
qed

lemma monthly_loss_blocks_entries_witness:
  "rejected (fst (risk_size demo_risk_env 100 98 demo_stock ''intraday_stocks'' 1 BUY
      (w_config (en_world (foldl (\<lambda>s e. manage_cycle e s) (update_brakes demo_eenv (demo_estate demo_lost)) (replicate 50 demo_eenv))))
      empty_book demo_risk_state))"
proof -
  have v: "fst (capital_now demo_eenv False (demo_estate demo_lost)) = 999900
      \<and> realized_since demo_eenv (\<lambda>_. True) 0 (w_book demo_lost) = - 100" by code_simp
  obtain cap s1 where c: "capital_now demo_eenv False (demo_estate demo_lost) = (cap, s1)" by fastforce
  with v have cap: "cap = 999900" by simp
  show ?thesis
    using v monthly_loss_blocks_entries [where es = "replicate 50 demo_eenv" and re = demo_risk_env and entry = 100 and stop = 98
        and ins = demo_stock and sl = "''intraday_stocks''" and conf = 1 and sd = BUY and bk = empty_book and rs = demo_risk_state, OF c]
    unfolding Let_def
    by (simp add: cap demo_eenv_def demo_brakes_def demo_estate_def)
qed


text \<open>C14. The panic button always works: whichever other commands are claimed with it, and whatever they do,
  after a cycle of the command loop that claimed a flatten command no position of the executor's mode
  is open and the engine is halted.\<close>
theorem claimed_flatten_leaves_nothing_open:
  assumes "(i, payload) \<in> set (fst (claim_commands ''engine'' 50 q))" "jfield (JObj payload) ''type'' = JStr ''flatten''"
  shows "case command_cycle se m (q, w) of (q', w') \<Rightarrow> none_open m (w_book w') \<and> state_flag ''engine_halted'' (w_config w')"
proof -
  obtain cmds q1 where c: "claim_commands ''engine'' 50 q = (cmds, q1)" by fastforce
  from assms c have "(i, payload) \<in> set cmds" by simp
  from commands_reach_flatten [OF this assms(2), of m se q1 w] show ?thesis
    by (auto simp: command_cycle_def c flattened_def split: prod.splits)
qed

definition demo_flatten_queue :: cmd_queue where
  "demo_flatten_queue = snd (enqueue_command ''flatten'' [(''type'', JStr ''flatten'')] None demo_q1)"

lemma claimed_flatten_leaves_nothing_open_witness:
  "none_open PAPER (w_book (snd (command_cycle demo_senv PAPER (demo_flatten_queue, demo_held))))"
proof -
  have "(2, [(''type'', JStr ''flatten'')]) \<in> set (fst (claim_commands ''engine'' 50 demo_flatten_queue))"
    by (simp add: demo_flatten_queue_def demo_q1_def enqueue_command_def empty_queue_def claim_commands_def pending_def)
  from claimed_flatten_leaves_nothing_open [OF this, of PAPER demo_senv demo_held] show ?thesis
    by (simp add: jfield_def split: prod.splits)
qed

text \<open>A modify command touches one guard and nothing durable. Each new level is applied only if it lies on
  its side of the entry, no other field of the guard and no other part of the world changes; so after
  a restart the recovery rebuilds exactly what it would have rebuilt without the command, and the
  operator's stop is gone.\<close>
theorem modified_levels_are_lost_at_restart:
  assumes "guards (w_guards w) i = Some g" "jfield (JObj cmd) ''type'' = JStr ''modify''"
    "target_of (jfield (JObj cmd) ''id'') = To_Position i"
  shows "\<exists>stop target. snd (run_command se m cmd w)
      = w\<lparr>w_guards := (w_guards w)\<lparr>guards := (guards (w_guards w))(i \<mapsto> g\<lparr>g_stop := stop, g_target := target\<rparr>)\<rparr>\<rparr>
    \<and> (stop = g_stop g \<or> (if g_side g = BUY then stop < g_entry g else stop > g_entry g))
    \<and> (target = g_target g \<or> (if g_side g = BUY then target > g_entry g else target < g_entry g))
    \<and> adopt_open_positions env fresh gtts ((snd (run_command se m cmd w))\<lparr>w_guards := empty_mgr\<rparr>)
       = adopt_open_positions env fresh gtts (w\<lparr>w_guards := empty_mgr\<rparr>)"
proof -
  obtain done1 partial where mg: "modify_guard (jfield (JObj cmd) ''stop'') (jfield (JObj cmd) ''target'') g = (done1, partial)" by fastforce
  let ?g' = "get_default done1 partial"
  have run: "snd (run_command se m cmd w) = w\<lparr>w_guards := (w_guards w)\<lparr>guards := (guards (w_guards w))(i \<mapsto> ?g')\<rparr>\<rparr>"
    using assms mg by (simp add: run_command_def Let_def)
  have g': "?g' = g\<lparr>g_stop := g_stop ?g', g_target := g_target ?g'\<rparr>
    \<and> (g_stop ?g' = g_stop g \<or> (if g_side g = BUY then g_stop ?g' < g_entry g else g_stop ?g' > g_entry g))
    \<and> (g_target ?g' = g_target g \<or> (if g_side g = BUY then g_target ?g' > g_entry g else g_target ?g' < g_entry g))"
    using mg by (auto simp: modify_guard_def modify_level_def Let_def split: json.splits if_splits)
  show ?thesis
    by (intro exI [of _ "g_stop ?g'"] exI [of _ "g_target ?g'"] conjI) (use g' run in simp_all)
qed

lemma modified_levels_are_lost_at_restart_witness:
  "\<exists>g. guards (w_guards (snd (run_command demo_senv PAPER
       [(''type'', JStr ''modify''), (''id'', JStr ''1''), (''stop'', JNum 99)] demo_held))) 1 = Some g \<and> g_stop g < 100"
proof -
  have "case guards (w_guards demo_held) 1 of None \<Rightarrow> False | Some g \<Rightarrow> (case g_side g of BUY \<Rightarrow> True | SELL \<Rightarrow> False) \<and> g_stop g < 100 \<and> g_entry g \<le> 100"
    by code_simp
  then obtain g where g: "guards (w_guards demo_held) 1 = Some g" "g_side g = BUY" "g_stop g < 100" "g_entry g \<le> 100"
    by (auto split: option.splits order_side.splits)
  let ?cmd = "[(''type'', JStr ''modify''), (''id'', JStr ''1''), (''stop'', JNum 99)]"
  have t: "jfield (JObj ?cmd) ''type'' = JStr ''modify''" "target_of (jfield (JObj ?cmd) ''id'') = To_Position 1"
    by (simp_all add: jfield_def target_of_def digit_val_def Let_def)
  from modified_levels_are_lost_at_restart [OF g(1) t, of demo_senv PAPER demo_env "\<lambda>_. []" "[]"]
  obtain stop target where "snd (run_command demo_senv PAPER ?cmd demo_held)
      = demo_held\<lparr>w_guards := (w_guards demo_held)\<lparr>guards := (guards (w_guards demo_held))(1 \<mapsto> g\<lparr>g_stop := stop, g_target := target\<rparr>)\<rparr>\<rparr>"
    "stop = g_stop g \<or> (if g_side g = BUY then stop < g_entry g else stop > g_entry g)" by blast
  with g show ?thesis by auto
qed
end
