(* ===== verification/Decision_Loop.thy ===== *)
theory Decision_Loop
  imports Engine_Properties
begin

text \<open>
  The slow loop of \<open>engine/main.py\<close>: one cycle of the decision loop over the intraday universe, the F&O
  universe and the commodity contracts, and the broker reconciliation that ends it. What the cycle
  reads from the market data service, the instrument table, the context builders (None: no context,
  or the builder raised) and the language model is the record \<open>feed\<close>; a cancelled evaluation
  (\<open>asyncio.wait_for\<close>) is not modelled.
\<close>

section \<open>Inputs of a cycle\<close>

record feed =
  fd_window :: bool
  fd_tokens :: "token list"
  fd_instrument :: "token \<Rightarrow> (instrument \<times> string) option"
  fd_intraday :: "token \<Rightarrow> (intraday_ctx \<times> real \<times> real) option"
  fd_cooling :: "cd_key \<Rightarrow> bool"
  fd_bullish :: real
  fd_bearish :: real
  fd_top :: int
  fd_universe :: "(string \<times> string) list"
  fd_token_of :: "string \<Rightarrow> token option"
  fd_fno :: "string \<Rightarrow> fno_ctx option"
  fd_mcx :: "(string \<times> instrument) list"
  fd_mcx_window :: bool
  fd_draw :: "instrument \<Rightarrow> corr_id \<times> int option \<times> llm_reply"
  fd_hour :: nat
  fd_weekday :: nat
  fd_net :: "broker_pos list option"

record engine_cfg =
  ec_orch :: orch_cfg
  ec_pipes :: "string \<Rightarrow> (instrument \<Rightarrow> mkt_ctx \<Rightarrow> pipeline_result option) option"

text \<open>A Redis key with a TTL: set, and not expired yet.\<close>

definition in_cooldown :: "feed \<Rightarrow> cd_key \<Rightarrow> 'b sworld \<Rightarrow> bool" where
  "in_cooldown f k w \<longleftrightarrow> w_cooldown w k \<noteq> None \<and> fd_cooling f k"

section \<open>Gates of the cycle\<close>

definition loop_blocked :: "config_state \<Rightarrow> bool" where
  "loop_blocked c \<longleftrightarrow> state_flag ''engine_paused'' c \<or> state_flag ''engine_halted'' c \<or> state_flag ''kill_switch_active'' c
     \<or> state_flag ''dd_circuit_active'' c"

section \<open>Evaluating one candidate\<close>

definition evaluate_one :: "engine_cfg \<Rightarrow> 'b eenv \<Rightarrow> feed \<Rightarrow> string \<Rightarrow> instrument \<Rightarrow> mkt_ctx \<Rightarrow> int option \<Rightarrow> int \<Rightarrow> 'b estate \<Rightarrow> 'b estate" where
  "evaluate_one ec e f sl ins cx expiry lot s =
    (case fd_draw f ins of (corr, sid, reply) \<Rightarrow>
     case orch_evaluate (ec_orch ec) (ee_senv e) (ee_risk e) (ec_pipes ec) sl ins
            \<lparr>ox_ctx = cx, ox_hour = fd_hour f, ox_weekday = fd_weekday f, ox_expiry = expiry, ox_lot = lot\<rparr>
            corr sid None reply (en_world s, en_risk s) of
       (res, w, rs) \<Rightarrow> s\<lparr>en_world := w, en_risk := rs\<rparr>)"

section \<open>Intraday equity\<close>

definition intraday_candidates :: "feed \<Rightarrow> 'b sworld \<Rightarrow> (instrument \<times> intraday_ctx \<times> real \<times> real) list" where
  "intraday_candidates f w =
    concat (map (\<lambda>t. case fd_instrument f t of
        Some (ins, segment) \<Rightarrow>
          (if segment = ''INDICES'' \<or> in_type ins \<noteq> Some ''EQ'' \<or> in_cooldown f (CD_Eq t) w then []
           else case fd_intraday f t of Some x \<Rightarrow> [(ins, x)] | None \<Rightarrow> [])
      | None \<Rightarrow> []) (fd_tokens f))"

definition day_breadth :: "feed \<Rightarrow> intraday_ctx list \<Rightarrow> string" where
  "day_breadth f cs =
    (if cs = [] then ''unknown''
     else let pct = of_nat (length (filter (\<lambda>c. ix_vwap c > 0 \<and> ix_last c \<ge> ix_vwap c) cs)) / of_nat (length cs) * 100
          in if pct \<ge> fd_bullish f then ''bullish'' else if pct \<le> fd_bearish f then ''bearish'' else ''mixed'')"

text \<open>The top names by relative volume; the sort is stable and descending.\<close>

definition in_play :: "int \<Rightarrow> (instrument \<times> intraday_ctx \<times> real \<times> real) list \<Rightarrow> (instrument \<times> intraday_ctx \<times> real \<times> real) list" where
  "in_play n cs = (if n > 0 \<and> int (length cs) > n then take (nat n) (sort_key (\<lambda>c. - ix_rvol (fst (snd c))) cs) else cs)"

definition intraday_pass :: "engine_cfg \<Rightarrow> 'b eenv \<Rightarrow> feed \<Rightarrow> 'b estate \<Rightarrow> 'b estate" where
  "intraday_pass ec e f s =
    (if \<not> sleeve_enabled ''intraday_stocks'' (w_config (en_world s)) then s
     else let cs = intraday_candidates f (en_world s); b = day_breadth f (map (fst \<circ> snd) cs);
              stamped = map (\<lambda>(ins, x, r). (ins, x\<lparr>ix_day_breadth := b\<rparr>, r)) cs
          in foldl (\<lambda>s (ins, x, a, rel). evaluate_one ec e f ''intraday_stocks'' ins (Cx_Intraday x a rel) None 1 s) s
               (in_play (fd_top f) stamped))"

section \<open>F&O\<close>

text \<open>The names that have an open structure are read once; live mode needs the structures setting.\<close>

definition fno_one :: "engine_cfg \<Rightarrow> 'b eenv \<Rightarrow> feed \<Rightarrow> string list \<Rightarrow> 'b estate \<Rightarrow> string \<times> string \<Rightarrow> 'b estate" where
  "fno_one ec e f names s u = (case u of (nm, ukey) \<Rightarrow>
    (if nm = [] \<or> ukey = [] \<or> nm \<in> set names \<or> in_cooldown f (CD_Fno nm) (en_world s) \<or> fd_token_of f ukey \<in> {None, Some 0} then s
     else case fd_fno f nm of
       None \<Rightarrow> s
     | Some x \<Rightarrow> evaluate_one ec e f ''fno''
         \<lparr>in_token = None, in_symbol = Some nm, in_exchange = Some ''NFO'', in_lot = Some (fx_lot x), in_type = Some ''CE'',
           in_tick = None, in_expiry = None\<rparr> (Cx_Fno x) (Some (fx_expiry x)) (fx_lot x) s))"

definition fno_pass :: "engine_cfg \<Rightarrow> 'b eenv \<Rightarrow> feed \<Rightarrow> 'b estate \<Rightarrow> 'b estate" where
  "fno_pass ec e f s =
    (let c = w_config (en_world s);
         live = (get_state c ''execution_mode'' JNull = JStr LIVE)
     in if (live \<and> \<not> e_fno_live (se_env (ee_senv e))) \<or> \<not> sleeve_enabled ''fno'' c then s
        else foldl (fno_one ec e f (map sg_name (all_guards (w_structs (en_world s))))) s (fd_universe f))"

section \<open>Commodities\<close>

definition mcx_one :: "engine_cfg \<Rightarrow> 'b eenv \<Rightarrow> feed \<Rightarrow> 'b estate \<Rightarrow> string \<times> instrument \<Rightarrow> 'b estate" where
  "mcx_one ec e f s c = (case in_token (snd c) of
     None \<Rightarrow> s
   | Some t \<Rightarrow>
      (if \<not> fd_mcx_window f \<or> in_cooldown f (CD_Eq t) (en_world s) then s
       else case fd_intraday f t of
         None \<Rightarrow> s
       | Some (x, a, rel) \<Rightarrow> evaluate_one ec e f ''mcx_commodities'' (snd c)
           (Cx_Intraday (x\<lparr>ix_window_ok := True, ix_day_breadth := ''unknown''\<rparr>) a rel) None 1 s))"

definition mcx_pass :: "engine_cfg \<Rightarrow> 'b eenv \<Rightarrow> feed \<Rightarrow> 'b estate \<Rightarrow> 'b estate" where
  "mcx_pass ec e f s =
    (if \<not> sleeve_enabled ''mcx_commodities'' (w_config (en_world s)) then s else foldl (mcx_one ec e f) s (fd_mcx f))"

section \<open>Reconciliation\<close>

text \<open>In live mode only; a failed positions call skips the block.\<close>

definition reconcile_pass :: "'b eenv \<Rightarrow> feed \<Rightarrow> 'b sworld \<Rightarrow> 'b sworld" where
  "reconcile_pass e f w =
    (let env = se_env (ee_senv e) in
     if current_mode env w \<noteq> LIVE then w
     else case fd_net f of
       None \<Rightarrow> w
     | Some net \<Rightarrow> reconcile_brackets env (snd (resolve_pending_closes env (snd (run_reconcile net w)))))"

section \<open>The cycle\<close>

definition decision_cycle :: "engine_cfg \<Rightarrow> 'b eenv \<Rightarrow> feed \<Rightarrow> 'b estate \<Rightarrow> 'b estate" where
  "decision_cycle ec e f s =
    (if \<not> fd_window f \<or> \<not> state_flag ''orchestrator_enabled'' (w_config (en_world s)) \<or> loop_blocked (w_config (en_world s)) then s
     else case capital_now e True s of (cap, s1) \<Rightarrow>
       if cap \<le> 0 then s1
       else case update_circuits e s1 of (ok, s2) \<Rightarrow>
         if \<not> ok \<or> state_flag ''dd_circuit_active'' (w_config (en_world s2)) then s2
         else let s3 = mcx_pass ec e f (fno_pass ec e f (intraday_pass ec e f s2))
              in s3\<lparr>en_world := reconcile_pass e f (en_world s3)\<rparr>)"

section \<open>The drawdown circuit over a day\<close>

text \<open>The specification: the peak is the running maximum of the day's net P&L, never below zero, and the
  circuit trips at the first snapshot that has given back too much of it.\<close>

fun running_peak :: "rupees \<Rightarrow> rupees list \<Rightarrow> rupees" where
  "running_peak p [] = p"
| "running_peak p (n # xs) = running_peak (max (max p n) 0) xs"

definition gave_back :: "'b eenv \<Rightarrow> rupees \<Rightarrow> rupees \<Rightarrow> rupees \<Rightarrow> bool" where
  "gave_back e peak net cap \<longleftrightarrow> drawdown_breached peak net cap (bc_max_drawdown (ee_brakes e))
     \<or> profit_lock_breached peak net cap (bc_lock_trigger (ee_brakes e)) (bc_lock_giveback (ee_brakes e))"

fun tripped_spec :: "'b eenv \<Rightarrow> rupees \<Rightarrow> (rupees \<times> rupees) list \<Rightarrow> bool" where
  "tripped_spec e p [] \<longleftrightarrow> False"
| "tripped_spec e p ((net, cap) # xs) \<longleftrightarrow> gave_back e (max (max p net) 0) net cap \<or> tripped_spec e (max (max p net) 0) xs"

definition circuit_run :: "'b eenv \<Rightarrow> (book \<times> rupees) list \<Rightarrow> config_state \<Rightarrow> config_state" where
  "circuit_run e snaps c = foldl (\<lambda>c (bk, cap). drawdown_circuit e bk cap c) c snaps"

lemma drawdown_circuit_step:
  "stored_peak (re_today (ee_risk e)) (drawdown_circuit e bk cap c) = max (max (stored_peak (re_today (ee_risk e)) c) (day_net e bk)) 0"
  "state_flag ''dd_circuit_active'' (drawdown_circuit e bk cap c) \<longleftrightarrow> state_flag ''dd_circuit_active'' c
     \<or> gave_back e (max (max (stored_peak (re_today (ee_risk e)) c) (day_net e bk)) 0) (day_net e bk) cap"
  by (auto simp: drawdown_circuit_def Let_def stored_peak_def get_state_def set_state_def jfield_def state_flag_def gave_back_def)

text \<open>C15. The stored state of the drawdown circuit is its specification. However often the circuits run
  over a day, on whatever books and capitals, the peak in the operator table is the running maximum of
  the day's net P&L, and the circuit is active exactly if it was active before or some run found
  that too much of the peak of that moment had been given back; it never clears itself.\<close>
theorem drawdown_circuit_tracks_the_peak:
  "stored_peak (re_today (ee_risk e)) (circuit_run e snaps c)
     = running_peak (stored_peak (re_today (ee_risk e)) c) (map (day_net e \<circ> fst) snaps)
   \<and> (state_flag ''dd_circuit_active'' (circuit_run e snaps c) \<longleftrightarrow> state_flag ''dd_circuit_active'' c
       \<or> tripped_spec e (stored_peak (re_today (ee_risk e)) c) (map (\<lambda>(bk, cap). (day_net e bk, cap)) snaps))"
proof (induction snaps arbitrary: c)
  case Nil
  then show ?case by (simp add: circuit_run_def)
next
  case (Cons x snaps)
  obtain bk cap where x: "x = (bk, cap)" by fastforce
  have r: "circuit_run e (x # snaps) c = circuit_run e snaps (drawdown_circuit e bk cap c)" by (simp add: circuit_run_def x)
  show ?case unfolding r using Cons [of "drawdown_circuit e bk cap c"] by (simp add: drawdown_circuit_step x)
qed

lemma running_peak_ge: "p \<le> running_peak p xs \<and> (\<forall>n\<in>set xs. n \<le> running_peak p xs)"
proof (induction xs arbitrary: p)
  case (Cons n xs)
  from Cons [of "max (max p n) 0"] show ?case by auto
qed simp

section \<open>Scheduled switches and the feed's fail-safe\<close>

definition paper_autorun_enable :: "config_state \<Rightarrow> config_state" where
  "paper_autorun_enable c =
    (if get_state c ''execution_mode'' (JStr PAPER) \<noteq> JStr PAPER then c else set_state ''orchestrator_enabled'' (JBool True) c)"

definition paper_autorun_disable :: "config_state \<Rightarrow> config_state" where
  "paper_autorun_disable c = set_state ''orchestrator_enabled'' (JBool False) c"

definition feed_failsafe :: "'b eenv \<Rightarrow> 'b sworld \<Rightarrow> 'b sworld" where
  "feed_failsafe e w = flatten_all (ee_senv e) (ee_mode e) ''failsafe'' w"

end
