(* ===== verification/Calendar.thy ===== *)
theory Calendar
  imports Prelude
begin

text \<open>
  Days and trading days: what the code uses of Python's \<open>datetime.date\<close>, the trading calendar of
  \<open>dataplatform/marketcalendar/holidays.py\<close> and the venue sessions of \<open>common/sessions.py\<close> and
  \<open>common/market_time.py\<close>. A day is its proleptic Gregorian ordinal, 1 for the first of January of the
  year 1, as \<open>toordinal\<close> counts; arithmetic that leaves the representable years raises and is None.
\<close>

section \<open>Dates\<close>

type_synonym date = int

definition max_ordinal :: date where
  "max_ordinal = 3652059"

definition weekday :: "date \<Rightarrow> int" where
  "weekday d = (d + 6) mod 7"

definition shift_days :: "date \<Rightarrow> int \<Rightarrow> date option" where
  "shift_days d n = (if 1 \<le> d + n \<and> d + n \<le> max_ordinal then Some (d + n) else None)"

definition is_leap :: "int \<Rightarrow> bool" where
  "is_leap y \<longleftrightarrow> y mod 4 = 0 \<and> (y mod 100 \<noteq> 0 \<or> y mod 400 = 0)"

definition days_before_year :: "int \<Rightarrow> int" where
  "days_before_year y = (y - 1) * 365 + (y - 1) div 4 - (y - 1) div 100 + (y - 1) div 400"

definition days_in_month :: "int \<Rightarrow> int \<Rightarrow> int" where
  "days_in_month y m = (if m = 2 then (if is_leap y then 29 else 28)
     else if m = 4 \<or> m = 6 \<or> m = 9 \<or> m = 11 then 30 else 31)"

definition days_before_month :: "int \<Rightarrow> int \<Rightarrow> int" where
  "days_before_month y m = sum_list (map (days_in_month y) [1..m - 1])"

definition ordinal :: "int \<Rightarrow> int \<Rightarrow> int \<Rightarrow> date" where
  "ordinal y m d = days_before_year y + days_before_month y m + d"

text \<open>\<open>date(y, m, d)\<close>, which raises outside the calendar.\<close>

definition mk_date :: "int \<Rightarrow> int \<Rightarrow> int \<Rightarrow> date option" where
  "mk_date y m d = (if 1 \<le> y \<and> y \<le> 9999 \<and> 1 \<le> m \<and> m \<le> 12 \<and> 1 \<le> d \<and> d \<le> days_in_month y m
     then Some (ordinal y m d) else None)"

text \<open>The year and month of a day: an estimate of the year that is off by one at most, then the month
  whose days contain the rest.\<close>

definition year_of :: "date \<Rightarrow> int" where
  "year_of d = (let y = (400 * (d - 1)) div 146097 + 1 in
     if days_before_year (y + 1) < d then y + 1 else if d \<le> days_before_year y then y - 1 else y)"

definition month_of :: "date \<Rightarrow> int" where
  "month_of d = (let r = d - days_before_year (year_of d)
     in int (length (filter (\<lambda>m. days_before_month (year_of d) m < r) [1..12])))"

section \<open>The trading calendar\<close>

record trading_calendar =
  tc_exchange :: string
  tc_holidays :: "date list"

definition add_holidays :: "date list \<Rightarrow> trading_calendar \<Rightarrow> trading_calendar" where
  "add_holidays ds c = c\<lparr>tc_holidays := fold List.insert ds (tc_holidays c)\<rparr>"

definition seed_holidays :: "(int \<times> int \<times> int) list" where
  "seed_holidays =
    [(2024, 1, 26), (2024, 3, 8), (2024, 3, 25), (2024, 3, 29), (2024, 4, 11), (2024, 4, 17), (2024, 5, 1), (2024, 6, 17),
     (2024, 7, 17), (2024, 8, 15), (2024, 10, 2), (2024, 11, 1), (2024, 11, 15), (2024, 12, 25),
     (2025, 2, 26), (2025, 3, 14), (2025, 3, 31), (2025, 4, 10), (2025, 4, 14), (2025, 4, 18), (2025, 5, 1), (2025, 8, 15),
     (2025, 8, 27), (2025, 10, 2), (2025, 10, 21), (2025, 10, 22), (2025, 11, 5), (2025, 12, 25),
     (2026, 1, 26), (2026, 3, 6), (2026, 3, 25), (2026, 4, 1), (2026, 4, 14), (2026, 5, 1), (2026, 8, 15), (2026, 10, 2),
     (2026, 11, 9), (2026, 12, 25)]"

definition from_seed :: "string \<Rightarrow> trading_calendar" where
  "from_seed exch = \<lparr>tc_exchange = exch, tc_holidays = map (\<lambda>(y, m, d). ordinal y m d) seed_holidays\<rparr>"

definition is_weekend :: "date \<Rightarrow> bool" where
  "is_weekend d \<longleftrightarrow> 5 \<le> weekday d"

definition is_trading_day :: "trading_calendar \<Rightarrow> date \<Rightarrow> bool" where
  "is_trading_day c d \<longleftrightarrow> \<not> is_weekend d \<and> \<not> List.member (tc_holidays c) d"

text \<open>The loops that walk from a day that was already moved: they end at a trading day or raise at the
  end of the calendar.\<close>

function walk_back :: "trading_calendar \<Rightarrow> date \<Rightarrow> date option" where
  "walk_back c cur = (if cur < 1 then None else if is_trading_day c cur then Some cur else walk_back c (cur - 1))"
  by pat_completeness auto
termination by (relation "measure (\<lambda>(c, cur). nat cur)") auto

function walk_on :: "trading_calendar \<Rightarrow> date \<Rightarrow> date option" where
  "walk_on c cur = (if max_ordinal < cur then None else if is_trading_day c cur then Some cur else walk_on c (cur + 1))"
  by pat_completeness auto
termination by (relation "measure (\<lambda>(c, cur). nat (max_ordinal + 1 - cur))") auto

declare walk_back.simps [simp del] walk_on.simps [simp del]

definition previous_trading_day :: "trading_calendar \<Rightarrow> date \<Rightarrow> date option" where
  "previous_trading_day c d = walk_back c (d - 1)"

definition next_trading_day :: "trading_calendar \<Rightarrow> date \<Rightarrow> date option" where
  "next_trading_day c d = walk_on c (d + 1)"

definition roll_to_trading_day :: "trading_calendar \<Rightarrow> date \<Rightarrow> date option" where
  "roll_to_trading_day c d = (if is_trading_day c d then Some d else previous_trading_day c d)"

function count_trading_days :: "trading_calendar \<Rightarrow> date \<Rightarrow> date \<Rightarrow> nat \<Rightarrow> nat" where
  "count_trading_days c cur en n =
    (if cur < en then count_trading_days c (cur + 1) en (if is_trading_day c (cur + 1) then n + 1 else n) else n)"
  by pat_completeness auto
termination by (relation "measure (\<lambda>(c, cur, en, n). nat (en - cur))") auto

declare count_trading_days.simps [simp del]

definition trading_days_between :: "trading_calendar \<Rightarrow> date \<Rightarrow> date \<Rightarrow> nat" where
  "trading_days_between c st en = (if en \<le> st then 0 else count_trading_days c st en 0)"

section \<open>Venue sessions\<close>

datatype venue = NSE_EQ | NFO | MCX

text \<open>A time of day is its microseconds since midnight; \<open>parse_hhmm\<close> of a window's bound is \<open>hhmm\<close>.\<close>

definition hhmm :: "nat \<Rightarrow> nat \<Rightarrow> tod" where
  "hhmm h m = (h * 60 + m) * 60000000"

definition default_window :: "venue \<Rightarrow> tod \<times> tod" where
  "default_window v = (case v of MCX \<Rightarrow> (hhmm 9 0, hhmm 23 30) | _ \<Rightarrow> (hhmm 9 15, hhmm 15 30))"

definition venue_for :: "string option \<Rightarrow> venue" where
  "venue_for exch = (let e = py_upper (get_default exch []) in
     if e = ''NFO'' \<or> e = ''BFO'' then NFO else if e = ''MCX'' then MCX else NSE_EQ)"

definition is_within :: "tod \<Rightarrow> tod \<Rightarrow> tod \<Rightarrow> bool" where
  "is_within lo hi t \<longleftrightarrow> lo \<le> t \<and> t \<le> hi"

record market_sessions =
  ms_calendar :: trading_calendar
  ms_windows :: "venue \<Rightarrow> tod \<times> tod"

definition sessions_with :: "trading_calendar \<Rightarrow> (venue \<rightharpoonup> tod \<times> tod) \<Rightarrow> market_sessions" where
  "sessions_with cal ws = \<lparr>ms_calendar = cal, ms_windows = (\<lambda>v. get_default (ws v) (default_window v))\<rparr>"

definition is_open :: "market_sessions \<Rightarrow> venue \<Rightarrow> date \<Rightarrow> tod \<Rightarrow> bool" where
  "is_open s v d t \<longleftrightarrow> is_trading_day (ms_calendar s) d \<and> is_within (fst (ms_windows s v)) (snd (ms_windows s v)) t"

definition open_venues :: "market_sessions \<Rightarrow> date \<Rightarrow> tod \<Rightarrow> venue list" where
  "open_venues s d t = filter (\<lambda>v. is_open s v d t) [NSE_EQ, NFO, MCX]"

definition any_open :: "market_sessions \<Rightarrow> date \<Rightarrow> tod \<Rightarrow> bool" where
  "any_open s d t \<longleftrightarrow> list_ex (\<lambda>v. is_open s v d t) [NSE_EQ, NFO, MCX]"

section \<open>Days, months and years\<close>

lemma leap_bounds:
  fixes n a b c :: int
  assumes "4 * a + ra = n" "100 * b + rb = n" "400 * c + rc = n"
    and "0 \<le> ra" "ra < 4" "0 \<le> rb" "rb < 100" "0 \<le> rc" "rc < 400"
  shows "146097 * n - 699 \<le> 400 * (n * 365 + a - b + c)" "400 * (n * 365 + a - b + c) \<le> 146097 * n + 396"
  using assms by auto

lemma days_before_year_bounds:
  "146097 * (y - 1) - 699 \<le> 400 * days_before_year y" "400 * days_before_year y \<le> 146097 * (y - 1) + 396"
  using leap_bounds [OF mult_div_mod_eq mult_div_mod_eq mult_div_mod_eq, of "y - 1"]
  unfolding days_before_year_def by simp_all

lemma div_step:
  fixes k n :: int
  shows "0 < k \<Longrightarrow> n div k = (n - 1) div k + (if n mod k = 0 then 1 else 0)"
proof -
  assume k: "0 < k"
  have e: "n - 1 = k * (n div k) + (n mod k - 1)" by simp
  show ?thesis
  proof (cases "n mod k = 0")
    case True
    have "(n - 1) div k = n div k - 1" by (rule int_div_pos_eq [of _ _ _ "k - 1"]) (use k e True in \<open>auto simp: algebra_simps\<close>)
    with True show ?thesis by simp
  next
    case False
    have "(n - 1) div k = n div k"
      by (rule int_div_pos_eq [of _ _ _ "n mod k - 1"]) (use k e False pos_mod_sign [OF k, of n] pos_mod_bound [OF k, of n] in linarith)+
    with False show ?thesis by simp
  qed
qed

lemma leap_step:
  fixes n a b c :: int
  assumes "a = a' + (if p4 then 1 else 0)" "b = b' + (if p100 then 1 else 0)" "c = c' + (if p400 then 1 else 0)"
    and "p400 \<Longrightarrow> p100" "p100 \<Longrightarrow> p4"
  shows "n * 365 + a - b + c = (n - 1) * 365 + a' - b' + c' + (if p4 \<and> (\<not> p100 \<or> p400) then 366 else 365)"
  using assms by auto

lemma days_before_year_step: "days_before_year (y + 1) = days_before_year y + (if is_leap y then 366 else 365)"
proof -
  have "y mod 400 = 0 \<Longrightarrow> y mod 100 = 0" "y mod 100 = 0 \<Longrightarrow> y mod 4 = 0"
    using mod_mod_cancel [of 100 400 y] mod_mod_cancel [of 4 100 y] by auto
  note nested = this
  have pos: "(0::int) < 4" "(0::int) < 100" "(0::int) < 400" by simp_all
  note step = leap_step [OF div_step [OF pos(1), of y] div_step [OF pos(2), of y] div_step [OF pos(3), of y] nested, of y]
  show ?thesis unfolding days_before_year_def is_leap_def add_diff_cancel_right' by (rule step)
qed

lemma year_of_spec: "days_before_year (year_of d) < d \<and> d \<le> days_before_year (year_of d + 1)"
proof -
  let ?y = "400 * (d - 1) div 146097 + 1"
  obtain q r where q: "400 * (d - 1) div 146097 = q" "400 * (d - 1) mod 146097 = r" by blast
  have r: "146097 * q + r = 400 * (d - 1)" "0 \<le> r" "r < 146097" unfolding q [symmetric] by (rule mult_div_mod_eq) simp_all
  then have m: "146097 * (?y - 1) \<le> 400 * (d - 1)" "400 * (d - 1) < 146097 * ?y" unfolding q by simp_all
  have lo: "days_before_year ?y < d" using days_before_year_bounds(2) [of ?y] m(1) unfolding q by simp
  have hi: "d \<le> days_before_year (?y + 1 + 1)" using days_before_year_bounds(1) [of "?y + 1 + 1"] m(2) unfolding q by simp
  show ?thesis
  proof (cases "days_before_year (?y + 1) < d")
    case True
    with hi show ?thesis by (simp add: year_of_def Let_def)
  next
    case False
    with lo show ?thesis by (simp add: year_of_def Let_def)
  qed
qed

lemma days_before_year_mono: "y \<le> z \<Longrightarrow> days_before_year y \<le> days_before_year z"
proof (induction rule: int_ge_induct)
  case (step z)
  then show ?case using days_before_year_step [of z] by (simp split: if_splits)
qed simp

lemma year_of_unique:
  assumes "days_before_year y < d" "d \<le> days_before_year (y + 1)"
  shows "year_of d = y"
proof (rule ccontr)
  assume "year_of d \<noteq> y"
  then consider "year_of d + 1 \<le> y" | "y + 1 \<le> year_of d" by linarith
  then show False
    using days_before_year_mono [of "year_of d + 1" y] days_before_year_mono [of "y + 1" "year_of d"] year_of_spec [of d] assms
    by cases simp_all
qed

lemma months_upto: "[1..12] = [1, 2, 3, 4, 5, 6, 7, 8, 9, 10, 11, 12::int]"
  by (simp add: upto.simps)

lemma month_cases:
  assumes "1 \<le> (m::int)" "m \<le> 12"
  obtains "m = 1" | "m = 2" | "m = 3" | "m = 4" | "m = 5" | "m = 6" | "m = 7" | "m = 8" | "m = 9" | "m = 10" | "m = 11" | "m = 12"
proof -
  from assms have "m \<in> set [1..12]" by simp
  also note months_upto
  finally show thesis using that by auto
qed

lemma month_table:
  "days_before_month y 1 = 0" "days_before_month y 2 = 31"
  "days_before_month y 3 = 59 + of_bool (is_leap y)" "days_before_month y 4 = 90 + of_bool (is_leap y)"
  "days_before_month y 5 = 120 + of_bool (is_leap y)" "days_before_month y 6 = 151 + of_bool (is_leap y)"
  "days_before_month y 7 = 181 + of_bool (is_leap y)" "days_before_month y 8 = 212 + of_bool (is_leap y)"
  "days_before_month y 9 = 243 + of_bool (is_leap y)" "days_before_month y 10 = 273 + of_bool (is_leap y)"
  "days_before_month y 11 = 304 + of_bool (is_leap y)" "days_before_month y 12 = 334 + of_bool (is_leap y)"
  by (simp_all add: days_before_month_def days_in_month_def upto.simps)

text \<open>The calendar is a bijection between dates and ordinals.\<close>

lemma ordinal_of_date:
  assumes "mk_date y m d = Some n"
  shows "year_of n = y \<and> month_of n = m \<and> n = days_before_year y + days_before_month y m + d"
proof -
  from assms have b: "1 \<le> m" "m \<le> 12" "1 \<le> d" "d \<le> days_in_month y m" and n: "n = ordinal y m d"
    by (auto simp: mk_date_def split: if_splits)
  have r: "0 \<le> days_before_month y m" "days_before_month y m + d \<le> (if is_leap y then 366 else 365)"
    using b by - (cases rule: month_cases [OF b(1,2)]; simp add: month_table days_in_month_def split: if_splits)+
  have y: "year_of n = y"
    using b r days_before_year_step [of y] by (intro year_of_unique) (auto simp: n ordinal_def split: if_splits)
  have "month_of n = m" unfolding month_of_def y Let_def months_upto unfolding n ordinal_def
    using b by - (cases rule: month_cases [OF b(1,2)]; simp add: month_table days_in_month_def split: if_splits)
  with y show ?thesis by (simp add: n ordinal_def)
qed

section \<open>The walk finds the nearest trading day\<close>

lemma walk_back_Some:
  assumes "walk_back c cur = Some d"
  shows "is_trading_day c d \<and> 1 \<le> d \<and> d \<le> cur \<and> (\<forall>e. d < e \<longrightarrow> e \<le> cur \<longrightarrow> \<not> is_trading_day c e)"
  using assms
proof (induction c cur rule: walk_back.induct)
  case (1 c cur)
  show ?case
  proof (cases "is_trading_day c cur \<and> 1 \<le> cur")
    case True
    with 1(2) show ?thesis by (auto simp: walk_back.simps [of c cur])
  next
    case False
    with 1(2) have cur: "1 \<le> cur" "\<not> is_trading_day c cur" and w: "walk_back c (cur - 1) = Some d"
      by (auto simp: walk_back.simps [of c cur] split: if_splits)
    note ih = 1(1) [OF _ cur(2) w]
    show ?thesis
    proof (intro conjI allI impI)
      fix e assume e: "d < e" "e \<le> cur"
      show "\<not> is_trading_day c e" using ih cur e by (cases "e = cur") auto
    qed (use ih cur in auto)
  qed
qed

lemma walk_back_None: "walk_back c cur = None \<longleftrightarrow> (\<forall>e. 1 \<le> e \<longrightarrow> e \<le> cur \<longrightarrow> \<not> is_trading_day c e)"
proof (induction c cur rule: walk_back.induct)
  case (1 c cur)
  show ?case
  proof (cases "1 \<le> cur \<and> \<not> is_trading_day c cur")
    case True
    then have "walk_back c cur = walk_back c (cur - 1)" by (simp add: walk_back.simps [of c cur])
    moreover have "(\<forall>e. 1 \<le> e \<longrightarrow> e \<le> cur \<longrightarrow> \<not> is_trading_day c e) \<longleftrightarrow> (\<forall>e. 1 \<le> e \<longrightarrow> e \<le> cur - 1 \<longrightarrow> \<not> is_trading_day c e)"
      using True by (metis zle_diff1_eq order_le_less)
    ultimately show ?thesis using 1 True by auto
  next
    case False
    then show ?thesis by (auto simp: walk_back.simps [of c cur] intro: exI [of _ cur])
  qed
qed

text \<open>Rolling back gives the last trading day that is not after the given day, and raises only where the
  calendar has none.\<close>

lemma roll_spec:
  assumes "1 \<le> d"
  shows "roll_to_trading_day c d = Some r \<longleftrightarrow>
    is_trading_day c r \<and> 1 \<le> r \<and> r \<le> d \<and> (\<forall>e. r < e \<longrightarrow> e \<le> d \<longrightarrow> \<not> is_trading_day c e)"
    (is "_ \<longleftrightarrow> ?P r")
proof -
  have eq: "roll_to_trading_day c d = walk_back c d"
    using assms by (simp add: roll_to_trading_day_def previous_trading_day_def walk_back.simps [of c d])
  show ?thesis
  proof
    assume "roll_to_trading_day c d = Some r"
    then show "?P r" using walk_back_Some eq by simp
  next
    assume r: "?P r"
    then obtain s where s: "walk_back c d = Some s" using walk_back_None [of c d] by (cases "walk_back c d") auto
    from walk_back_Some [OF s] r have "s = r" by (metis linorder_neqE)
    with s eq show "roll_to_trading_day c d = Some r" by simp
  qed
qed

lemma roll_le: "roll_to_trading_day c d = Some r \<Longrightarrow> 1 \<le> d \<Longrightarrow> r \<le> d"
  using roll_spec by blast

lemma roll_mono:
  assumes "roll_to_trading_day c d = Some r" "roll_to_trading_day c e = Some s" "1 \<le> d" "d \<le> e"
  shows "r \<le> s"
proof -
  from assms roll_spec [of d c r] roll_spec [of e c s] have "is_trading_day c r" "r \<le> e"
    "\<forall>x. s < x \<longrightarrow> x \<le> e \<longrightarrow> \<not> is_trading_day c x" by auto
  then show ?thesis by (meson not_le)
qed

lemma count_trading_days_eq:
  "count_trading_days c cur en n = n + card {d. cur < d \<and> d \<le> en \<and> is_trading_day c d}"
proof (induction c cur en n rule: count_trading_days.induct)
  case (1 c cur en n)
  show ?case
  proof (cases "cur < en")
    case True
    have step: "cur < x \<longleftrightarrow> x = cur + 1 \<or> cur + 1 < x" for x by arith
    have "{d. cur < d \<and> d \<le> en \<and> is_trading_day c d}
      = (if is_trading_day c (cur + 1) then {cur + 1} else {}) \<union> {d. cur + 1 < d \<and> d \<le> en \<and> is_trading_day c d}"
      using True unfolding step by auto
    moreover have "finite {d. cur + 1 < d \<and> d \<le> en \<and> is_trading_day c d}"
      by (rule finite_subset [of _ "{cur + 1..en}"]) auto
    ultimately show ?thesis using True 1 by (simp add: count_trading_days.simps [of c cur])
  next
    case False
    then have none: "{d. cur < d \<and> d \<le> en \<and> is_trading_day c d} = {}" by auto
    show ?thesis unfolding none using False by (simp add: count_trading_days.simps [of c cur])
  qed
qed

lemma trading_days_between_eq:
  "trading_days_between c st en = card {d. st < d \<and> d \<le> en \<and> is_trading_day c d}"
proof (cases "st < en")
  case True
  then show ?thesis by (simp add: trading_days_between_def count_trading_days_eq)
next
  case False
  then have none: "{d. st < d \<and> d \<le> en \<and> is_trading_day c d} = {}" by auto
  show ?thesis unfolding none using False by (simp add: trading_days_between_def)
qed

lemma any_open_iff: "any_open s d t \<longleftrightarrow> open_venues s d t \<noteq> []"
  by (auto simp: any_open_def open_venues_def)

end
