(* ===== verification/Expiry.thy ===== *)
theory Expiry
  imports Calendar
begin

text \<open>
  The expiry engine, \<open>dataplatform/marketcalendar/expiry.py\<close>: weekday arithmetic, the effective-dated
  rules and the resolver of weekly and monthly expiries. A raised exception is the left of a sum, with
  its class, because \<open>expiries_in_range\<close> catches one class and not the other.
\<close>

section \<open>Errors\<close>

datatype date_error = Value_Error | Overflow_Error

type_synonym 'a outcome = "date_error + 'a"

definition or_raise :: "date_error \<Rightarrow> 'a option \<Rightarrow> 'a outcome" where
  "or_raise e x = (case x of None \<Rightarrow> Inl e | Some v \<Rightarrow> Inr v)"

definition and_then :: "'a outcome \<Rightarrow> ('a \<Rightarrow> 'b outcome) \<Rightarrow> 'b outcome" where
  "and_then x f = (case x of Inl e \<Rightarrow> Inl e | Inr v \<Rightarrow> f v)"

lemma or_raise_Inr [simp]: "or_raise e x = Inr v \<longleftrightarrow> x = Some v" "Inr v = or_raise e x \<longleftrightarrow> x = Some v"
  by (auto simp: or_raise_def split: option.splits)

lemma and_then_simps [simp]: "and_then (Inl e) f = Inl e" "and_then (Inr v) f = f v"
  by (simp_all add: and_then_def)

lemma and_then_Inr [simp]: "and_then x f = Inr y \<longleftrightarrow> (\<exists>v. x = Inr v \<and> f v = Inr y)"
  by (cases x) auto

lemma and_then_cong [fundef_cong]:
  "x = x' \<Longrightarrow> (\<And>v. x' = Inr v \<Longrightarrow> f v = g v) \<Longrightarrow> and_then x f = and_then x' g"
  by (cases x') auto

section \<open>Weekday arithmetic\<close>

definition last_weekday_of_month :: "int \<Rightarrow> int \<Rightarrow> int \<Rightarrow> date outcome" where
  "last_weekday_of_month y m wd =
    and_then (or_raise Value_Error (mk_date y m (days_in_month y m)))
      (\<lambda>d. or_raise Overflow_Error (shift_days d (- ((weekday d - wd) mod 7))))"

function weekdays_from :: "date \<Rightarrow> date \<Rightarrow> date list outcome" where
  "weekdays_from cur en = (if cur \<le> en
     then and_then (or_raise Overflow_Error (shift_days cur 7)) (\<lambda>nx. and_then (weekdays_from nx en) (\<lambda>ds. Inr (cur # ds)))
     else Inr [])"
  by pat_completeness auto
termination by (relation "measure (\<lambda>(cur, en). nat (en + 1 - cur))") (auto simp: shift_days_def split: if_splits)

declare weekdays_from.simps [simp del]

definition weekdays_in_range :: "date \<Rightarrow> date \<Rightarrow> int \<Rightarrow> date list outcome" where
  "weekdays_in_range st en wd =
    and_then (or_raise Overflow_Error (shift_days st ((wd - weekday st) mod 7))) (\<lambda>cur. weekdays_from cur en)"

section \<open>Effective-dated rules\<close>

record expiry_rule =
  xr_underlying :: string
  xr_from :: date
  xr_to :: "date option"
  xr_weekly :: bool
  xr_weekly_day :: "int option"
  xr_monthly_day :: int

definition active_on :: "expiry_rule \<Rightarrow> date \<Rightarrow> bool" where
  "active_on r d = (if d < xr_from r then False else case xr_to r of None \<Rightarrow> True | Some t \<Rightarrow> d \<le> t)"

definition rule :: "string \<Rightarrow> int \<times> int \<times> int \<Rightarrow> (int \<times> int \<times> int) option \<Rightarrow> int option \<Rightarrow> int \<Rightarrow> expiry_rule" where
  "rule u f t w m = \<lparr>xr_underlying = u, xr_from = (case f of (y, mo, d) \<Rightarrow> ordinal y mo d),
     xr_to = map_option (\<lambda>(y, mo, d). ordinal y mo d) t, xr_weekly = (w \<noteq> None), xr_weekly_day = w, xr_monthly_day = m\<rparr>"

definition seed_rules :: "expiry_rule list" where
  "seed_rules =
    [rule ''NIFTY'' (2001, 6, 1) (Some (2019, 2, 10)) None 3,
     rule ''NIFTY'' (2019, 2, 11) (Some (2025, 8, 31)) (Some 3) 3,
     rule ''NIFTY'' (2025, 9, 1) None (Some 1) 1,
     rule ''FINNIFTY'' (2021, 1, 11) (Some (2024, 11, 19)) (Some 1) 1,
     rule ''FINNIFTY'' (2024, 11, 20) None None 1,
     rule ''SENSEX'' (2000, 6, 1) (Some (2023, 5, 14)) None 3,
     rule ''SENSEX'' (2023, 5, 15) (Some (2024, 12, 31)) (Some 4) 4,
     rule ''SENSEX'' (2025, 1, 1) (Some (2025, 8, 31)) (Some 1) 1,
     rule ''SENSEX'' (2025, 9, 1) None (Some 3) 3]"

section \<open>The resolver\<close>

record resolver =
  rv_rules :: "expiry_rule list"
  rv_calendars :: "string \<rightharpoonup> trading_calendar"
  rv_default :: trading_calendar

definition seed_resolver :: resolver where
  "seed_resolver = \<lparr>rv_rules = seed_rules, rv_calendars = Map.empty, rv_default = from_seed ''NSE''\<rparr>"

definition exchange_of :: "string \<Rightarrow> string" where
  "exchange_of u = (if u = ''SENSEX'' then ''BSE'' else ''NSE'')"

definition cal_for :: "resolver \<Rightarrow> string \<Rightarrow> trading_calendar" where
  "cal_for rv u = get_default (rv_calendars rv (exchange_of u)) (rv_default rv)"

definition rule_on :: "resolver \<Rightarrow> string \<Rightarrow> date \<Rightarrow> expiry_rule outcome" where
  "rule_on rv u d = or_raise Value_Error (find (\<lambda>r. xr_underlying r = u \<and> active_on r d) (rv_rules rv))"

definition roll_or_raise :: "resolver \<Rightarrow> string \<Rightarrow> date \<Rightarrow> date outcome" where
  "roll_or_raise rv u d = or_raise Overflow_Error (roll_to_trading_day (cal_for rv u) d)"

definition monthly_expiry :: "resolver \<Rightarrow> string \<Rightarrow> int \<Rightarrow> int \<Rightarrow> date outcome" where
  "monthly_expiry rv u y m =
    and_then (or_raise Value_Error (mk_date y m 15)) (\<lambda>mid.
    and_then (rule_on rv u mid) (\<lambda>r.
    and_then (last_weekday_of_month y m (xr_monthly_day r)) (roll_or_raise rv u)))"

definition next_month :: "int \<Rightarrow> int \<Rightarrow> int \<times> int" where
  "next_month y m = (if m = 12 then (y + 1, 1) else (y, m + 1))"

definition current_monthly_expiry :: "resolver \<Rightarrow> string \<Rightarrow> date \<Rightarrow> date outcome" where
  "current_monthly_expiry rv u asof =
    and_then (monthly_expiry rv u (year_of asof) (month_of asof)) (\<lambda>e.
      if asof \<le> e then Inr e else case next_month (year_of asof) (month_of asof) of (y, m) \<Rightarrow> monthly_expiry rv u y m)"

definition has_weekly :: "resolver \<Rightarrow> string \<Rightarrow> date \<Rightarrow> bool outcome" where
  "has_weekly rv u asof = and_then (rule_on rv u asof) (\<lambda>r. Inr (xr_weekly r))"

fun first_rolled :: "resolver \<Rightarrow> string \<Rightarrow> date \<Rightarrow> date list \<Rightarrow> date option outcome" where
  "first_rolled rv u asof [] = Inr None"
| "first_rolled rv u asof (raw # ds) =
    and_then (roll_or_raise rv u raw) (\<lambda>adj. if asof \<le> adj then Inr (Some adj) else first_rolled rv u asof ds)"

definition next_weekly_expiry :: "resolver \<Rightarrow> string \<Rightarrow> date \<Rightarrow> date option outcome" where
  "next_weekly_expiry rv u asof =
    and_then (rule_on rv u asof) (\<lambda>r.
      if \<not> xr_weekly r then Inr None
      else case xr_weekly_day r of None \<Rightarrow> Inr None
      | Some wd \<Rightarrow> and_then (or_raise Overflow_Error (shift_days asof 40)) (\<lambda>en.
          and_then (weekdays_in_range asof en wd) (first_rolled rv u asof)))"

definition days_to_expiry_on :: "resolver \<Rightarrow> string \<Rightarrow> date \<Rightarrow> date \<Rightarrow> nat" where
  "days_to_expiry_on rv u asof expiry = trading_days_between (cal_for rv u) asof expiry"

section \<open>Listing a range\<close>

datatype expiry_type = Weekly | Monthly
datatype expiry_kind = All_Kinds | Only_Weekly | Only_Monthly

text \<open>The month loop catches \<open>ValueError\<close> of the month's expiry; the \<open>date\<close> of its condition is outside
  the \<open>try\<close>.\<close>

function month_loop :: "resolver \<Rightarrow> string \<Rightarrow> date \<Rightarrow> date \<Rightarrow> int \<Rightarrow> int \<Rightarrow> (date \<times> expiry_type) list \<Rightarrow> (date \<times> expiry_type) list outcome" where
  "month_loop rv u st en y m out =
    (case mk_date y m 1 of None \<Rightarrow> Inl Value_Error
     | Some first \<Rightarrow> if en < first then Inr out else
         and_then (case monthly_expiry rv u y m of
             Inl Value_Error \<Rightarrow> Inr out
           | Inl e \<Rightarrow> Inl e
           | Inr e \<Rightarrow> Inr (if st \<le> e \<and> e \<le> en then upsert e Monthly out else out))
           (\<lambda>out'. month_loop rv u st en (fst (next_month y m)) (snd (next_month y m)) out'))"
  by pat_completeness auto
termination
  by (relation "measure (\<lambda>(rv, u, st, en, y, m, out). nat (12 * (10000 - y) + (12 - m)))")
    (auto simp: mk_date_def next_month_def split: if_splits)

declare month_loop.simps [simp del]

lemma weekly_not_before: "next_weekly_expiry rv u cur = Inr (Some w) \<Longrightarrow> cur \<le> w"
proof -
  have first: "first_rolled rv u cur ds = Inr (Some w) \<Longrightarrow> cur \<le> w" for ds
    by (induction ds) (auto split: if_splits)
  show "next_weekly_expiry rv u cur = Inr (Some w) \<Longrightarrow> cur \<le> w"
    by (auto simp: next_weekly_expiry_def split: if_splits option.splits intro: first)
qed

text \<open>\<open>setdefault\<close> keeps the monthly entry of a date that is both.\<close>

definition set_default :: "date \<Rightarrow> expiry_type \<Rightarrow> (date \<times> expiry_type) list \<Rightarrow> (date \<times> expiry_type) list" where
  "set_default d t out = (if map_of out d = None then out @ [(d, t)] else out)"

function week_loop :: "resolver \<Rightarrow> string \<Rightarrow> date \<Rightarrow> date \<Rightarrow> date \<Rightarrow> (date \<times> expiry_type) list \<Rightarrow> (date \<times> expiry_type) list outcome" where
  "week_loop rv u st en cur out =
    (if en < cur then Inr out else
       and_then (has_weekly rv u cur) (\<lambda>h.
         if \<not> h then and_then (or_raise Overflow_Error (shift_days cur 7)) (\<lambda>nx. week_loop rv u st en nx out)
         else and_then (next_weekly_expiry rv u cur) (\<lambda>w. case w of
             None \<Rightarrow> and_then (or_raise Overflow_Error (shift_days cur 7)) (\<lambda>nx. week_loop rv u st en nx out)
           | Some e \<Rightarrow> and_then (or_raise Overflow_Error (shift_days e 1)) (\<lambda>nx.
               week_loop rv u st en nx (if st \<le> e \<and> e \<le> en then set_default e Weekly out else out)))))"
  by pat_completeness auto
termination
  by (relation "measure (\<lambda>(rv, u, st, en, cur, out). nat (en + 1 - cur))")
    (auto simp: shift_days_def split: if_splits dest: weekly_not_before)

declare week_loop.simps [simp del]

definition expiries_in_range :: "resolver \<Rightarrow> string \<Rightarrow> date \<Rightarrow> date \<Rightarrow> expiry_kind \<Rightarrow> (date \<times> expiry_type) list outcome" where
  "expiries_in_range rv u st en kind =
    and_then (month_loop rv u st en (year_of st) (month_of st) []) (\<lambda>out.
    and_then (if kind = Only_Monthly then Inr out else week_loop rv u st en st out) (\<lambda>out'.
      let kept = (if kind = Only_Monthly then filter (\<lambda>(d, t). t = Monthly) out' else out')
      in Inr (sort_key fst kept)))"

section \<open>Candidate days\<close>

lemma weekdays_from_spec:
  "weekdays_from cur en = Inr ds \<Longrightarrow> sorted_wrt (<) ds \<and> set ds = {d. cur \<le> d \<and> d \<le> en \<and> 7 dvd d - cur}"
proof (induction cur en arbitrary: ds rule: weekdays_from.induct)
  case (1 cur en)
  show ?case
  proof (cases "cur \<le> en")
    case True
    with 1(2) obtain ds' where ds: "shift_days cur 7 = Some (cur + 7)" "weekdays_from (cur + 7) en = Inr ds'" "ds = cur # ds'"
      by (auto simp: weekdays_from.simps [of cur en] shift_days_def split: if_splits)
    have ih: "sorted_wrt (<) ds'" "set ds' = {d. cur + 7 \<le> d \<and> d \<le> en \<and> 7 dvd d - (cur + 7)}"
      using 1(1) [OF True _ ds(2)] ds(1) by auto
    have step: "cur \<le> d \<and> 7 dvd d - cur \<longleftrightarrow> d = cur \<or> cur + 7 \<le> d \<and> 7 dvd d - (cur + 7)" for d
      by presburger
    from True have "set ds = {d. cur \<le> d \<and> d \<le> en \<and> 7 dvd d - cur}"
      unfolding ds(3) using ih(2) step by auto
    then show ?thesis using ih by (auto simp: ds(3))
  next
    case False
    with 1(2) show ?thesis by (auto simp: weekdays_from.simps [of cur en])
  qed
qed

lemma cancel_mod:
  fixes a w :: int
  shows "(a + (w - a mod 7)) mod 7 = w mod 7" "(a - (a mod 7 - w)) mod 7 = w mod 7"
proof -
  have e: "a + (w - a mod 7) = w + 7 * (a div 7)" "a - (a mod 7 - w) = w + 7 * (a div 7)"
    by (simp_all add: minus_mod_eq_mult_div [symmetric])
  show "(a + (w - a mod 7)) mod 7 = w mod 7" "(a - (a mod 7 - w)) mod 7 = w mod 7"
    unfolding e by (rule mod_mult_self2)+
qed

lemma weekday_shift: "weekday (st + (wd - weekday st) mod 7) = wd mod 7"
proof -
  have "weekday (st + (wd - weekday st) mod 7) = (st + 6 + (wd - weekday st) mod 7) mod 7" by (simp add: weekday_def algebra_simps)
  also have "\<dots> = wd mod 7" unfolding mod_add_right_eq weekday_def by (rule cancel_mod)
  finally show ?thesis .
qed

lemma weekday_back: "weekday (d - (weekday d - wd) mod 7) = wd mod 7"
proof -
  have "weekday (d - (weekday d - wd) mod 7) = (d + 6 - (weekday d - wd) mod 7) mod 7" by (simp add: weekday_def algebra_simps)
  also have "\<dots> = wd mod 7" unfolding mod_diff_right_eq weekday_def by (rule cancel_mod)
  finally show ?thesis .
qed

lemma weekday_eq: "weekday a = weekday b \<longleftrightarrow> 7 dvd a - b"
  by (simp add: weekday_def mod_eq_dvd_iff)

lemma dvd_gap: "7 dvd x \<Longrightarrow> - 7 < x \<Longrightarrow> (0::int) \<le> x"
  by presburger

lemma weekdays_in_range_spec:
  assumes "weekdays_in_range st en wd = Inr ds"
  shows "sorted_wrt (<) ds" "set ds = {d. st \<le> d \<and> d \<le> en \<and> weekday d = wd mod 7}"
proof -
  let ?cur = "st + (wd - weekday st) mod 7"
  from assms have w: "weekdays_from ?cur en = Inr ds"
    by (auto simp: weekdays_in_range_def shift_days_def split: if_splits)
  have eq: "?cur \<le> d \<and> 7 dvd d - ?cur \<longleftrightarrow> st \<le> d \<and> weekday d = wd mod 7" for d
  proof -
    have k: "0 \<le> (wd - weekday st) mod 7" "(wd - weekday st) mod 7 < 7" by simp_all
    have "weekday d = wd mod 7 \<longleftrightarrow> 7 dvd d - ?cur" by (metis weekday_shift weekday_eq)
    with k dvd_gap [of "d - ?cur"] show ?thesis by auto
  qed
  show "sorted_wrt (<) ds" "set ds = {d. st \<le> d \<and> d \<le> en \<and> weekday d = wd mod 7}"
    using weekdays_from_spec [OF w] eq by auto
qed

lemma first_rolled_spec:
  assumes "first_rolled rv u asof ds = Inr (Some w)" "sorted_wrt (<) ds"
  obtains raw where "raw \<in> set ds" "roll_to_trading_day (cal_for rv u) raw = Some w" "asof \<le> w"
    "\<And>d v. d \<in> set ds \<Longrightarrow> d < raw \<Longrightarrow> roll_to_trading_day (cal_for rv u) d = Some v \<Longrightarrow> v < asof"
  using assms
proof (induction ds arbitrary: thesis)
  case (Cons raw ds)
  from Cons.prems(2) obtain v where v: "roll_to_trading_day (cal_for rv u) raw = Some v" by (auto simp: roll_or_raise_def)
  show ?case
  proof (cases "asof \<le> v")
    case True
    with Cons.prems v show ?thesis by (intro Cons.prems(1) [of raw]) (auto simp: roll_or_raise_def)
  next
    case False
    with Cons.prems(2) v have "first_rolled rv u asof ds = Inr (Some w)" by (auto simp: roll_or_raise_def)
    from Cons.IH [OF _ this] Cons.prems(3) obtain r where r: "r \<in> set ds" "roll_to_trading_day (cal_for rv u) r = Some w" "asof \<le> w"
      "\<And>d v. d \<in> set ds \<Longrightarrow> d < r \<Longrightarrow> roll_to_trading_day (cal_for rv u) d = Some v \<Longrightarrow> v < asof" by auto
    show ?thesis by (rule Cons.prems(1) [of r]) (use r v False in auto)
  qed
qed simp

section \<open>Monthly expiries\<close>

lemma last_weekday_spec:
  assumes "last_weekday_of_month y m wd = Inr d"
  shows "year_of d = y \<and> month_of d = m \<and> weekday d = wd mod 7
    \<and> (\<forall>k n. mk_date y m k = Some n \<longrightarrow> weekday n = wd mod 7 \<longrightarrow> n \<le> d)"
proof -
  let ?k = "days_in_month y m"
  from assms obtain l where l: "mk_date y m ?k = Some l" and d: "d = l - (weekday l - wd) mod 7"
    by (auto simp: last_weekday_of_month_def shift_days_def split: if_splits)
  from l have ym: "1 \<le> y" "y \<le> 9999" "1 \<le> m" "m \<le> 12" "l = ordinal y m ?k" by (auto simp: mk_date_def split: if_splits)
  have k: "28 \<le> ?k" by (simp add: days_in_month_def)
  define j where "j = ?k - (weekday l - wd) mod 7"
  have "0 \<le> (weekday l - wd) mod 7" "(weekday l - wd) mod 7 < 7" by simp_all
  then have "mk_date y m j = Some d" using ym k by (auto simp: mk_date_def j_def d ordinal_def)
  then have "year_of d = y" "month_of d = m" using ordinal_of_date by blast+
  moreover have wd: "weekday d = wd mod 7" unfolding d by (rule weekday_back)
  moreover have "n \<le> d" if "mk_date y m i = Some n" "weekday n = wd mod 7" for i n
  proof -
    from that(1) ym(5) have "n \<le> l" by (auto simp: mk_date_def ordinal_def split: if_splits)
    moreover have "7 dvd d - n" using that(2) wd weekday_eq [of d n] by simp
    moreover have "l - 7 < d" unfolding d using pos_mod_bound [of 7 "weekday l - wd"] by simp
    ultimately show ?thesis using dvd_gap [of "d - n"] by simp
  qed
  ultimately show ?thesis by blast
qed

lemma monthly_expiry_spec:
  assumes "monthly_expiry rv u y m = Inr e"
  obtains mid r raw where "mk_date y m 15 = Some mid" "rule_on rv u mid = Inr r"
    "last_weekday_of_month y m (xr_monthly_day r) = Inr raw" "roll_to_trading_day (cal_for rv u) raw = Some e"
  using assms by (auto simp: monthly_expiry_def roll_or_raise_def)

section \<open>What a listing holds\<close>

definition listed :: "resolver \<Rightarrow> string \<Rightarrow> date \<Rightarrow> date \<Rightarrow> (date \<times> expiry_type) list \<Rightarrow> bool" where
  "listed rv u st en out \<longleftrightarrow> distinct (map fst out) \<and> (\<forall>(d, t) \<in> set out. st \<le> d \<and> d \<le> en
     \<and> (case t of Monthly \<Rightarrow> \<exists>y m. monthly_expiry rv u y m = Inr d
        | Weekly \<Rightarrow> \<exists>a. st \<le> a \<and> a \<le> d \<and> next_weekly_expiry rv u a = Inr (Some d)))"

lemma set_upsert_cases: "(d, t) \<in> set (upsert k v ps) \<Longrightarrow> (d, t) = (k, v) \<or> (d, t) \<in> set ps"
  by (induction k v ps rule: upsert.induct) (auto split: if_splits)

lemma listed_upsert:
  "listed rv u st en out \<Longrightarrow> monthly_expiry rv u y m = Inr e \<Longrightarrow> st \<le> e \<Longrightarrow> e \<le> en \<Longrightarrow> listed rv u st en (upsert e Monthly out)"
  by (fastforce simp: listed_def distinct_upsert dest: set_upsert_cases)

lemma listed_set_default:
  "listed rv u st en out \<Longrightarrow> next_weekly_expiry rv u a = Inr (Some e) \<Longrightarrow> st \<le> a \<Longrightarrow> e \<le> en \<Longrightarrow>
    listed rv u st en (set_default e Weekly out)"
  using weekly_not_before [of rv u a e]
  by (auto simp: listed_def set_default_def map_of_eq_None_iff)

lemma month_loop_listed:
  "month_loop rv u st en y m out = Inr out' \<Longrightarrow> listed rv u st en out \<Longrightarrow> listed rv u st en out'"
proof (induction rv u st en y m out rule: month_loop.induct)
  case (1 rv u st en y m out)
  from 1(2) obtain first where f: "mk_date y m 1 = Some first" by (auto simp: month_loop.simps [of rv u st en y m out] split: option.splits)
  show ?case
  proof (cases "en < first")
    case True
    with 1(2,3) f show ?thesis by (simp add: month_loop.simps [of rv u st en y m out])
  next
    case False
    with 1(2) f obtain out1 where o1: "(case monthly_expiry rv u y m of
             Inl Value_Error \<Rightarrow> Inr out
           | Inl e \<Rightarrow> Inl e
           | Inr e \<Rightarrow> Inr (if st \<le> e \<and> e \<le> en then upsert e Monthly out else out)) = Inr out1"
      and rec: "month_loop rv u st en (fst (next_month y m)) (snd (next_month y m)) out1 = Inr out'"
      by (auto simp: month_loop.simps [of rv u st en y m out])
    have "listed rv u st en out1"
      using o1 1(3) by (auto split: sum.splits date_error.splits if_splits intro: listed_upsert)
    with 1(1) [OF f False o1 rec] show ?thesis .
  qed
qed

lemma week_loop_listed:
  "week_loop rv u st en cur out = Inr out' \<Longrightarrow> st \<le> cur \<Longrightarrow> listed rv u st en out \<Longrightarrow> listed rv u st en out'"
proof (induction rv u st en cur out rule: week_loop.induct)
  case (1 rv u st en cur out)
  show ?case
  proof (cases "en < cur")
    case True
    with 1(4,6) show ?thesis by (simp add: week_loop.simps [of rv u st en cur out])
  next
    case False
    with 1(4) obtain h where h: "has_weekly rv u cur = Inr h" by (auto simp: week_loop.simps [of rv u st en cur out])
    show ?thesis
    proof (cases "h \<and> next_weekly_expiry rv u cur \<noteq> Inr None")
      case True
      with 1(4) h False obtain e nx where e: "next_weekly_expiry rv u cur = Inr (Some e)" "or_raise Overflow_Error (shift_days e 1) = Inr nx"
        "week_loop rv u st en nx (if st \<le> e \<and> e \<le> en then set_default e Weekly out else out) = Inr out'"
        by (auto simp: week_loop.simps [of rv u st en cur out] split: option.splits)
      have nx: "st \<le> nx" using e(2) weekly_not_before [OF e(1)] 1(5) by (auto simp: shift_days_def split: if_splits)
      from True have "\<not> \<not> h" by simp
      from 1(3) [OF False h this e(1) refl e(2,3) nx] show ?thesis
        using 1(5,6) e(1) listed_set_default by simp
    next
      case other: False
      with 1(4) h False obtain nx where nx: "or_raise Overflow_Error (shift_days cur 7) = Inr nx" "week_loop rv u st en nx out = Inr out'"
        by (cases h) (auto simp: week_loop.simps [of rv u st en cur out])
      then have "st \<le> nx" using 1(5) by (auto simp: shift_days_def split: if_splits)
      with other 1(1) [OF False h _ nx(1,2)] 1(2) [OF False h _ _ refl nx(1,2)] 1(6) show ?thesis by (cases h) auto
    qed
  qed
qed

section \<open>Properties\<close>

text \<open>C23. The next weekly expiry is the earliest one of the rule in force. It is a trading day not before the
  day asked for, it is the last trading day up to some day of the rule's weekday at most 40 days ahead, and
  every day of that weekday whose own rolled-back expiry is not before the day asked for, before or
  after it, expires no earlier.\<close>
theorem next_weekly_is_the_earliest:
  assumes "next_weekly_expiry rv u asof = Inr (Some w)" "1 \<le> asof"
  shows "\<exists>r wd. rule_on rv u asof = Inr r \<and> xr_weekly r \<and> xr_weekly_day r = Some wd
    \<and> is_trading_day (cal_for rv u) w \<and> asof \<le> w
    \<and> (\<exists>raw. weekday raw = wd mod 7 \<and> w \<le> raw \<and> raw \<le> asof + 40
         \<and> (\<forall>d. w < d \<longrightarrow> d \<le> raw \<longrightarrow> \<not> is_trading_day (cal_for rv u) d))
    \<and> (\<forall>raw v. 1 \<le> raw \<longrightarrow> weekday raw = wd mod 7 \<longrightarrow> roll_to_trading_day (cal_for rv u) raw = Some v \<longrightarrow> asof \<le> v \<longrightarrow> w \<le> v)"
proof -
  from assms(1) obtain r wd ds where r: "rule_on rv u asof = Inr r" "xr_weekly r" "xr_weekly_day r = Some wd"
    and ds: "weekdays_in_range asof (asof + 40) wd = Inr ds" and f: "first_rolled rv u asof ds = Inr (Some w)"
    by (auto simp: next_weekly_expiry_def shift_days_def split: if_splits option.splits)
  note cand = weekdays_in_range_spec [OF ds]
  from first_rolled_spec [OF f cand(1)] obtain raw where raw: "raw \<in> set ds" "roll_to_trading_day (cal_for rv u) raw = Some w" "asof \<le> w"
    and before: "\<And>d v. d \<in> set ds \<Longrightarrow> d < raw \<Longrightarrow> roll_to_trading_day (cal_for rv u) d = Some v \<Longrightarrow> v < asof" by blast
  from raw(1) cand(2) assms(2) have b: "asof \<le> raw" "raw \<le> asof + 40" "weekday raw = wd mod 7" "1 \<le> raw" by auto
  note roll = roll_spec [OF b(4), THEN iffD1, OF raw(2)]
  have "w \<le> v" if d: "1 \<le> d" "weekday d = wd mod 7" "roll_to_trading_day (cal_for rv u) d = Some v" "asof \<le> v" for d v
  proof (cases "raw \<le> d")
    case True
    with roll_mono [OF raw(2) d(3) b(4)] show ?thesis by simp
  next
    case False
    from roll_le [OF d(3,1)] d(4) have "asof \<le> d" by simp
    with False b d(2) cand(2) have "d \<in> set ds" by simp
    with before False d(3,4) show ?thesis by fastforce
  qed
  with r roll raw(3) b show ?thesis by blast
qed

lemma next_weekly_is_the_earliest_witness:
  "weekday (ordinal 2025 8 15) = 4 \<and> is_trading_day (cal_for seed_resolver ''NIFTY'') (ordinal 2025 8 14)"
proof -
  have "next_weekly_expiry seed_resolver ''NIFTY'' (ordinal 2025 8 12) = Inr (Some (ordinal 2025 8 14))" "1 \<le> ordinal 2025 8 12"
    by code_simp+
  from next_weekly_is_the_earliest [OF this] have "is_trading_day (cal_for seed_resolver ''NIFTY'') (ordinal 2025 8 14)" by blast
  moreover have "weekday (ordinal 2025 8 15) = 4" by code_simp
  ultimately show ?thesis by blast
qed

text \<open>A listing is sound. It is in strictly increasing order of its dates, every date lies in the range, a
  monthly entry is the expiry of some month and a weekly entry the next weekly expiry of a day in the
  range not after it, and no date is listed twice.\<close>
theorem listing_is_sound:
  assumes "expiries_in_range rv u st en kind = Inr es"
  shows "sorted_wrt (<) (map fst es) \<and> listed rv u st en es \<and> (kind = Only_Monthly \<longrightarrow> snd ` set es \<subseteq> {Monthly})"
proof -
  from assms obtain ms out where ms: "month_loop rv u st en (year_of st) (month_of st) [] = Inr ms"
    and out: "(if kind = Only_Monthly then Inr ms else week_loop rv u st en st ms) = Inr out"
    and es: "es = sort_key fst (if kind = Only_Monthly then filter (\<lambda>(d, t). t = Monthly) out else out)"
    by (auto simp: expiries_in_range_def Let_def)
  have "listed rv u st en []" by (simp add: listed_def)
  from month_loop_listed [OF ms this] have "listed rv u st en out"
    using out week_loop_listed [of rv u st en st ms out] by (auto split: if_splits)
  then have "listed rv u st en (if kind = Only_Monthly then filter (\<lambda>(d, t). t = Monthly) out else out)"
    by (auto simp: listed_def distinct_map_filter)
  moreover have "listed rv u st en (sort_key fst xs) \<longleftrightarrow> listed rv u st en xs" for xs
    by (simp add: listed_def distinct_map)
  ultimately have l: "listed rv u st en es" by (simp add: es)
  then have "sorted_wrt (<) (map fst es)" by (simp add: es listed_def strict_sorted_iff)
  with l show ?thesis by (auto simp: es)
qed

lemma listing_is_sound_witness:
  "sorted_wrt (<) (map fst [(ordinal 2025 8 28, Monthly), (ordinal 2025 9 4, Weekly), (ordinal 2025 9 9, Weekly)])"
proof -
  have "expiries_in_range seed_resolver ''NIFTY'' (ordinal 2025 8 25) (ordinal 2025 9 10) All_Kinds
     = Inr [(ordinal 2025 8 28, Monthly), (ordinal 2025 9 4, Weekly), (ordinal 2025 9 9, Weekly)]" by code_simp
  from listing_is_sound [OF this] show ?thesis by blast
qed

text \<open>Across a change of the rules the resolver lists an expiry that never existed. NIFTY's weekly options
  moved from Thursday to Tuesday on the first of September 2025, so the first expiry of that month was
  Tuesday the second; the rule is looked up for the day asked, not for the expiry, so from the last days
  of August on the answer is Thursday the fourth, and a listing of the range holds the fourth and not the second.\<close>
theorem rule_change_lists_a_phantom_expiry:
  "expiries_in_range seed_resolver ''NIFTY'' (ordinal 2025 8 25) (ordinal 2025 9 10) All_Kinds
     = Inr [(ordinal 2025 8 28, Monthly), (ordinal 2025 9 4, Weekly), (ordinal 2025 9 9, Weekly)]
   \<and> list_all (\<lambda>k. next_weekly_expiry seed_resolver ''NIFTY'' (ordinal 2025 8 k) = Inr (Some (ordinal 2025 9 4))) [29, 30, 31]
   \<and> next_weekly_expiry seed_resolver ''NIFTY'' (ordinal 2025 9 1) = Inr (Some (ordinal 2025 9 2))
   \<and> weekday (ordinal 2025 9 4) = 3
   \<and> map_sum id xr_weekly_day (rule_on seed_resolver ''NIFTY'' (ordinal 2025 9 4)) = Inr (Some 1)"
  by (intro conjI; code_simp)

end
