(* ===== verification/History.thy ===== *)
theory History
  imports Prelude
begin

text \<open>
  The candle store and what fills it: the upsert and the reads of \<open>data/store.py\<close>, the chunked backfill and the
  gap reconciliation of \<open>data/historical.py\<close>, the instrument master of \<open>data/instruments.py\<close> and the start-up jobs
  of \<open>data/service.py\<close>. A time is in microseconds. The table \<open>candles\<close> is an association list over its primary key,
  whose order is the one the database returns rows in; the historical API (called through the rate governor),
  deadlocks of the database and the broker's instrument dump are arguments.
\<close>

section \<open>The candle table\<close>

record candle_vals =
  cv_open :: real
  cv_high :: real
  cv_low :: real
  cv_close :: real
  cv_volume :: int
  cv_oi :: "int option"

type_synonym candle_key = "token \<times> string \<times> int"
type_synonym candle_table = "(candle_key \<times> candle_vals) list"

definition put_rows :: "(candle_key \<times> candle_vals) list \<Rightarrow> candle_table \<Rightarrow> candle_table" where
  "put_rows rows t = foldl (\<lambda>t r. upsert (fst r) (snd r) t) t rows"

text \<open>Three attempts; a deadlock of the third is raised.\<close>

definition upsert_candles :: "(nat \<Rightarrow> bool) \<Rightarrow> (candle_key \<times> candle_vals) list \<Rightarrow> candle_table \<Rightarrow> nat option \<times> candle_table" where
  "upsert_candles deadlock rows t =
    (if rows = [] then (Some 0, t)
     else if deadlock 0 \<and> deadlock 1 \<and> deadlock 2 then (None, t) else (Some (length rows), put_rows rows t))"

definition rows_of :: "token \<Rightarrow> string \<Rightarrow> candle_table \<Rightarrow> (int \<times> candle_vals) list" where
  "rows_of tok i t = sort_key fst (map (\<lambda>r. (snd (snd (fst r)), snd r)) (filter (\<lambda>r. fst (fst r) = tok \<and> fst (snd (fst r)) = i) t))"

definition load_candles_df :: "token \<Rightarrow> string \<Rightarrow> nat \<Rightarrow> candle_table \<Rightarrow> (int \<times> candle_vals) list" where
  "load_candles_df tok i limit t = rev (take limit (rev (rows_of tok i t)))"

definition load_candles_range_df :: "token \<Rightarrow> string \<Rightarrow> int \<Rightarrow> int \<Rightarrow> candle_table \<Rightarrow> (int \<times> candle_vals) list" where
  "load_candles_range_df tok i lo hi t = filter (\<lambda>r. lo \<le> fst r \<and> fst r \<le> hi) (rows_of tok i t)"

section \<open>Backfill\<close>

record hist_bar =
  hb_ts :: int
  hb_open :: real
  hb_high :: real
  hb_low :: real
  hb_close :: real
  hb_volume :: "int option"
  hb_oi :: "int option"

definition kite_interval :: "string \<Rightarrow> string" where
  "kite_interval i = (if i = ''1m'' then ''minute'' else if i = ''3m'' then ''3minute'' else if i = ''5m'' then ''5minute''
     else if i = ''15m'' then ''15minute'' else i)"

abbreviation day_us :: int where "day_us \<equiv> 86400000000"

text \<open>The step is at least a day.\<close>

function chunks_from :: "int \<Rightarrow> int \<Rightarrow> int \<Rightarrow> (int \<times> int) list" where
  "chunks_from cur hi step =
    (if 0 < step \<and> cur < hi then (cur, min (cur + step) hi) # chunks_from (min (cur + step) hi) hi step else [])"
  by pat_completeness auto
termination by (relation "measure (\<lambda>(cur, hi, step). nat (hi - cur))") auto

declare chunks_from.simps [simp del]

definition chunks :: "int \<Rightarrow> int \<Rightarrow> int \<Rightarrow> (int \<times> int) list" where
  "chunks lo hi max_days = chunks_from lo hi (max 1 max_days * day_us)"

text \<open>\<open>hy_fetch\<close> is the historical call (None when it raises); a chunk is known by its start.\<close>

record history =
  hy_fetch :: "token \<Rightarrow> int \<Rightarrow> int \<Rightarrow> string \<Rightarrow> bool \<Rightarrow> hist_bar list option"
  hy_deadlock :: "int \<Rightarrow> nat \<Rightarrow> bool"

definition bar_vals :: "hist_bar \<Rightarrow> candle_vals" where
  "bar_vals b = \<lparr>cv_open = hb_open b, cv_high = hb_high b, cv_low = hb_low b, cv_close = hb_close b,
     cv_volume = get_default (hb_volume b) 0, cv_oi = hb_oi b\<rparr>"

definition bar_row :: "token \<Rightarrow> string \<Rightarrow> hist_bar \<Rightarrow> candle_key \<times> candle_vals" where
  "bar_row tok i b = ((tok, i, hb_ts b), bar_vals b)"

fun fetch_chunks :: "history \<Rightarrow> token \<Rightarrow> string \<Rightarrow> bool \<Rightarrow> (int \<times> int) list \<Rightarrow> nat \<Rightarrow> candle_table \<Rightarrow> nat option \<times> candle_table" where
  "fetch_chunks h tok i oi [] n t = (Some n, t)"
| "fetch_chunks h tok i oi ((lo, hi) # cs) n t =
    (case hy_fetch h tok lo hi (kite_interval i) oi of
       None \<Rightarrow> (None, t)
     | Some [] \<Rightarrow> fetch_chunks h tok i oi cs n t
     | Some bars \<Rightarrow> (case upsert_candles (hy_deadlock h lo) (map (bar_row tok i) bars) t of
         (None, t') \<Rightarrow> (None, t') | (Some k, t') \<Rightarrow> fetch_chunks h tok i oi cs (n + k) t'))"

definition backfill :: "history \<Rightarrow> token \<Rightarrow> string \<Rightarrow> int \<Rightarrow> int \<Rightarrow> bool \<Rightarrow> int \<Rightarrow> candle_table \<Rightarrow> nat option \<times> candle_table" where
  "backfill h tok i lo hi oi max_days t = fetch_chunks h tok i oi (chunks lo hi max_days) 0 t"

definition last_candle_ts :: "token \<Rightarrow> string \<Rightarrow> candle_table \<Rightarrow> int option" where
  "last_candle_ts tok i t = (case rows_of tok i t of [] \<Rightarrow> None | rs \<Rightarrow> Some (fst (last rs)))"

definition incremental_backfill :: "history \<Rightarrow> int \<Rightarrow> token \<Rightarrow> string \<Rightarrow> int \<Rightarrow> int \<Rightarrow> bool \<Rightarrow> candle_table \<Rightarrow> nat option \<times> candle_table" where
  "incremental_backfill h now tok i lookback_days max_days oi t =
    backfill h tok i (get_default (last_candle_ts tok i t) (now - lookback_days * day_us)) now oi max_days t"

definition reconcile_gap :: "history \<Rightarrow> int \<Rightarrow> token \<Rightarrow> string \<Rightarrow> int \<Rightarrow> bool \<Rightarrow> candle_table \<Rightarrow> nat option \<times> candle_table" where
  "reconcile_gap h now tok i max_days oi t = (case last_candle_ts tok i t of
     None \<Rightarrow> (Some 0, t)
   | Some l \<Rightarrow> if now \<le> l then (Some 0, t) else backfill h tok i l now oi max_days t)"

section \<open>Instruments\<close>

record kite_instrument =
  ki_token :: token
  ki_exchange_token :: "int option"
  ki_symbol :: string
  ki_name :: "string option"
  ki_last_price :: "real option"
  ki_expiry :: "int option"
  ki_strike :: "real option"
  ki_tick_size :: "real option"
  ki_lot_size :: "int option"
  ki_type :: "string option"
  ki_segment :: "string option"
  ki_exchange :: "string option"

type_synonym instrument_table = "(token \<times> kite_instrument) list"

text \<open>The conflict clause updates every column but \<open>exchange_token\<close>.\<close>

definition upsert_instrument :: "instrument_table \<Rightarrow> kite_instrument \<Rightarrow> instrument_table" where
  "upsert_instrument t r = upsert (ki_token r)
     (case map_of t (ki_token r) of None \<Rightarrow> r | Some old \<Rightarrow> r\<lparr>ki_exchange_token := ki_exchange_token old\<rparr>) t"

fun dump_all :: "(string option \<Rightarrow> kite_instrument list option) \<Rightarrow> string list \<Rightarrow> kite_instrument list option" where
  "dump_all dump [] = Some []"
| "dump_all dump (x # xs) = (case dump (Some x) of None \<Rightarrow> None | Some rs \<Rightarrow> map_option ((@) rs) (dump_all dump xs))"

definition refresh_instruments :: "(string option \<Rightarrow> kite_instrument list option) \<Rightarrow> string list option \<Rightarrow> instrument_table
    \<Rightarrow> nat option \<times> instrument_table" where
  "refresh_instruments dump exchanges t =
    (case (if get_default exchanges [] \<noteq> [] then dump_all dump (get_default exchanges []) else dump None) of
       None \<Rightarrow> (None, t) | Some rs \<Rightarrow> (Some (length rs), foldl upsert_instrument t rs))"

definition get_instrument :: "token \<Rightarrow> instrument_table \<Rightarrow> kite_instrument option" where
  "get_instrument tok t = map_of t tok"

definition get_by_symbol :: "string \<Rightarrow> string \<Rightarrow> instrument_table \<Rightarrow> kite_instrument option" where
  "get_by_symbol ex s t = find (\<lambda>r. ki_exchange r = Some ex \<and> ki_symbol r = s) (map snd t)"

definition resolve :: "string \<Rightarrow> instrument_table \<Rightarrow> kite_instrument option" where
  "resolve es t = get_by_symbol (takeWhile (\<lambda>c. c \<noteq> CHR '':'') es) (drop 1 (dropWhile (\<lambda>c. c \<noteq> CHR '':'') es)) t"

definition get_token :: "string \<Rightarrow> instrument_table \<Rightarrow> token option" where
  "get_token es t = map_option ki_token (resolve es t)"

definition resolve_tokens :: "string list \<Rightarrow> instrument_table \<Rightarrow> (string \<times> token) list" where
  "resolve_tokens ess t = foldl (\<lambda>out es. case get_token es t of None \<Rightarrow> out | Some tok \<Rightarrow> upsert es tok out) [] ess"

definition front_month_future :: "int \<Rightarrow> string \<Rightarrow> string \<Rightarrow> int \<Rightarrow> instrument_table \<Rightarrow> kite_instrument option" where
  "front_month_future today name ex min_dte t =
    (case sort_key (\<lambda>r. the (ki_expiry r)) (filter (\<lambda>r. ki_exchange r = Some ex \<and> ki_name r = Some name \<and> ki_type r = Some ''FUT''
        \<and> (case ki_expiry r of None \<Rightarrow> False | Some x \<Rightarrow> today + min_dte \<le> x)) (map snd t)) of [] \<Rightarrow> None | r # _ \<Rightarrow> Some r)"

section \<open>The market-data service\<close>

record service =
  sv_tokens :: "token list"
  sv_oi_tokens :: "token list"
  sv_front :: "(string \<times> kite_instrument) list"

definition feed_intervals :: "string list option \<Rightarrow> string list" where
  "feed_intervals configured = filter (\<lambda>i. i \<noteq> ''day'') (get_default configured [''1m'', ''5m'', ''15m''])"

definition ensure_instruments :: "(string option \<Rightarrow> kite_instrument list option) \<Rightarrow> string list option \<Rightarrow> instrument_table
    \<Rightarrow> nat option \<times> instrument_table" where
  "ensure_instruments dump exchanges t =
    (if t \<noteq> [] then (Some (length t), t)
     else case refresh_instruments dump exchanges t of (None, t') \<Rightarrow> (None, t') | (Some _, t') \<Rightarrow> (Some (length t'), t'))"

definition add_front :: "int \<Rightarrow> instrument_table \<Rightarrow> service \<Rightarrow> string \<Rightarrow> service" where
  "add_front today t s name = (case front_month_future today name ''MCX'' 3 t of
     None \<Rightarrow> s
   | Some r \<Rightarrow> s\<lparr>sv_front := upsert name r (sv_front s),
       sv_tokens := (if ki_token r \<in> set (sv_tokens s) then sv_tokens s else sv_tokens s @ [ki_token r]),
       sv_oi_tokens := List.insert (ki_token r) (sv_oi_tokens s)\<rparr>)"

definition resolve_universe :: "int \<Rightarrow> string list \<Rightarrow> string list \<Rightarrow> instrument_table \<Rightarrow> service \<Rightarrow> (string \<times> token) list \<times> service" where
  "resolve_universe today subs mcx t s =
    (let tm = resolve_tokens subs t in (tm, foldl (add_front today t) (s\<lparr>sv_tokens := map snd tm, sv_front := []\<rparr>) mcx))"

record backfill_cfg =
  bk_intervals :: "string list"
  bk_lookback :: "string \<rightharpoonup> int"
  bk_max_days :: "string \<rightharpoonup> int"

text \<open>An exception of one series is logged; the chunks it had stored stay.\<close>

definition backfill_all :: "history \<Rightarrow> int \<Rightarrow> backfill_cfg \<Rightarrow> service \<Rightarrow> candle_table \<Rightarrow> candle_table" where
  "backfill_all h now c s t =
    foldl (\<lambda>t (tok, i). snd (incremental_backfill h now tok i (get_default (bk_lookback c i) 30) (get_default (bk_max_days c i) 60)
        (tok \<in> set (sv_oi_tokens s)) t)) t (List.product (sv_tokens s) (bk_intervals c))"

definition nightly_backfill_job :: "history \<Rightarrow> int \<Rightarrow> int \<Rightarrow> string list \<Rightarrow> string list \<Rightarrow> backfill_cfg \<Rightarrow> instrument_table \<Rightarrow>
    service \<times> candle_table \<Rightarrow> service \<times> candle_table" where
  "nightly_backfill_job h now today subs mcx c t st = (case st of (s, candles) \<Rightarrow>
    let s' = (if sv_tokens s = [] then snd (resolve_universe today subs mcx t s) else s) in (s', backfill_all h now c s' candles))"

section \<open>What the upsert leaves\<close>

lemma put_rows_append: "put_rows (rs @ ss) t = put_rows ss (put_rows rs t)"
  by (simp add: put_rows_def)

lemma map_of_put_rows:
  "map_of (put_rows rows t) k =
    (if filter (\<lambda>r. fst r = k) rows = [] then map_of t k else Some (snd (last (filter (\<lambda>r. fst r = k) rows))))"
proof (induction rows arbitrary: t rule: rev_induct)
  case (snoc r rows)
  then show ?case by (simp add: put_rows_append) (simp add: put_rows_def)
qed (simp add: put_rows_def)

lemma map_of_put_bars:
  assumes "inj_on hb_ts (set bs)"
  shows "map_of (put_rows (map (bar_row tok i) bs) t) k =
    (case k of (tok', i', ts) \<Rightarrow> if tok' = tok \<and> i' = i then (case find (\<lambda>b. hb_ts b = ts) bs of None \<Rightarrow> map_of t k | Some b \<Rightarrow> Some (bar_vals b))
       else map_of t k)"
  using assms
proof (induction bs arbitrary: t)
  case (Cons b bs)
  have step: "put_rows (map (bar_row tok i) (b # bs)) t = put_rows (map (bar_row tok i) bs) (upsert (tok, i, hb_ts b) (bar_vals b) t)"
    by (simp add: put_rows_def bar_row_def)
  have "inj_on hb_ts (set bs)" using Cons.prems by simp
  from Cons.IH [OF this] have ih: "map_of (put_rows (map (bar_row tok i) (b # bs)) t) k = (case k of (tok', i', ts) \<Rightarrow> if tok' = tok \<and> i' = i
       then (case find (\<lambda>b. hb_ts b = ts) bs of None \<Rightarrow> map_of (upsert (tok, i, hb_ts b) (bar_vals b) t) k | Some b \<Rightarrow> Some (bar_vals b))
       else map_of (upsert (tok, i, hb_ts b) (bar_vals b) t) k)" unfolding step .
  have same: "x = b" if "find (\<lambda>c. hb_ts c = hb_ts b) bs = Some x" for x
    using that Cons.prems by (auto simp: find_Some_iff inj_on_def)
  show ?case unfolding ih using same by (auto split: prod.splits option.splits)
qed (auto simp: put_rows_def split: prod.splits)

section \<open>The requests tile the interval\<close>

lemma chunks_from_tile:
  assumes "0 < step" "lo < hi"
  shows "(\<Union>c\<in>set (chunks_from lo hi step). {fst c..snd c}) = {lo..hi}
    \<and> (\<forall>c\<in>set (chunks_from lo hi step). fst c < snd c \<and> snd c - fst c \<le> step \<and> lo \<le> fst c \<and> snd c \<le> hi)"
  using assms
proof (induction lo hi step rule: chunks_from.induct)
  case (1 cur hi step)
  show ?case
  proof (cases "cur + step < hi")
    case True
    from 1 True have ih: "(\<Union>c\<in>set (chunks_from (cur + step) hi step). {fst c..snd c}) = {cur + step..hi}
      \<and> (\<forall>c\<in>set (chunks_from (cur + step) hi step). fst c < snd c \<and> snd c - fst c \<le> step \<and> cur + step \<le> fst c \<and> snd c \<le> hi)" by simp
    have split: "chunks_from cur hi step = (cur, cur + step) # chunks_from (cur + step) hi step"
      by (subst chunks_from.simps) (use 1(2,3) True in simp)
    have "{cur..cur + step} \<union> {cur + step..hi} = {cur..hi}" using 1(2) True by auto
    with ih 1(2) True show ?thesis unfolding split by auto
  next
    case False
    have "chunks_from hi hi step = []" by (simp add: chunks_from.simps)
    with False 1(2,3) have split: "chunks_from cur hi step = [(cur, hi)]" by (subst chunks_from.simps) simp
    show ?thesis unfolding split using False 1(2,3) by auto
  qed
qed

text \<open>A source of bars: whatever it returns for a range is exactly what it has in that range, one bar per time.\<close>

definition serves :: "history \<Rightarrow> token \<Rightarrow> string \<Rightarrow> bool \<Rightarrow> hist_bar list \<Rightarrow> bool" where
  "serves h tok i oi bars \<longleftrightarrow> inj_on hb_ts (set bars)
    \<and> (\<forall>lo hi bs. hy_fetch h tok lo hi (kite_interval i) oi = Some bs \<longrightarrow> set bs = {b \<in> set bars. lo \<le> hb_ts b \<and> hb_ts b \<le> hi})"

text \<open>The table with the bars of some times put over it.\<close>

definition filled :: "token \<Rightarrow> string \<Rightarrow> hist_bar list \<Rightarrow> (int \<Rightarrow> bool) \<Rightarrow> (candle_key \<rightharpoonup> candle_vals) \<Rightarrow> (candle_key \<rightharpoonup> candle_vals)" where
  "filled tok i bars P m = (\<lambda>(tok', i', ts). if tok' = tok \<and> i' = i \<and> P ts
     then (case find (\<lambda>b. hb_ts b = ts) bars of None \<Rightarrow> m (tok', i', ts) | Some b \<Rightarrow> Some (bar_vals b)) else m (tok', i', ts))"

lemma filled_filled: "filled tok i bars Q (filled tok i bars P m) = filled tok i bars (\<lambda>ts. P ts \<or> Q ts) m"
  by (auto simp: filled_def fun_eq_iff split: option.splits)

lemma filled_nothing: "filled tok i bars (\<lambda>ts. False) m = m"
  by (auto simp: filled_def)

lemma find_time_within:
  assumes "inj_on hb_ts (set bars)" "set bs = {b \<in> set bars. lo \<le> hb_ts b \<and> hb_ts b \<le> hi}"
  shows "find (\<lambda>b. hb_ts b = ts) bs = (if lo \<le> ts \<and> ts \<le> hi then find (\<lambda>b. hb_ts b = ts) bars else None)"
proof -
  have unique: "find (\<lambda>b. hb_ts b = ts) xs = Some b \<longleftrightarrow> b \<in> set xs \<and> hb_ts b = ts" if "set xs \<subseteq> set bars" for xs b
  proof -
    have "find (\<lambda>b. hb_ts b = ts) xs = Some b" if b: "b \<in> set xs" "hb_ts b = ts"
    proof -
      from b obtain b' where b': "find (\<lambda>b. hb_ts b = ts) xs = Some b'" by (metis (mono_tags, lifting) find_None_iff not_Some_eq)
      then have "b' \<in> set xs" "hb_ts b' = ts" by (auto simp: find_Some_iff)
      with b \<open>set xs \<subseteq> set bars\<close> assms(1) have "b' = b" by (auto simp: inj_on_def)
      with b' show ?thesis by simp
    qed
    then show ?thesis by (auto simp: find_Some_iff)
  qed
  have "set bs \<subseteq> set bars" using assms(2) by auto
  note a = unique [OF this] and b = unique [OF subset_refl]
  have "(find (\<lambda>b. hb_ts b = ts) bs = Some x) = ((if lo \<le> ts \<and> ts \<le> hi then find (\<lambda>b. hb_ts b = ts) bars else None) = Some x)" for x
    by (auto simp: a b assms(2))
  then show ?thesis by (metis not_Some_eq)
qed

lemma upsert_bars:
  assumes "serves h tok i oi bars" "hy_fetch h tok lo hi (kite_interval i) oi = Some bs"
  shows "map_of (put_rows (map (bar_row tok i) bs) t) = filled tok i bars (\<lambda>ts. lo \<le> ts \<and> ts \<le> hi) (map_of t)"
proof -
  from assms have inj: "inj_on hb_ts (set bars)" and set: "set bs = {b \<in> set bars. lo \<le> hb_ts b \<and> hb_ts b \<le> hi}"
    by (auto simp: serves_def)
  have "inj_on hb_ts (set bs)" using inj set by (auto simp: inj_on_def)
  from map_of_put_bars [OF this] find_time_within [OF inj set] show ?thesis
    by (auto simp: fun_eq_iff filled_def split: option.splits)
qed

text \<open>Whether it returns or raises, the chunks done so far are stored, in their order.\<close>

lemma fetch_chunks_fill:
  assumes "serves h tok i oi bars" "fetch_chunks h tok i oi cs n t = (r, t')"
  shows "\<exists>k\<le>length cs. (r \<noteq> None \<longrightarrow> k = length cs)
    \<and> map_of t' = filled tok i bars (\<lambda>ts. \<exists>c\<in>set (take k cs). fst c \<le> ts \<and> ts \<le> snd c) (map_of t)"
  using assms(2)
proof (induction cs arbitrary: n t)
  case Nil
  then show ?case by (simp add: filled_nothing)
next
  case (Cons c cs)
  obtain lo hi where c: "c = (lo, hi)" by fastforce
  have stop: ?case if "t' = t" "r = None" using that by (intro exI [of _ 0]) (simp add: filled_nothing)
  show ?case
  proof (cases "hy_fetch h tok lo hi (kite_interval i) oi")
    case None
    with Cons.prems stop show ?thesis by (simp add: c)
  next
    case (Some bs)
    let ?t = "put_rows (map (bar_row tok i) bs) t"
    show ?thesis
    proof (cases "(r, t') = (None, t)")
      case True
      with stop show ?thesis by simp
    next
      case False
      with Cons.prems Some obtain n' where rest: "fetch_chunks h tok i oi cs n' ?t = (r, t')"
        by (cases bs) (auto simp: c upsert_candles_def put_rows_def split: if_splits)
      from Cons.IH [OF this] obtain k where k: "k \<le> length cs" "r \<noteq> None \<longrightarrow> k = length cs"
        "map_of t' = filled tok i bars (\<lambda>ts. \<exists>c\<in>set (take k cs). fst c \<le> ts \<and> ts \<le> snd c) (map_of ?t)" by blast
      from k show ?thesis unfolding upsert_bars [OF assms(1) Some] filled_filled
        by (intro exI [of _ "Suc k"]) (simp add: c)
    qed
  qed
qed

lemma chunks_from_prefix:
  assumes "0 < step" "lo < hi" "k \<le> length (chunks_from lo hi step)" "0 < k"
  shows "\<exists>m\<le>hi. lo < m \<and> (k = length (chunks_from lo hi step) \<longrightarrow> m = hi)
    \<and> (\<lambda>ts. \<exists>c\<in>set (take k (chunks_from lo hi step)). fst c \<le> ts \<and> ts \<le> snd c) = (\<lambda>ts. lo \<le> ts \<and> ts \<le> m)"
  using assms
proof (induction lo hi step arbitrary: k rule: chunks_from.induct)
  case (1 cur hi step)
  from 1(5) obtain j where j: "k = Suc j" by (cases k) auto
  have split: "chunks_from cur hi step = (cur, min (cur + step) hi) # chunks_from (min (cur + step) hi) hi step"
    by (subst chunks_from.simps) (use 1(2,3) in simp)
  show ?case
  proof (cases "j = 0")
    case True
    have "cur + step < hi \<longleftrightarrow> chunks_from (cur + step) hi step \<noteq> []" using 1(2) by (subst chunks_from.simps) simp
    with True show ?thesis unfolding split j using 1(2,3)
      by (intro exI [of _ "min (cur + step) hi"]) (auto simp: min_def)
  next
    case False
    have more: "cur + step < hi"
    proof (rule ccontr)
      assume "\<not> cur + step < hi"
      then have "chunks_from (min (cur + step) hi) hi step = []" by (subst chunks_from.simps) simp
      with 1(4) False show False unfolding split j by simp
    qed
    from 1(4) have "j \<le> length (chunks_from (cur + step) hi step)" unfolding split j using more by simp
    with 1(1) [of j] 1(2,3) False more obtain m where m: "m \<le> hi" "cur + step < m" "j = length (chunks_from (cur + step) hi step) \<longrightarrow> m = hi"
      "(\<lambda>ts. \<exists>c\<in>set (take j (chunks_from (cur + step) hi step)). fst c \<le> ts \<and> ts \<le> snd c) = (\<lambda>ts. cur + step \<le> ts \<and> ts \<le> m)"
      by auto
    have "(\<lambda>ts. \<exists>c\<in>set (take k (chunks_from cur hi step)). fst c \<le> ts \<and> ts \<le> snd c) = (\<lambda>ts. (cur \<le> ts \<and> ts \<le> cur + step) \<or> (cur + step \<le> ts \<and> ts \<le> m))"
      unfolding split j using more m(4) [THEN fun_cong] by (auto simp: fun_eq_iff)
    also have "\<dots> = (\<lambda>ts. cur \<le> ts \<and> ts \<le> m)" using 1(2) m(2) by auto
    finally show ?thesis using m 1(2) more unfolding split j by (intro exI [of _ m]) auto
  qed
qed

lemma rows_of_times: "fst ` set (rows_of tok i t) = {ts. map_of t (tok, i, ts) \<noteq> None}"
  by (force simp: rows_of_def map_of_eq_None_iff image_iff)

lemma latest_is_last:
  fixes xs :: "(int \<times> 'a) list"
  shows "sorted (map fst xs) \<Longrightarrow> x \<in> set xs \<Longrightarrow> fst x \<le> fst (last xs)"
  by (induction xs) auto

lemma last_candle_ts_Some:
  "last_candle_ts tok i t = Some l \<longleftrightarrow> map_of t (tok, i, l) \<noteq> None \<and> (\<forall>ts. map_of t (tok, i, ts) \<noteq> None \<longrightarrow> ts \<le> l)"
proof (cases "rows_of tok i t = []")
  case True
  with rows_of_times [of tok i t] show ?thesis by (auto simp: last_candle_ts_def)
next
  case False
  let ?rs = "rows_of tok i t"
  have "sorted (map fst ?rs)" by (simp add: rows_of_def)
  then have le: "fst r \<le> fst (last ?rs)" if "r \<in> set ?rs" for r by (rule latest_is_last) (rule that)
  have "last ?rs \<in> set ?rs" using False by simp
  moreover have "last_candle_ts tok i t = Some (fst (last ?rs))" using False by (simp add: last_candle_ts_def split: list.split)
  moreover have in_times: "map_of t (tok, i, ts) \<noteq> None \<longleftrightarrow> ts \<in> fst ` set ?rs" for ts using rows_of_times [of tok i t] by auto
  ultimately show ?thesis unfolding in_times using le by (auto intro!: antisym)
qed

lemma reconciled:
  assumes "serves h tok i oi bars" "last_candle_ts tok i t = Some l" "l < now" "reconcile_gap h now tok i d oi t = (r, t')"
  shows "\<exists>m. l - 1 \<le> m \<and> m \<le> now \<and> (r \<noteq> None \<longrightarrow> m = now) \<and> map_of t' = filled tok i bars (\<lambda>ts. l \<le> ts \<and> ts \<le> m) (map_of t)"
proof -
  let ?cs = "chunks l now d"
  from assms(2-4) have f: "fetch_chunks h tok i oi ?cs 0 t = (r, t')" by (simp add: reconcile_gap_def backfill_def)
  from fetch_chunks_fill [OF assms(1) f] obtain k where k: "k \<le> length ?cs" "r \<noteq> None \<longrightarrow> k = length ?cs"
    "map_of t' = filled tok i bars (\<lambda>ts. \<exists>c\<in>set (take k ?cs). fst c \<le> ts \<and> ts \<le> snd c) (map_of t)" by blast
  show ?thesis
  proof (cases "k = 0")
    case True
    have "?cs \<noteq> []" unfolding chunks_def using assms(3) by (subst chunks_from.simps) simp
    with True k(2) have "r = None" by auto
    moreover have "(\<lambda>ts. l \<le> ts \<and> ts \<le> l - 1) = (\<lambda>ts. False)" by auto
    ultimately show ?thesis using k(3) assms(3) True by (intro exI [of _ "l - 1"]) simp
  next
    case False
    from chunks_from_prefix [of "max 1 d * day_us" l now k] False k(1) assms(3) obtain m where
      "m \<le> now" "l < m" "k = length ?cs \<longrightarrow> m = now"
      "(\<lambda>ts. \<exists>c\<in>set (take k ?cs). fst c \<le> ts \<and> ts \<le> snd c) = (\<lambda>ts. l \<le> ts \<and> ts \<le> m)" unfolding chunks_def by auto
    with k show ?thesis by (intro exI [of _ m]) auto
  qed
qed

lemma filled_known: "filled tok i bars P m (tok, i, ts) \<noteq> None \<longleftrightarrow> m (tok, i, ts) \<noteq> None \<or> P ts \<and> (\<exists>b\<in>set bars. hb_ts b = ts)"
  by (auto simp: filled_def find_None_iff find_Some_iff split: option.splits)

section \<open>Properties\<close>


definition demo_hist_bar :: "int \<Rightarrow> real \<Rightarrow> hist_bar" where
  "demo_hist_bar ts p = \<lparr>hb_ts = ts, hb_open = p, hb_high = p, hb_low = p, hb_close = p, hb_volume = Some 10, hb_oi = None\<rparr>"

definition demo_bars :: "hist_bar list" where
  "demo_bars = [demo_hist_bar 0 100, demo_hist_bar day_us 101, demo_hist_bar (2 * day_us) 102]"

definition demo_history :: "int \<Rightarrow> history" where
  "demo_history fails = \<lparr>hy_fetch = (\<lambda>tok lo hi i oi. if lo = fails then None else Some (filter (\<lambda>b. lo \<le> hb_ts b \<and> hb_ts b \<le> hi) demo_bars)),
     hy_deadlock = (\<lambda>lo n. False)\<rparr>"

definition demo_candles :: candle_table where
  "demo_candles = [bar_row 7 ''5m'' (demo_hist_bar 0 100)]"

lemma demo_serves: "serves (demo_history fails) 7 ''5m'' False demo_bars"
  by (auto simp: serves_def demo_history_def demo_bars_def demo_hist_bar_def split: if_splits)

lemma demo_reconciled:
  "reconcile_gap (demo_history day_us) (2 * day_us) 7 ''5m'' 1 False demo_candles = (None, put_rows (map (bar_row 7 ''5m'') (take 2 demo_bars)) demo_candles)"
  "reconcile_gap (demo_history (- 1)) (2 * day_us) 7 ''5m'' 1 False (put_rows (map (bar_row 7 ''5m'') (take 2 demo_bars)) demo_candles)
     = (Some 2, put_rows (map (bar_row 7 ''5m'') demo_bars) demo_candles)"
  by code_simp+


text \<open>An instrument name is split at its first colon, and the live contract of a name is its nearest one outside the roll window.\<close>

lemma resolve_name:
  assumes "CHR '':'' \<notin> set ex"
  shows "resolve (ex @ CHR '':'' # s) t = get_by_symbol ex s t"
proof -
  have "takeWhile (\<lambda>c. c \<noteq> CHR '':'') (ex @ CHR '':'' # s) = ex" "dropWhile (\<lambda>c. c \<noteq> CHR '':'') (ex @ CHR '':'' # s) = CHR '':'' # s"
    using assms by (induction ex) auto
  then show ?thesis by (simp add: resolve_def)
qed

lemma front_month_is_nearest:
  assumes "front_month_future today name ex n t = Some r"
  shows "\<exists>x. ki_expiry r = Some x \<and> today + n \<le> x \<and> (\<forall>r'\<in>snd ` set t. \<forall>y. ki_exchange r' = Some ex \<and> ki_name r' = Some name
    \<and> ki_type r' = Some ''FUT'' \<and> ki_expiry r' = Some y \<and> today + n \<le> y \<longrightarrow> x \<le> y)"
proof -
  let ?c = "filter (\<lambda>r. ki_exchange r = Some ex \<and> ki_name r = Some name \<and> ki_type r = Some ''FUT''
    \<and> (case ki_expiry r of None \<Rightarrow> False | Some x \<Rightarrow> today + n \<le> x)) (map snd t)"
  let ?s = "sort_key (\<lambda>r. the (ki_expiry r)) ?c"
  from assms obtain rs where s: "?s = r # rs" by (auto simp: front_month_future_def split: list.splits)
  then have "r \<in> set ?s" by simp
  then have r: "r \<in> set ?c" by simp
  have "sorted (map (\<lambda>r. the (ki_expiry r)) ?s)" by (rule sorted_sort_key)
  then have "\<forall>r'\<in>set ?s. the (ki_expiry r) \<le> the (ki_expiry r')" unfolding s by simp
  then have least: "\<forall>r'\<in>set ?c. the (ki_expiry r) \<le> the (ki_expiry r')" by simp
  from r obtain x where x: "ki_expiry r = Some x" "today + n \<le> x" by (auto split: option.splits)
  show ?thesis
  proof (intro exI [of _ x] conjI ballI allI impI x)
    fix r' y assume "r' \<in> snd ` set t" and y: "ki_exchange r' = Some ex \<and> ki_name r' = Some name
      \<and> ki_type r' = Some ''FUT'' \<and> ki_expiry r' = Some y \<and> today + n \<le> y"
    then have "r' \<in> set ?c" by simp
    with least x(1) y show "x \<le> y" by force
  qed
qed

end
