(* ===== verification/Candles.thy ===== *)
theory Candles
  imports Prelude
begin

text \<open>
  The client-side candle aggregator, \<open>data/aggregator.py\<close>: ticks are folded into one building candle per
  instrument and interval, a candle is closed by the first tick of a later bucket. A time is the
  microseconds of the local (IST) clock, whose offset is constant; the dictionary of building candles
  is an insertion-ordered association list, the order in which \<open>flush\<close> returns them.
\<close>

section \<open>Buckets\<close>

datatype interval = I_1m | I_3m | I_5m | I_15m | I_Day

definition parse_interval :: "string \<Rightarrow> interval option" where
  "parse_interval s = (if s = ''1m'' then Some I_1m else if s = ''3m'' then Some I_3m else if s = ''5m'' then Some I_5m
     else if s = ''15m'' then Some I_15m else if s = ''day'' then Some I_Day else None)"

definition interval_minutes :: "interval \<Rightarrow> int" where
  "interval_minutes i = (case i of I_1m \<Rightarrow> 1 | I_3m \<Rightarrow> 3 | I_5m \<Rightarrow> 5 | I_15m \<Rightarrow> 15 | I_Day \<Rightarrow> 1440)"

text \<open>\<open>ts.replace(minute = minute // m * m, second = 0, microsecond = 0)\<close> keeps the hour.\<close>

definition bucket_start :: "int \<Rightarrow> interval \<Rightarrow> int" where
  "bucket_start ts i =
    (if i = I_Day then ts - ts mod 86400000000
     else let m = interval_minutes i; minute = (ts mod 3600000000) div 60000000
          in ts - ts mod 3600000000 + (minute div m) * m * 60000000)"

section \<open>Candles\<close>

record tick =
  tk_ts :: int
  tk_price :: real
  tk_cum :: int
  tk_oi :: "int option"

record building =
  bd_start :: int
  bd_open :: real
  bd_high :: real
  bd_low :: real
  bd_close :: real
  bd_vol_open :: int
  bd_volume :: int
  bd_oi :: "int option"

record closed_candle =
  cc_ts :: int
  cc_token :: token
  cc_interval :: interval
  cc_open :: real
  cc_high :: real
  cc_low :: real
  cc_close :: real
  cc_volume :: int
  cc_oi :: "int option"

record aggregator =
  ag_intervals :: "interval list"
  ag_state :: "((token \<times> interval) \<times> building) list"

definition new_aggregator :: "string list \<Rightarrow> aggregator" where
  "new_aggregator names = \<lparr>ag_intervals = List.map_filter parse_interval names, ag_state = []\<rparr>"

definition finalize :: "token \<Rightarrow> interval \<Rightarrow> building \<Rightarrow> closed_candle" where
  "finalize tok i c = \<lparr>cc_ts = bd_start c, cc_token = tok, cc_interval = i, cc_open = bd_open c, cc_high = bd_high c,
     cc_low = bd_low c, cc_close = bd_close c, cc_volume = bd_volume c, cc_oi = bd_oi c\<rparr>"

definition start_candle :: "interval \<Rightarrow> tick \<Rightarrow> building" where
  "start_candle i t = \<lparr>bd_start = bucket_start (tk_ts t) i, bd_open = tk_price t, bd_high = tk_price t, bd_low = tk_price t,
     bd_close = tk_price t, bd_vol_open = tk_cum t, bd_volume = 0, bd_oi = tk_oi t\<rparr>"

definition absorb :: "building \<Rightarrow> tick \<Rightarrow> building" where
  "absorb c t =
    (let c = c\<lparr>bd_high := max (bd_high c) (tk_price t), bd_low := min (bd_low c) (tk_price t), bd_close := tk_price t\<rparr>;
         c = (if tk_cum t < bd_vol_open c then c\<lparr>bd_vol_open := tk_cum t\<rparr> else c);
         c = c\<lparr>bd_volume := max 0 (tk_cum t - bd_vol_open c)\<rparr>
     in if tk_oi t \<noteq> None then c\<lparr>bd_oi := tk_oi t\<rparr> else c)"

definition tick_interval :: "token \<Rightarrow> tick \<Rightarrow> ((token \<times> interval) \<times> building) list \<times> closed_candle list \<Rightarrow> interval \<Rightarrow>
    ((token \<times> interval) \<times> building) list \<times> closed_candle list" where
  "tick_interval tok t acc i = (case acc of (st, out) \<Rightarrow>
    (case map_of st (tok, i) of
       None \<Rightarrow> (upsert (tok, i) (start_candle i t) st, out)
     | Some cur \<Rightarrow>
        if bd_start cur < bucket_start (tk_ts t) i
        then (upsert (tok, i) (start_candle i t) st, out @ [finalize tok i cur])
        else (upsert (tok, i) (absorb cur t) st, out)))"

definition add_tick :: "token \<Rightarrow> tick \<Rightarrow> aggregator \<Rightarrow> closed_candle list \<times> aggregator" where
  "add_tick tok t a = (case foldl (tick_interval tok t) (ag_state a, []) (ag_intervals a) of
     (st, out) \<Rightarrow> (out, a\<lparr>ag_state := st\<rparr>))"

definition flush :: "aggregator \<Rightarrow> closed_candle list \<times> aggregator" where
  "flush a = (map (\<lambda>((tok, i), c). finalize tok i c) (ag_state a), a\<lparr>ag_state := []\<rparr>)"

text \<open>A whole feed, and what it emits, with the candles of the final flush.\<close>

fun feed_all :: "(token \<times> tick) list \<Rightarrow> aggregator \<Rightarrow> closed_candle list \<times> aggregator" where
  "feed_all [] a = ([], a)"
| "feed_all ((tok, t) # ts) a = (case add_tick tok t a of (out, a') \<Rightarrow> case feed_all ts a' of (out', a'') \<Rightarrow> (out @ out', a''))"

section \<open>The reference\<close>

text \<open>The ticks of one instrument, cut where a tick lies in a later bucket than the first of its group.\<close>

function groups :: "interval \<Rightarrow> tick list \<Rightarrow> tick list list" where
  "groups i [] = []"
| "groups i (t # ts) =
    (t # takeWhile (\<lambda>u. bucket_start (tk_ts u) i \<le> bucket_start (tk_ts t) i) ts)
      # groups i (dropWhile (\<lambda>u. bucket_start (tk_ts u) i \<le> bucket_start (tk_ts t) i) ts)"
  by pat_completeness auto
termination by (relation "measure (\<lambda>(i, ts). length ts)") (auto simp: le_imp_less_Suc length_dropWhile_le)

definition last_known :: "'a option list \<Rightarrow> 'a option" where
  "last_known xs = (case filter (\<lambda>x. x \<noteq> None) xs of [] \<Rightarrow> None | ys \<Rightarrow> last ys)"

definition candle_of :: "token \<Rightarrow> interval \<Rightarrow> tick list \<Rightarrow> closed_candle" where
  "candle_of tok i g = \<lparr>cc_ts = bucket_start (tk_ts (hd g)) i, cc_token = tok, cc_interval = i, cc_open = tk_price (hd g),
     cc_high = Max (tk_price ` set g), cc_low = Min (tk_price ` set g), cc_close = tk_price (last g),
     cc_volume = tk_cum (last g) - Min (tk_cum ` set g), cc_oi = last_known (map tk_oi g)\<rparr>"

section \<open>A building candle is its group\<close>

definition built_from :: "interval \<Rightarrow> tick list \<Rightarrow> building" where
  "built_from i g = foldl absorb (start_candle i (hd g)) (tl g)"

lemma last_known_snoc: "last_known (xs @ [x]) = (if x = None then last_known xs else x)"
  by (cases "filter (\<lambda>x. x \<noteq> None) xs") (auto simp: last_known_def)

lemma built_from_fields:
  assumes "g \<noteq> []"
  shows "bd_start (built_from i g) = bucket_start (tk_ts (hd g)) i \<and> bd_vol_open (built_from i g) = Min (tk_cum ` set g)
    \<and> finalize tok i (built_from i g) = candle_of tok i g"
  using assms
proof (induction g rule: rev_nonempty_induct)
  case (single t)
  then show ?case by (simp add: built_from_def start_candle_def finalize_def candle_of_def last_known_def split: list.splits)
next
  case (snoc t g)
  have b: "built_from i (g @ [t]) = absorb (built_from i g) t" using snoc(1) by (simp add: built_from_def)
  have hd: "hd (g @ [t]) = hd g" using snoc(1) by simp
  have mins: "Min (tk_cum ` set (g @ [t])) = min (Min (tk_cum ` set g)) (tk_cum t)"
    "Min (tk_price ` set (g @ [t])) = min (Min (tk_price ` set g)) (tk_price t)"
    "Max (tk_price ` set (g @ [t])) = max (Max (tk_price ` set g)) (tk_price t)"
    using snoc(1) by (simp_all add: min.commute max.commute)
  note ih = snoc(2)
  have "bd_start (absorb (built_from i g) t) = bucket_start (tk_ts (hd g)) i"
    "bd_vol_open (absorb (built_from i g) t) = min (Min (tk_cum ` set g)) (tk_cum t)"
    using ih by (auto simp: absorb_def Let_def)
  moreover have "finalize tok i (absorb (built_from i g) t) = candle_of tok i (g @ [t])"
    using ih unfolding candle_of_def hd mins map_append list.map last_known_snoc
    by (auto simp: absorb_def Let_def finalize_def)
  ultimately show ?case unfolding b hd mins by blast
qed

section \<open>One tick, one key\<close>

definition key_step :: "interval \<Rightarrow> building option \<Rightarrow> tick \<Rightarrow> building \<times> building list" where
  "key_step i c t = (case c of None \<Rightarrow> (start_candle i t, [])
     | Some cur \<Rightarrow> if bd_start cur < bucket_start (tk_ts t) i then (start_candle i t, [cur]) else (absorb cur t, []))"

abbreviation of_key :: "token \<Rightarrow> interval \<Rightarrow> closed_candle \<Rightarrow> bool" where
  "of_key tok i \<equiv> \<lambda>c. cc_token c = tok \<and> cc_interval c = i"

lemma finalize_key [simp]: "cc_token (finalize tok i c) = tok" "cc_interval (finalize tok i c) = i"
  by (simp_all add: finalize_def)

lemma tick_interval_step:
  "tick_interval tok t (st, out) i =
    (upsert (tok, i) (fst (key_step i (map_of st (tok, i)) t)) st, out @ map (finalize tok i) (snd (key_step i (map_of st (tok, i)) t)))"
  by (simp add: tick_interval_def key_step_def split: option.split)

lemma ticks_step:
  assumes "foldl (tick_interval tok t) (st, out) is = (st', out')" "distinct is"
  shows "map_of st' (tok', i) = (if tok' = tok \<and> i \<in> set is then Some (fst (key_step i (map_of st (tok, i)) t)) else map_of st (tok', i))
    \<and> filter (of_key tok' i) out' = filter (of_key tok' i) out @
        (if tok' = tok \<and> i \<in> set is then map (finalize tok i) (snd (key_step i (map_of st (tok, i)) t)) else [])
    \<and> (distinct (map fst st) \<longrightarrow> distinct (map fst st'))"
  using assms
proof (induction "is" arbitrary: st out)
  case (Cons j js)
  let ?k = "key_step j (map_of st (tok, j)) t"
  from Cons.prems have rec: "foldl (tick_interval tok t) (upsert (tok, j) (fst ?k) st, out @ map (finalize tok j) (snd ?k)) js = (st', out')"
    and d: "distinct js" "j \<notin> set js" by (simp_all add: tick_interval_step)
  have keyed: "filter (of_key tok' i) (map (finalize tok j) cs) = (if tok' = tok \<and> i = j then map (finalize tok j) cs else [])" for cs
    by (induction cs) auto
  from Cons.IH [OF rec d(1)] d(2) show ?case
    by (auto simp: keyed distinct_upsert)
qed simp

lemma add_tick_step:
  assumes "add_tick tok t a = (out, a')" "distinct (ag_intervals a)"
  shows "ag_intervals a' = ag_intervals a"
    "map_of (ag_state a') (tok', i) = (if tok' = tok \<and> i \<in> set (ag_intervals a)
       then Some (fst (key_step i (map_of (ag_state a) (tok, i)) t)) else map_of (ag_state a) (tok', i))"
    "filter (of_key tok' i) out = (if tok' = tok \<and> i \<in> set (ag_intervals a)
       then map (finalize tok i) (snd (key_step i (map_of (ag_state a) (tok, i)) t)) else [])"
    "distinct (map fst (ag_state a)) \<Longrightarrow> distinct (map fst (ag_state a'))"
proof -
  from assms(1) obtain st where st: "foldl (tick_interval tok t) (ag_state a, []) (ag_intervals a) = (st, out)"
    and a': "a' = a\<lparr>ag_state := st\<rparr>" by (auto simp: add_tick_def split: prod.splits)
  from ticks_step [OF st assms(2), of tok' i] show "ag_intervals a' = ag_intervals a"
    "map_of (ag_state a') (tok', i) = (if tok' = tok \<and> i \<in> set (ag_intervals a)
       then Some (fst (key_step i (map_of (ag_state a) (tok, i)) t)) else map_of (ag_state a) (tok', i))"
    "filter (of_key tok' i) out = (if tok' = tok \<and> i \<in> set (ag_intervals a)
       then map (finalize tok i) (snd (key_step i (map_of (ag_state a) (tok, i)) t)) else [])"
    "distinct (map fst (ag_state a)) \<Longrightarrow> distinct (map fst (ag_state a'))"
    by (auto simp: a')
qed

section \<open>The feed emits the groups\<close>

lemma groups_cut:
  assumes "g \<noteq> []" "\<forall>u\<in>set (tl g). bucket_start (tk_ts u) i \<le> bucket_start (tk_ts (hd g)) i"
    "bucket_start (tk_ts (hd g)) i < bucket_start (tk_ts t) i"
  shows "groups i (g @ t # ts) = g # groups i (t # ts)"
proof -
  from assms obtain x xs where g: "g = x # xs" by (cases g) auto
  have "takeWhile (\<lambda>u. bucket_start (tk_ts u) i \<le> bucket_start (tk_ts x) i) (xs @ t # ts) = xs"
    "dropWhile (\<lambda>u. bucket_start (tk_ts u) i \<le> bucket_start (tk_ts x) i) (xs @ t # ts) = t # ts"
    using assms(2,3) unfolding g by (simp_all add: takeWhile_append dropWhile_append)
  then show ?thesis unfolding g by (simp del: groups.simps(2)) (simp add: groups.simps(2) [of i x])
qed

definition pending_group :: "interval \<Rightarrow> building option \<Rightarrow> tick list \<Rightarrow> bool" where
  "pending_group i c g \<longleftrightarrow> c = (if g = [] then None else Some (built_from i g))
     \<and> (\<forall>u\<in>set (tl g). bucket_start (tk_ts u) i \<le> bucket_start (tk_ts (hd g)) i)"

text \<open>One tick extends the pending group or closes it.\<close>

lemma key_step_group:
  assumes "pending_group i c g"
  obtains (grow) "pending_group i (Some (fst (key_step i c t))) (g @ [t])" "snd (key_step i c t) = []"
  | (cut) "g \<noteq> []" "pending_group i (Some (fst (key_step i c t))) [t]" "snd (key_step i c t) = [built_from i g]"
      "bucket_start (tk_ts (hd g)) i < bucket_start (tk_ts t) i"
proof (cases "g = []")
  case True
  with assms show ?thesis by (intro grow) (simp_all add: pending_group_def key_step_def built_from_def)
next
  case False
  note b = built_from_fields [OF False, of i]
  show ?thesis
  proof (cases "bucket_start (tk_ts (hd g)) i < bucket_start (tk_ts t) i")
    case True
    with assms False b show ?thesis by (intro cut) (simp_all add: pending_group_def key_step_def built_from_def)
  next
    case keep: False
    have "built_from i (g @ [t]) = absorb (built_from i g) t" using False by (simp add: built_from_def)
    with assms False keep b show ?thesis
      by (intro grow) (auto simp: pending_group_def key_step_def)
  qed
qed

definition ticks_of :: "token \<Rightarrow> (token \<times> tick) list \<Rightarrow> tick list" where
  "ticks_of tok ts = map snd (filter (\<lambda>p. fst p = tok) ts)"

lemma ticks_of_simps [simp]:
  "ticks_of tok [] = []" "ticks_of tok ((tok', t) # ts) = (if tok' = tok then t # ticks_of tok ts else ticks_of tok ts)"
  by (simp_all add: ticks_of_def)

lemma groups_pending:
  assumes "pending_group i c g"
  shows "groups i g = (if g = [] then [] else [g])"
proof (cases g)
  case (Cons t ts)
  with assms have w: "takeWhile (\<lambda>u. bucket_start (tk_ts u) i \<le> bucket_start (tk_ts t) i) ts = ts"
    "dropWhile (\<lambda>u. bucket_start (tk_ts u) i \<le> bucket_start (tk_ts t) i) ts = []"
    by (simp_all add: pending_group_def takeWhile_eq_all_conv dropWhile_eq_Nil_conv)
  show ?thesis unfolding Cons groups.simps w by simp
qed simp

lemma feed_all_groups:
  assumes "feed_all ts a = (out, a')" "distinct (ag_intervals a)" "i \<in> set (ag_intervals a)"
    "pending_group i (map_of (ag_state a) (tok, i)) g" "distinct (map fst (ag_state a))"
  shows "\<exists>g'. pending_group i (map_of (ag_state a') (tok, i)) g' \<and> distinct (map fst (ag_state a'))
    \<and> map (candle_of tok i) (groups i (g @ ticks_of tok ts))
       = filter (of_key tok i) out @ (if g' = [] then [] else [candle_of tok i g'])"
  using assms
proof (induction ts arbitrary: a g out)
  case Nil
  then show ?case by (intro exI [of _ g]) (auto simp: groups_pending)
next
  case (Cons p ts)
  obtain tok' t where p: "p = (tok', t)" by fastforce
  from Cons.prems(1) obtain o1 a1 o2 where s: "add_tick tok' t a = (o1, a1)" "feed_all ts a1 = (o2, a')" "out = o1 @ o2"
    by (auto simp: p split: prod.splits)
  note step = add_tick_step [OF s(1) Cons.prems(2)]
  have d1: "distinct (ag_intervals a1)" "i \<in> set (ag_intervals a1)" using step(1) Cons.prems(2,3) by simp_all
  note ih = Cons.IH [OF s(2) d1 _ step(4) [OF Cons.prems(5)]]
  show ?case
  proof (cases "tok' = tok")
    case False
    then have "map_of (ag_state a1) (tok, i) = map_of (ag_state a) (tok, i)" "filter (of_key tok i) o1 = []"
      using step(2,3) [of tok i] by auto
    with ih [of g] Cons.prems(4) False show ?thesis by (simp add: p s(3))
  next
    case True
    let ?k = "key_step i (map_of (ag_state a) (tok, i)) t"
    have st: "map_of (ag_state a1) (tok, i) = Some (fst ?k)" and o1: "filter (of_key tok i) o1 = map (finalize tok i) (snd ?k)"
      using step(2,3) [of tok i] True Cons.prems(3) by auto
    from Cons.prems(4) show ?thesis
    proof (cases rule: key_step_group [where t = t])
      case grow
      with ih [of "g @ [t]"] st o1 True show ?thesis by (simp add: p s(3))
    next
      case cut
      have "groups i (g @ t # ticks_of tok ts) = g # groups i (t # ticks_of tok ts)"
        using cut(1,4) Cons.prems(4) by (intro groups_cut) (simp_all add: pending_group_def)
      with cut ih [of "[t]"] st o1 True built_from_fields [OF cut(1)] show ?thesis by (simp add: p s(3))
    qed
  qed
qed

lemma flush_key:
  assumes "distinct (map fst (ag_state a))"
  shows "filter (of_key tok i) (fst (flush a)) = (case map_of (ag_state a) (tok, i) of None \<Rightarrow> [] | Some c \<Rightarrow> [finalize tok i c])"
proof -
  have "distinct (map fst st) \<Longrightarrow> filter (of_key tok i) (map (\<lambda>((tok, i), c). finalize tok i c) st)
      = (case map_of st (tok, i) of None \<Rightarrow> [] | Some c \<Rightarrow> [finalize tok i c])" for st
  proof (induction st)
    case (Cons e st)
    obtain tok' j c where e: "e = ((tok', j), c)" by (metis prod.exhaust)
    from Cons show ?case by (auto simp: e map_of_eq_None_iff [symmetric] split: option.splits)
  qed simp
  with assms show ?thesis by (simp add: flush_def)
qed

section \<open>Ordered feeds\<close>

text \<open>In a feed without late ticks a group is a bucket.\<close>

lemma takeWhile_le_filter:
  assumes "sorted (map f (t # ts))"
  shows "takeWhile (\<lambda>u. f u \<le> f t) ts = filter (\<lambda>u. f u = f t) ts" "dropWhile (\<lambda>u. f u \<le> f t) ts = filter (\<lambda>u. f u \<noteq> f t) ts"
proof -
  have e: "f u \<le> f t \<longleftrightarrow> f u = f t" if "u \<in> set ts" for u using assms that by auto
  have "sorted (map f ts)" using assms by simp
  then have "takeWhile (\<lambda>u. f u \<le> f t) ts = filter (\<lambda>u. f u \<le> f t) ts \<and> dropWhile (\<lambda>u. f u \<le> f t) ts = filter (\<lambda>u. \<not> f u \<le> f t) ts"
  proof (induction ts)
    case (Cons u ts)
    show ?case
    proof (cases "f u \<le> f t")
      case False
      with Cons.prems have "\<forall>x\<in>set ts. \<not> f x \<le> f t" by auto
      with False show ?thesis by simp
    qed (use Cons in simp)
  qed simp
  then show "takeWhile (\<lambda>u. f u \<le> f t) ts = filter (\<lambda>u. f u = f t) ts" "dropWhile (\<lambda>u. f u \<le> f t) ts = filter (\<lambda>u. f u \<noteq> f t) ts"
    using e by (auto cong: filter_cong)
qed

abbreviation bucket_of :: "interval \<Rightarrow> tick \<Rightarrow> int" where
  "bucket_of i t \<equiv> bucket_start (tk_ts t) i"

lemma groups_sorted:
  "sorted (map (bucket_of i) ts) \<Longrightarrow>
    groups i ts = map (\<lambda>b. filter (\<lambda>t. bucket_of i t = b) ts) (sorted_list_of_set (bucket_of i ` set ts))"
proof (induction i ts rule: groups.induct)
  case (2 i t ts)
  let ?f = "bucket_of i" and ?rest = "filter (\<lambda>u. bucket_of i u \<noteq> bucket_of i t) ts"
  note split = takeWhile_le_filter [OF 2(2)]
  have le: "\<forall>u\<in>set ts. ?f t \<le> ?f u" using 2(2) by simp
  have "Min (?f ` set (t # ts)) = ?f t" by (rule Min_eqI) (use le in auto)
  moreover have "?f ` set (t # ts) - {?f t} = ?f ` set ?rest" by auto
  ultimately have bs: "sorted_list_of_set (?f ` set (t # ts)) = ?f t # sorted_list_of_set (?f ` set ?rest)"
    using sorted_list_of_set_nonempty [of "?f ` set (t # ts)"] by simp
  have "sorted (map ?f ?rest)" using 2(2) by (simp add: sorted_filter)
  with 2(1) have ih: "groups i ?rest = map (\<lambda>b. filter (\<lambda>u. ?f u = b) ?rest) (sorted_list_of_set (?f ` set ?rest))"
    unfolding split by blast
  have same: "filter (\<lambda>u. ?f u = b) ?rest = filter (\<lambda>u. ?f u = b) (t # ts)" if "b \<in> ?f ` set ?rest" for b
    using that by (auto simp: conj_commute intro!: filter_cong)
  show ?case unfolding bs groups.simps split ih list.map
    using same by (auto cong: map_cong)
qed simp

section \<open>Property\<close>

text \<open>C24. The aggregator emits exactly the candles of the reference. For whatever ticks of whatever instruments
  in whatever order, the candles it closed for one instrument and interval, with those of the final
  flush, are in order the candles of the groups of that instrument's ticks: open and close are the first
  and last price, high and low the extremes, the volume is the last cumulated volume less the smallest one,
  the open interest the last one known. In a feed without late ticks a group is the ticks of one bucket,
  the buckets ascend and none is missing.\<close>
theorem aggregator_builds_the_groups:
  assumes "distinct (ag_intervals (new_aggregator names))" "i \<in> set (ag_intervals (new_aggregator names))"
  shows "case feed_all ts (new_aggregator names) of (out, a) \<Rightarrow>
    filter (of_key tok i) (out @ fst (flush a)) = map (candle_of tok i) (groups i (ticks_of tok ts))
    \<and> (sorted (map (bucket_of i) (ticks_of tok ts)) \<longrightarrow> groups i (ticks_of tok ts)
        = map (\<lambda>b. filter (\<lambda>t. bucket_of i t = b) (ticks_of tok ts)) (sorted_list_of_set (bucket_of i ` set (ticks_of tok ts))))"
proof -
  obtain out a where f: "feed_all ts (new_aggregator names) = (out, a)" by fastforce
  have "pending_group i (map_of (ag_state (new_aggregator names)) (tok, i)) []" "distinct (map fst (ag_state (new_aggregator names)))"
    by (simp_all add: pending_group_def new_aggregator_def)
  from feed_all_groups [OF f assms this] obtain g where g: "pending_group i (map_of (ag_state a) (tok, i)) g" "distinct (map fst (ag_state a))"
    "map (candle_of tok i) (groups i (ticks_of tok ts)) = filter (of_key tok i) out @ (if g = [] then [] else [candle_of tok i g])"
    by auto
  have "filter (of_key tok i) (fst (flush a)) = (if g = [] then [] else [candle_of tok i g])"
    unfolding flush_key [OF g(2)] using g(1) built_from_fields [of g i tok] by (auto simp: pending_group_def)
  with g(3) groups_sorted show ?thesis by (simp add: f)
qed

definition demo_ticks :: "(token \<times> tick) list" where
  "demo_ticks = [(1, \<lparr>tk_ts = 0, tk_price = 10, tk_cum = 100, tk_oi = None\<rparr>), (2, \<lparr>tk_ts = 5, tk_price = 99, tk_cum = 7, tk_oi = Some 3\<rparr>),
     (1, \<lparr>tk_ts = 30000000, tk_price = 12, tk_cum = 150, tk_oi = None\<rparr>), (1, \<lparr>tk_ts = 61000000, tk_price = 11, tk_cum = 160, tk_oi = None\<rparr>)]"

lemma aggregator_builds_the_groups_witness:
  "case feed_all demo_ticks (new_aggregator [''1m'', ''day'']) of (out, a) \<Rightarrow>
    map cc_volume (filter (of_key 1 I_1m) (out @ fst (flush a))) = [50, 0]"
proof -
  have "distinct (ag_intervals (new_aggregator [''1m'', ''day'']))" "I_1m \<in> set (ag_intervals (new_aggregator [''1m'', ''day'']))"
    by code_simp+
  note eq = aggregator_builds_the_groups [OF this, where ts = demo_ticks and tok = 1]
  have "map cc_volume (map (candle_of 1 I_1m) (groups I_1m (ticks_of 1 demo_ticks))) = [50, 0]" by code_simp
  moreover obtain out a where f: "feed_all demo_ticks (new_aggregator [''1m'', ''day'']) = (out, a)" by fastforce
  ultimately show ?thesis using eq [unfolded f prod.case, THEN conjunct1] unfolding f prod.case by (simp only:)
qed

end
