(* ===== verification/Feed.thy ===== *)
theory Feed
  imports History Candles
begin

text \<open>
  The live feed, \<open>data/feed.py\<close>: batches of ticks are aggregated, stored and handed to the fast loop; a watchdog looks at
  the age of the last tick, rebuilds a stale connection and, when nothing helps, calls the fail-safe; after a
  reconnect the gap is reconciled from the history. The coroutines are steps on one state; a task created is a
  member of \<open>fd_tasks\<close> until it runs. The monotonic clock is in seconds, candle times in microseconds. The hook of
  the fast loop is an argument, as are the replies of the database, of Redis and of the broker.
\<close>

section \<open>State\<close>

record raw_tick =
  rt_token :: "token option"
  rt_price :: "real option"
  rt_exchange_ts :: "int option"
  rt_volume :: "int option"
  rt_oi :: "int option"
  rt_last_qty :: "int option"
  rt_avg_price :: "real option"
  rt_buy_qty :: "int option"
  rt_sell_qty :: "int option"
  rt_bids :: "real option list"
  rt_asks :: "real option list"

record tick_row =
  tr_ts :: int
  tr_token :: token
  tr_price :: "real option"
  tr_last_qty :: "int option"
  tr_avg_price :: "real option"
  tr_volume :: "int option"
  tr_buy_qty :: "int option"
  tr_sell_qty :: "int option"
  tr_oi :: "int option"
  tr_bid :: "real option"
  tr_ask :: "real option"

datatype task = T_Reconnect | T_Failsafe int | T_Reconcile

record feed_cfg =
  fc_tokens :: "token list"
  fc_oi_tokens :: "token list"
  fc_archive :: bool
  fc_max_days :: "string \<rightharpoonup> int"
  fc_staleness :: real
  fc_reconnect_after :: real
  fc_failsafe_after :: real
  fc_on_failsafe :: bool

record 'h feed_state =
  fd_agg :: aggregator
  fd_candles :: candle_table
  fd_archive :: "tick_row list"
  fd_ltp :: "(token \<times> real) list"
  fd_hook :: 'h
  fd_last_tick :: "real option"
  fd_had_disconnect :: bool
  fd_reconnecting :: bool
  fd_last_reconnect :: real
  fd_price_pub :: real
  fd_published :: "(token \<times> real) list list"
  fd_failsafe_fired :: bool
  fd_was_in_market :: bool
  fd_tasks :: "task list"
  fd_stopped :: bool

section \<open>Ticks\<close>

definition normalize_tick :: "raw_tick \<Rightarrow> token \<Rightarrow> int \<Rightarrow> tick_row" where
  "normalize_tick t tok ts = \<lparr>tr_ts = ts, tr_token = tok, tr_price = rt_price t, tr_last_qty = rt_last_qty t, tr_avg_price = rt_avg_price t,
     tr_volume = rt_volume t, tr_buy_qty = rt_buy_qty t, tr_sell_qty = rt_sell_qty t, tr_oi = rt_oi t,
     tr_bid = (case rt_bids t of [] \<Rightarrow> None | b # _ \<Rightarrow> b), tr_ask = (case rt_asks t of [] \<Rightarrow> None | a # _ \<Rightarrow> a)\<rparr>"

definition interval_name :: "interval \<Rightarrow> string" where
  "interval_name i = (case i of I_1m \<Rightarrow> ''1m'' | I_3m \<Rightarrow> ''3m'' | I_5m \<Rightarrow> ''5m'' | I_15m \<Rightarrow> ''15m'' | I_Day \<Rightarrow> ''day'')"

definition candle_row :: "closed_candle \<Rightarrow> candle_key \<times> candle_vals" where
  "candle_row c = ((cc_token c, interval_name (cc_interval c), cc_ts c),
     \<lparr>cv_open = cc_open c, cv_high = cc_high c, cv_low = cc_low c, cv_close = cc_close c, cv_volume = cc_volume c, cv_oi = cc_oi c\<rparr>)"

text \<open>The replies a batch meets: the clocks, deadlocks of the candle upsert, whether the archive and Redis answer.\<close>

record feed_io =
  io_now :: int
  io_mono :: real
  io_deadlock :: "nat \<Rightarrow> bool"
  io_archive_ok :: bool
  io_redis_ok :: bool

text \<open>A tick without token or price is skipped.\<close>

definition usable :: "int \<Rightarrow> raw_tick \<Rightarrow> (token \<times> tick) option" where
  "usable now t = (case (rt_token t, rt_price t) of
     (Some tok, Some p) \<Rightarrow> Some (tok, \<lparr>tk_ts = get_default (rt_exchange_ts t) now, tk_price = p, tk_cum = get_default (rt_volume t) 0, tk_oi = rt_oi t\<rparr>)
   | _ \<Rightarrow> None)"

fun batch :: "int \<Rightarrow> raw_tick list \<Rightarrow> aggregator \<Rightarrow> (token \<times> real) list \<Rightarrow> closed_candle list \<times> aggregator \<times> (token \<times> real) list \<times> tick_row list" where
  "batch now [] a ltp = ([], a, ltp, [])"
| "batch now (t # ts) a ltp = (case usable now t of
     None \<Rightarrow> batch now ts a ltp
   | Some (tok, u) \<Rightarrow> (case add_tick tok u a of (out, a') \<Rightarrow>
       case batch now ts a' (upsert tok (tk_price u) ltp) of (out', a'', ltp', rows) \<Rightarrow>
         (out @ out', a'', ltp', normalize_tick t tok (tk_ts u) # rows)))"

text \<open>\<open>hset\<close> of a mapping.\<close>

definition hset :: "(token \<times> real) list \<Rightarrow> (token \<times> real) list \<Rightarrow> (token \<times> real) list" where
  "hset m t = foldl (\<lambda>t e. upsert (fst e) (snd e) t) t m"

text \<open>An exception ends the batch; what was done before it stays. The hook's own exceptions are caught, so its effect is a
  function of the state.\<close>

definition process_ticks :: "((token \<times> real) list \<Rightarrow> 'h \<Rightarrow> 'h) option \<Rightarrow> feed_cfg \<Rightarrow> feed_io \<Rightarrow> raw_tick list \<Rightarrow> 'h feed_state \<Rightarrow> 'h feed_state" where
  "process_ticks hook c io ts f =
    (case batch (io_now io) ts (fd_agg f) [] of (cs, a, ltp, rows) \<Rightarrow>
      let f = f\<lparr>fd_agg := a\<rparr> in
      (case upsert_candles (io_deadlock io) (map candle_row cs) (fd_candles f) of
         (None, _) \<Rightarrow> f
       | (Some _, candles) \<Rightarrow>
          let f = f\<lparr>fd_candles := candles\<rparr> in
          if fc_archive c \<and> rows \<noteq> [] \<and> \<not> io_archive_ok io then f
          else let f = (if fc_archive c then f\<lparr>fd_archive := fd_archive f @ rows\<rparr> else f) in
          if ltp = [] \<or> \<not> io_redis_ok io then f
          else let f = f\<lparr>fd_ltp := hset ltp (fd_ltp f)\<rparr>;
                   f = (if io_mono io - fd_price_pub f > 1 then f\<lparr>fd_price_pub := io_mono io, fd_published := fd_published f @ [ltp]\<rparr> else f)
               in (case hook of None \<Rightarrow> f | Some g \<Rightarrow> f\<lparr>fd_hook := g ltp (fd_hook f)\<rparr>)))"

definition consume :: "((token \<times> real) list \<Rightarrow> 'h \<Rightarrow> 'h) option \<Rightarrow> feed_cfg \<Rightarrow> feed_io \<Rightarrow> raw_tick list \<Rightarrow> 'h feed_state \<Rightarrow> 'h feed_state" where
  "consume hook c io ts f = (if fd_stopped f then f else process_ticks hook c io ts (f\<lparr>fd_last_tick := Some (io_mono io)\<rparr>))"

section \<open>Watchdog and reconnect\<close>

definition add_task :: "task \<Rightarrow> 'h feed_state \<Rightarrow> 'h feed_state" where
  "add_task t f = f\<lparr>fd_tasks := fd_tasks f @ [t]\<rparr>"

text \<open>One heartbeat of the watchdog at a time, in or out of the session.\<close>

definition watchdog :: "feed_cfg \<Rightarrow> real \<Rightarrow> bool \<Rightarrow> 'h feed_state \<Rightarrow> 'h feed_state" where
  "watchdog c now in_market f =
    (if fd_stopped f then f
     else if \<not> in_market then f\<lparr>fd_last_tick := Some now, fd_failsafe_fired := False, fd_was_in_market := False\<rparr>
     else if \<not> fd_was_in_market f then
       (let f = f\<lparr>fd_was_in_market := True, fd_last_tick := Some now\<rparr>
        in if fd_reconnecting f then f else add_task T_Reconnect f)
     else (case fd_last_tick f of
         None \<Rightarrow> f
       | Some l \<Rightarrow>
          if now - l \<le> fc_staleness c then f
          else let f = (if now - l > fc_reconnect_after c \<and> now - fd_last_reconnect f > 120 \<and> \<not> fd_reconnecting f
                        then add_task T_Reconnect f else f)
               in if now - l > fc_failsafe_after c \<and> fc_on_failsafe c \<and> \<not> fd_failsafe_fired f
                  then add_task (T_Failsafe \<lfloor>now - l\<rfloor>) (f\<lparr>fd_failsafe_fired := True\<rparr>) else f))"

text \<open>\<open>reconnect\<close> up to its wait for the token, and from there: it went well, or something raised.\<close>

definition reconnect_begin :: "real \<Rightarrow> 'h feed_state \<Rightarrow> 'h feed_state" where
  "reconnect_begin now f = (if fd_reconnecting f then f
     else f\<lparr>fd_reconnecting := True, fd_last_reconnect := now, fd_had_disconnect := True\<rparr>)"

definition reconnect_end :: "real \<Rightarrow> bool \<Rightarrow> 'h feed_state \<Rightarrow> 'h feed_state" where
  "reconnect_end now ok f = f\<lparr>fd_last_tick := (if ok then Some now else fd_last_tick f), fd_reconnecting := False\<rparr>"

definition on_reconnect :: "'h feed_state \<Rightarrow> 'h feed_state" where
  "on_reconnect f = f\<lparr>fd_had_disconnect := True\<rparr>"

definition on_noreconnect :: "'h feed_state \<Rightarrow> 'h feed_state" where
  "on_noreconnect f = add_task T_Reconnect f"

definition on_connect :: "'h feed_state \<Rightarrow> 'h feed_state" where
  "on_connect f = (if fd_had_disconnect f then add_task T_Reconcile f else f)"

text \<open>The partial candles are dropped; an exception of one series is logged.\<close>

definition reconcile_after_reconnect :: "history \<Rightarrow> int \<Rightarrow> feed_cfg \<Rightarrow> 'h feed_state \<Rightarrow> 'h feed_state" where
  "reconcile_after_reconnect h now c f =
    (let f = f\<lparr>fd_agg := snd (flush (fd_agg f))\<rparr>;
         t = foldl (\<lambda>t (tok, i). snd (reconcile_gap h now tok (interval_name i) (get_default (fc_max_days c (interval_name i)) 60)
               (tok \<in> set (fc_oi_tokens c)) t))
             (fd_candles f) (filter (\<lambda>p. snd p \<noteq> I_Day) (List.product (fc_tokens c) (ag_intervals (fd_agg f))))
     in f\<lparr>fd_candles := t, fd_had_disconnect := False\<rparr>)"

definition stop_feed :: "'h feed_state \<Rightarrow> 'h feed_state" where
  "stop_feed f = f\<lparr>fd_stopped := True, fd_tasks := []\<rparr>"

section \<open>A batch is its usable ticks\<close>

lemma batch_feed:
  "batch now ts a ltp = (out, a', ltp', rows) \<Longrightarrow> feed_all (List.map_filter (usable now) ts) a = (out, a')"
proof (induction ts arbitrary: a ltp out a' ltp' rows)
  case (Cons t ts)
  show ?case
  proof (cases "usable now t")
    case None
    with Cons show ?thesis by (auto simp: map_filter_simps)
  next
    case (Some p)
    then obtain tok u where p: "usable now t = Some (tok, u)" by (cases p) auto
    obtain o1 a1 where s: "add_tick tok u a = (o1, a1)" by fastforce
    obtain o2 a2 l2 r2 where r: "batch now ts a1 (upsert tok (tk_price u) ltp) = (o2, a2, l2, r2)" by (metis prod_cases4)
    from Cons.IH [OF r] Cons.prems p s r show ?thesis by (auto simp: map_filter_simps)
  qed
qed (simp add: map_filter_simps)

section \<open>The watchdog\<close>

text \<open>A round without a tick: a heartbeat in the session at \<open>t\<close>; a reconnect it asked for begins at \<open>b\<close> and ends at \<open>e\<close>.\<close>

definition silent_round :: "feed_cfg \<Rightarrow> bool \<Rightarrow> real \<times> real \<times> real \<Rightarrow> 'h feed_state \<Rightarrow> 'h feed_state" where
  "silent_round c ok r f = (case r of (t, b, e) \<Rightarrow>
    let f = watchdog c t True f
    in if T_Reconnect \<in> set (fd_tasks f)
       then reconnect_end e ok (reconnect_begin b (f\<lparr>fd_tasks := removeAll T_Reconnect (fd_tasks f)\<rparr>)) else f)"

abbreviation failsafe_called :: "'h feed_state \<Rightarrow> bool" where
  "failsafe_called f \<equiv> \<exists>n. T_Failsafe n \<in> set (fd_tasks f)"

text \<open>Heartbeats at most \<open>h\<close> apart, every reconnect over before the next one.\<close>

fun beats_from :: "real \<Rightarrow> real \<Rightarrow> (real \<times> real \<times> real) list \<Rightarrow> bool" where
  "beats_from h now [] \<longleftrightarrow> True"
| "beats_from h now ((t, b, e) # rs) \<longleftrightarrow> now \<le> t \<and> t \<le> now + h \<and> t \<le> b \<and> b \<le> e
     \<and> (case rs of [] \<Rightarrow> True | (t', _, _) # _ \<Rightarrow> e \<le> t') \<and> beats_from h t rs"


text \<open>What a heartbeat decides.\<close>

definition stale_reconnect :: "feed_cfg \<Rightarrow> real \<Rightarrow> real \<Rightarrow> real \<Rightarrow> bool" where
  "stale_reconnect c t l r \<longleftrightarrow> t - l > fc_staleness c \<and> t - l > fc_reconnect_after c \<and> t - r > 120"

definition stale_failsafe :: "feed_cfg \<Rightarrow> real \<Rightarrow> real \<Rightarrow> bool" where
  "stale_failsafe c t l \<longleftrightarrow> t - l > fc_staleness c \<and> t - l > fc_failsafe_after c \<and> fc_on_failsafe c"

definition on_watch :: "'h feed_state \<Rightarrow> bool" where
  "on_watch f \<longleftrightarrow> fd_was_in_market f \<and> \<not> fd_stopped f \<and> \<not> fd_reconnecting f \<and> T_Reconnect \<notin> set (fd_tasks f)"

lemma watchdog_in_session:
  assumes "on_watch f" "fd_last_tick f = Some l"
  shows "watchdog c t True f = f\<lparr>fd_tasks := fd_tasks f @ (if stale_reconnect c t l (fd_last_reconnect f) then [T_Reconnect] else [])
        @ (if stale_failsafe c t l \<and> \<not> fd_failsafe_fired f then [T_Failsafe \<lfloor>t - l\<rfloor>] else []),
      fd_failsafe_fired := fd_failsafe_fired f \<or> stale_failsafe c t l\<rparr>"
proof (cases "t - l \<le> fc_staleness c")
  case True
  with assms show ?thesis by (simp add: on_watch_def watchdog_def stale_reconnect_def stale_failsafe_def)
next
  case False
  with assms show ?thesis
    by (cases "fd_failsafe_fired f") (auto simp: on_watch_def watchdog_def stale_reconnect_def stale_failsafe_def add_task_def Let_def)
qed

lemma silent_round_step:
  assumes "on_watch f" "fd_last_tick f = Some l"
  shows "on_watch (silent_round c ok (t, b, e) f)
    \<and> fd_last_tick (silent_round c ok (t, b, e) f) = Some (if stale_reconnect c t l (fd_last_reconnect f) \<and> ok then e else l)
    \<and> fd_last_reconnect (silent_round c ok (t, b, e) f) = (if stale_reconnect c t l (fd_last_reconnect f) then b else fd_last_reconnect f)
    \<and> (fd_failsafe_fired (silent_round c ok (t, b, e) f) \<longleftrightarrow> fd_failsafe_fired f \<or> stale_failsafe c t l)
    \<and> (T_Failsafe n \<in> set (fd_tasks (silent_round c ok (t, b, e) f)) \<longleftrightarrow>
         T_Failsafe n \<in> set (fd_tasks f) \<or> stale_failsafe c t l \<and> \<not> fd_failsafe_fired f \<and> n = \<lfloor>t - l\<rfloor>)"
proof (cases "stale_reconnect c t l (fd_last_reconnect f)")
  case True
  with assms show ?thesis unfolding silent_round_def prod.case watchdog_in_session [OF assms] Let_def
    by (auto simp: on_watch_def reconnect_begin_def reconnect_end_def)
next
  case False
  with assms show ?thesis unfolding silent_round_def prod.case watchdog_in_session [OF assms] Let_def
    by (auto simp: on_watch_def)
qed

abbreviation silent_run :: "feed_cfg \<Rightarrow> bool \<Rightarrow> (real \<times> real \<times> real) list \<Rightarrow> 'h feed_state \<Rightarrow> 'h feed_state" where
  "silent_run c ok rs f \<equiv> foldl (\<lambda>f r. silent_round c ok r f) f rs"

lemma silent_run_fails_safe:
  assumes "on_watch f" "fd_last_tick f = Some l" "fd_failsafe_fired f \<longleftrightarrow> called"
  shows "{n. T_Failsafe n \<in> set (fd_tasks (silent_run c False rs f))} = {n. T_Failsafe n \<in> set (fd_tasks f)} \<union>
    (case find (\<lambda>r. stale_failsafe c (fst r) l) rs of None \<Rightarrow> {} | Some r \<Rightarrow> if called then {} else {\<lfloor>fst r - l\<rfloor>})"
  using assms
proof (induction rs arbitrary: f called)
  case (Cons r rs)
  obtain t b e where r: "r = (t, b, e)" by (metis prod_cases3)
  note step = silent_round_step [OF Cons.prems(1,2), of c False t b e]
  from step have s: "on_watch (silent_round c False r f)" "fd_last_tick (silent_round c False r f) = Some l"
    "fd_failsafe_fired (silent_round c False r f) \<longleftrightarrow> called \<or> stale_failsafe c t l"
    using Cons.prems(3) by (simp_all add: r)
  have tasks: "{n. T_Failsafe n \<in> set (fd_tasks (silent_round c False r f))}
    = {n. T_Failsafe n \<in> set (fd_tasks f)} \<union> (if stale_failsafe c t l \<and> \<not> called then {\<lfloor>t - l\<rfloor>} else {})"
    using step Cons.prems(3) by (auto simp: r)
  from Cons.IH [OF s] tasks show ?case by (auto simp: r split: option.splits)
qed simp

lemma silent_run_never_fails_safe:
  assumes "on_watch f" "fd_last_tick f = Some l" "fd_last_reconnect f \<le> l" "now - l \<le> fc_failsafe_after c - h" "beats_from h now rs"
    and "fc_staleness c + h \<le> fc_failsafe_after c" "fc_reconnect_after c + h \<le> fc_failsafe_after c" "120 + h \<le> fc_failsafe_after c"
  shows "T_Failsafe n \<in> set (fd_tasks (silent_run c True rs f)) \<longleftrightarrow> T_Failsafe n \<in> set (fd_tasks f)"
  using assms(1-5)
proof (induction rs arbitrary: f l now)
  case (Cons r rs)
  obtain t b e where r: "r = (t, b, e)" by (metis prod_cases3)
  from Cons.prems(5) have beats: "t \<le> now + h" "t \<le> b" "b \<le> e" "beats_from h t rs" by (simp_all add: r)
  have calm: "\<not> stale_failsafe c t l" using beats(1) Cons.prems(4) by (simp add: stale_failsafe_def)
  let ?f = "silent_round c True r f"
  note step = silent_round_step [OF Cons.prems(1,2), of c True t b e, folded r]
  from step calm have same: "T_Failsafe n \<in> set (fd_tasks ?f) \<longleftrightarrow> T_Failsafe n \<in> set (fd_tasks f)" by blast
  show ?case
  proof (cases "stale_reconnect c t l (fd_last_reconnect f)")
    case True
    with step have "on_watch ?f" "fd_last_tick ?f = Some e" "fd_last_reconnect ?f \<le> e" using beats(3) by simp_all
    from Cons.IH [OF this _ beats(4)] same beats assms(8) show ?thesis by simp
  next
    case False
    with step have s: "on_watch ?f" "fd_last_tick ?f = Some l" "fd_last_reconnect ?f \<le> l" using Cons.prems(3) by simp_all
    have "t - l \<le> fc_failsafe_after c - h" using False assms(6-8) Cons.prems(3) by (auto simp: stale_reconnect_def)
    from Cons.IH [OF s this beats(4)] same show ?thesis by simp
  qed
qed simp

section \<open>Properties\<close>

text \<open>C38. The fail-safe waits for the reconnect to fail. While the feed stays silent in the session, a reconnect that raises lets the
  fail-safe be called exactly once, at the first heartbeat at which the last tick is older than its limit. A reconnect that
  returns resets the age of the last tick although no tick came, and it is repeated every two minutes: with the
  shipped limits of 60 and 180 seconds the fail-safe is then never called, however long the feed stays silent.\<close>
theorem reconnects_starve_the_failsafe:
  assumes "on_watch f" "fd_last_tick f = Some l" "fd_last_reconnect f \<le> l" "\<not> fd_failsafe_fired f" "\<not> failsafe_called f" "beats_from h l rs"
    and "fc_staleness c + h \<le> fc_failsafe_after c" "fc_reconnect_after c + h \<le> fc_failsafe_after c" "120 + h \<le> fc_failsafe_after c"
  shows "{n. T_Failsafe n \<in> set (fd_tasks (silent_run c False rs f))}
      = (case find (\<lambda>r. stale_failsafe c (fst r) l) rs of None \<Rightarrow> {} | Some r \<Rightarrow> {\<lfloor>fst r - l\<rfloor>})
    \<and> \<not> failsafe_called (silent_run c True rs f)"
proof -
  have "l - l \<le> fc_failsafe_after c - h" using assms(9) by simp
  from silent_run_never_fails_safe [OF assms(1-3) this assms(6-9)] assms(5)
  have "\<not> failsafe_called (silent_run c True rs f)" by simp
  moreover have "fd_failsafe_fired f \<longleftrightarrow> False" using assms(4) by simp
  from silent_run_fails_safe [OF assms(1,2) this, of c rs, unfolded if_False] assms(5)
  have "{n. T_Failsafe n \<in> set (fd_tasks (silent_run c False rs f))}
      = (case find (\<lambda>r. stale_failsafe c (fst r) l) rs of None \<Rightarrow> {} | Some r \<Rightarrow> {\<lfloor>fst r - l\<rfloor>})" by simp
  ultimately show ?thesis by blast
qed

definition demo_feed_cfg :: feed_cfg where
  "demo_feed_cfg = \<lparr>fc_tokens = [7], fc_oi_tokens = [], fc_archive = False, fc_max_days = (\<lambda>_. None), fc_staleness = 30,
     fc_reconnect_after = 60, fc_failsafe_after = 180, fc_on_failsafe = True\<rparr>"

definition demo_feed :: "string list \<Rightarrow> candle_table \<Rightarrow> (token \<times> real) list list feed_state" where
  "demo_feed is t = \<lparr>fd_agg = new_aggregator is, fd_candles = t, fd_archive = [], fd_ltp = [], fd_hook = [], fd_last_tick = Some 0,
     fd_had_disconnect = False, fd_reconnecting = False, fd_last_reconnect = 0, fd_price_pub = 0, fd_published = [],
     fd_failsafe_fired = False, fd_was_in_market = True, fd_tasks = [], fd_stopped = False\<rparr>"

text \<open>A silent hour, a heartbeat every 50 seconds.\<close>

definition demo_beat :: "nat \<Rightarrow> real \<times> real \<times> real" where
  "demo_beat k = (50 * of_nat k, 50 * of_nat k + 1, 50 * of_nat k + 2)"

definition demo_beats :: "(real \<times> real \<times> real) list" where
  "demo_beats = map demo_beat [1..<73]"

lemma beats_every: "beats_from 50 (50 * of_nat m) (map demo_beat [Suc m..<n])"
proof (induction "n - m" arbitrary: m)
  case (Suc d)
  show ?case
  proof (cases "Suc m < n")
    case True
    then have split: "map demo_beat [Suc m..<n] = demo_beat (Suc m) # map demo_beat [Suc (Suc m)..<n]" by (simp add: upt_conv_Cons)
    have "case map demo_beat [Suc (Suc m)..<n] of [] \<Rightarrow> True | (t', _, _) # _ \<Rightarrow> 52 + 50 * of_nat m \<le> t'"
      by (cases "Suc (Suc m) < n") (simp_all add: upt_conv_Cons demo_beat_def)
    moreover have "beats_from 50 (50 * of_nat (Suc m)) (map demo_beat [Suc (Suc m)..<n])" by (rule Suc(1)) (use Suc(2) in simp)
    ultimately show ?thesis unfolding split demo_beat_def [of "Suc m"] by simp
  qed simp
qed simp

lemma reconnects_starve_the_failsafe_witness:
  "{n. T_Failsafe n \<in> set (fd_tasks (silent_run demo_feed_cfg False demo_beats (demo_feed [''5m''] [])))} = {200}
    \<and> \<not> failsafe_called (silent_run demo_feed_cfg True demo_beats (demo_feed [''5m''] []))"
proof -
  have "[1..<73] = [1, 2, 3, 4] @ [5..<73]" by (simp add: upt_rec)
  then have "find (\<lambda>r. stale_failsafe demo_feed_cfg (fst r) 0) demo_beats = Some (200, 201, 202)"
    by (simp add: demo_beats_def demo_beat_def stale_failsafe_def demo_feed_cfg_def)
  moreover have "beats_from 50 0 demo_beats" unfolding demo_beats_def using beats_every [of 0 73] by simp
  ultimately show ?thesis
    using reconnects_starve_the_failsafe [of "demo_feed [''5m''] []" 0 50 demo_beats demo_feed_cfg]
    by (simp add: demo_feed_def on_watch_def) (simp add: demo_feed_cfg_def)
qed

section \<open>The candle of the reconnect\<close>

lemma process_ticks_candles:
  assumes "\<not> (io_deadlock io 0 \<and> io_deadlock io 1 \<and> io_deadlock io 2)"
  shows "fd_candles (process_ticks hook c io ts f) = put_rows (map candle_row (fst (feed_all (List.map_filter (usable (io_now io)) ts) (fd_agg f)))) (fd_candles f)"
    "fd_agg (process_ticks hook c io ts f) = snd (feed_all (List.map_filter (usable (io_now io)) ts) (fd_agg f))"
proof -
  obtain out a ltp rows where b: "batch (io_now io) ts (fd_agg f) [] = (out, a, ltp, rows)" by (metis prod_cases4)
  note feed = batch_feed [OF b]
  have "upsert_candles (io_deadlock io) (map candle_row out) t = (Some (length out), put_rows (map candle_row out) t)" for t
    using assms by (auto simp: upsert_candles_def put_rows_def)
  then show "fd_candles (process_ticks hook c io ts f) = put_rows (map candle_row (fst (feed_all (List.map_filter (usable (io_now io)) ts) (fd_agg f)))) (fd_candles f)"
    "fd_agg (process_ticks hook c io ts f) = snd (feed_all (List.map_filter (usable (io_now io)) ts) (fd_agg f))"
    unfolding process_ticks_def b feed by (auto simp: Let_def split: option.splits)
qed

lemma interval_name_inj: "interval_name i = interval_name j \<longleftrightarrow> i = j"
  by (cases i; cases j) (simp_all add: interval_name_def)

lemma rows_of_key:
  "filter (\<lambda>r. fst r = (tok, interval_name i, b)) (map candle_row out) = map candle_row (filter (\<lambda>x. cc_ts x = b) (filter (of_key tok i) out))"
  by (induction out) (auto simp: candle_row_def interval_name_inj)

lemma reconciled_state:
  "ag_state (fd_agg (reconcile_after_reconnect h now c f)) = []"
  "ag_intervals (fd_agg (reconcile_after_reconnect h now c f)) = ag_intervals (fd_agg f)"
  by (simp_all add: reconcile_after_reconnect_def flush_def Let_def)


text \<open>A minute in: the history has the volume 1000 of the bucket so far, the stored candle of the bucket has 5.\<close>

definition demo_tick :: "int \<Rightarrow> real \<Rightarrow> int \<Rightarrow> raw_tick" where
  "demo_tick ts p v = \<lparr>rt_token = Some 7, rt_price = Some p, rt_exchange_ts = Some ts, rt_volume = Some v, rt_oi = None, rt_last_qty = None,
     rt_avg_price = None, rt_buy_qty = None, rt_sell_qty = None, rt_bids = [], rt_asks = []\<rparr>"

definition demo_tk :: "int \<Rightarrow> real \<Rightarrow> int \<Rightarrow> tick" where
  "demo_tk ts p v = \<lparr>tk_ts = ts, tk_price = p, tk_cum = v, tk_oi = None\<rparr>"

definition half_history :: history where
  "half_history = \<lparr>hy_fetch = (\<lambda>tok lo hi i oi. Some [\<lparr>hb_ts = 300000000, hb_open = 100, hb_high = 120, hb_low = 90, hb_close = 101,
     hb_volume = Some 1000, hb_oi = None\<rparr>]), hy_deadlock = (\<lambda>lo n. False)\<rparr>"

definition demo_io :: feed_io where
  "demo_io = \<lparr>io_now = 0, io_mono = 0, io_deadlock = (\<lambda>_. False), io_archive_ok = True, io_redis_ok = True\<rparr>"


end
