(* ===== verification/Audit_Chain.thy ===== *)
theory Audit_Chain
  imports Prelude
begin

text \<open>
  The tamper-evident audit log, \<open>common/audit_chain.py\<close> and \<open>compute_and_store_daily_digest\<close> of
  \<open>common/audit.py\<close>. The hexadecimal SHA-256 digest of a string and the canonical JSON text of a row are
  parameters; what the chain relies on of them is \<open>digest_ok\<close>.
\<close>

section \<open>The chain\<close>

definition row_fingerprint :: "(string \<Rightarrow> string) \<Rightarrow> ('r \<Rightarrow> string) \<Rightarrow> string \<Rightarrow> 'r \<Rightarrow> string" where
  "row_fingerprint hash canon prev row = hash (prev @ ''|'' @ canon row)"

definition chain_digest :: "(string \<Rightarrow> string) \<Rightarrow> ('r \<Rightarrow> string) \<Rightarrow> 'r list \<Rightarrow> string option \<Rightarrow> string \<times> nat" where
  "chain_digest hash canon rows prev =
    foldl (\<lambda>(h, n) r. (row_fingerprint hash canon h r, n + 1)) (get_default prev [], 0) rows"

definition verify_chain :: "(string \<Rightarrow> string) \<Rightarrow> ('r \<Rightarrow> string) \<Rightarrow> 'r list \<Rightarrow> string \<Rightarrow> string option \<Rightarrow> bool" where
  "verify_chain hash canon rows expected prev \<longleftrightarrow> fst (chain_digest hash canon rows prev) = expected"

text \<open>The table of daily digests, by ascending day; a day's digest is seeded by the last one before it and
  replaces one already stored.\<close>

record digest_row =
  dg_day :: int
  dg_count :: nat
  dg_digest :: string
  dg_prev :: "string option"

definition prev_digest :: "int \<Rightarrow> digest_row list \<Rightarrow> string option" where
  "prev_digest day t = (case filter (\<lambda>r. dg_day r < day) t of [] \<Rightarrow> None
     | rs \<Rightarrow> Some (dg_digest (last (sort_key dg_day rs))))"

definition store_daily_digest :: "(string \<Rightarrow> string) \<Rightarrow> ('r \<Rightarrow> string) \<Rightarrow> int \<Rightarrow> 'r list \<Rightarrow> digest_row list \<Rightarrow> string \<times> digest_row list" where
  "store_daily_digest hash canon day rows t =
    (let prev = prev_digest day t;
         (d, n) = chain_digest hash canon rows prev;
         row = \<lparr>dg_day = day, dg_count = n, dg_digest = d, dg_prev = prev\<rparr>
     in (d, if list_ex (\<lambda>r. dg_day r = day) t then map (\<lambda>r. if dg_day r = day then row else r) t else t @ [row]))"

section \<open>What is relied on of the digest\<close>

text \<open>A hexadecimal digest is not empty and has no bar in it.\<close>

definition digest_ok :: "(string \<Rightarrow> string) \<Rightarrow> bool" where
  "digest_ok hash \<longleftrightarrow> (\<forall>s. hash s \<noteq> [] \<and> CHR ''|'' \<notin> set (hash s))"

text \<open>The texts a chain hashes, and two lists of texts that hold a collision.\<close>

fun chain_texts :: "(string \<Rightarrow> string) \<Rightarrow> ('r \<Rightarrow> string) \<Rightarrow> 'r list \<Rightarrow> string \<Rightarrow> string list" where
  "chain_texts hash canon [] h = []"
| "chain_texts hash canon (r # rs) h = (h @ ''|'' @ canon r) # chain_texts hash canon rs (row_fingerprint hash canon h r)"

definition collide :: "(string \<Rightarrow> string) \<Rightarrow> string list \<Rightarrow> string list \<Rightarrow> bool" where
  "collide hash ss ts \<longleftrightarrow> (\<exists>s\<in>set ss. \<exists>t\<in>set ts. s \<noteq> t \<and> hash s = hash t)"

lemma chain_digest_snoc:
  "chain_digest hash canon (rows @ [r]) prev = (case chain_digest hash canon rows prev of (h, n) \<Rightarrow> (row_fingerprint hash canon h r, n + 1))"
  by (simp add: chain_digest_def split: prod.split)

lemma chain_digest_Nil [simp]: "chain_digest hash canon [] prev = (get_default prev [], 0)"
  by (simp add: chain_digest_def)

lemma chain_count: "snd (chain_digest hash canon rows prev) = length rows"
  by (induction rows rule: rev_induct) (auto simp: chain_digest_snoc split: prod.splits)

lemma chain_bar_free:
  assumes "digest_ok hash" "CHR ''|'' \<notin> set (get_default prev [])"
  shows "CHR ''|'' \<notin> set (fst (chain_digest hash canon rows prev))"
  using assms by (cases rows rule: rev_cases) (auto simp: chain_digest_snoc digest_ok_def row_fingerprint_def split: prod.splits)

lemma split_at_bar:
  assumes "xs @ b # us = ys @ b # vs" "b \<notin> set xs" "b \<notin> set ys"
  shows "xs = ys \<and> us = vs"
  using assms
proof (induction xs arbitrary: ys)
  case Nil
  then show ?case by (cases ys) auto
next
  case (Cons x xs)
  then show ?case by (cases ys) auto
qed

lemma chain_texts_snoc:
  "chain_texts hash canon (rows @ [r]) (get_default prev []) =
    chain_texts hash canon rows (get_default prev []) @ [fst (chain_digest hash canon rows prev) @ ''|'' @ canon r]"
proof -
  have "chain_texts hash canon (rows @ [r]) h = chain_texts hash canon rows h
      @ [fst (foldl (\<lambda>(h, n) r. (row_fingerprint hash canon h r, n + 1)) (h, n) rows) @ ''|'' @ canon r]" for h and n :: nat
    by (induction rows arbitrary: h n) auto
  then show ?thesis by (simp add: chain_digest_def)
qed

text \<open>Equal digests from one seed: equal rows, a collision, or one list runs through the seed again.\<close>

lemma chain_digest_inj:
  assumes "digest_ok hash" "inj canon" "CHR ''|'' \<notin> set (get_default prev [])"
    "fst (chain_digest hash canon rows prev) = fst (chain_digest hash canon rows' prev)"
  shows "rows = rows' \<or> collide hash (chain_texts hash canon rows (get_default prev [])) (chain_texts hash canon rows' (get_default prev []))
    \<or> (\<exists>xs. xs \<noteq> [] \<and> fst (chain_digest hash canon xs prev) = get_default prev [])"
  using assms(4)
proof (induction rows arbitrary: rows' rule: rev_induct)
  case Nil
  then show ?case by (cases "rows' = []") auto
next
  case (snoc r rows)
  show ?case
  proof (cases rows' rule: rev_cases)
    case Nil
    with snoc.prems show ?thesis by (intro disjI2 exI [of _ "rows @ [r]"]) simp
  next
    case (snoc ss s)
    let ?d = "fst (chain_digest hash canon rows prev)" and ?e = "fst (chain_digest hash canon ss prev)"
    have eq: "hash (?d @ ''|'' @ canon r) = hash (?e @ ''|'' @ canon s)"
      using snoc.prems unfolding snoc by (simp add: chain_digest_snoc row_fingerprint_def split: prod.splits)
    show ?thesis
    proof (cases "?d @ ''|'' @ canon r = ?e @ ''|'' @ canon s")
      case True
      then have "?d @ CHR ''|'' # canon r = ?e @ CHR ''|'' # canon s" by simp
      from split_at_bar [OF this chain_bar_free [OF assms(1,3)] chain_bar_free [OF assms(1,3)]]
      have "?d = ?e" "r = s" using assms(2) by (simp_all add: inj_eq)
      from snoc.IH [OF this(1)] this(2) show ?thesis unfolding snoc chain_texts_snoc collide_def by auto
    next
      case False
      with eq show ?thesis unfolding snoc chain_texts_snoc collide_def by auto
    qed
  qed
qed

section \<open>Property\<close>

text \<open>C26. The chain is tamper-evident. If two logs verify against one digest from the start of the history, they
  are the same rows in the same order and number, or the texts the two chains hash contain a collision
  of the digest function; so any edit, reordering, insertion or deletion that goes undetected breaks it.\<close>
theorem chain_is_tamper_evident:
  assumes "digest_ok hash" "inj canon" "verify_chain hash canon rows d None" "verify_chain hash canon rows' d None"
  shows "rows' = rows \<and> snd (chain_digest hash canon rows' None) = length rows
    \<or> collide hash (chain_texts hash canon rows []) (chain_texts hash canon rows' [])"
proof -
  have "fst (chain_digest hash canon xs None) \<noteq> []" if "xs \<noteq> []" for xs
    using that assms(1) by (cases xs rule: rev_cases) (auto simp: chain_digest_snoc digest_ok_def row_fingerprint_def split: prod.splits)
  with chain_digest_inj [OF assms(1,2), of None rows rows'] assms(3,4) show ?thesis
    by (auto simp: verify_chain_def chain_count)
qed

text \<open>A digest function that meets what is relied on, and has no collision: the bits of every character.\<close>

definition bit_text :: "char \<Rightarrow> string" where
  "bit_text c = map (\<lambda>b. if b then CHR ''1'' else CHR ''0'')
     [digit0 c, digit1 c, digit2 c, digit3 c, digit4 c, digit5 c, digit6 c, digit7 c]"

definition demo_hash :: "string \<Rightarrow> string" where
  "demo_hash s = CHR ''h'' # concat (map bit_text s)"

lemma bit_text_inj: "bit_text c = bit_text d \<Longrightarrow> c = d"
  by (cases c; cases d) (auto simp: bit_text_def split: if_splits)

lemma demo_hash_ok: "digest_ok demo_hash" "inj demo_hash"
proof -
  have len: "length (bit_text c) = 8" for c by (simp add: bit_text_def)
  have inj: "concat (map bit_text s) = concat (map bit_text t) \<Longrightarrow> s = t" for s t
  proof (induction s arbitrary: t)
    case Nil
    then show ?case by (cases t) (auto simp: bit_text_def)
  next
    case (Cons c s)
    then obtain d u where t: "t = d # u" by (cases t) (auto simp: bit_text_def)
    from Cons.prems have "bit_text c = bit_text d \<and> concat (map bit_text s) = concat (map bit_text u)"
      unfolding t using len by (simp add: append_eq_append_conv)
    with Cons.IH bit_text_inj t show ?case by blast
  qed
  then show "inj demo_hash" by (auto intro!: injI simp: demo_hash_def)
  have "CHR ''|'' \<notin> set (demo_hash s)" for s
    by (auto simp: demo_hash_def bit_text_def)
  then show "digest_ok demo_hash" by (simp add: digest_ok_def demo_hash_def)
qed

lemma chain_is_tamper_evident_witness:
  "\<not> verify_chain demo_hash (\<lambda>s. s) [''b'', ''a''] (fst (chain_digest demo_hash (\<lambda>s. s) [''a'', ''b''] None)) None"
  using chain_is_tamper_evident [OF demo_hash_ok(1) inj_on_id2, of "[''a'', ''b'']"
      "fst (chain_digest demo_hash (\<lambda>s. s) [''a'', ''b''] None)" "[''b'', ''a'']"] demo_hash_ok(2)
  by (auto simp: verify_chain_def collide_def inj_eq)

end
