(* ===== verification/Rate_Governor.thy ===== *)
theory Rate_Governor
  imports Calendar
begin

text \<open>
  The central rate governor, \<open>data/rate_governor.py\<close>, and what \<open>common/compliance.py\<close> derives from its
  configuration. A coroutine that waits is driven by the readings of the monotonic clock it sees, one per
  round of its loop; a lock makes a round atomic, so the callers of one bucket are one sequence of rounds.
\<close>

section \<open>The token bucket\<close>

record token_bucket =
  tb_capacity :: real
  tb_rate :: real
  tb_tokens :: real
  tb_last :: real

definition new_bucket :: "real \<Rightarrow> real \<Rightarrow> real \<Rightarrow> token_bucket" where
  "new_bucket cap rate now = \<lparr>tb_capacity = cap, tb_rate = rate, tb_tokens = cap, tb_last = now\<rparr>"

definition refill :: "real \<Rightarrow> token_bucket \<Rightarrow> token_bucket" where
  "refill now b = b\<lparr>tb_tokens := min (tb_capacity b) (tb_tokens b + (now - tb_last b) * tb_rate b), tb_last := now\<rparr>"

text \<open>One round: refill, take or leave.\<close>

definition acquire_round :: "real \<Rightarrow> real \<Rightarrow> token_bucket \<Rightarrow> bool \<times> token_bucket" where
  "acquire_round n now b = (let b = refill now b in
     if n \<le> tb_tokens b then (True, b\<lparr>tb_tokens := tb_tokens b - n\<rparr>) else (False, b))"

definition acquire_wait :: "real \<Rightarrow> token_bucket \<Rightarrow> real" where
  "acquire_wait n b = (n - tb_tokens b) / tb_rate b"

datatype acquisition = Acquired | Still_Waiting | Acquire_Raised

text \<open>The loop over the readings it gets to see. The wait divides by the rate.\<close>

fun acquire :: "real \<Rightarrow> real list \<Rightarrow> token_bucket \<Rightarrow> acquisition \<times> token_bucket" where
  "acquire n [] b = (Still_Waiting, b)"
| "acquire n (now # rest) b = (case acquire_round n now b of
     (True, b') \<Rightarrow> (Acquired, b')
   | (False, b') \<Rightarrow> if tb_rate b' = 0 then (Acquire_Raised, b') else acquire n rest b')"

section \<open>The governor\<close>

record governor =
  gv_buckets :: "(string \<times> token_bucket) list"
  gv_minute_cap :: int
  gv_daily_cap :: int
  gv_alert_pct :: real
  gv_order_times :: "real list"
  gv_daily_count :: int
  gv_date :: "date option"
  gv_alerted :: bool

definition max_retries :: nat where
  "max_retries = 5"

definition bucket_of_class :: "string \<Rightarrow> governor \<Rightarrow> string" where
  "bucket_of_class ec g = (if map_of (gv_buckets g) ec = None then ''other'' else ec)"

definition roll_day :: "date \<Rightarrow> governor \<Rightarrow> governor" where
  "roll_day today g = (if gv_date g \<noteq> Some today
     then g\<lparr>gv_date := Some today, gv_daily_count := 0, gv_order_times := [], gv_alerted := False\<rparr> else g)"

text \<open>The guard, None when it passes; raising keeps the pruned times.\<close>

definition check_order_guard :: "date \<Rightarrow> real \<Rightarrow> governor \<Rightarrow> bool \<times> governor" where
  "check_order_guard today now g =
    (let g = roll_day today g;
         g = g\<lparr>gv_order_times := filter (\<lambda>t. now - t < 60) (gv_order_times g)\<rparr>
     in (gv_daily_count g < gv_daily_cap g \<and> int (length (gv_order_times g)) < gv_minute_cap g, g))"

definition record_order :: "real \<Rightarrow> governor \<Rightarrow> governor" where
  "record_order now g =
    (let g = g\<lparr>gv_daily_count := gv_daily_count g + 1, gv_order_times := gv_order_times g @ [now]\<rparr>
     in if of_int (gv_daily_count g) \<ge> of_int (gv_daily_cap g) * gv_alert_pct g / 100 \<and> \<not> gv_alerted g
        then g\<lparr>gv_alerted := True\<rparr> else g)"

datatype 'v reply = Reply_Ok 'v | Reply_Too_Many | Reply_Raised

datatype 'v call_result = Returned 'v | Raised | Blocked | Pending

definition backoff :: "nat \<Rightarrow> nat" where
  "backoff attempt = min (2 ^ attempt) 30"

text \<open>The retry loop: an attempt is the clock readings of its acquisition and the reply it got.\<close>

fun call_loop :: "string \<Rightarrow> real \<Rightarrow> nat \<Rightarrow> (real list \<times> 'v reply) list \<Rightarrow> governor \<Rightarrow> 'v call_result \<times> governor" where
  "call_loop ec done_at attempt [] g = (Pending, g)"
| "call_loop ec done_at attempt ((readings, r) # rest) g =
    (let name = bucket_of_class ec g in
     case map_of (gv_buckets g) name of None \<Rightarrow> (Raised, g)
     | Some b \<Rightarrow> (case acquire 1 readings b of
         (Still_Waiting, b') \<Rightarrow> (Pending, g\<lparr>gv_buckets := upsert name b' (gv_buckets g)\<rparr>)
       | (Acquire_Raised, b') \<Rightarrow> (Raised, g\<lparr>gv_buckets := upsert name b' (gv_buckets g)\<rparr>)
       | (Acquired, b') \<Rightarrow>
          let g = g\<lparr>gv_buckets := upsert name b' (gv_buckets g)\<rparr> in
          (case r of
             Reply_Ok v \<Rightarrow> (Returned v, if ec = ''order'' then record_order done_at g else g)
           | Reply_Raised \<Rightarrow> (Raised, g)
           | Reply_Too_Many \<Rightarrow> if max_retries < attempt + 1 then (Raised, g) else call_loop ec done_at (attempt + 1) rest g)))"

definition governor_call :: "string \<Rightarrow> date \<Rightarrow> real \<Rightarrow> real \<Rightarrow> (real list \<times> 'v reply) list \<Rightarrow> governor \<Rightarrow> 'v call_result \<times> governor" where
  "governor_call ec today now done_at attempts g =
    (if ec = ''order'' then
       (case check_order_guard today now g of (ok, g') \<Rightarrow>
          if ok then call_loop ec done_at 0 attempts g' else (Blocked, g'))
     else call_loop ec done_at 0 attempts g)"

section \<open>Compliance\<close>

text \<open>The keys of \<open>system.compliance\<close> and of \<open>data.rate_limits.order\<close> that the code reads.\<close>

record compliance =
  cp_algo_id :: "string option"
  cp_static_ip :: "string option"
  cp_protection :: "real option"
  cp_registered :: bool
  cp_order_capacity :: "real option"
  cp_order_rate :: "real option"

definition nonempty :: "string option \<Rightarrow> bool" where
  "nonempty s \<longleftrightarrow> s \<noteq> None \<and> s \<noteq> Some []"

definition order_tag :: "compliance \<Rightarrow> string option" where
  "order_tag c = (if nonempty (cp_algo_id c) then map_option (take 20) (cp_algo_id c) else None)"

definition market_protection :: "compliance \<Rightarrow> real" where
  "market_protection c = py_or (cp_protection c) 0"

definition order_ops_limit :: "compliance \<Rightarrow> real" where
  "order_ops_limit c = py_or (cp_order_rate c) 0"

definition max_retail_ops :: real where
  "max_retail_ops = 10"

record order_params =
  op_tag :: "string option"
  op_protection :: "real option"

definition live_order_params :: "compliance \<Rightarrow> string option \<Rightarrow> order_params" where
  "live_order_params c ty = \<lparr>op_tag = order_tag c,
     op_protection = (if (ty = Some ''MARKET'' \<or> ty = Some ''SL-M'') \<and> market_protection c > 0
       then Some (market_protection c) else None)\<rparr>"

datatype compliance_gap = Gap_Algo_Id | Gap_Static_Ip | Gap_Protection | Gap_Ops real

definition compliance_gaps :: "compliance \<Rightarrow> compliance_gap list" where
  "compliance_gaps c = (if nonempty (cp_algo_id c) then [] else [Gap_Algo_Id])
     @ (if nonempty (cp_static_ip c) then [] else [Gap_Static_Ip])
     @ (if market_protection c \<le> 0 then [Gap_Protection] else [])
     @ (let ops = order_ops_limit c in if (ops \<le> 0 \<or> max_retail_ops < ops) \<and> \<not> cp_registered c then [Gap_Ops ops] else [])"

text \<open>The order bucket the governor builds from the same configuration.\<close>

definition order_bucket :: "compliance \<Rightarrow> real \<Rightarrow> token_bucket" where
  "order_bucket c now = new_bucket (get_default (cp_order_capacity c) 8) (get_default (cp_order_rate c) 8) now"

definition new_governor :: "(string \<rightharpoonup> real option \<times> real option) \<Rightarrow> int option \<Rightarrow> int option \<Rightarrow> real option \<Rightarrow> real \<Rightarrow> governor" where
  "new_governor rl minute daily pct now =
    (let bucket = (\<lambda>name cap rate. case get_default (rl name) (None, None) of (c, r) \<Rightarrow>
           (name, new_bucket (get_default c cap) (get_default r rate) now))
     in \<lparr>gv_buckets = [bucket ''quote'' 1 1, bucket ''historical'' 3 3, bucket ''order'' 8 8, bucket ''other'' 8 8],
         gv_minute_cap = get_default minute 200, gv_daily_cap = get_default daily 3000, gv_alert_pct = get_default pct 80,
         gv_order_times = [], gv_daily_count = 0, gv_date = None, gv_alerted = False\<rparr>)"

section \<open>Sequences of rounds\<close>

text \<open>The rounds of all callers of a bucket, in the order the lock serves them.\<close>

fun rounds :: "real \<Rightarrow> real list \<Rightarrow> token_bucket \<Rightarrow> bool list \<times> token_bucket" where
  "rounds n [] b = ([], b)"
| "rounds n (t # ts) b = (case acquire_round n t b of (ok, b') \<Rightarrow> case rounds n ts b' of (oks, b'') \<Rightarrow> (ok # oks, b''))"

definition grants :: "bool list \<Rightarrow> real" where
  "grants oks = of_nat (length (filter (\<lambda>ok. ok) oks))"

lemma grants_simps [simp]: "grants [] = 0" "grants (ok # oks) = (if ok then 1 else 0) + grants oks"
  by (simp_all add: grants_def)

lemma acquire_round_facts:
  assumes "acquire_round n t b = (ok, b')" "0 \<le> tb_rate b" "tb_last b \<le> t"
  shows "n * (if ok then 1 else 0) + tb_tokens b' \<le> tb_tokens b + tb_rate b * (t - tb_last b)"
    "tb_last b' = t" "tb_rate b' = tb_rate b" "tb_capacity b' = tb_capacity b"
    "0 \<le> n \<Longrightarrow> tb_tokens b' \<le> tb_capacity b" "0 \<le> tb_tokens b \<Longrightarrow> 0 \<le> tb_capacity b \<Longrightarrow> 0 \<le> tb_tokens b'"
proof -
  have "0 \<le> (t - tb_last b) * tb_rate b" using assms(2,3) by simp
  then show "n * (if ok then 1 else 0) + tb_tokens b' \<le> tb_tokens b + tb_rate b * (t - tb_last b)"
    "tb_last b' = t" "tb_rate b' = tb_rate b" "tb_capacity b' = tb_capacity b"
    "0 \<le> n \<Longrightarrow> tb_tokens b' \<le> tb_capacity b" "0 \<le> tb_tokens b \<Longrightarrow> 0 \<le> tb_capacity b \<Longrightarrow> 0 \<le> tb_tokens b'"
    using assms(1) by (auto simp: acquire_round_def refill_def Let_def mult.commute [of "tb_rate b"] split: if_splits)
qed

lemma rounds_spent:
  assumes "rounds n ts b = (oks, b')" "0 \<le> tb_rate b" "sorted (tb_last b # ts)"
  shows "n * grants oks + tb_tokens b' \<le> tb_tokens b + tb_rate b * (last (tb_last b # ts) - tb_last b)
    \<and> (0 \<le> tb_tokens b \<longrightarrow> 0 \<le> tb_capacity b \<longrightarrow> 0 \<le> tb_tokens b')
    \<and> tb_rate b' = tb_rate b \<and> tb_capacity b' = tb_capacity b \<and> tb_last b' = last (tb_last b # ts)"
  using assms
proof (induction ts arbitrary: b oks)
  case (Cons t ts)
  obtain ok b1 oks1 where s: "acquire_round n t b = (ok, b1)" "rounds n ts b1 = (oks1, b')" "oks = ok # oks1"
    using Cons.prems(1) by (auto split: prod.splits)
  note f = acquire_round_facts [OF s(1) Cons.prems(2)]
  have "sorted (tb_last b1 # ts)" "0 \<le> tb_rate b1" using Cons.prems f by auto
  from Cons.IH [OF s(2) this(2,1)] f Cons.prems(3) show ?case
    by (auto simp: s(3) algebra_simps)
qed simp

lemma refill_again: "tb_tokens (refill t b) \<le> tb_capacity b \<Longrightarrow> refill t (refill t b) = refill t b"
  by (simp add: refill_def)

lemma rounds_append: "rounds n (ts @ us) b = (case rounds n ts b of (oks, b') \<Rightarrow> case rounds n us b' of (oks', b'') \<Rightarrow> (oks @ oks', b''))"
  by (induction ts arbitrary: b) (auto split: prod.splits)

section \<open>The daily order count\<close>

text \<open>Calls of several coroutines interleave: the guard is checked when a call starts, the count raised when
  it returns; in between the call is in flight.\<close>

inductive gov_step :: "nat \<Rightarrow> governor \<times> nat \<Rightarrow> governor \<times> nat \<Rightarrow> bool" for k where
  start: "check_order_guard d t g = (True, g') \<Longrightarrow> f < k \<Longrightarrow> gov_step k (g, f) (g', Suc f)"
| blocked: "check_order_guard d t g = (False, g') \<Longrightarrow> gov_step k (g, f) (g', f)"
| recorded: "gov_step k (g, Suc f) (record_order t g, f)"
| failed: "gov_step k (g, Suc f) (g, f)"

inductive_cases gov_stepE: "gov_step k s s'"

lemma check_order_guard_facts:
  "check_order_guard d t g = (ok, g') \<Longrightarrow> gv_daily_cap g' = gv_daily_cap g
    \<and> (gv_daily_count g' = gv_daily_count g \<or> gv_daily_count g' = 0) \<and> (ok \<longrightarrow> gv_daily_count g' < gv_daily_cap g)"
  by (auto simp: check_order_guard_def roll_day_def Let_def)

lemma record_order_facts: "gv_daily_cap (record_order t g) = gv_daily_cap g" "gv_daily_count (record_order t g) = gv_daily_count g + 1"
  by (simp_all add: record_order_def Let_def)

definition count_ok :: "nat \<Rightarrow> int \<Rightarrow> governor \<times> nat \<Rightarrow> bool" where
  "count_ok k cap s \<longleftrightarrow> (case s of (g, f) \<Rightarrow> gv_daily_cap g = cap \<and> f \<le> k \<and> 0 \<le> gv_daily_count g
     \<and> gv_daily_count g + int f \<le> cap - 1 + int k)"

lemma gov_step_ok:
  assumes "gov_step k s s'" "count_ok k cap s" "1 \<le> cap"
  shows "count_ok k cap s'"
  using assms by (cases rule: gov_step.cases)
    (auto simp: count_ok_def record_order_facts dest!: check_order_guard_facts)

section \<open>Properties\<close>

text \<open>C25. The bucket bounds the rate over every window. Whoever calls and however the readings of the clock fall,
  the tokens granted in any stretch of consecutive rounds are at most the capacity plus the refill rate
  times the length of the stretch.\<close>
theorem bucket_bounds_every_window:
  assumes "sorted (now # pre @ w # win)" "0 \<le> rate" "0 \<le> cap" "0 \<le> n"
    and "rounds n (pre @ w # win) (new_bucket cap rate now) = (oks, b')"
  shows "n * grants (drop (length pre) oks) \<le> cap + rate * (last (w # win) - w)"
proof -
  obtain oks1 b1 oks2 where r: "rounds n pre (new_bucket cap rate now) = (oks1, b1)" "rounds n (w # win) b1 = (oks2, b')" "oks = oks1 @ oks2"
    using assms(5) by (auto simp: rounds_append split: prod.splits)
  have len: "rounds n ts b = (os, b2) \<Longrightarrow> length os = length ts" for ts b os b2
    by (induction ts arbitrary: b os) (auto split: prod.splits)
  have "sorted (tb_last (new_bucket cap rate now) # pre)" "0 \<le> tb_rate (new_bucket cap rate now)"
    using assms(1,2) by (auto simp: new_bucket_def sorted_append)
  note p = rounds_spent [OF r(1) this(2,1)]
  have last: "tb_last b1 \<le> w" using p assms(1) by (auto simp: new_bucket_def sorted_append)
  let ?b = "refill w b1"
  have b: "tb_tokens ?b \<le> cap" "0 \<le> tb_tokens ?b" "tb_last ?b = w" "tb_rate ?b = rate" "tb_capacity ?b = cap"
    using p assms(2,3) last by (auto simp: new_bucket_def refill_def)
  have "acquire_round n w ?b = acquire_round n w b1"
    using b(1,5) refill_again [of w b1] by (simp add: acquire_round_def refill_def)
  then have "rounds n (w # win) ?b = (oks2, b')" using r(2) by simp
  from rounds_spent [OF this] b assms(1,2,3) have "n * grants oks2 + tb_tokens b' \<le> tb_tokens ?b + rate * (last (w # win) - w)" "0 \<le> tb_tokens b'"
    by (auto simp: sorted_append)
  with b(1) show ?thesis using len [OF r(1)] by (simp add: r(3))
qed

lemma bucket_bounds_every_window_witness:
  "grants (drop 1 (fst (rounds 1 [0, 1, 1, 1, 2] (new_bucket 2 1 0)))) \<le> 2 + 1 * (2 - 1)"
proof -
  obtain oks b where r: "rounds 1 ([0] @ 1 # [1, 1, 2]) (new_bucket 2 1 0) = (oks, b)" by fastforce
  from bucket_bounds_every_window [OF _ _ _ _ r] show ?thesis using r by simp
qed

text \<open>The configured rate is not the rate the exchange sees. The pre-live check compares the refill rate with
  the limit of ten orders a second and accepts the shipped eight; the bucket also grants its capacity at
  once, so fifteen orders pass within one second.\<close>
theorem accepted_rate_exceeds_the_limit:
  assumes "cp_order_capacity c = Some 8" "cp_order_rate c = Some 8"
  shows "(\<forall>ops. Gap_Ops ops \<notin> set (compliance_gaps c))
    \<and> (let ts = replicate 8 0 @ [1 / 8, 2 / 8, 3 / 8, 4 / 8, 5 / 8, 6 / 8, 7 / 8] in
         (\<forall>t\<in>set ts. 0 \<le> t \<and> t < 1) \<and> grants (fst (rounds 1 ts (order_bucket c 0))) > max_retail_ops)"
proof -
  have "order_bucket c 0 = new_bucket 8 8 0" using assms by (simp add: order_bucket_def)
  then have "grants (fst (rounds 1 (replicate 8 0 @ [1 / 8, 2 / 8, 3 / 8, 4 / 8, 5 / 8, 6 / 8, 7 / 8]) (order_bucket c 0))) = 15"
    by (simp add: new_bucket_def acquire_round_def refill_def Let_def numeral_eq_Suc)
  moreover have "Gap_Ops ops \<notin> set (compliance_gaps c)" for ops
    using assms by (simp add: compliance_gaps_def order_ops_limit_def max_retail_ops_def Let_def)
  ultimately show ?thesis by (simp add: max_retail_ops_def Let_def)
qed

lemma accepted_rate_exceeds_the_limit_witness:
  "compliance_gaps \<lparr>cp_algo_id = Some ''A1'', cp_static_ip = Some ''10.0.0.1'', cp_protection = Some 1, cp_registered = False,
      cp_order_capacity = Some 8, cp_order_rate = Some 8\<rparr> = []
   \<and> (\<exists>ts. grants (fst (rounds 1 ts (new_bucket 8 8 0))) > 10)"
proof -
  let ?c = "\<lparr>cp_algo_id = Some ''A1'', cp_static_ip = Some ''10.0.0.1'', cp_protection = Some 1, cp_registered = False,
      cp_order_capacity = Some 8, cp_order_rate = Some (8::real)\<rparr>"
  have "compliance_gaps ?c = []"
    by (simp add: compliance_gaps_def nonempty_def market_protection_def order_ops_limit_def max_retail_ops_def Let_def)
  moreover have "order_bucket ?c 0 = new_bucket 8 8 0" by (simp add: order_bucket_def)
  ultimately show ?thesis using accepted_rate_exceeds_the_limit [of ?c] unfolding Let_def max_retail_ops_def by auto
qed

text \<open>The daily cap holds up to the calls in flight. However the calls interleave, with at most \<open>k\<close> of them in
  flight at once the recorded orders of a day never exceed the cap by more than \<open>k - 1\<close>; one caller at a
  time never exceeds it.\<close>
theorem daily_cap_holds_up_to_in_flight:
  assumes "(gov_step k)\<^sup>*\<^sup>* (new_governor rl minute daily pct now, 0) (g, f)" "1 \<le> get_default daily 3000" "1 \<le> k"
  shows "gv_daily_count g + int f \<le> get_default daily 3000 + int k - 1"
proof -
  let ?cap = "get_default daily 3000"
  have "count_ok k ?cap (new_governor rl minute daily pct now, 0)"
    using assms(2,3) by (simp add: count_ok_def new_governor_def Let_def)
  with assms(1) have "count_ok k ?cap (g, f)"
    by (induction rule: rtranclp_induct) (auto intro: gov_step_ok [OF _ _ assms(2)])
  then show ?thesis by (simp add: count_ok_def)
qed

lemma daily_cap_holds_up_to_in_flight_witness:
  "gv_daily_count (fst (record_order 1 (snd (check_order_guard 739000 1 (new_governor Map.empty None (Some 1) None 0))), 0::nat)) \<le> 1"
proof -
  let ?g = "new_governor Map.empty None (Some 1) None 0"
  have "check_order_guard 739000 1 ?g = (True, snd (check_order_guard 739000 1 ?g))"
    by (simp add: check_order_guard_def roll_day_def new_governor_def Let_def)
  from gov_step.start [OF this, of 0 1] gov_step.recorded [of 1 "snd (check_order_guard 739000 1 ?g)" 0 1]
  have "(gov_step 1)\<^sup>*\<^sup>* (?g, 0) (record_order 1 (snd (check_order_guard 739000 1 ?g)), 0)"
    by (meson converse_rtranclp_into_rtranclp r_into_rtranclp zero_less_one)
  from daily_cap_holds_up_to_in_flight [OF this] show ?thesis by simp
qed

text \<open>A caller waits once or for ever. Undisturbed, and if its sleep lasts as long as computed, the second round
  grants what the first one could not, whenever the bucket can hold that much; a bucket whose capacity
  is below the tokens asked for never grants them, however often the loop runs.\<close>
theorem caller_waits_once_or_for_ever:
  assumes "0 < tb_rate b" "t + acquire_wait n (refill t b) \<le> t'"
  shows "if n \<le> tb_capacity b then fst (acquire n [t, t'] b) = Acquired else (\<forall>ts. fst (acquire n ts b) \<noteq> Acquired)"
proof (cases "n \<le> tb_capacity b")
  case True
  let ?b = "refill t b"
  have b: "tb_rate ?b = tb_rate b" "tb_last ?b = t" "tb_capacity ?b = tb_capacity b" by (simp_all add: refill_def)
  show ?thesis
  proof (cases "n \<le> tb_tokens ?b")
    case True
    with \<open>n \<le> tb_capacity b\<close> show ?thesis by (simp add: acquire_round_def Let_def)
  next
    case False
    have "n - tb_tokens ?b \<le> (t' - t) * tb_rate b"
      using assms by (simp add: acquire_wait_def b field_simps)
    then have "n \<le> tb_tokens (refill t' ?b)" using True b by (simp add: refill_def [of t'])
    with False True assms(1) show ?thesis by (simp add: acquire_round_def Let_def b)
  qed
next
  case False
  have cap: "acquire_round n t b = (ok, b') \<Longrightarrow> \<not> ok \<and> tb_capacity b' = tb_capacity b" if "tb_capacity b < n" for t b ok b'
    using that by (auto simp: acquire_round_def refill_def Let_def split: if_splits)
  have "fst (acquire n ts b) \<noteq> Acquired" if "tb_capacity b < n" for ts b
    using that
  proof (induction ts arbitrary: b)
    case (Cons t ts)
    obtain ok b' where r: "acquire_round n t b = (ok, b')" by fastforce
    from cap [OF Cons.prems r] Cons show ?case by (simp add: r)
  qed simp
  with False show ?thesis by simp
qed

lemma caller_waits_once_or_for_ever_witness:
  "fst (acquire 1 [0, 1] \<lparr>tb_capacity = 2, tb_rate = 1, tb_tokens = 0, tb_last = 0\<rparr>) = Acquired"
  using caller_waits_once_or_for_ever [of "\<lparr>tb_capacity = 2, tb_rate = 1, tb_tokens = 0, tb_last = 0\<rparr>" 0 1 1]
  by (simp add: acquire_wait_def refill_def)

end
