(* ===== verification/Prelive.thy ===== *)
theory Prelive
  imports Rate_Governor Runtime_Mode Commands
begin

text \<open>
  The checks before going live: the runner of \<open>common/prelive.py\<close>, the sixteen probes of
  \<open>api/prelive_checks.py\<close>, the policy of \<open>common/secrets.py\<close> on stored tokens, and the operational
  readiness tiles of \<open>api/readiness.py\<close>. What a probe reads of the broker, the database and the clock is a
  field of \<open>probe_env\<close>, None where reading it raises; details and evidence are texts and left out.
\<close>

section \<open>The runner\<close>

datatype raw_check = Raw_Result string | Raw_Bool bool | Raw_Tuple string | Raw_Other | Raw_Exception

definition coerce :: "raw_check \<Rightarrow> string" where
  "coerce r = (case r of Raw_Result s \<Rightarrow> s | Raw_Bool b \<Rightarrow> (if b then ''pass'' else ''fail'') | Raw_Tuple s \<Rightarrow> s
     | Raw_Other \<Rightarrow> ''fail'' | Raw_Exception \<Rightarrow> ''fail'')"

record prelive_run =
  pv_overall :: string
  pv_checks :: "(string \<times> string) list"
  pv_failed :: "string list"
  pv_warned :: "string list"

definition run_all :: "(string \<times> raw_check) list \<Rightarrow> prelive_run" where
  "run_all checks =
    (let cs = map (\<lambda>(n, r). (n, coerce r)) checks
     in \<lparr>pv_overall = (if list_all (\<lambda>(n, s). s = ''pass'' \<or> s = ''warn'') cs then ''pass'' else ''fail''), pv_checks = cs,
         pv_failed = map fst (filter (\<lambda>(n, s). s = ''fail'') cs), pv_warned = map fst (filter (\<lambda>(n, s). s = ''warn'') cs)\<rparr>)"

text \<open>The run as the transition gate reads it.\<close>

definition prelive_of_run :: "prelive_run \<Rightarrow> prelive_result" where
  "prelive_of_run r = Res_Checks (map (\<lambda>(n, s). (Some n, s)) (pv_checks r))"

section \<open>The probes\<close>

record probe_env =
  pe_adapter :: bool
  pe_env_name :: "string option"
  pe_encryption_key :: bool
  pe_token_age :: "real option"
  pe_margins :: bool
  pe_now :: tod
  pe_window :: "tod \<times> tod"
  pe_tick_age :: "real option"
  pe_order_total :: "real option"
  pe_open_live :: "int option"
  pe_positions :: "int list option"
  pe_smtp :: bool
  pe_redis :: "bool option"
  pe_migrations :: "int option"
  pe_daily_max_loss :: real
  pe_portfolio_limit :: real
  pe_kill_switch :: bool
  pe_missing_packages :: nat
  pe_compliance :: compliance

definition verdict_of :: "bool \<Rightarrow> string \<Rightarrow> string \<Rightarrow> raw_check" where
  "verdict_of b yes no = Raw_Tuple (if b then yes else no)"

text \<open>\<open>token_security_ok\<close>; the name is stripped of spaces.\<close>

definition strip_spaces :: "string \<Rightarrow> string" where
  "strip_spaces s = rev (dropWhile (\<lambda>c. c = CHR '' '') (rev (dropWhile (\<lambda>c. c = CHR '' '') s)))"

definition token_security_ok :: "string option \<Rightarrow> bool \<Rightarrow> bool" where
  "token_security_ok env key =
    (let e = py_lower (strip_spaces (if nonempty env then the env else ''dev''))
     in e = ''dev'' \<or> e = ''local'' \<or> e = ''test'' \<or> key)"

definition probe_broker_token :: "probe_env \<Rightarrow> raw_check" where
  "probe_broker_token e = verdict_of (pe_adapter e) ''pass'' ''fail''"

definition probe_token_security :: "probe_env \<Rightarrow> raw_check" where
  "probe_token_security e = Raw_Tuple (if \<not> token_security_ok (pe_env_name e) (pe_encryption_key e) then ''fail''
     else case pe_token_age e of None \<Rightarrow> ''warn'' | Some age \<Rightarrow> if age > 86400 then ''warn'' else ''pass'')"

definition probe_broker_reachable :: "probe_env \<Rightarrow> raw_check" where
  "probe_broker_reachable e = (if \<not> pe_adapter e then Raw_Tuple ''fail'' else if pe_margins e then Raw_Tuple ''pass'' else Raw_Exception)"

definition in_session :: "probe_env \<Rightarrow> bool" where
  "in_session e = is_within (fst (pe_window e)) (snd (pe_window e)) (pe_now e)"

definition probe_market_data_feed :: "probe_env \<Rightarrow> raw_check" where
  "probe_market_data_feed e = Raw_Tuple (case pe_tick_age e of
     None \<Rightarrow> if in_session e then ''fail'' else ''warn''
   | Some age \<Rightarrow> if \<not> in_session e then ''warn'' else if age < 30 then ''pass'' else ''fail'')"

definition probe_order_dry_run :: "probe_env \<Rightarrow> raw_check" where
  "probe_order_dry_run e = (if \<not> pe_adapter e then Raw_Tuple ''fail''
     else case pe_order_total e of None \<Rightarrow> Raw_Exception | Some t \<Rightarrow> verdict_of (t > 0) ''pass'' ''warn'')"

definition probe_positions_reconcile :: "probe_env \<Rightarrow> raw_check" where
  "probe_positions_reconcile e = (case pe_open_live e of None \<Rightarrow> Raw_Exception | Some db \<Rightarrow>
     if \<not> pe_adapter e then Raw_Tuple ''fail''
     else case pe_positions e of None \<Rightarrow> Raw_Exception
     | Some ps \<Rightarrow> verdict_of (int (length (filter (\<lambda>q. q \<noteq> 0) ps)) = db) ''pass'' ''fail'')"

definition probe_no_stale_live :: "probe_env \<Rightarrow> raw_check" where
  "probe_no_stale_live e = (case pe_open_live e of None \<Rightarrow> Raw_Exception | Some n \<Rightarrow> verdict_of (n = 0) ''pass'' ''warn'')"

definition probe_alerts :: "probe_env \<Rightarrow> raw_check" where
  "probe_alerts e = verdict_of (pe_smtp e) ''pass'' ''warn''"

definition probe_redis :: "probe_env \<Rightarrow> raw_check" where
  "probe_redis e = (case pe_redis e of None \<Rightarrow> Raw_Exception | Some b \<Rightarrow> verdict_of b ''pass'' ''fail'')"

definition probe_migrations :: "probe_env \<Rightarrow> raw_check" where
  "probe_migrations e = (case pe_migrations e of None \<Rightarrow> Raw_Exception | Some n \<Rightarrow> verdict_of (n > 0) ''pass'' ''fail'')"

definition probe_risk_caps :: "probe_env \<Rightarrow> raw_check" where
  "probe_risk_caps e = verdict_of (pe_daily_max_loss e > 0 \<and> pe_portfolio_limit e > 0) ''pass'' ''fail''"

definition probe_kill_switch :: "probe_env \<Rightarrow> raw_check" where
  "probe_kill_switch e = verdict_of (\<not> pe_kill_switch e) ''pass'' ''fail''"

definition probe_clock :: "probe_env \<Rightarrow> raw_check" where
  "probe_clock e = Raw_Tuple ''pass''"

definition probe_holiday_calendar :: "probe_env \<Rightarrow> raw_check" where
  "probe_holiday_calendar e = Raw_Tuple ''pass''"

definition probe_dependencies :: "probe_env \<Rightarrow> raw_check" where
  "probe_dependencies e = verdict_of (pe_missing_packages e = 0) ''pass'' ''warn''"

definition probe_compliance :: "probe_env \<Rightarrow> raw_check" where
  "probe_compliance e = verdict_of (compliance_gaps (pe_compliance e) = []) ''pass'' ''fail''"

definition probes :: "probe_env \<Rightarrow> (string \<times> raw_check) list" where
  "probes e =
    [(''broker_token'', probe_broker_token e), (''token_security'', probe_token_security e),
     (''broker_reachable'', probe_broker_reachable e), (''market_data_feed'', probe_market_data_feed e),
     (''order_dry_run'', probe_order_dry_run e), (''positions_reconcile'', probe_positions_reconcile e),
     (''no_stale_live_positions'', probe_no_stale_live e), (''alerts_configured'', probe_alerts e),
     (''redis_healthy'', probe_redis e), (''db_migrations'', probe_migrations e), (''risk_caps_loaded'', probe_risk_caps e),
     (''kill_switch_ready'', probe_kill_switch e), (''clock'', probe_clock e), (''holiday_calendar'', probe_holiday_calendar e),
     (''dependency_versions'', probe_dependencies e), (''sebi_compliance'', probe_compliance e)]"

definition prelive_service :: "probe_env \<Rightarrow> prelive_run" where
  "prelive_service e = run_all (probes e)"

section \<open>Readiness tiles\<close>

text \<open>The texts the command table stores, and those the tile asks for.\<close>

definition cmd_status_text :: "cmd_status \<Rightarrow> string" where
  "cmd_status_text s = (case s of CREATED \<Rightarrow> ''CREATED'' | CLAIMED \<Rightarrow> ''CLAIMED'' | EXECUTING \<Rightarrow> ''EXECUTING'' | SUCCEEDED \<Rightarrow> ''SUCCEEDED''
     | FAILED \<Rightarrow> ''FAILED'' | RETRYING \<Rightarrow> ''RETRYING'' | DEAD_LETTER \<Rightarrow> ''DEAD_LETTER'')"

definition tile_pending_commands :: "cmd_queue option \<Rightarrow> string" where
  "tile_pending_commands q = (case q of None \<Rightarrow> ''warn''
     | Some q \<Rightarrow> if filter (\<lambda>r. cmd_status_text (cm_status r) = ''pending'' \<or> cmd_status_text (cm_status r) = ''claimed'') (cq_rows q) = []
         then ''ok'' else ''warn'')"

definition tile_open_positions :: "int option \<Rightarrow> string" where
  "tile_open_positions n = (if n = None then ''warn'' else ''ok'')"

definition tile_entry_block :: "config_state \<Rightarrow> string" where
  "tile_entry_block st = (if state_flag ''kill_switch_active'' st then ''down''
     else if state_flag ''block_new_entries'' st then ''warn'' else ''ok'')"

definition tile_data_feed :: "config_state \<Rightarrow> string" where
  "tile_data_feed st = (if get_state st ''runtime_mode'' (JStr PAPER) = JStr LIVE then ''ok'' else ''warn'')"

definition tile_last_backup :: string where
  "tile_last_backup = ''warn''"

definition overall_ready :: "string list \<Rightarrow> string" where
  "overall_ready ss = (if ss = [] then ''warn'' else if List.member ss ''down'' then ''fail''
     else if list_all (\<lambda>s. s = ''ok'') ss then ''pass'' else ''warn'')"

definition readiness_tiles :: "cmd_queue option \<Rightarrow> int option \<Rightarrow> config_state \<Rightarrow> string list" where
  "readiness_tiles q n st = [tile_pending_commands q, tile_open_positions n, tile_entry_block st, tile_data_feed st, tile_last_backup]"

definition readiness_summary :: "cmd_queue option \<Rightarrow> int option \<Rightarrow> config_state \<Rightarrow> string \<times> string list" where
  "readiness_summary q n st = (overall_ready (readiness_tiles q n st), readiness_tiles q n st)"

section \<open>What a passing run shows\<close>

lemma failed_checks_run:
  "failed_checks (prelive_of_run (run_all cs)) = [] \<longleftrightarrow> (\<forall>(n, r)\<in>set cs. coerce r = ''pass'' \<or> coerce r = ''warn'')"
  by (auto simp: prelive_of_run_def run_all_def Let_def filter_empty_conv)

lemma run_all_overall: "pv_overall (run_all cs) = ''pass'' \<longleftrightarrow> failed_checks (prelive_of_run (run_all cs)) = []"
  unfolding failed_checks_run by (auto simp: run_all_def Let_def list_all_iff)

lemma coerce_verdict [simp]:
  "coerce (verdict_of b yes no) = (if b then yes else no)" "coerce (Raw_Tuple s) = s" "coerce Raw_Exception = ''fail''"
  by (simp_all add: verdict_of_def coerce_def)

text \<open>What the probes must have read for none of them to fail.\<close>

definition fit_to_trade :: "probe_env \<Rightarrow> bool" where
  "fit_to_trade e \<longleftrightarrow> pe_adapter e \<and> token_security_ok (pe_env_name e) (pe_encryption_key e) \<and> pe_margins e
     \<and> (in_session e \<longrightarrow> (case pe_tick_age e of Some age \<Rightarrow> age < 30 | None \<Rightarrow> False)) \<and> pe_order_total e \<noteq> None
     \<and> (case pe_positions e of Some ps \<Rightarrow> pe_open_live e = Some (int (length (filter (\<lambda>q. q \<noteq> 0) ps))) | None \<Rightarrow> False)
     \<and> pe_redis e = Some True \<and> (case pe_migrations e of Some n \<Rightarrow> n > 0 | None \<Rightarrow> False)
     \<and> pe_daily_max_loss e > 0 \<and> pe_portfolio_limit e > 0 \<and> \<not> pe_kill_switch e \<and> compliance_gaps (pe_compliance e) = []"

lemma prelive_passes_iff: "failed_checks (prelive_of_run (prelive_service e)) = [] \<longleftrightarrow> fit_to_trade e"
  unfolding prelive_service_def failed_checks_run probes_def fit_to_trade_def
  by (auto simp: probe_broker_token_def probe_token_security_def probe_broker_reachable_def probe_market_data_feed_def
      probe_order_dry_run_def probe_positions_reconcile_def probe_no_stale_live_def probe_alerts_def probe_redis_def
      probe_migrations_def probe_risk_caps_def probe_kill_switch_def probe_clock_def probe_holiday_calendar_def
      probe_dependencies_def probe_compliance_def split: option.splits if_splits)

section \<open>Property\<close>

text \<open>The readiness summary cannot see what it reports. The tile of pending commands is ok whatever the queue
  holds, because the statuses it asks for are not the ones the table stores; the feed tile never is ok
  once the mode was written, because the stored mode is an object and not a text; and the summary never
  passes.\<close>
theorem readiness_is_blind:
  "tile_pending_commands (Some q) = ''ok''
   \<and> tile_data_feed (fst (write_runtime_mode now s who st)) = ''warn''
   \<and> fst (readiness_summary q' n st') \<noteq> ''pass''"
proof -
  have "filter (\<lambda>r. cmd_status_text (cm_status r) = ''pending'' \<or> cmd_status_text (cm_status r) = ''claimed'') (cq_rows q) = []"
    by (auto simp: filter_empty_conv cmd_status_text_def split: cmd_status.splits)
  moreover have "tile_data_feed (fst (write_runtime_mode now s who st)) = ''warn''"
    by (simp add: tile_data_feed_def write_runtime_mode_def Let_def get_state_def set_state_def)
  ultimately show ?thesis
    by (simp add: tile_pending_commands_def readiness_summary_def readiness_tiles_def overall_ready_def tile_last_backup_def)
qed

end
