(* ===== verification/Control_Api.thy ===== *)
theory Control_Api
  imports Prelive
begin

text \<open>
  The control plane of the dashboard: scoped bearer tokens and the sliding-window limiter of
  \<open>api/auth.py\<close>, and the routes of \<open>api/routes.py\<close> that change something (pause, flatten, sleeve, mode,
  kill switch reset, close, modify, configuration edit). A route runs its dependencies in the order listed,
  the scope first and the limiter second, then its own confirmation, then its writes. The audit log
  keeps the event types; published events are left out.
\<close>

section \<open>Tokens and scopes\<close>

definition READ_SCOPE :: int where "READ_SCOPE = 1"
definition OPERATOR :: int where "OPERATOR = 2"
definition TRADER :: int where "TRADER = 3"
definition ADMIN :: int where "ADMIN = 4"

lemmas scope_defs = READ_SCOPE_def OPERATOR_def TRADER_def ADMIN_def

record token_settings =
  api_token_readonly :: string
  api_token_operator :: string
  api_token_trader :: string
  api_token_admin :: string
  api_auth_token :: string

text \<open>The dictionary as the list of its assignments; a later one wins.\<close>

definition configured_tokens :: "token_settings \<Rightarrow> (string \<times> int) list" where
  "configured_tokens s = filter (\<lambda>(k, l). k \<noteq> [])
    [(api_token_readonly s, READ_SCOPE), (api_token_operator s, OPERATOR), (api_token_trader s, TRADER),
     (api_token_admin s, ADMIN), (api_auth_token s, ADMIN)]"

definition auth_enabled :: "token_settings \<Rightarrow> bool" where
  "auth_enabled s = (configured_tokens s \<noteq> [])"

definition bearer :: "string option \<Rightarrow> string option" where
  "bearer h = (case h of None \<Rightarrow> None | Some a \<Rightarrow> if starts_with a ''Bearer '' then Some (drop 7 a) else None)"

definition level_for :: "string option \<Rightarrow> (string \<times> int) list \<Rightarrow> int" where
  "level_for t tokens = (case t of None \<Rightarrow> 0
     | Some k \<Rightarrow> if k = [] then 0 else case map_of (rev tokens) k of None \<Rightarrow> 0 | Some l \<Rightarrow> l)"

datatype http_error = Unauthorized | Forbidden int | Too_Many | Not_Confirmed | Rejected "transition_reason list" | Bad_Config

definition require_scope :: "int \<Rightarrow> token_settings \<Rightarrow> string option \<Rightarrow> http_error option" where
  "require_scope min_level s header =
    (let tokens = configured_tokens s; lvl = level_for (bearer header) tokens
     in if tokens = [] then None else if lvl \<le> 0 then Some Unauthorized
        else if lvl < min_level then Some (Forbidden min_level) else None)"

fun split_commas :: "string \<Rightarrow> string \<Rightarrow> string list" where
  "split_commas [] acc = [rev acc]"
| "split_commas (c # cs) acc = (if c = CHR '','' then rev acc # split_commas cs [] else split_commas cs (c # acc))"

definition ws_token_from :: "string option \<Rightarrow> string option \<Rightarrow> string option \<Rightarrow> string option \<times> string" where
  "ws_token_from authorization protocol query =
    (case bearer authorization of
       Some (c # cs) \<Rightarrow> (Some (c # cs), ''header'')
     | _ \<Rightarrow> (case filter (\<lambda>p. p \<noteq> []) (map strip_spaces (split_commas (get_default protocol []) [])) of
         p # t # _ \<Rightarrow> if p = ''bearer'' then (Some t, ''subprotocol'')
                      else if nonempty query then (query, ''query'') else (None, ''none'')
       | _ \<Rightarrow> if nonempty query then (query, ''query'') else (None, ''none'')))"

section \<open>The sliding window\<close>

definition rate_ok :: "nat \<Rightarrow> real \<Rightarrow> real \<Rightarrow> real list \<Rightarrow> bool \<times> real list" where
  "rate_ok max_calls per t q =
    (let q' = dropWhile (\<lambda>x. x < t - per) q in if length q' \<ge> max_calls then (False, q') else (True, q' @ [t]))"

text \<open>The calls a limiter lets through, in order, and the bucket it is left with.\<close>

fun rate_run :: "nat \<Rightarrow> real \<Rightarrow> real list \<Rightarrow> real list \<Rightarrow> real list \<times> real list" where
  "rate_run n per [] q = ([], q)"
| "rate_run n per (t # ts) q =
    (case rate_ok n per t q of (ok, q') \<Rightarrow> (case rate_run n per ts q' of (a, q'') \<Rightarrow> ((if ok then [t] else []) @ a, q'')))"

section \<open>The routes\<close>

datatype action = Pause bool | Flatten bool | Sleeve string bool | Mode string "string option" | Ks_Reset bool
  | Close_Position string bool | Modify_Position string "real option" "real option" | Edit_Config string real

fun scope_of :: "action \<Rightarrow> int" where
  "scope_of (Pause b) = OPERATOR"
| "scope_of (Flatten b) = TRADER"
| "scope_of (Sleeve s b) = OPERATOR"
| "scope_of (Mode m t) = ADMIN"
| "scope_of (Ks_Reset b) = ADMIN"
| "scope_of (Close_Position i b) = TRADER"
| "scope_of (Modify_Position i s t) = TRADER"
| "scope_of (Edit_Config p v) = ADMIN"

fun limit_of :: "action \<Rightarrow> (string \<times> nat) option" where
  "limit_of (Flatten b) = Some (''ep:flatten'', 6)"
| "limit_of (Mode m t) = Some (''ep:mode'', 6)"
| "limit_of (Ks_Reset b) = Some (''ep:ks_reset'', 6)"
| "limit_of (Close_Position i b) = Some (''ep:close'', 30)"
| "limit_of (Edit_Config p v) = Some (''ep:config'', 10)"
| "limit_of _ = None"

record request =
  rq_time :: real
  rq_authorization :: "string option"
  rq_key :: "string option"
  rq_action :: action

record api_state =
  as_config :: config_state
  as_queue :: cmd_queue
  as_buckets :: "string \<Rightarrow> real list"
  as_audit :: "string list"

datatype reply_body = Done | Queued "nat option" | Mode_Set string int | Recorded real

record api_env =
  ae_tokens :: token_settings
  ae_probe :: probe_env
  ae_open_live :: int
  ae_now :: string

definition rate_limit :: "(string \<times> nat) option \<Rightarrow> real \<Rightarrow> api_state \<Rightarrow> http_error option \<times> api_state" where
  "rate_limit lmt t s = (case lmt of None \<Rightarrow> (None, s)
     | Some (name, n) \<Rightarrow> (case rate_ok n 60 t (as_buckets s name) of
         (ok, q) \<Rightarrow> (if ok then None else Some Too_Many, s\<lparr>as_buckets := (as_buckets s)(name := q)\<rparr>)))"

definition put_flag :: "string \<Rightarrow> bool \<Rightarrow> api_state \<Rightarrow> api_state" where
  "put_flag k b s = s\<lparr>as_config := set_state k (JBool b) (as_config s)\<rparr>"

definition api_audit :: "string \<Rightarrow> api_state \<Rightarrow> api_state" where
  "api_audit ev s = s\<lparr>as_audit := as_audit s @ [ev]\<rparr>"

definition api_enqueue :: "string \<Rightarrow> (string \<times> json) list \<Rightarrow> string option \<Rightarrow> api_state \<Rightarrow> nat option \<times> api_state" where
  "api_enqueue ty payload key s =
    (case enqueue_command ty payload key (as_queue s) of (cid, q) \<Rightarrow> (cid, s\<lparr>as_queue := q\<rparr>))"

definition sleeve_key :: "string \<Rightarrow> string" where
  "sleeve_key n = ''sleeve_'' @ n @ ''_enabled''"

definition num_or_null :: "real option \<Rightarrow> json" where
  "num_or_null x = (case x of None \<Rightarrow> JNull | Some r \<Rightarrow> JNum r)"

definition control_flatten :: "bool \<Rightarrow> string option \<Rightarrow> api_state \<Rightarrow> (http_error + reply_body) \<times> api_state" where
  "control_flatten ok key s = (if \<not> ok then (Inl Not_Confirmed, s)
     else case api_enqueue ''flatten'' [(''type'', JStr ''flatten''), (''reason'', JStr ''operator flatten-all'')] key s of
       (cid, s') \<Rightarrow> (Inr (Queued cid), api_audit ''control_flatten'' s'))"

definition close_position_route :: "string \<Rightarrow> bool \<Rightarrow> string option \<Rightarrow> api_state \<Rightarrow> (http_error + reply_body) \<times> api_state" where
  "close_position_route i ok key s = (if \<not> ok then (Inl Not_Confirmed, s)
     else case api_enqueue ''close'' [(''type'', JStr ''close''), (''id'', JStr i)] key s of
       (cid, s') \<Rightarrow> (Inr (Queued cid), api_audit ''control_close'' s'))"

definition modify_position_route ::
  "string \<Rightarrow> real option \<Rightarrow> real option \<Rightarrow> string option \<Rightarrow> api_state \<Rightarrow> (http_error + reply_body) \<times> api_state" where
  "modify_position_route i stop target key s =
    (case api_enqueue ''modify'' [(''type'', JStr ''modify''), (''id'', JStr i), (''stop'', num_or_null stop),
        (''target'', num_or_null target)] key s of
       (cid, s') \<Rightarrow> (Inr (Queued cid), api_audit ''control_modify'' s'))"

definition control_pause :: "bool \<Rightarrow> api_state \<Rightarrow> (http_error + reply_body) \<times> api_state" where
  "control_pause b s = (Inr Done, api_audit ''control_pause'' (put_flag ''engine_paused'' b s))"

definition control_sleeve :: "string \<Rightarrow> bool \<Rightarrow> api_state \<Rightarrow> (http_error + reply_body) \<times> api_state" where
  "control_sleeve n b s = (Inr Done, api_audit ''control_sleeve'' (put_flag (sleeve_key n) b s))"

definition reset_keys :: "string list" where
  "reset_keys = [''kill_switch_active'', ''engine_halted'', ''engine_paused'', ''dd_circuit_active'', ''block_new_entries'']"

definition control_ks_reset :: "bool \<Rightarrow> api_state \<Rightarrow> (http_error + reply_body) \<times> api_state" where
  "control_ks_reset ok s = (if \<not> ok then (Inl Not_Confirmed, s)
     else (Inr Done, api_audit ''control_ks_reset'' (fold (\<lambda>k. put_flag k False) reset_keys s)))"

text \<open>The body of a mode request has no field for the override, and no account is passed.\<close>

definition mode_request :: "string \<Rightarrow> string option \<Rightarrow> api_env \<Rightarrow> config_state \<Rightarrow> transition_request" where
  "mode_request m tok e st =
    \<lparr>target_mode = m, operator = ''operator'', confirm_token = tok,
     prelive_runner = Some (prelive_of_run (prelive_service
        ((ae_probe e)\<lparr>pe_kill_switch := state_flag ''kill_switch_active'' st, pe_open_live := Some (ae_open_live e)\<rparr>))),
     kill_switch_check = Some (state_flag ''kill_switch_active'' st), reconcile_check = None,
     open_live_positions = Some (ae_open_live e), allow_unflattened_downgrade = False, req_account = None\<rparr>"

definition control_mode :: "api_env \<Rightarrow> string \<Rightarrow> string option \<Rightarrow> api_state \<Rightarrow> (http_error + reply_body) \<times> api_state" where
  "control_mode e m tok s = (case request_transition (ae_now e) (mode_request m tok e (as_config s)) (as_config s) of
     Inl rs \<Rightarrow> (Inl (Rejected rs), s)
   | Inr (st, new) \<Rightarrow> (Inr (Mode_Set (rm_mode new) (version new)), api_audit ''control_mode'' (s\<lparr>as_config := st\<rparr>)))"

definition editable :: "string \<Rightarrow> (real \<times> real) option" where
  "editable p = (if p = ''risk.paper_per_trade_pct'' then Some (1/4, 2)
     else if p = ''risk.paper_daily_max_loss_pct'' then Some (1, 6) else None)"

definition edit_config :: "string \<Rightarrow> real \<Rightarrow> api_state \<Rightarrow> (http_error + reply_body) \<times> api_state" where
  "edit_config p v s = (case editable p of None \<Rightarrow> (Inl Bad_Config, s)
     | Some (lo, hi) \<Rightarrow> if \<not> (lo \<le> v \<and> v \<le> hi) then (Inl Bad_Config, s)
         else (Inr (Recorded v), api_audit ''config_edit''
                 (s\<lparr>as_config := set_state (''config_override:'' @ p) (JNum v) (as_config s)\<rparr>)))"

definition perform :: "api_env \<Rightarrow> string option \<Rightarrow> action \<Rightarrow> api_state \<Rightarrow> (http_error + reply_body) \<times> api_state" where
  "perform e key a s = (case a of
     Pause b \<Rightarrow> control_pause b s
   | Flatten ok \<Rightarrow> control_flatten ok key s
   | Sleeve n b \<Rightarrow> control_sleeve n b s
   | Mode m tok \<Rightarrow> control_mode e m tok s
   | Ks_Reset ok \<Rightarrow> control_ks_reset ok s
   | Close_Position i ok \<Rightarrow> close_position_route i ok key s
   | Modify_Position i stop target \<Rightarrow> modify_position_route i stop target key s
   | Edit_Config p v \<Rightarrow> edit_config p v s)"

definition handle :: "api_env \<Rightarrow> request \<Rightarrow> api_state \<Rightarrow> (http_error + reply_body) \<times> api_state" where
  "handle e r s = (case require_scope (scope_of (rq_action r)) (ae_tokens e) (rq_authorization r) of
     Some err \<Rightarrow> (Inl err, s)
   | None \<Rightarrow> (case rate_limit (limit_of (rq_action r)) (rq_time r) s of
       (Some err, s') \<Rightarrow> (Inl err, s')
     | (None, s') \<Rightarrow> perform e (rq_key r) (rq_action r) s'))"

definition serve :: "api_env \<Rightarrow> request list \<Rightarrow> api_state \<Rightarrow> api_state" where
  "serve e rs s = fold (\<lambda>r s. snd (handle e r s)) rs s"

section \<open>What the limiter and the gates leave alone\<close>

lemma rate_limit_frame:
  "rate_limit l t s = (x, s') \<Longrightarrow> as_config s' = as_config s \<and> as_queue s' = as_queue s \<and> as_audit s' = as_audit s"
  by (auto simp: rate_limit_def split: option.splits prod.splits)

lemma api_enqueue_config [simp]: "as_config (snd (api_enqueue ty p k s)) = as_config s"
  by (simp add: api_enqueue_def split: prod.splits)

lemma flag_frames [simp]:
  "as_queue (put_flag k b s) = as_queue s" "as_config (api_audit ev s) = as_config s" "as_queue (api_audit ev s) = as_queue s"
  "as_config (put_flag k b s) = set_state k (JBool b) (as_config s)"
  by (simp_all add: put_flag_def api_audit_def)

lemma queueing_routes_config [simp]:
  "as_config (snd (control_flatten ok key s)) = as_config s"
  "as_config (snd (close_position_route i ok key s)) = as_config s"
  "as_config (snd (modify_position_route i st tg key s)) = as_config s"
  by (simp_all add: control_flatten_def close_position_route_def modify_position_route_def api_enqueue_def split: prod.splits)

lemma load_set_other:
  "k \<noteq> ''runtime_mode'' \<Longrightarrow> k \<noteq> ''execution_mode'' \<Longrightarrow> load_runtime_mode now (set_state k v st) = load_runtime_mode now st"
  by (simp add: load_runtime_mode_def cfg.get_set_other)

lemma sleeve_key_other: "sleeve_key n \<noteq> ''runtime_mode''" "sleeve_key n \<noteq> ''execution_mode''"
  by (simp_all add: sleeve_key_def)

lemma perform_mode:
  assumes "\<forall>m tok. a \<noteq> Mode m tok"
  shows "load_runtime_mode now (as_config (snd (perform e key a s))) = load_runtime_mode now (as_config s)"
  using assms
  by (cases a) (auto simp: perform_def control_pause_def control_sleeve_def control_ks_reset_def edit_config_def reset_keys_def
      load_set_other sleeve_key_other split: option.splits)

lemma handle_cases:
  obtains (refused) err where "require_scope (scope_of (rq_action r)) (ae_tokens e) (rq_authorization r) = Some err"
      "handle e r s = (Inl err, s)"
    | (limited) err s' where "require_scope (scope_of (rq_action r)) (ae_tokens e) (rq_authorization r) = None"
      "handle e r s = (Inl err, s')" "as_config s' = as_config s" "as_queue s' = as_queue s" "as_audit s' = as_audit s"
    | (performed) s' where "require_scope (scope_of (rq_action r)) (ae_tokens e) (rq_authorization r) = None"
      "handle e r s = perform e (rq_key r) (rq_action r) s'"
      "as_config s' = as_config s" "as_queue s' = as_queue s" "as_audit s' = as_audit s"
proof (cases "require_scope (scope_of (rq_action r)) (ae_tokens e) (rq_authorization r)")
  case (Some err)
  then show ?thesis by (intro refused) (simp_all add: handle_def)
next
  case None
  obtain x s' where l: "rate_limit (limit_of (rq_action r)) (rq_time r) s = (x, s')" by fastforce
  show ?thesis
  proof (cases x)
    case (Some err)
    then show ?thesis using None l rate_limit_frame [OF l] by (intro limited [of err s']) (simp_all add: handle_def)
  next
    case N: None
    then show ?thesis using None l rate_limit_frame [OF l] by (intro performed [of s']) (simp_all add: handle_def)
  qed
qed

lemma require_scope_granted:
  "require_scope n s h = None \<Longrightarrow> configured_tokens s = [] \<or> level_for (bearer h) (configured_tokens s) \<ge> n"
  by (auto simp: require_scope_def Let_def split: if_splits)

lemma require_scope_denied:
  "configured_tokens s \<noteq> [] \<Longrightarrow> level_for (bearer h) (configured_tokens s) < n \<Longrightarrow> require_scope n s h \<noteq> None"
  by (simp add: require_scope_def Let_def)

text \<open>Going live by the transition service with the request the route builds.\<close>

lemma control_mode_live:
  assumes "rm_mode (load_runtime_mode now (as_config s)) \<noteq> LIVE"
    and "rm_mode (load_runtime_mode now (as_config (snd (control_mode e m tok s)))) = LIVE"
  shows "m = LIVE" "tok = Some ''LIVE''" "\<not> state_flag ''kill_switch_active'' (as_config s)"
    "fit_to_trade ((ae_probe e)\<lparr>pe_kill_switch := False, pe_open_live := Some (ae_open_live e)\<rparr>)"
proof -
  let ?q = "mode_request m tok e (as_config s)"
  obtain st new where ok: "request_transition (ae_now e) ?q (as_config s) = Inr (st, new)"
    and st: "as_config (snd (control_mode e m tok s)) = st"
    using assms by (auto simp: control_mode_def api_audit_def split: sum.splits prod.splits)
  have "m = LIVE \<and> transition_reasons ?q = []"
  proof (cases rule: request_transition_ok_cases [OF ok])
    case 1
    then show ?thesis using assms st by simp
  next
    case 2
    then have "load_runtime_mode now st = snd (write_runtime_mode (ae_now e)
        (derive_for_mode (target_mode ?q) (req_account ?q) (operator ?q) 0 (ae_now e)) (operator ?q) (as_config s))"
      using load_after_write by (metis fst_conv)
    moreover have "rm_mode (load_runtime_mode now st) = LIVE" using assms(2) st by simp
    ultimately have "target_mode ?q = LIVE"
      by (auto simp: write_runtime_mode_def Let_def split: if_splits)
    then show ?thesis using 2 by (simp add: mode_request_def)
  qed
  then have m: "m = LIVE" and r: "transition_reasons ?q = []" by auto
  then have t: "target_mode ?q = LIVE" by (simp add: mode_request_def)
  note c = live_reasons_empty [OF t r]
  show "m = LIVE" by (rule m)
  show "tok = Some ''LIVE''" using c(1) by (simp add: mode_request_def)
  show k: "\<not> state_flag ''kill_switch_active'' (as_config s)" using c(2) by (simp add: mode_request_def)
  show "fit_to_trade ((ae_probe e)\<lparr>pe_kill_switch := False, pe_open_live := Some (ae_open_live e)\<rparr>)"
    using c(3) k by (simp add: mode_request_def prelive_passes_iff)
qed

section \<open>Properties\<close>

text \<open>C21. The dashboard has one way to live trading. If a request leaves the stored mode live where it was not, it
  was a mode request for live with the confirmation typed, sent with an administrator's token (or on an open
  control plane), while the kill switch was off and every one of the sixteen pre-live probes passed or only
  warned.\<close>
theorem only_a_checked_request_goes_live:
  assumes "rm_mode (load_runtime_mode now (as_config s)) \<noteq> LIVE"
    and "rm_mode (load_runtime_mode now (as_config (snd (handle e r s)))) = LIVE"
  shows "rq_action r = Mode LIVE (Some ''LIVE'')
    \<and> (configured_tokens (ae_tokens e) = [] \<or> level_for (bearer (rq_authorization r)) (configured_tokens (ae_tokens e)) \<ge> ADMIN)
    \<and> \<not> state_flag ''kill_switch_active'' (as_config s)
    \<and> fit_to_trade ((ae_probe e)\<lparr>pe_kill_switch := False, pe_open_live := Some (ae_open_live e)\<rparr>)"
proof (cases rule: handle_cases [of r e s])
  case (refused err)
  then show ?thesis using assms by simp
next
  case (limited err s')
  then show ?thesis using assms by simp
next
  case (performed s')
  obtain m tok where a: "rq_action r = Mode m tok"
    using performed assms perform_mode by (metis snd_conv)
  have p: "as_config (snd (control_mode e m tok s')) = as_config (snd (handle e r s))"
    using performed a by (simp add: perform_def)
  have "require_scope ADMIN (ae_tokens e) (rq_authorization r) = None" using performed a by simp
  note g = require_scope_granted [OF this]
  note c = control_mode_live [of now s' e m tok, unfolded p performed(3), OF assms]
  show ?thesis using a c g by simp
qed

text \<open>A token below the trader's scope reaches only the pause flag and the sleeve switches: whatever
  requests it sends, no command is queued and every other key of the configuration table keeps its value.\<close>
theorem operator_tokens_only_pause_and_switch:
  assumes "configured_tokens (ae_tokens e) \<noteq> []"
    and "\<forall>r\<in>set rs. level_for (bearer (rq_authorization r)) (configured_tokens (ae_tokens e)) < TRADER"
    and "k \<noteq> ''engine_paused''" "\<forall>n. k \<noteq> sleeve_key n"
  shows "as_queue (serve e rs s) = as_queue s \<and> as_config (serve e rs s) k = as_config s k"
  using assms(2)
proof (induction rs arbitrary: s)
  case Nil
  then show ?case by (simp add: serve_def)
next
  case (Cons r rs)
  have low: "scope_of (rq_action r) < TRADER \<or> require_scope (scope_of (rq_action r)) (ae_tokens e) (rq_authorization r) \<noteq> None"
    using Cons.prems require_scope_denied [OF assms(1), of "rq_authorization r" "scope_of (rq_action r)"] by force
  have "as_queue (snd (handle e r s)) = as_queue s \<and> as_config (snd (handle e r s)) k = as_config s k"
  proof (cases rule: handle_cases [of r e s])
    case (performed s')
    then have "(\<exists>b. rq_action r = Pause b) \<or> (\<exists>n b. rq_action r = Sleeve n b)"
      using low by (cases "rq_action r") (auto simp: scope_defs)
    then show ?thesis using performed assms(3,4)
      by (auto simp: perform_def control_pause_def control_sleeve_def set_state_def)
  qed simp_all
  then show ?case using Cons.IH [of "snd (handle e r s)"] Cons.prems by (simp add: serve_def)
qed

lemma rate_run_append:
  "rate_run n per (ts @ us) q =
    (case rate_run n per ts q of (a, q') \<Rightarrow> (case rate_run n per us q' of (b, q'') \<Rightarrow> (a @ b, q'')))"
  by (induction ts arbitrary: q) (auto split: prod.splits)

lemma dropWhile_sorted: "sorted xs \<Longrightarrow> dropWhile (\<lambda>x. x < c) xs = filter (\<lambda>x. c \<le> x) xs" for xs :: "real list"
  by (induction xs) (auto intro!: filter_True [symmetric])

lemma rate_run_invariant:
  assumes "0 \<le> per" "sorted ts"
  shows "sorted (fst (rate_run n per ts [])) \<and> set (fst (rate_run n per ts [])) \<subseteq> set ts
    \<and> (\<exists>c. snd (rate_run n per ts []) = filter (\<lambda>x. c \<le> x) (fst (rate_run n per ts [])) \<and> (ts = [] \<or> c = List.last ts - per))"
  using assms(2)
proof (induction ts rule: rev_induct)
  case Nil
  then show ?case by simp
next
  case (snoc t ts)
  obtain a q where r: "rate_run n per ts [] = (a, q)" by fastforce
  have s: "sorted ts" "\<forall>x\<in>set ts. x \<le> t" using snoc.prems by (auto simp: sorted_append)
  obtain c where a: "sorted a" "set a \<subseteq> set ts" "q = filter (\<lambda>x. c \<le> x) a" "ts = [] \<or> c = List.last ts - per"
    using snoc.IH [OF s(1)] r by auto
  have "c \<le> t - per \<or> a = []" using a s by (cases "ts = []") auto
  then have q: "dropWhile (\<lambda>x. x < t - per) q = filter (\<lambda>x. t - per \<le> x) a"
    using a(1,3) sorted_wrt_filter [of "(\<le>)" a "\<lambda>x. c \<le> x"] by (auto simp: dropWhile_sorted intro!: filter_cong)
  have le: "\<forall>x\<in>set a. x \<le> t" using a s by auto
  show ?case
    using a le s q assms(1) by (auto simp: rate_run_append r rate_ok_def Let_def sorted_append intro!: exI [of _ "t - per"])
qed

lemma window_bound_step:
  fixes per :: real
  assumes "\<forall>b. length (filter (\<lambda>x. b \<le> x \<and> x \<le> b + per) a) \<le> n" "length (filter (\<lambda>x. t - per \<le> x) a) < n"
  shows "length (filter (\<lambda>x. b \<le> x \<and> x \<le> b + per) (a @ [t])) \<le> n"
proof (cases "b \<le> t \<and> t \<le> b + per")
  case True
  then have "t - per \<le> b" by simp
  then have le: "b \<le> x \<Longrightarrow> t - per \<le> x" for x by simp
  have "length (filter (\<lambda>x. b \<le> x \<and> x \<le> b + per) a) \<le> length (filter (\<lambda>x. t - per \<le> x) a)"
    by (induction a) (auto dest: le)
  then show ?thesis using True assms(2) by simp
qed (use assms(1) in auto)

text \<open>The limiter keeps its promise over every window and not only over the buckets it looks at: whatever the
  times of the calls, as long as the clock does not run back, no closed interval of the limiter's length holds more
  accepted calls than the limit.\<close>
theorem limiter_bounds_every_window:
  assumes "0 \<le> per" "sorted ts"
  shows "length (filter (\<lambda>x. b \<le> x \<and> x \<le> b + per) (fst (rate_run n per ts []))) \<le> n"
  using assms(2)
proof (induction ts arbitrary: b rule: rev_induct)
  case Nil
  then show ?case by simp
next
  case (snoc t ts)
  have s: "sorted ts" using snoc.prems by (simp add: sorted_append)
  obtain a q where r: "rate_run n per ts [] = (a, q)" by fastforce
  have IH: "\<forall>b. length (filter (\<lambda>x. b \<le> x \<and> x \<le> b + per) a) \<le> n" using snoc.IH [OF s] r by simp
  obtain c where i: "sorted a" "set a \<subseteq> set ts" "q = filter (\<lambda>x. c \<le> x) a" "ts = [] \<or> c = List.last ts - per"
    using rate_run_invariant [OF assms(1) s, of n] r by auto
  have "c \<le> t - per \<or> a = []" using i snoc.prems by (cases "ts = []") (auto simp: sorted_append)
  then have "dropWhile (\<lambda>x. x < t - per) q = filter (\<lambda>x. t - per \<le> x) a"
    using i(1,3) sorted_wrt_filter [of "(\<le>)" a "\<lambda>x. c \<le> x"] by (auto simp: dropWhile_sorted intro!: filter_cong)
  then show ?case
    using IH window_bound_step [OF IH, of t b] by (auto simp: rate_run_append r rate_ok_def Let_def)
qed

theorem limiter_bounds_every_window_witness:
  "length (filter (\<lambda>x. 0 \<le> x \<and> x \<le> 0 + 60) (fst (rate_run 2 60 [0, 10, 20, 61, 65] []))) \<le> 2
   \<and> fst (rate_run 2 60 [0, 10, 20, 61, 65] []) = [0, 10, 61]"
  using limiter_bounds_every_window [of 60 "[0, 10, 20, 61, 65]" 0 2] by (simp add: rate_ok_def Let_def)

section \<open>A small control plane\<close>

definition demo_tokens :: token_settings where
  "demo_tokens = \<lparr>api_token_readonly = ''r'', api_token_operator = ''o'', api_token_trader = ''t'', api_token_admin = ''a'', api_auth_token = []\<rparr>"

definition demo_probe :: probe_env where
  "demo_probe = \<lparr>pe_adapter = True, pe_env_name = None, pe_encryption_key = False, pe_token_age = None, pe_margins = True,
     pe_now = 600, pe_window = (900, 930), pe_tick_age = None, pe_order_total = Some 100, pe_open_live = Some 0,
     pe_positions = Some [0], pe_smtp = False, pe_redis = Some True, pe_migrations = Some 9, pe_daily_max_loss = 3,
     pe_portfolio_limit = 6, pe_kill_switch = False, pe_missing_packages = 0,
     pe_compliance = \<lparr>cp_algo_id = Some ''A1'', cp_static_ip = Some ''1.2.3.4'', cp_protection = Some 1, cp_registered = False,
       cp_order_capacity = None, cp_order_rate = Some 8\<rparr>\<rparr>"

definition demo_api :: api_env where
  "demo_api = \<lparr>ae_tokens = demo_tokens, ae_probe = demo_probe, ae_open_live = 0, ae_now = ''2025-01-01''\<rparr>"

definition demo_plane :: api_state where
  "demo_plane = \<lparr>as_config = Map.empty, as_queue = empty_queue, as_buckets = (\<lambda>_. []), as_audit = []\<rparr>"

definition demo_call :: "string \<Rightarrow> action \<Rightarrow> request" where
  "demo_call tok a = \<lparr>rq_time = 1, rq_authorization = Some (''Bearer '' @ tok), rq_key = None, rq_action = a\<rparr>"

theorem only_a_checked_request_goes_live_witness:
  "let r = demo_call ''a'' (Mode LIVE (Some ''LIVE'')) in
     rm_mode (load_runtime_mode [] (as_config demo_plane)) = PAPER
     \<and> rm_mode (load_runtime_mode [] (as_config (snd (handle demo_api r demo_plane)))) = LIVE
     \<and> level_for (bearer (rq_authorization r)) (configured_tokens (ae_tokens demo_api)) \<ge> ADMIN"
proof -
  let ?r = "demo_call ''a'' (Mode LIVE (Some ''LIVE''))"
  have a: "rm_mode (load_runtime_mode [] (as_config demo_plane)) = PAPER" by code_simp
  have b: "rm_mode (load_runtime_mode [] (as_config (snd (handle demo_api ?r demo_plane)))) = LIVE" by code_simp
  have t: "configured_tokens (ae_tokens demo_api) \<noteq> []" by code_simp
  have "rm_mode (load_runtime_mode [] (as_config demo_plane)) \<noteq> LIVE" by (simp add: a)
  from only_a_checked_request_goes_live [OF this b] show ?thesis using a b t by (simp add: Let_def)
qed

theorem operator_tokens_only_pause_and_switch_witness:
  "as_queue (serve demo_api [demo_call ''o'' (Pause True), demo_call ''o'' (Flatten True)] demo_plane) = as_queue demo_plane"
proof -
  have t: "configured_tokens (ae_tokens demo_api) \<noteq> []" by code_simp
  have l: "\<forall>r\<in>set [demo_call ''o'' (Pause True), demo_call ''o'' (Flatten True)].
      level_for (bearer (rq_authorization r)) (configured_tokens (ae_tokens demo_api)) < TRADER"
    by code_simp
  have k: "\<forall>n. ''kill_switch_active'' \<noteq> sleeve_key n" by (simp add: sleeve_key_def)
  show ?thesis using operator_tokens_only_pause_and_switch [OF t l _ k, of demo_plane] by simp
qed

end
