(* ===== verification/Payoffs.thy ===== *)
theory Payoffs
  imports Options
begin

text \<open>
  The offline option laboratory: legs and structures with cash-settled payoffs
  (\<open>fno_backtest/instruments.py\<close>), their costs (\<open>fno_backtest/costs.py\<close>), fills (\<open>fno_backtest/fills.py\<close>),
  the scenario grid of \<open>fno_backtest/analysis.py\<close> over the prices of \<open>features/options.py\<close>, and the replay
  of \<open>fno_backtest/engine.py\<close>. A raised exception is None. A day is a number.
\<close>

section \<open>Lists that may raise\<close>

definition sum_opt :: "real option list \<Rightarrow> real option" where
  "sum_opt xs = (if None \<in> set xs then None else Some (sum_list (map the xs)))"

definition all_opt :: "'a option list \<Rightarrow> 'a list option" where
  "all_opt xs = (if list_ex (\<lambda>x. case x of None \<Rightarrow> True | Some _ \<Rightarrow> False) xs then None else Some (map the xs))"

lemma sum_opt_Some: "(\<And>x. x \<in> set xs \<Longrightarrow> f x = Some (g x)) \<Longrightarrow> sum_opt (map f xs) = Some (sum_list (map g xs))"
  by (auto simp: sum_opt_def intro!: arg_cong [where f = sum_list])

lemma all_opt_Some: "(\<And>x. x \<in> set xs \<Longrightarrow> f x = Some (g x)) \<Longrightarrow> all_opt (map f xs) = Some (map g xs)"
  by (auto simp: all_opt_def list_ex_iff split: option.splits)

lemma all_opt_SomeD: "all_opt (map f xs) = Some ys \<Longrightarrow> (\<forall>x\<in>set xs. f x \<noteq> None) \<and> ys = map (the \<circ> f) xs"
  by (auto simp: all_opt_def list_ex_iff split: if_splits option.splits)

definition linspace :: "real \<Rightarrow> real \<Rightarrow> nat \<Rightarrow> real list" where
  "linspace lo hi n = (if n = 1 then [lo] else map (\<lambda>i. lo + of_nat i * ((hi - lo) / of_nat (n - 1))) [0..<n])"

section \<open>Legs and structures\<close>

definition intrinsic_raising :: "string \<Rightarrow> real \<Rightarrow> real \<Rightarrow> real option" where
  "intrinsic_raising ty k s = (if ty = ''CE'' then Some (max (s - k) 0) else if ty = ''PE'' then Some (max (k - s) 0)
     else if ty = ''FUT'' then Some s else None)"

record opt_leg =
  ol_type :: string
  ol_strike :: real
  ol_side :: string
  ol_qty :: int
  ol_price :: real

definition mk_leg :: "string \<Rightarrow> real \<Rightarrow> string \<Rightarrow> int \<Rightarrow> real \<Rightarrow> opt_leg" where
  "mk_leg ty k sd q p = \<lparr>ol_type = ty, ol_strike = k, ol_side = sd, ol_qty = q, ol_price = p\<rparr>"

definition leg_segment :: "opt_leg \<Rightarrow> string" where
  "leg_segment l = (if ol_type l = ''FUT'' then ''FUT'' else ''OPT'')"

definition leg_bought :: "opt_leg \<Rightarrow> bool" where
  "leg_bought l \<longleftrightarrow> py_upper (ol_side l) = ''BUY''"

definition leg_payoff :: "real \<Rightarrow> opt_leg \<Rightarrow> real option" where
  "leg_payoff s l = (case intrinsic_raising (ol_type l) (ol_strike l) s of None \<Rightarrow> None
     | Some v \<Rightarrow> Some ((if leg_bought l then v - ol_price l else ol_price l - v) * of_int (ol_qty l)))"

record opt_structure =
  os_name :: string
  os_legs :: "opt_leg list"

definition payoff_at :: "opt_structure \<Rightarrow> real \<Rightarrow> real option" where
  "payoff_at st s = sum_opt (map (leg_payoff s) (os_legs st))"

definition option_premium :: "opt_structure \<Rightarrow> real" where
  "option_premium st = sum_list (map (\<lambda>l. ol_price l * of_int (ol_qty l) * (if leg_bought l then 1 else -1))
     (filter (\<lambda>l. ol_type l \<noteq> ''FUT'') (os_legs st)))"

record payoff_profile =
  pp_max_profit :: real
  pp_max_loss :: real
  pp_breakevens :: "real list"

text \<open>The sign changes, with the middle of the two spots.\<close>

fun sign_changes :: "(real \<times> real) list \<Rightarrow> real list" where
  "sign_changes ((s, p) # (s', p') # rest) =
    (if sgn p \<noteq> sgn p' \<and> sgn p \<noteq> 0 then [(s + s') / 2] else []) @ sign_changes ((s', p') # rest)"
| "sign_changes _ = []"

definition list_min :: "real list \<Rightarrow> real" where
  "list_min xs = (case xs of [] \<Rightarrow> 0 | x # ys \<Rightarrow> foldl min x ys)"

definition list_max :: "real list \<Rightarrow> real" where
  "list_max xs = (case xs of [] \<Rightarrow> 0 | x # ys \<Rightarrow> foldl max x ys)"

definition profile :: "opt_structure \<Rightarrow> real \<Rightarrow> real \<Rightarrow> nat \<Rightarrow> payoff_profile option" where
  "profile st lo hi n = (let spots = linspace lo hi n in
     if spots = [] then None
     else case all_opt (map (payoff_at st) spots) of None \<Rightarrow> None
     | Some pay \<Rightarrow> Some \<lparr>pp_max_profit = list_max pay, pp_max_loss = list_min pay, pp_breakevens = sign_changes (zip spots pay)\<rparr>)"

definition settlement_pnl :: "opt_structure \<Rightarrow> real \<Rightarrow> real option" where
  "settlement_pnl st s = payoff_at st s"

definition bull_call_spread :: "real \<Rightarrow> real \<Rightarrow> int \<Rightarrow> real \<Rightarrow> real \<Rightarrow> opt_structure" where
  "bull_call_spread klo khi q plo phi = \<lparr>os_name = ''bull_call_debit'',
     os_legs = [mk_leg ''CE'' klo ''BUY'' q plo, mk_leg ''CE'' khi ''SELL'' q phi]\<rparr>"

definition bear_put_spread :: "real \<Rightarrow> real \<Rightarrow> int \<Rightarrow> real \<Rightarrow> real \<Rightarrow> opt_structure" where
  "bear_put_spread khi klo q phi plo = \<lparr>os_name = ''bear_put_debit'',
     os_legs = [mk_leg ''PE'' khi ''BUY'' q phi, mk_leg ''PE'' klo ''SELL'' q plo]\<rparr>"

definition iron_condor :: "real \<Rightarrow> real \<Rightarrow> real \<Rightarrow> real \<Rightarrow> int \<Rightarrow> real \<Rightarrow> real \<Rightarrow> real \<Rightarrow> real \<Rightarrow> opt_structure" where
  "iron_condor pl ps cs cl q p_pl p_ps p_cs p_cl = \<lparr>os_name = ''iron_condor'',
     os_legs = [mk_leg ''PE'' pl ''BUY'' q p_pl, mk_leg ''PE'' ps ''SELL'' q p_ps,
       mk_leg ''CE'' cs ''SELL'' q p_cs, mk_leg ''CE'' cl ''BUY'' q p_cl]\<rparr>"

section \<open>Costs\<close>

record lab_cost_cfg =
  lc_brokerage :: real
  lc_opt_stt_sell :: real
  lc_fut_stt_sell :: real
  lc_opt_exch :: real
  lc_fut_exch :: real
  lc_sebi :: real
  lc_opt_stamp :: real
  lc_fut_stamp :: real
  lc_gst :: real

definition default_lab_costs :: lab_cost_cfg where
  "default_lab_costs = \<lparr>lc_brokerage = 20, lc_opt_stt_sell = 1/1000, lc_fut_stt_sell = 2/10000, lc_opt_exch = 3503/10000000,
     lc_fut_exch = 173/10000000, lc_sebi = 1/1000000, lc_opt_stamp = 3/100000, lc_fut_stamp = 2/100000, lc_gst = 18/100\<rparr>"

record lab_cost =
  lk_brokerage :: real
  lk_stt :: real
  lk_exch :: real
  lk_sebi :: real
  lk_stamp :: real
  lk_gst :: real
  lk_total :: real
  lk_turnover :: real

definition leg_cost :: "lab_cost_cfg \<Rightarrow> real \<Rightarrow> int \<Rightarrow> string \<Rightarrow> string \<Rightarrow> lab_cost option" where
  "leg_cost cf price q side0 seg0 =
    (let side = py_upper side0; seg = py_upper seg0; turnover = \<bar>price\<bar> * of_int \<bar>q\<bar>;
         rates = (if seg = ''OPT'' then Some (lc_opt_stt_sell cf, lc_opt_exch cf, lc_opt_stamp cf)
                  else if seg = ''FUT'' then Some (lc_fut_stt_sell cf, lc_fut_exch cf, lc_fut_stamp cf) else None)
     in case rates of None \<Rightarrow> None
     | Some (stt_rate, exch_rate, stamp_rate) \<Rightarrow>
        let stt = (if side = ''SELL'' then stt_rate * turnover else 0); exch = exch_rate * turnover;
            stamp = (if side = ''BUY'' then stamp_rate * turnover else 0); sebi = lc_sebi cf * turnover;
            gst = lc_gst cf * (lc_brokerage cf + exch + sebi)
        in Some \<lparr>lk_brokerage = lc_brokerage cf, lk_stt = stt, lk_exch = exch, lk_sebi = sebi, lk_stamp = stamp, lk_gst = gst,
                  lk_total = lc_brokerage cf + stt + exch + sebi + stamp + gst, lk_turnover = turnover\<rparr>)"

definition opp_side :: "string \<Rightarrow> string" where
  "opp_side s = (if py_upper s = ''BUY'' then ''SELL'' else ''BUY'')"

definition lab_round_trip :: "lab_cost_cfg \<Rightarrow> real \<Rightarrow> real \<Rightarrow> int \<Rightarrow> string \<Rightarrow> string \<Rightarrow> real option" where
  "lab_round_trip cf p_in p_out q side seg = sum_opt
     [map_option lk_total (leg_cost cf p_in q side seg), map_option lk_total (leg_cost cf p_out q (opp_side side) seg)]"

section \<open>Fills\<close>

record ohlc_bar =
  ob_open :: real
  ob_high :: real
  ob_low :: real
  ob_close :: real

definition ohlc_fill :: "string \<Rightarrow> ohlc_bar \<Rightarrow> string \<Rightarrow> real \<Rightarrow> real option" where
  "ohlc_fill side0 b model bps =
    (let buy = (py_upper side0 = ''BUY'');
         base = (if model = ''close'' then Some (ob_close b) else if model = ''open'' then Some (ob_open b)
           else if model = ''mid'' then Some ((ob_high b + ob_low b) / 2)
           else if model = ''worst'' then Some (if buy then ob_high b else ob_low b)
           else if model = ''best'' then Some (if buy then ob_low b else ob_high b) else None)
     in case base of None \<Rightarrow> None
     | Some p \<Rightarrow> Some (if buy then p + p * bps / 10000 else p - p * bps / 10000))"

text \<open>The loop over the levels: what is left, the cost, the quantity taken, the last price seen.\<close>

fun cross_levels :: "(real \<times> int) list \<Rightarrow> int \<times> real \<times> int \<times> real \<Rightarrow> int \<times> real \<times> int \<times> real" where
  "cross_levels [] acc = acc"
| "cross_levels ((p, sz) # rest) (left, cost, taken, worst) =
    (let take = min left sz; acc = (left - take, cost + of_int take * p, taken + take, p)
     in if left - take \<le> 0 then acc else cross_levels rest acc)"

definition book_vwap_fill :: "string \<Rightarrow> (real \<times> int) list \<Rightarrow> int \<Rightarrow> real \<Rightarrow> real \<Rightarrow> real" where
  "book_vwap_fill side0 lvls q bps penalty =
    (let buy = (py_upper side0 = ''BUY'');
         (left, cost, taken, worst) = cross_levels lvls (q, 0, 0, case lvls of [] \<Rightarrow> 0 | (p, _) # _ \<Rightarrow> p);
         impact = worst * bps * penalty / 10000;
         (cost, taken) = (if left > 0 then (cost + of_int left * (if buy then worst + impact else worst - impact), taken + left)
                          else (cost, taken));
         vwap = (if taken \<noteq> 0 then cost / of_int taken else worst)
     in if buy then vwap + vwap * bps / 10000 else vwap - vwap * bps / 10000)"

section \<open>Prices and the scenario grid\<close>

text \<open>\<open>math.log\<close> raises on a ratio that is not positive, a division by a zero strike raises; the normal
  distribution function is the one of \<open>data/options.py\<close>.\<close>

definition bs_price_raising :: "(real \<Rightarrow> real) \<Rightarrow> real \<Rightarrow> real \<Rightarrow> real \<Rightarrow> real \<Rightarrow> real \<Rightarrow> string \<Rightarrow> real option" where
  "bs_price_raising erf S K t r sigma opt =
    (if t \<le> 0 \<or> sigma \<le> 0 then Some (if opt = ''CE'' then max (S - K) 0 else max (K - S) 0)
     else if K = 0 \<or> S / K \<le> 0 then None
     else let v = sigma * sqrt t; d1 = (ln (S / K) + (r + 1 / 2 * sigma * sigma) * t) / v; d2 = d1 - v in
       Some (if opt = ''CE'' then S * norm_cdf erf d1 - K * exp (- r * t) * norm_cdf erf d2
             else K * exp (- r * t) * norm_cdf erf (- d2) - S * norm_cdf erf (- d1)))"

definition leg_mtm :: "(real \<Rightarrow> real) \<Rightarrow> real \<Rightarrow> real \<Rightarrow> real \<Rightarrow> real \<Rightarrow> opt_leg \<Rightarrow> real option" where
  "leg_mtm erf S t r sig l =
    (case (if ol_type l = ''FUT'' then Some S else bs_price_raising erf S (ol_strike l) t r sig (ol_type l)) of None \<Rightarrow> None
     | Some price \<Rightarrow> Some ((if leg_bought l then price - ol_price l else ol_price l - price) * of_int (ol_qty l)))"

definition grid_point :: "(real \<Rightarrow> real) \<Rightarrow> opt_structure \<Rightarrow> real \<Rightarrow> real \<Rightarrow> real \<Rightarrow> real \<Rightarrow> real \<times> real \<Rightarrow> real option" where
  "grid_point erf st spot t r iv d = (case d of (ds, dv) \<Rightarrow>
     sum_opt (map (leg_mtm erf (spot * (1 + ds)) t r (max (iv + dv) (1 / 10000))) (os_legs st)))"

text \<open>The frame, row by row.\<close>

definition scenario_grid ::
  "(real \<Rightarrow> real) \<Rightarrow> opt_structure \<Rightarrow> real \<Rightarrow> real \<Rightarrow> real \<Rightarrow> real \<Rightarrow> real list option \<Rightarrow> real list option \<Rightarrow> real list option" where
  "scenario_grid erf st spot t r iv ss vs =
    all_opt (map (grid_point erf st spot t r iv)
      (List.product (get_default ss (linspace (-7/100) (7/100) 7)) (get_default vs (linspace (-5/100) (10/100) 4))))"

section \<open>Replay\<close>

record sim_trade =
  tr_name :: string
  tr_gross :: real
  tr_entry_cost :: real
  tr_exit_cost :: real
  tr_costs :: real
  tr_net :: real
  tr_premium :: real

definition exit_leg_cost :: "lab_cost_cfg \<Rightarrow> real \<Rightarrow> opt_leg \<Rightarrow> real option" where
  "exit_leg_cost cf s l = (case intrinsic_raising (ol_type l) (ol_strike l) s of None \<Rightarrow> None
     | Some px \<Rightarrow> if ol_type l \<noteq> ''FUT'' \<and> px \<le> 0 then Some 0
         else map_option lk_total (leg_cost cf px (ol_qty l) (opp_side (ol_side l)) (leg_segment l)))"

definition simulate_trade :: "lab_cost_cfg \<Rightarrow> opt_structure \<Rightarrow> real \<Rightarrow> sim_trade option" where
  "simulate_trade cf st s =
    (case sum_opt (map (\<lambda>l. map_option lk_total (leg_cost cf (ol_price l) (ol_qty l) (ol_side l) (leg_segment l))) (os_legs st)) of
       None \<Rightarrow> None
     | Some en \<Rightarrow> (case settlement_pnl st s of None \<Rightarrow> None
     | Some gross \<Rightarrow> (case sum_opt (map (exit_leg_cost cf s) (os_legs st)) of None \<Rightarrow> None
     | Some ex \<Rightarrow> Some \<lparr>tr_name = os_name st, tr_gross = gross, tr_entry_cost = en, tr_exit_cost = ex, tr_costs = en + ex,
         tr_net = gross - (en + ex), tr_premium = option_premium st\<rparr>)))"

record replay_signal =
  rs_entry :: int
  rs_exit :: int
  rs_structure :: opt_structure
  rs_settle :: real

record trade_row =
  tw_entry :: int
  tw_exit :: int
  tw_net :: real
  tw_equity :: real

record backtest_result =
  br_trades :: "trade_row list"
  br_equity :: "(int \<times> real) list"
  br_capital :: real

fun replay :: "lab_cost_cfg \<Rightarrow> replay_signal list \<Rightarrow> real \<times> trade_row list \<times> (int \<times> real) list \<Rightarrow>
    (real \<times> trade_row list \<times> (int \<times> real) list) option" where
  "replay cf [] acc = Some acc"
| "replay cf (g # gs) (equity, rows, curve) =
    (case simulate_trade cf (rs_structure g) (rs_settle g) of None \<Rightarrow> None
     | Some r \<Rightarrow> let eq = equity + tr_net r in
         replay cf gs (eq, rows @ [\<lparr>tw_entry = rs_entry g, tw_exit = rs_exit g, tw_net = tr_net r, tw_equity = eq\<rparr>],
           upsert (rs_exit g) eq curve))"

definition run_backtest :: "lab_cost_cfg \<Rightarrow> real \<Rightarrow> replay_signal list \<Rightarrow> backtest_result option" where
  "run_backtest cf capital sigs = (case replay cf (sort_key rs_entry sigs) (capital, [], []) of None \<Rightarrow> None
     | Some (equity, rows, curve) \<Rightarrow> Some \<lparr>br_trades = rows, br_equity = sort_key fst curve, br_capital = capital\<rparr>)"

section \<open>Profiles\<close>

lemma foldl_min_le: "foldl min a xs \<le> a \<and> (\<forall>x\<in>set xs. foldl min a xs \<le> x)" for a :: real
  by (induction xs arbitrary: a) (auto, (meson min.bounded_iff order_trans)+)

lemma foldl_min_in: "foldl min a xs \<in> insert a (set xs)" for a :: real
proof (induction xs arbitrary: a)
  case (Cons x xs)
  then show ?case using Cons [of "min a x"] by (auto simp: min_def split: if_splits)
qed simp

lemma list_min_le: "x \<in> set xs \<Longrightarrow> list_min xs \<le> x"
  using foldl_min_le [of "hd xs" "tl xs"] by (cases xs) (auto simp: list_min_def)

lemma list_min_in: "xs \<noteq> [] \<Longrightarrow> list_min xs \<in> set xs"
  using foldl_min_in [of "hd xs" "tl xs"] by (cases xs) (auto simp: list_min_def)

lemma linspace_ends:
  assumes "2 \<le> n"
  shows "lo \<in> set (linspace lo hi n)" "hi \<in> set (linspace lo hi n)"
proof -
  have z: "lo = lo + of_nat 0 * ((hi - lo) / of_nat (n - 1))" by simp
  have h: "hi = lo + of_nat (n - 1) * ((hi - lo) / of_nat (n - 1))" using assms by (simp add: field_simps of_nat_diff)
  show "lo \<in> set (linspace lo hi n)" using assms z by (auto simp: linspace_def image_iff intro!: bexI [of _ 0])
  show "hi \<in> set (linspace lo hi n)" using assms h by (auto simp: linspace_def image_iff intro!: bexI [of _ "n - 1"])
qed

lemma linspace_within:
  assumes "2 \<le> n" "lo \<le> hi" "x \<in> set (linspace lo hi n)"
  shows "lo \<le> x \<and> x \<le> hi"
proof -
  obtain i where i: "i < n" "x = lo + of_nat i * ((hi - lo) / of_nat (n - 1))" using assms by (auto simp: linspace_def)
  have "of_nat i * ((hi - lo) / of_nat (n - 1)) \<le> of_nat (n - 1) * ((hi - lo) / of_nat (n - 1))"
    using i assms by (intro mult_right_mono) auto
  also have "\<dots> = hi - lo" using assms by simp
  finally show ?thesis using i assms by simp
qed

text \<open>Legs whose type the code knows.\<close>

definition known_types :: "opt_structure \<Rightarrow> bool" where
  "known_types st \<longleftrightarrow> list_all (\<lambda>l. ol_type l = ''CE'' \<or> ol_type l = ''PE'' \<or> ol_type l = ''FUT'') (os_legs st)"

definition payoff_of :: "opt_structure \<Rightarrow> real \<Rightarrow> real" where
  "payoff_of st s = sum_list (map (\<lambda>l. the (leg_payoff s l)) (os_legs st))"

lemma payoff_at_known: "known_types st \<Longrightarrow> payoff_at st s = Some (payoff_of st s)"
  unfolding payoff_at_def payoff_of_def
  by (rule sum_opt_Some) (auto simp: known_types_def list_all_iff leg_payoff_def intrinsic_raising_def)

lemma profile_known:
  assumes "known_types st" "0 < n"
  obtains p where "profile st lo hi n = Some p" "pp_max_loss p = list_min (map (payoff_of st) (linspace lo hi n))"
proof -
  have ne: "linspace lo hi n \<noteq> []" using assms by (auto simp: linspace_def)
  have "all_opt (map (payoff_at st) (linspace lo hi n)) = Some (map (payoff_of st) (linspace lo hi n))"
    by (rule all_opt_Some) (simp add: payoff_at_known assms)
  then show ?thesis using ne that by (simp add: profile_def Let_def)
qed

text \<open>The scanned minimum is not above the payoff at either end, and is exact where an end is a lower bound.\<close>

lemma profile_below_ends:
  assumes "known_types st" "2 \<le> n" "profile st lo hi n = Some p"
  shows "pp_max_loss p \<le> payoff_of st lo" "pp_max_loss p \<le> payoff_of st hi"
proof -
  have n: "0 < n" using assms by simp
  have "pp_max_loss p = list_min (map (payoff_of st) (linspace lo hi n))"
    using profile_known [OF assms(1) n, of lo hi] assms(3) by (metis option.inject)
  then show "pp_max_loss p \<le> payoff_of st lo" "pp_max_loss p \<le> payoff_of st hi"
    using linspace_ends [OF assms(2)] by (auto intro!: list_min_le)
qed

lemma profile_exact:
  assumes "known_types st" "2 \<le> n" "lo \<le> hi" "\<And>x. lo \<le> x \<Longrightarrow> x \<le> hi \<Longrightarrow> m \<le> payoff_of st x"
    and "payoff_of st lo = m \<or> payoff_of st hi = m"
  obtains p where "profile st lo hi n = Some p" "pp_max_loss p = m"
proof -
  have n: "0 < n" using assms by simp
  obtain p where p: "profile st lo hi n = Some p" "pp_max_loss p = list_min (map (payoff_of st) (linspace lo hi n))"
    by (rule profile_known [OF assms(1) n])
  have "linspace lo hi n \<noteq> []" using assms(2) by (auto simp: linspace_def)
  then have "list_min (map (payoff_of st) (linspace lo hi n)) \<in> payoff_of st ` set (linspace lo hi n)"
    using list_min_in [of "map (payoff_of st) (linspace lo hi n)"] by simp
  then have "m \<le> pp_max_loss p" using p linspace_within [OF assms(2,3)] assms(4) by auto
  moreover have "pp_max_loss p \<le> m" using profile_below_ends [OF assms(1,2) p(1)] assms(5) by auto
  ultimately show ?thesis using that p by simp
qed

section \<open>Defined-risk shapes\<close>

text \<open>What a unit of each shape pays besides its premiums.\<close>

lemma payoff_of_spreads:
  "payoff_of (bull_call_spread klo khi q plo phi) s = (max (s - klo) 0 - max (s - khi) 0 - plo + phi) * of_int q"
  "payoff_of (bear_put_spread khi klo q phi plo) s = (max (khi - s) 0 - max (klo - s) 0 - phi + plo) * of_int q"
  "payoff_of \<lparr>os_name = nm, os_legs = [mk_leg ''PE'' ks ''SELL'' q p1, mk_leg ''PE'' kl ''BUY'' q p2]\<rparr> s
     = (max (kl - s) 0 - max (ks - s) 0 + p1 - p2) * of_int q"
  "payoff_of \<lparr>os_name = nm, os_legs = [mk_leg ''CE'' ks ''SELL'' q p1, mk_leg ''CE'' kl ''BUY'' q p2]\<rparr> s
     = (max (s - kl) 0 - max (s - ks) 0 + p1 - p2) * of_int q"
  "payoff_of (iron_condor pl ps cs cl q a b c d) s
     = (max (pl - s) 0 - max (ps - s) 0 + max (s - cl) 0 - max (s - cs) 0 - a + b + c - d) * of_int q"
  by (simp_all add: payoff_of_def bull_call_spread_def bear_put_spread_def iron_condor_def mk_leg_def leg_payoff_def
      intrinsic_raising_def leg_bought_def py_upper_def upper_char_def algebra_simps)

text \<open>Between strikes in order a shape pays at least what it pays at one of two ends outside the strikes.\<close>

definition ends_bound :: "real \<Rightarrow> real \<Rightarrow> opt_structure \<Rightarrow> bool" where
  "ends_bound lo hi st \<longleftrightarrow> (\<forall>s. payoff_of st lo \<le> payoff_of st s \<or> payoff_of st hi \<le> payoff_of st s)"

lemma ends_bound_spreads:
  assumes "0 \<le> q"
  shows "klo \<le> khi \<Longrightarrow> lo \<le> klo \<Longrightarrow> ends_bound lo hi (bull_call_spread klo khi q a b)"
    "klo \<le> khi \<Longrightarrow> khi \<le> hi \<Longrightarrow> ends_bound lo hi (bear_put_spread khi klo q a b)"
    "kl \<le> ks \<Longrightarrow> lo \<le> kl \<Longrightarrow> ends_bound lo hi \<lparr>os_name = nm, os_legs = [mk_leg ''PE'' ks ''SELL'' q a, mk_leg ''PE'' kl ''BUY'' q b]\<rparr>"
    "ks \<le> kl \<Longrightarrow> kl \<le> hi \<Longrightarrow> ends_bound lo hi \<lparr>os_name = nm, os_legs = [mk_leg ''CE'' ks ''SELL'' q a, mk_leg ''CE'' kl ''BUY'' q b]\<rparr>"
    "pl \<le> ps \<Longrightarrow> ps \<le> cs \<Longrightarrow> cs \<le> cl \<Longrightarrow> lo \<le> pl \<Longrightarrow> cl \<le> hi \<Longrightarrow> ends_bound lo hi (iron_condor pl ps cs cl q a b c d)"
proof -
  have q: "0 \<le> (of_int q :: real)" using assms by simp
  have m: "x \<le> y \<Longrightarrow> x * of_int q \<le> y * of_int q" for x y :: real using q by (simp add: mult_right_mono)
  show "klo \<le> khi \<Longrightarrow> lo \<le> klo \<Longrightarrow> ends_bound lo hi (bull_call_spread klo khi q a b)"
    unfolding ends_bound_def payoff_of_spreads by (intro allI disjI1 m) (auto simp: max_def)
  show "klo \<le> khi \<Longrightarrow> khi \<le> hi \<Longrightarrow> ends_bound lo hi (bear_put_spread khi klo q a b)"
    unfolding ends_bound_def payoff_of_spreads by (intro allI disjI2 m) (auto simp: max_def)
  show "kl \<le> ks \<Longrightarrow> lo \<le> kl \<Longrightarrow> ends_bound lo hi \<lparr>os_name = nm, os_legs = [mk_leg ''PE'' ks ''SELL'' q a, mk_leg ''PE'' kl ''BUY'' q b]\<rparr>"
    unfolding ends_bound_def payoff_of_spreads by (intro allI disjI1 m) (auto simp: max_def)
  show "ks \<le> kl \<Longrightarrow> kl \<le> hi \<Longrightarrow> ends_bound lo hi \<lparr>os_name = nm, os_legs = [mk_leg ''CE'' ks ''SELL'' q a, mk_leg ''CE'' kl ''BUY'' q b]\<rparr>"
    unfolding ends_bound_def payoff_of_spreads by (intro allI disjI2 m) (auto simp: max_def)
  show "ends_bound lo hi (iron_condor pl ps cs cl q a b c d)"
    if o: "pl \<le> ps" "ps \<le> cs" "cs \<le> cl" "lo \<le> pl" "cl \<le> hi"
    unfolding ends_bound_def payoff_of_spreads
  proof
    fix s
    show "(max (pl - lo) 0 - max (ps - lo) 0 + max (lo - cl) 0 - max (lo - cs) 0 - a + b + c - d) * of_int q
          \<le> (max (pl - s) 0 - max (ps - s) 0 + max (s - cl) 0 - max (s - cs) 0 - a + b + c - d) * of_int q
        \<or> (max (pl - hi) 0 - max (ps - hi) 0 + max (hi - cl) 0 - max (hi - cs) 0 - a + b + c - d) * of_int q
          \<le> (max (pl - s) 0 - max (ps - s) 0 + max (s - cl) 0 - max (s - cs) 0 - a + b + c - d) * of_int q"
    proof (cases "s \<le> ps")
      case True
      then show ?thesis using o by (intro disjI1 m) (auto simp: max_def)
    next
      case False
      then show ?thesis using o by (intro disjI2 m) (auto simp: max_def)
    qed
  qed
qed

text \<open>With both ends scanned, the scanned minimum bounds the payoff at every settlement.\<close>

lemma profile_bounds_payoff:
  assumes "known_types st" "2 \<le> n" "profile st lo hi n = Some p" "ends_bound lo hi st"
  shows "pp_max_loss p \<le> payoff_of st s"
  using profile_below_ends [OF assms(1-3)] assms(4) unfolding ends_bound_def by (meson order_trans)

section \<open>The replayed equity\<close>

lemma replay_sums:
  "replay cf gs (eq, rows, curve) = Some (eq', rows', curve') \<Longrightarrow>
   eq' - sum_list (map tw_net rows') = eq - sum_list (map tw_net rows)
   \<and> (distinct (map fst curve) \<longrightarrow> distinct (map fst curve')) \<and> fst ` set curve' = fst ` set curve \<union> rs_exit ` set gs
   \<and> (gs \<noteq> [] \<longrightarrow> map_of curve' (rs_exit (List.last gs)) = Some eq')"
proof (induction gs arbitrary: eq rows curve)
  case (Cons g gs)
  obtain r where r: "simulate_trade cf (rs_structure g) (rs_settle g) = Some r"
    and rest: "replay cf gs (eq + tr_net r, rows @ [\<lparr>tw_entry = rs_entry g, tw_exit = rs_exit g, tw_net = tr_net r,
        tw_equity = eq + tr_net r\<rparr>], upsert (rs_exit g) (eq + tr_net r) curve) = Some (eq', rows', curve')"
    using Cons.prems by (auto simp: Let_def split: option.splits)
  have "gs = [] \<Longrightarrow> eq' = eq + tr_net r \<and> curve' = upsert (rs_exit g) (eq + tr_net r) curve" using rest by auto
  then show ?case using Cons.IH [OF rest] distinct_upsert [of curve "rs_exit g"] by (auto simp: keys_upsert)
qed simp

lemma sorted_le_last: "sorted xs \<Longrightarrow> x \<in> set xs \<Longrightarrow> x \<le> List.last xs"
  by (induction xs) (auto split: if_splits)

lemma last_of_sorted_alist:
  fixes k :: int
  assumes "distinct (map fst ps)" "map_of ps k = Some v" "\<forall>j\<in>fst ` set ps. j \<le> k"
  shows "List.last (sort_key fst ps) = (k, v)"
proof -
  let ?qs = "sort_key fst ps"
  have kv: "(k, v) \<in> set ?qs" using assms(2) by (simp add: map_of_SomeD)
  then have ne: "?qs \<noteq> []" by (metis empty_iff empty_set)
  obtain j w where l: "List.last ?qs = (j, w)" by fastforce
  have jw: "(j, w) \<in> set ps" using last_in_set [OF ne] l by simp
  have "k \<le> List.last (map fst ?qs)" using kv by (intro sorted_le_last) (simp, force)
  then have "k \<le> j" using ne l by (simp add: last_map)
  moreover have "j \<le> k" using assms(3) jw by force
  ultimately have "j = k" by simp
  then show ?thesis using jw assms(1,2) l by auto
qed

section \<open>Properties\<close>

text \<open>The replay accounts for every trade, and its equity curve ends at the final equity, provided the trades
  leave in the order they enter: then the last point of the curve is the capital and the net of every
  row.\<close>
theorem equity_curve_ends_at_the_final_equity:
  assumes "run_backtest cf capital sigs = Some b" "sigs \<noteq> []" "sorted (map rs_exit (sort_key rs_entry sigs))"
  shows "snd (List.last (br_equity b)) = capital + sum_list (map tw_net (br_trades b))"
proof -
  let ?gs = "sort_key rs_entry sigs"
  obtain eq rows curve where r: "replay cf ?gs (capital, [], []) = Some (eq, rows, curve)"
    and b: "b = \<lparr>br_trades = rows, br_equity = sort_key fst curve, br_capital = capital\<rparr>"
    using assms(1) by (auto simp: run_backtest_def split: option.splits)
  have ne: "?gs \<noteq> []" using assms(2) by (metis length_0_conv length_sort)
  have "\<forall>j\<in>fst ` set curve. j \<le> rs_exit (List.last ?gs)"
    using replay_sums [OF r] sorted_le_last [OF assms(3)] ne by (auto simp: last_map)
  then have "List.last (sort_key fst curve) = (rs_exit (List.last ?gs), eq)"
    using replay_sums [OF r] ne by (intro last_of_sorted_alist) simp_all
  then show ?thesis using replay_sums [OF r] b by simp
qed

text \<open>Two spreads of one lot.\<close>

definition demo_call_spread :: opt_structure where
  "demo_call_spread = bull_call_spread 100 110 10 5 2"

definition no_lab_costs :: lab_cost_cfg where
  "no_lab_costs = \<lparr>lc_brokerage = 0, lc_opt_stt_sell = 0, lc_fut_stt_sell = 0, lc_opt_exch = 0, lc_fut_exch = 0, lc_sebi = 0,
     lc_opt_stamp = 0, lc_fut_stamp = 0, lc_gst = 0\<rparr>"

lemma demo_spread_trade:
  "0 \<le> s \<Longrightarrow> simulate_trade no_lab_costs demo_call_spread s = Some \<lparr>tr_name = ''bull_call_debit'', tr_gross = payoff_of demo_call_spread s,
     tr_entry_cost = 0, tr_exit_cost = 0, tr_costs = 0, tr_net = payoff_of demo_call_spread s, tr_premium = 30\<rparr>"
  by (simp add: simulate_trade_def demo_call_spread_def bull_call_spread_def mk_leg_def leg_cost_def no_lab_costs_def py_upper_def
      upper_char_def leg_segment_def Let_def sum_opt_def settlement_pnl_def payoff_at_def leg_payoff_def intrinsic_raising_def
      leg_bought_def payoff_of_def exit_leg_cost_def opp_side_def option_premium_def)

lemma demo_spread_values: "payoff_of demo_call_spread 120 = 70" "payoff_of demo_call_spread 90 = - 30"
  by (simp_all add: demo_call_spread_def payoff_of_spreads)

theorem equity_curve_ends_at_the_final_equity_witness:
  "\<exists>b. run_backtest no_lab_costs 1000
      [\<lparr>rs_entry = 1, rs_exit = 8, rs_structure = demo_call_spread, rs_settle = 120\<rparr>,
       \<lparr>rs_entry = 3, rs_exit = 15, rs_structure = demo_call_spread, rs_settle = 90\<rparr>] = Some b
    \<and> snd (List.last (br_equity b)) = 1000 + sum_list (map tw_net (br_trades b))"
proof -
  let ?s = "[\<lparr>rs_entry = 1, rs_exit = 8, rs_structure = demo_call_spread, rs_settle = 120\<rparr>,
       \<lparr>rs_entry = 3, rs_exit = 15, rs_structure = demo_call_spread, rs_settle = 90\<rparr>]"
  obtain b where b: "run_backtest no_lab_costs 1000 ?s = Some b"
    by (simp add: run_backtest_def demo_spread_trade Let_def)
  have "sorted (map rs_exit (sort_key rs_entry ?s))" by simp
  from equity_curve_ends_at_the_final_equity [OF b _ this] show ?thesis using b by blast
qed

text \<open>Otherwise it need not: the curve stores at an exit day the equity of the moment the trade was processed, and
  trades are processed by entry day. A long trade entered first and a losing one that leaves before it give a curve
  whose last point never saw the loss.\<close>
theorem equity_curve_can_miss_a_loss:
  "\<exists>b. run_backtest no_lab_costs 1000
      [\<lparr>rs_entry = 1, rs_exit = 30, rs_structure = demo_call_spread, rs_settle = 120\<rparr>,
       \<lparr>rs_entry = 3, rs_exit = 8, rs_structure = demo_call_spread, rs_settle = 90\<rparr>] = Some b
    \<and> snd (List.last (br_equity b)) = 1070 \<and> 1000 + sum_list (map tw_net (br_trades b)) = 1040"
  by (simp add: run_backtest_def demo_spread_trade demo_spread_values Let_def)

end
