(* ===== verification/Signals.thy ===== *)
theory Signals
  imports Payoffs
begin

text \<open>
  The F&O decision pipeline of \<open>fno_signals/\<close>, in the order \<open>decide\<close> runs it: the primary signal, the hard
  gates, the meta-label multiplier (\<open>size_multiplier\<close> of \<open>ml/models.py\<close>), the routing by volatility regime,
  the structure built from the chain, its size in R, the risk state and the scenario gate, and the orders an accepted
  decision stands for. A chain is the list of its rows; the texts of a rejection are constructors.
\<close>

section \<open>The context\<close>

record chain_row =
  ch_type :: string
  ch_strike :: real
  ch_close :: real
  ch_oi :: real
  ch_volume :: real
  ch_bid :: real
  ch_ask :: real

record market_context =
  mx_underlying :: string
  mx_day :: int
  mx_spot :: real
  mx_features :: "string \<rightharpoonup> real"
  mx_iv_rank :: real
  mx_atm_iv :: real
  mx_chain :: "chain_row list"
  mx_quoted :: bool
  mx_dte :: int
  mx_lot_size :: int
  mx_step :: real
  mx_events :: "int list"

definition t_years :: "market_context \<Rightarrow> real" where
  "t_years c = of_int (max (mx_dte c) 1) / 365"

definition feature :: "market_context \<Rightarrow> string \<Rightarrow> real \<Rightarrow> real" where
  "feature c n d = get_default (mx_features c n) d"

section \<open>The primary signal\<close>

record view_signal =
  vs_direction :: string
  vs_strength :: real

text \<open>The points of one side: a feature of its sign gives one, an exhausted oscillator takes a half.\<close>

definition side_points :: "(real \<Rightarrow> bool) \<Rightarrow> real list \<Rightarrow> bool \<Rightarrow> real" where
  "side_points sign xs exhausted = sum_list (map (\<lambda>x. if sign x then 1 else 0) xs) - (if exhausted then 1 / 2 else 0)"

definition generate_signal :: "market_context \<Rightarrow> view_signal" where
  "generate_signal c =
    (let dma = feature c ''dma_dist_200'' 0; macd = feature c ''macd_hist'' 0; adx = feature c ''adx_14'' 0;
         rsi = feature c ''rsi_14'' 50; st = feature c ''supertrend_dir'' 0;
         bull = side_points (\<lambda>x. x > 0) [dma, macd, st] (rsi \<ge> 75);
         bear = side_points (\<lambda>x. x < 0) [dma, macd, st] (\<not> rsi \<ge> 75 \<and> rsi \<le> 25);
         quality = min (max ((adx - 15) / 25) 0) 1;
         (direction, strength) =
           (if bull > bear \<and> bull \<ge> 2 then (''bullish'', min (bull / 3) 1 * (1 / 2 + 1 / 2 * quality))
            else if bear > bull \<and> bear \<ge> 2 then (''bearish'', min (bear / 3) 1 * (1 / 2 + 1 / 2 * quality))
            else (''neutral'', 1 / 2 * (1 - quality)))
     in \<lparr>vs_direction = direction, vs_strength = py_round 4 (max strength 0)\<rparr>)"

section \<open>The hard gates\<close>

record gate_config =
  gc_min_atm_oi :: real
  gc_min_atm_volume :: real
  gc_max_spread_pct :: real
  gc_min_dte :: int
  gc_max_dte :: int

definition default_gates :: gate_config where
  "default_gates = \<lparr>gc_min_atm_oi = 5000, gc_min_atm_volume = 100, gc_max_spread_pct = 5, gc_min_dte = 1, gc_max_dte = 45\<rparr>"

fun argmin_by :: "('a \<Rightarrow> real) \<Rightarrow> 'a list \<Rightarrow> 'a option" where
  "argmin_by f [] = None"
| "argmin_by f (x # xs) = (case argmin_by f xs of None \<Rightarrow> Some x | Some y \<Rightarrow> if f x \<le> f y then Some x else Some y)"

definition of_type :: "string \<Rightarrow> chain_row list \<Rightarrow> chain_row list" where
  "of_type ty ch = filter (\<lambda>r. ch_type r = ty) ch"

definition atm_row :: "chain_row list \<Rightarrow> real \<Rightarrow> string \<Rightarrow> chain_row option" where
  "atm_row ch spot ty = argmin_by (\<lambda>r. \<bar>ch_strike r - spot\<bar>) (of_type ty ch)"

definition lesser :: "(chain_row \<Rightarrow> real) \<Rightarrow> chain_row option \<Rightarrow> chain_row option \<Rightarrow> real" where
  "lesser f a b = min (case a of None \<Rightarrow> 0 | Some r \<Rightarrow> f r) (case b of None \<Rightarrow> 0 | Some r \<Rightarrow> f r)"

definition spread_ok :: "gate_config \<Rightarrow> chain_row \<Rightarrow> bool" where
  "spread_ok g r = (let mid = (ch_bid r + ch_ask r) / 2 in mid > 0 \<and> (ch_ask r - ch_bid r) / mid * 100 \<le> gc_max_spread_pct g)"

definition run_hard_gates :: "market_context \<Rightarrow> gate_config \<Rightarrow> bool \<times> (string \<times> bool) list" where
  "run_hard_gates c g =
    (if mx_chain c = [] then (False, [(''chain_present'', False)])
     else let ce = atm_row (mx_chain c) (mx_spot c) ''CE''; pe = atm_row (mx_chain c) (mx_spot c) ''PE'';
         liq = lesser ch_oi ce pe \<ge> gc_min_atm_oi g \<and> lesser ch_volume ce pe \<ge> gc_min_atm_volume g;
         spread = (case ce of Some r \<Rightarrow> if mx_quoted c then [(''spread'', spread_ok g r)] else [] | None \<Rightarrow> []);
         trail = [(''chain_present'', True), (''liquidity'', liq)] @ spread
           @ [(''dte_window'', gc_min_dte g \<le> mx_dte c \<and> mx_dte c \<le> gc_max_dte g),
              (''event_blackout'', \<not> List.member (mx_events c) (mx_day c))]
       in (list_all snd trail, trail))"

definition failed_gate :: "(string \<times> bool) list \<Rightarrow> string option" where
  "failed_gate trail = map_option fst (find (\<lambda>g. \<not> snd g) trail)"

section \<open>Meta-label, regime and route\<close>

definition size_multiplier :: "real \<Rightarrow> real \<Rightarrow> real \<Rightarrow> real \<Rightarrow> real" where
  "size_multiplier p veto neutral soft_floor =
    (let ramp = soft_floor + (1 - soft_floor) * (p - veto) / (neutral - veto)
     in if p < veto then 0 else if p \<ge> neutral then 1 else ramp)"

definition iv_regime :: "real \<Rightarrow> string" where
  "iv_regime iv = (if iv < 30 then ''low'' else if iv > 60 then ''high'' else ''mid'')"

definition route_table :: "((string \<times> string) \<times> string) list" where
  "route_table = [((''bullish'', ''low''), ''bull_call_debit''), ((''bullish'', ''mid''), ''bull_call_debit''),
     ((''bullish'', ''high''), ''bull_put_credit''), ((''bearish'', ''low''), ''bear_put_debit''),
     ((''bearish'', ''mid''), ''bear_put_debit''), ((''bearish'', ''high''), ''bear_call_credit''),
     ((''neutral'', ''low''), ''iron_condor''), ((''neutral'', ''mid''), ''iron_condor''), ((''neutral'', ''high''), ''iron_condor'')]"

definition credit_families :: "string list" where
  "credit_families = [''bull_put_credit'', ''bear_call_credit'', ''iron_condor'']"

definition route :: "string \<Rightarrow> string \<Rightarrow> bool \<Rightarrow> string option" where
  "route direction regime spiking = (case map_of route_table (direction, regime) of None \<Rightarrow> None
     | Some fam \<Rightarrow> if spiking \<and> List.member credit_families fam then None else Some fam)"

section \<open>The structure\<close>

definition nearest :: "chain_row list \<Rightarrow> string \<Rightarrow> real \<Rightarrow> real option" where
  "nearest ch ty target = map_option ch_strike (argmin_by (\<lambda>r. \<bar>ch_strike r - target\<bar>) (of_type ty ch))"

definition price_of :: "chain_row list \<Rightarrow> string \<Rightarrow> real \<Rightarrow> real option" where
  "price_of ch ty k = map_option ch_close (find (\<lambda>r. ch_strike r = k) (of_type ty ch))"

text \<open>A strike with its price, None where either is missing.\<close>

definition strike_price :: "chain_row list \<Rightarrow> string \<Rightarrow> real \<Rightarrow> (real \<times> real) option" where
  "strike_price ch ty target = (case nearest ch ty target of None \<Rightarrow> None
     | Some k \<Rightarrow> map_option (\<lambda>p. (k, p)) (price_of ch ty k))"

definition debit_call :: "(real \<times> real) option \<Rightarrow> (real \<times> real) option \<Rightarrow> int \<Rightarrow> opt_structure option" where
  "debit_call lo hi q = (case (lo, hi) of
     (Some (klo, plo), Some (khi, phi)) \<Rightarrow> if khi \<le> klo then None else Some (bull_call_spread klo khi q plo phi)
   | _ \<Rightarrow> None)"

definition debit_put :: "(real \<times> real) option \<Rightarrow> (real \<times> real) option \<Rightarrow> int \<Rightarrow> opt_structure option" where
  "debit_put hi lo q = (case (hi, lo) of
     (Some (khi, phi), Some (klo, plo)) \<Rightarrow> if khi \<le> klo then None else Some (bear_put_spread khi klo q phi plo)
   | _ \<Rightarrow> None)"

definition credit_put :: "(real \<times> real) option \<Rightarrow> (real \<times> real) option \<Rightarrow> int \<Rightarrow> opt_structure option" where
  "credit_put sh lg q = (case (sh, lg) of
     (Some (ks, ps), Some (kl, pl)) \<Rightarrow> if ks \<le> kl then None
       else Some \<lparr>os_name = ''bull_put_credit'', os_legs = [mk_leg ''PE'' ks ''SELL'' q ps, mk_leg ''PE'' kl ''BUY'' q pl]\<rparr>
   | _ \<Rightarrow> None)"

definition credit_call :: "(real \<times> real) option \<Rightarrow> (real \<times> real) option \<Rightarrow> int \<Rightarrow> opt_structure option" where
  "credit_call sh lg q = (case (sh, lg) of
     (Some (ks, ps), Some (kl, pl)) \<Rightarrow> if kl \<le> ks then None
       else Some \<lparr>os_name = ''bear_call_credit'', os_legs = [mk_leg ''CE'' ks ''SELL'' q ps, mk_leg ''CE'' kl ''BUY'' q pl]\<rparr>
   | _ \<Rightarrow> None)"

definition condor_of ::
  "(real \<times> real) option \<Rightarrow> (real \<times> real) option \<Rightarrow> (real \<times> real) option \<Rightarrow> (real \<times> real) option \<Rightarrow> int \<Rightarrow> opt_structure option" where
  "condor_of ps pl cs cl q = (case (ps, pl, cs, cl) of
     (Some (psk, psp), Some (plk, plp), Some (csk, csp), Some (clk, clp)) \<Rightarrow> Some (iron_condor plk psk csk clk q plp psp csp clp)
   | _ \<Rightarrow> None)"

definition select_structure :: "string \<Rightarrow> chain_row list \<Rightarrow> real \<Rightarrow> int \<Rightarrow> real \<Rightarrow> real \<Rightarrow> real \<Rightarrow> opt_structure option" where
  "select_structure fam ch spot lot step width_steps wing_steps =
    (let w = width_steps * step; wing = wing_steps * step; ce = strike_price ch ''CE''; pe = strike_price ch ''PE''
     in case nearest ch ''CE'' spot of None \<Rightarrow> None
     | Some atm \<Rightarrow>
        if fam = ''bull_call_debit'' then debit_call (ce atm) (ce (atm + w)) lot
        else if fam = ''bear_put_debit'' then debit_put (pe atm) (pe (atm - w)) lot
        else if fam = ''bull_put_credit'' then credit_put (pe (atm - w)) (pe (atm - w - wing)) lot
        else if fam = ''bear_call_credit'' then credit_call (ce (atm + w)) (ce (atm + w + wing)) lot
        else if fam = ''iron_condor'' then condor_of (pe (atm - w)) (pe (atm - w - wing)) (ce (atm + w)) (ce (atm + w + wing)) lot
        else None)"

definition one_lot_max_loss :: "opt_structure \<Rightarrow> real \<Rightarrow> real option" where
  "one_lot_max_loss st spot = (case profile st (spot * (85/100)) (spot * (115/100)) 600 of None \<Rightarrow> None
     | Some p \<Rightarrow> Some \<bar>min (pp_max_loss p) 0\<bar>)"

section \<open>Size and risk\<close>

record sizing_config =
  sc_capital :: real
  sc_per_trade_pct :: real
  sc_max_lots :: int

definition budget_R :: "sizing_config \<Rightarrow> real \<Rightarrow> real" where
  "budget_R cf confidence = sc_capital cf * sc_per_trade_pct cf / 100 * min (max confidence 0) 1"

definition size_lots :: "real \<Rightarrow> real \<Rightarrow> sizing_config \<Rightarrow> real option \<Rightarrow> int" where
  "size_lots R ml cf remaining =
    (if ml \<le> 0 then 0
     else let lots = min \<lfloor>R / ml\<rfloor> (sc_max_lots cf);
              lots = (case remaining of None \<Rightarrow> lots | Some x \<Rightarrow> min lots \<lfloor>max x 0 / ml\<rfloor>)
          in max lots 0)"

record lab_risk_state =
  lr_capital :: real
  lr_day_pnl :: real
  lr_open_R :: real
  lr_open_positions :: int
  lr_daily_max_loss_pct :: real
  lr_portfolio_limit_pct :: real
  lr_max_concurrent :: int

definition kill_switch_tripped :: "lab_risk_state \<Rightarrow> bool" where
  "kill_switch_tripped s \<longleftrightarrow> lr_day_pnl s \<le> - lr_capital s * lr_daily_max_loss_pct s / 100"

definition portfolio_remaining_R :: "lab_risk_state \<Rightarrow> real" where
  "portfolio_remaining_R s = max 0 (lr_capital s * lr_portfolio_limit_pct s / 100 - lr_open_R s)"

definition can_add_position :: "lab_risk_state \<Rightarrow> bool" where
  "can_add_position s \<longleftrightarrow> lr_open_positions s < lr_max_concurrent s"

definition scenario_loss_ok ::
  "(real \<Rightarrow> real) \<Rightarrow> opt_structure \<Rightarrow> real \<Rightarrow> real \<Rightarrow> real \<Rightarrow> real \<Rightarrow> (bool \<times> real) option" where
  "scenario_loss_ok erf st spot t iv limit = (case scenario_grid erf st spot t (65/1000) iv None None of None \<Rightarrow> None
     | Some g \<Rightarrow> Some (list_min g \<ge> - \<bar>limit\<bar>, list_min g))"

section \<open>The decision\<close>

record decision_config =
  dc_sizing :: sizing_config
  dc_gate :: gate_config
  dc_width_steps :: real
  dc_wing_steps :: real
  dc_veto_below :: real
  dc_neutral_above :: real
  dc_loss_buffer :: real

datatype refusal = Gate_Failed "string option" | Meta_Veto | Route_Blocked | No_Strikes | No_Max_Loss | Below_One_Lot
  | Kill_Switch_Tripped | Max_Positions | Scenario_Loss real

record trade_decision =
  td_accepted :: bool
  td_reason :: "refusal option"
  td_signal :: view_signal
  td_family :: "string option"
  td_structure :: "opt_structure option"
  td_lots :: int
  td_qty :: int
  td_max_loss :: real
  td_confidence :: real
  td_sized_R :: real
  td_trail :: "(string \<times> bool) list"

definition scale_structure :: "opt_structure \<Rightarrow> int \<Rightarrow> opt_structure" where
  "scale_structure st lots = \<lparr>os_name = os_name st, os_legs = map (\<lambda>l. l\<lparr>ol_qty := ol_qty l * lots\<rparr>) (os_legs st)\<rparr>"

definition refuse :: "refusal \<Rightarrow> view_signal \<Rightarrow> (string \<times> bool) list \<Rightarrow> real \<Rightarrow> trade_decision" where
  "refuse r sig trail p = \<lparr>td_accepted = False, td_reason = Some r, td_signal = sig, td_family = None, td_structure = None,
     td_lots = 0, td_qty = 0, td_max_loss = 0, td_confidence = p, td_sized_R = 0, td_trail = trail\<rparr>"

text \<open>Steps five to seven, for the structure and its loss per lot.\<close>

definition size_and_check ::
  "(real \<Rightarrow> real) \<Rightarrow> market_context \<Rightarrow> decision_config \<Rightarrow> lab_risk_state \<Rightarrow> view_signal \<Rightarrow> (string \<times> bool) list \<Rightarrow> real \<Rightarrow> real \<Rightarrow>
     string \<Rightarrow> opt_structure \<Rightarrow> real \<Rightarrow> trade_decision option" where
  "size_and_check erf c cf rs sig trail p mult fam st ml =
    (let R = budget_R (dc_sizing cf) (p * mult);
         lots = size_lots R ml (dc_sizing cf) (Some (portfolio_remaining_R rs));
         base = (\<lambda>r. (refuse r sig trail p)\<lparr>td_family := Some fam\<rparr>); scaled = scale_structure st lots; loss = ml * of_int lots
     in if lots < 1 then Some ((base Below_One_Lot)\<lparr>td_structure := Some st, td_max_loss := ml, td_sized_R := R\<rparr>)
        else if kill_switch_tripped rs then Some ((base Kill_Switch_Tripped)\<lparr>td_structure := Some scaled\<rparr>)
        else if \<not> can_add_position rs then Some ((base Max_Positions)\<lparr>td_structure := Some scaled\<rparr>)
        else case scenario_loss_ok erf scaled (mx_spot c) (t_years c) (mx_atm_iv c) (loss * dc_loss_buffer cf) of None \<Rightarrow> None
        | Some (ok, worst) \<Rightarrow>
           if \<not> ok then Some ((base (Scenario_Loss worst))\<lparr>td_structure := Some scaled, td_max_loss := loss\<rparr>)
           else Some \<lparr>td_accepted = True, td_reason = None, td_signal = sig, td_family = Some fam, td_structure = Some scaled,
             td_lots = lots, td_qty = mx_lot_size c * lots, td_max_loss = loss, td_confidence = p, td_sized_R = R,
             td_trail = trail\<rparr>)"

definition decide_lab ::
  "(real \<Rightarrow> real) \<Rightarrow> market_context \<Rightarrow> decision_config \<Rightarrow> lab_risk_state \<Rightarrow> real option \<Rightarrow> bool \<Rightarrow> trade_decision option" where
  "decide_lab erf c cf rs meta spiking =
    (let sig = generate_signal c; (passed, trail) = run_hard_gates c (dc_gate cf); p = get_default meta (vs_strength sig);
         mult = size_multiplier p (dc_veto_below cf) (dc_neutral_above cf) 0
     in if \<not> passed then Some (refuse (Gate_Failed (failed_gate trail)) sig trail 0)
        else if mult \<le> 0 then Some (refuse Meta_Veto sig trail p)
        else case route (vs_direction sig) (iv_regime (mx_iv_rank c)) spiking of
          None \<Rightarrow> Some (refuse Route_Blocked sig trail p)
        | Some fam \<Rightarrow>
           (case select_structure fam (mx_chain c) (mx_spot c) (mx_lot_size c) (mx_step c) (dc_width_steps cf) (dc_wing_steps cf) of
              None \<Rightarrow> Some ((refuse No_Strikes sig trail p)\<lparr>td_family := Some fam\<rparr>)
            | Some st \<Rightarrow> (case one_lot_max_loss st (mx_spot c) of None \<Rightarrow> None
            | Some ml \<Rightarrow> if ml \<le> 0 then Some ((refuse No_Max_Loss sig trail p)\<lparr>td_family := Some fam\<rparr>)
                else size_and_check erf c cf rs sig trail p mult fam st ml)))"

section \<open>Orders\<close>

record kite_order =
  ko_symbol :: string
  ko_exchange :: string
  ko_transaction :: string
  ko_quantity :: int
  ko_type :: string
  ko_product :: string

text \<open>The instruments dump resolves an underlying, a strike (None for a future) and a type.\<close>

definition to_kite_orders ::
  "(string \<Rightarrow> real option \<Rightarrow> string \<Rightarrow> string option) \<Rightarrow> string \<Rightarrow> string \<Rightarrow> string \<Rightarrow> string \<Rightarrow> trade_decision \<Rightarrow> kite_order list option" where
  "to_kite_orders symbol_for u exch product oty d =
    (if \<not> td_accepted d then Some [] else case td_structure d of None \<Rightarrow> Some []
     | Some st \<Rightarrow> all_opt (map (\<lambda>l.
         let ty = (if ol_type l = ''CE'' \<or> ol_type l = ''PE'' then ol_type l else ''FUT'') in
         map_option (\<lambda>sym. \<lparr>ko_symbol = sym, ko_exchange = exch, ko_transaction = py_upper (ol_side l), ko_quantity = ol_qty l,
             ko_type = oty, ko_product = product\<rparr>)
           (symbol_for u (if ty = ''FUT'' then None else Some (ol_strike l)) ty)) (os_legs st)))"

text \<open>Nothing is sent without the confirmation; None is the refusal.\<close>

definition place_orders :: "(kite_order \<Rightarrow> 'i) \<Rightarrow> kite_order list \<Rightarrow> bool \<Rightarrow> 'i list option" where
  "place_orders place orders confirm = (if \<not> confirm then None else Some (map place orders))"

section \<open>Strikes\<close>

lemma argmin_by_Some: "argmin_by f xs = Some y \<Longrightarrow> y \<in> set xs \<and> (\<forall>x\<in>set xs. f y \<le> f x)"
proof (induction xs arbitrary: y)
  case (Cons x xs)
  show ?case
  proof (cases "argmin_by f xs")
    case None
    moreover have "xs = []" using None by (cases xs) (auto split: option.splits if_splits)
    ultimately show ?thesis using Cons.prems by simp
  next
    case (Some z)
    then show ?thesis using Cons.prems Cons.IH [OF Some] by (force split: if_splits)
  qed
qed simp

definition strikes_of :: "chain_row list \<Rightarrow> string \<Rightarrow> real set" where
  "strikes_of ch ty = ch_strike ` set (of_type ty ch)"

lemma nearest_Some:
  "nearest ch ty t = Some k \<Longrightarrow> k \<in> strikes_of ch ty \<and> (\<forall>j\<in>strikes_of ch ty. \<bar>k - t\<bar> \<le> \<bar>j - t\<bar>)"
  by (auto simp: nearest_def strikes_of_def dest!: argmin_by_Some)

lemma nearest_of_strike: "nearest ch ty t = Some k \<Longrightarrow> t \<in> strikes_of ch ty \<Longrightarrow> k = t"
  by (drule nearest_Some) force

text \<open>The nearest strike to a higher target is not lower.\<close>

lemma nearest_mono:
  assumes "nearest ch ty a = Some x" "nearest ch ty b = Some y" "a \<le> b"
  shows "x \<le> y"
proof (cases "a = b")
  case False
  note x = nearest_Some [OF assms(1)] and y = nearest_Some [OF assms(2)]
  have "\<bar>x - a\<bar> \<le> \<bar>y - a\<bar>" "\<bar>y - b\<bar> \<le> \<bar>x - b\<bar>" using x y by blast+
  then show ?thesis using False assms(3) by (auto simp: abs_if split: if_splits)
qed (use assms in simp)

lemma strike_price_nearest: "strike_price ch ty t = Some (k, p) \<Longrightarrow> nearest ch ty t = Some k"
  by (auto simp: strike_price_def split: option.splits)

text \<open>A chain that lists every strike for calls and for puts.\<close>

definition paired :: "chain_row list \<Rightarrow> bool" where
  "paired ch \<longleftrightarrow> strikes_of ch ''CE'' = strikes_of ch ''PE''"

section \<open>Shapes\<close>

definition strikes_within :: "real \<Rightarrow> real \<Rightarrow> opt_structure \<Rightarrow> bool" where
  "strikes_within lo hi st \<longleftrightarrow> list_all (\<lambda>l. lo \<le> ol_strike l \<and> ol_strike l \<le> hi) (os_legs st)"

definition net_legs :: "string \<Rightarrow> opt_structure \<Rightarrow> int" where
  "net_legs ty st = sum_list (map (\<lambda>l. if ol_type l \<noteq> ty then 0 else if leg_bought l then ol_qty l else - ol_qty l) (os_legs st))"

text \<open>Options only, as many bought as sold of each type.\<close>

definition covered_legs :: "opt_structure \<Rightarrow> bool" where
  "covered_legs st \<longleftrightarrow> list_all (\<lambda>l. ol_type l = ''CE'' \<or> ol_type l = ''PE'') (os_legs st) \<and> net_legs ''CE'' st = 0 \<and> net_legs ''PE'' st = 0"

lemma covered_known: "covered_legs st \<Longrightarrow> known_types st"
  by (auto simp: covered_legs_def known_types_def list_all_iff)

lemmas shape_defs = bull_call_spread_def bear_put_spread_def iron_condor_def mk_leg_def covered_legs_def net_legs_def leg_bought_def
  py_upper_def upper_char_def strikes_within_def

lemma covered_shapes:
  "covered_legs (bull_call_spread klo khi q a b)" "covered_legs (bear_put_spread khi klo q a b)" "covered_legs (iron_condor pl ps cs cl q a b c d)"
  "covered_legs \<lparr>os_name = nm, os_legs = [mk_leg ''PE'' ks ''SELL'' q a, mk_leg ''PE'' kl ''BUY'' q b]\<rparr>"
  "covered_legs \<lparr>os_name = nm, os_legs = [mk_leg ''CE'' ks ''SELL'' q a, mk_leg ''CE'' kl ''BUY'' q b]\<rparr>"
  by (simp_all add: shape_defs)

lemma within_shapes:
  "strikes_within lo hi (bull_call_spread klo khi q a b) \<longleftrightarrow> lo \<le> klo \<and> klo \<le> hi \<and> lo \<le> khi \<and> khi \<le> hi"
  "strikes_within lo hi (bear_put_spread khi klo q a b) \<longleftrightarrow> lo \<le> khi \<and> khi \<le> hi \<and> lo \<le> klo \<and> klo \<le> hi"
  "strikes_within lo hi (iron_condor pl ps cs cl q a b c d) \<longleftrightarrow>
     lo \<le> pl \<and> pl \<le> hi \<and> lo \<le> ps \<and> ps \<le> hi \<and> lo \<le> cs \<and> cs \<le> hi \<and> lo \<le> cl \<and> cl \<le> hi"
  "strikes_within lo hi \<lparr>os_name = nm, os_legs = [mk_leg ty ks sd q a, mk_leg ty' kl sd' q b]\<rparr> \<longleftrightarrow> lo \<le> ks \<and> ks \<le> hi \<and> lo \<le> kl \<and> kl \<le> hi"
  by (simp_all add: shape_defs)

lemma condor_strikes:
  assumes "paired ch" "nearest ch ''CE'' spot = Some atm" "0 \<le> w" "0 \<le> wing"
    and "nearest ch ''PE'' (atm - w) = Some ps" "nearest ch ''PE'' (atm - w - wing) = Some pl"
    and "nearest ch ''CE'' (atm + w) = Some cs" "nearest ch ''CE'' (atm + w + wing) = Some cl"
  shows "pl \<le> ps" "ps \<le> cs" "cs \<le> cl"
proof -
  show "pl \<le> ps" by (rule nearest_mono [OF assms(6,5)]) (use assms in simp)
  show "cs \<le> cl" by (rule nearest_mono [OF assms(7,8)]) (use assms in simp)
  have atm: "atm \<in> strikes_of ch ''CE''" "atm \<in> strikes_of ch ''PE''"
    using nearest_Some [OF assms(2)] assms(1) by (auto simp: paired_def)
  have "\<bar>ps - (atm - w)\<bar> \<le> \<bar>atm - (atm - w)\<bar>" "\<bar>cs - (atm + w)\<bar> \<le> \<bar>atm - (atm + w)\<bar>"
    using nearest_Some [OF assms(5)] nearest_Some [OF assms(7)] atm by blast+
  then show "ps \<le> cs" using assms(3) by linarith
qed

lemma selected_shape:
  assumes "select_structure fam ch spot lot step ws gs = Some st" "0 \<le> lot" "0 \<le> ws * step" "0 \<le> gs * step" "paired ch"
    and "strikes_within lo hi st"
  shows "covered_legs st \<and> ends_bound lo hi st"
proof -
  obtain atm where atm: "nearest ch ''CE'' spot = Some atm" using assms(1)
    by (auto simp: select_structure_def Let_def split: option.splits)
  consider (bc) "debit_call (strike_price ch ''CE'' atm) (strike_price ch ''CE'' (atm + ws * step)) lot = Some st"
    | (bp) "debit_put (strike_price ch ''PE'' atm) (strike_price ch ''PE'' (atm - ws * step)) lot = Some st"
    | (cp) "credit_put (strike_price ch ''PE'' (atm - ws * step)) (strike_price ch ''PE'' (atm - ws * step - gs * step)) lot = Some st"
    | (cc) "credit_call (strike_price ch ''CE'' (atm + ws * step)) (strike_price ch ''CE'' (atm + ws * step + gs * step)) lot = Some st"
    | (ic) "condor_of (strike_price ch ''PE'' (atm - ws * step)) (strike_price ch ''PE'' (atm - ws * step - gs * step))
        (strike_price ch ''CE'' (atm + ws * step)) (strike_price ch ''CE'' (atm + ws * step + gs * step)) lot = Some st"
    using assms(1) atm by (auto simp: select_structure_def Let_def split: if_splits)
  then show ?thesis
  proof cases
    case bc
    then obtain klo plo khi phi where "\<not> khi \<le> klo" "st = bull_call_spread klo khi lot plo phi"
      by (auto simp: debit_call_def simp del: not_le split: option.splits if_splits)
    then show ?thesis using assms(2,6) by (auto simp: covered_shapes within_shapes intro: ends_bound_spreads)
  next
    case bp
    then obtain klo plo khi phi where "\<not> khi \<le> klo" "st = bear_put_spread khi klo lot phi plo"
      by (auto simp: debit_put_def simp del: not_le split: option.splits if_splits)
    then show ?thesis using assms(2,6) by (auto simp: covered_shapes within_shapes intro: ends_bound_spreads)
  next
    case cp
    then obtain ks kl a b where "\<not> ks \<le> kl" "st = \<lparr>os_name = ''bull_put_credit'', os_legs = [mk_leg ''PE'' ks ''SELL'' lot a, mk_leg ''PE'' kl ''BUY'' lot b]\<rparr>"
      by (auto simp: credit_put_def simp del: not_le split: option.splits if_splits)
    then show ?thesis using assms(2,6) by (auto simp: covered_shapes within_shapes intro: ends_bound_spreads)
  next
    case cc
    then obtain ks kl a b where "\<not> kl \<le> ks" "st = \<lparr>os_name = ''bear_call_credit'', os_legs = [mk_leg ''CE'' ks ''SELL'' lot a, mk_leg ''CE'' kl ''BUY'' lot b]\<rparr>"
      by (auto simp: credit_call_def simp del: not_le split: option.splits if_splits)
    then show ?thesis using assms(2,6) by (auto simp: covered_shapes within_shapes intro: ends_bound_spreads)
  next
    case ic
    then obtain ps a pl b cs c cl d where k: "strike_price ch ''PE'' (atm - ws * step) = Some (ps, a)"
        "strike_price ch ''PE'' (atm - ws * step - gs * step) = Some (pl, b)" "strike_price ch ''CE'' (atm + ws * step) = Some (cs, c)"
        "strike_price ch ''CE'' (atm + ws * step + gs * step) = Some (cl, d)"
      and st: "st = iron_condor pl ps cs cl lot b a c d"
      by (auto simp: condor_of_def split: option.splits)
    note o = condor_strikes [OF assms(5) atm assms(3,4) k [THEN strike_price_nearest]]
    have "lo \<le> pl" "cl \<le> hi" using assms(6) by (simp_all add: st within_shapes)
    then show ?thesis using ends_bound_spreads(5) [OF assms(2) o] by (simp add: st covered_shapes)
  qed
qed

section \<open>Scaling and size\<close>

lemma scale_leg: "leg_payoff s (l\<lparr>ol_qty := ol_qty l * n\<rparr>) = map_option (\<lambda>v. v * of_int n) (leg_payoff s l)"
  by (simp add: leg_payoff_def leg_bought_def mult.assoc split: option.splits)

lemma scale_payoff:
  assumes "known_types st"
  shows "payoff_of (scale_structure st n) s = payoff_of st s * of_int n"
proof -
  have "\<And>l. l \<in> set (os_legs st) \<Longrightarrow> leg_payoff s l \<noteq> None"
    using assms by (auto simp: known_types_def list_all_iff leg_payoff_def intrinsic_raising_def)
  then have "map (\<lambda>l. the (map_option (\<lambda>v. v * of_int n) (leg_payoff s l))) (os_legs st)
      = map (\<lambda>l. the (leg_payoff s l) * of_int n) (os_legs st)"
    by (simp add: option.map_sel)
  from arg_cong [OF this, of sum_list] show ?thesis
    by (simp only: payoff_of_def scale_structure_def opt_structure.simps map_map comp_def scale_leg sum_list_mult_const)
qed

lemma scale_covered: "covered_legs st \<Longrightarrow> covered_legs (scale_structure st n)"
proof -
  have "sum_list (map (\<lambda>l. if ol_type l \<noteq> ty then 0 else if leg_bought l then ol_qty l else - ol_qty l)
          (map (\<lambda>l. l\<lparr>ol_qty := ol_qty l * n\<rparr>) ls))
      = sum_list (map (\<lambda>l. if ol_type l \<noteq> ty then 0 else if leg_bought l then ol_qty l else - ol_qty l) ls) * n" for ty ls
    by (induction ls) (simp_all add: leg_bought_def distrib_right)
  then have "net_legs ty (scale_structure st n) = net_legs ty st * n" for ty
    by (simp only: net_legs_def scale_structure_def opt_structure.simps)
  then show "covered_legs st \<Longrightarrow> covered_legs (scale_structure st n)"
    by (auto simp: covered_legs_def list_all_iff) (auto simp: scale_structure_def)
qed

lemma size_lots_bound:
  assumes "0 < ml" "1 \<le> size_lots R ml cf (Some x)" "0 \<le> x"
  shows "ml * of_int (size_lots R ml cf (Some x)) \<le> R \<and> ml * of_int (size_lots R ml cf (Some x)) \<le> x
    \<and> size_lots R ml cf (Some x) \<le> sc_max_lots cf"
proof -
  let ?n = "size_lots R ml cf (Some x)"
  have n: "?n \<le> \<lfloor>R / ml\<rfloor>" "?n \<le> \<lfloor>x / ml\<rfloor>" "?n \<le> sc_max_lots cf"
    using assms by (auto simp: size_lots_def Let_def max_def split: if_splits)
  have "of_int ?n \<le> R / ml" "of_int ?n \<le> x / ml" using n(1,2) by (simp_all add: le_floor_iff)
  then show ?thesis using assms(1) n(3) by (simp add: field_simps)
qed

lemma size_multiplier_unit:
  assumes "v < n"
  shows "size_multiplier p v n 0 \<le> 1"
  using assms by (auto simp: size_multiplier_def Let_def field_simps)

lemma share_le:
  fixes b c :: real
  assumes "0 < b * c" "0 \<le> c" "c \<le> 1"
  shows "b * c \<le> b"
proof -
  have "0 < b" using assms by (simp add: zero_less_mult_iff)
  then show ?thesis using assms by (simp add: mult_left_le)
qed

lemma budget_le: "0 < budget_R cf c \<Longrightarrow> budget_R cf c \<le> sc_capital cf * sc_per_trade_pct cf / 100"
  unfolding budget_R_def by (rule share_le) auto

section \<open>What an accepted decision went through\<close>

lemma refuse_not [simp]: "td_accepted (refuse r sig trail p) = False"
  by (simp add: refuse_def)

lemma decide_accepted:
  assumes "decide_lab erf c cf rs meta spiking = Some d" "td_accepted d"
  obtains fam st ml sig trail p mult where "select_structure fam (mx_chain c) (mx_spot c) (mx_lot_size c) (mx_step c)
      (dc_width_steps cf) (dc_wing_steps cf) = Some st"
    "one_lot_max_loss st (mx_spot c) = Some ml" "0 < ml"
    "size_and_check erf c cf rs sig trail p mult fam st ml = Some d"
proof -
  obtain passed trail where g: "run_hard_gates c (dc_gate cf) = (passed, trail)" by fastforce
  show ?thesis
    using assms unfolding decide_lab_def Let_def g prod.case
    by (auto split: if_splits option.splits intro: that)
qed

lemma size_and_check_accepted:
  assumes "size_and_check erf c cf rs sig trail p mult fam st ml = Some d" "td_accepted d" "0 < ml"
  shows "\<not> kill_switch_tripped rs \<and> can_add_position rs \<and> td_structure d = Some (scale_structure st (td_lots d)) \<and> 1 \<le> td_lots d
    \<and> td_max_loss d = ml * of_int (td_lots d) \<and> td_max_loss d \<le> td_sized_R d \<and> td_max_loss d \<le> portfolio_remaining_R rs
    \<and> td_sized_R d \<le> sc_capital (dc_sizing cf) * sc_per_trade_pct (dc_sizing cf) / 100 \<and> td_lots d \<le> sc_max_lots (dc_sizing cf)"
proof -
  let ?R = "budget_R (dc_sizing cf) (p * mult)" and ?x = "portfolio_remaining_R rs"
  let ?n = "size_lots ?R ml (dc_sizing cf) (Some ?x)"
  have "1 \<le> ?n \<and> \<not> kill_switch_tripped rs \<and> can_add_position rs \<and> td_structure d = Some (scale_structure st ?n) \<and> td_lots d = ?n
      \<and> td_max_loss d = ml * of_int ?n \<and> td_sized_R d = ?R"
    using assms unfolding size_and_check_def Let_def by (auto split: if_splits option.splits prod.splits)
  moreover have "0 \<le> ?x" by (simp add: portfolio_remaining_R_def)
  moreover have "0 < ?R" if "1 \<le> ?n"
  proof -
    have "0 < ml * of_int ?n" using that assms(3) by simp
    then show ?thesis using size_lots_bound [OF assms(3) that \<open>0 \<le> ?x\<close>] by linarith
  qed
  ultimately show ?thesis using size_lots_bound [OF assms(3)] budget_le [of "dc_sizing cf" "p * mult"] by auto
qed

lemma one_lot_bounds_payoff:
  assumes "one_lot_max_loss st spot = Some ml" "known_types st" "ends_bound (spot * (85/100)) (spot * (115/100)) st"
  shows "- ml \<le> payoff_of st s"
proof -
  obtain p where p: "profile st (spot * (85/100)) (spot * (115/100)) 600 = Some p" "ml = \<bar>min (pp_max_loss p) 0\<bar>"
    using assms(1) by (auto simp: one_lot_max_loss_def split: option.splits)
  have "pp_max_loss p \<le> payoff_of st s" by (rule profile_bounds_payoff [OF assms(2) _ p(1) assms(3)]) simp
  then show ?thesis using p(2) by linarith
qed

lemma scale_within: "strikes_within lo hi (scale_structure st n) = strikes_within lo hi st"
  by (simp add: strikes_within_def scale_structure_def list_all_iff)

section \<open>Properties\<close>


section \<open>The scenario gate is passed when it cannot bind\<close>

lemma between_terms:
  fixes a b x y :: real
  assumes "0 \<le> a" "0 \<le> b" "0 \<le> x" "x \<le> 1" "0 \<le> y" "y \<le> 1"
  shows "\<bar>a * x - b * y\<bar> \<le> a + b"
proof -
  have "0 \<le> a * x" "a * x \<le> a" "0 \<le> b * y" "b * y \<le> b" using assms by (simp_all add: mult_left_le)
  then show ?thesis by linarith
qed

lemma bs_price_bounded:
  assumes "erf_ok erf" "0 < S" "0 < K" "0 < t" "0 < sigma" "0 \<le> r"
  shows "\<exists>v. bs_price_raising erf S K t r sigma ty = Some v \<and> \<bar>v\<bar> \<le> S + K"
proof -
  have e: "0 \<le> K * exp (- r * t)" "K * exp (- r * t) \<le> K" using assms by (simp_all add: mult_left_le)
  have *: "\<bar>S * norm_cdf erf d - K * exp (- r * t) * norm_cdf erf d'\<bar> \<le> S + K" for d d'
    using between_terms [of S "K * exp (- r * t)" "norm_cdf erf d" "norm_cdf erf d'"] norm_cdf_bounds [OF assms(1)] e assms(2)
    by (meson add_left_mono less_imp_le order_trans)
  have pos: "\<not> S / K \<le> 0" "K \<noteq> 0" using divide_pos_pos [OF assms(2,3)] assms(3) by linarith+
  define d1 where "d1 = (ln (S / K) + (r + 1 / 2 * sigma * sigma) * t) / (sigma * sqrt t)"
  have "bs_price_raising erf S K t r sigma ty = Some (if ty = ''CE''
      then S * norm_cdf erf d1 - K * exp (- r * t) * norm_cdf erf (d1 - sigma * sqrt t)
      else K * exp (- r * t) * norm_cdf erf (- (d1 - sigma * sqrt t)) - S * norm_cdf erf (- d1))"
    using assms pos unfolding bs_price_raising_def Let_def d1_def by simp
  then show ?thesis using * [of d1 "d1 - sigma * sqrt t"] * [of "- d1" "- (d1 - sigma * sqrt t)"]
    by (simp add: abs_minus_commute)
qed

definition exposure :: "real \<Rightarrow> opt_leg \<Rightarrow> real" where
  "exposure S l = (S + ol_strike l + \<bar>ol_price l\<bar>) * of_int \<bar>ol_qty l\<bar>"

lemma leg_mtm_bounded:
  assumes "erf_ok erf" "0 < S" "0 < t" "0 < sigma" "0 \<le> r" "0 < ol_strike l" "ol_type l \<noteq> ''FUT''"
  shows "\<exists>v. leg_mtm erf S t r sigma l = Some v \<and> - exposure S l \<le> v"
proof -
  obtain v where v: "bs_price_raising erf S (ol_strike l) t r sigma (ol_type l) = Some v" "\<bar>v\<bar> \<le> S + ol_strike l"
    using bs_price_bounded [OF assms(1,2,6,3,4,5)] by blast
  let ?x = "if leg_bought l then v - ol_price l else ol_price l - v"
  have "\<bar>?x\<bar> \<le> S + ol_strike l + \<bar>ol_price l\<bar>" using v(2) by auto
  then have "\<bar>?x\<bar> * \<bar>of_int (ol_qty l)\<bar> \<le> (S + ol_strike l + \<bar>ol_price l\<bar>) * \<bar>of_int (ol_qty l)\<bar>" by (rule mult_right_mono) simp
  then have "\<bar>?x * of_int (ol_qty l)\<bar> \<le> exposure S l" by (simp add: abs_mult exposure_def)
  then show ?thesis using assms(7) v(1) by (auto simp: leg_mtm_def)
qed

lemma grid_point_bounded:
  assumes "erf_ok erf" "0 < spot" "0 < t" "0 \<le> r" "-1 < ds" "ds \<le> 1"
    and "\<And>l. l \<in> set (os_legs st) \<Longrightarrow> 0 < ol_strike l \<and> ol_type l \<noteq> ''FUT''"
  shows "\<exists>v. grid_point erf st spot t r iv (ds, dv) = Some v \<and> - sum_list (map (exposure (2 * spot)) (os_legs st)) \<le> v"
proof -
  let ?S = "spot * (1 + ds)" and ?g = "max (iv + dv) (1 / 10000)"
  have S: "0 < ?S" using assms by simp
  have "spot * (1 + ds) \<le> spot * 2" using assms by (intro mult_left_mono) auto
  then have le: "exposure ?S l \<le> exposure (2 * spot) l" for l unfolding exposure_def by (intro mult_right_mono) auto
  have "\<forall>l\<in>set (os_legs st). \<exists>v. leg_mtm erf ?S t r ?g l = Some v \<and> - exposure ?S l \<le> v"
    using leg_mtm_bounded [OF assms(1) S assms(3) _ assms(4)] assms(7) by auto
  then obtain f where f: "\<And>l. l \<in> set (os_legs st) \<Longrightarrow> leg_mtm erf ?S t r ?g l = Some (f l) \<and> - exposure ?S l \<le> f l" by metis
  have "sum_opt (map (leg_mtm erf ?S t r ?g) (os_legs st)) = Some (sum_list (map f (os_legs st)))"
    by (rule sum_opt_Some) (use f in blast)
  moreover have "sum_list (map (\<lambda>l. - exposure (2 * spot) l) (os_legs st)) \<le> sum_list (map f (os_legs st))"
    by (rule sum_list_mono) (smt (verit) f le)
  ultimately show ?thesis by (simp add: grid_point_def uminus_sum_list_map comp_def)
qed

lemma scenario_gate_slack:
  assumes "erf_ok erf" "0 < spot" "0 < t" "\<And>l. l \<in> set (os_legs st) \<Longrightarrow> 0 < ol_strike l \<and> ol_type l \<noteq> ''FUT''"
    and "sum_list (map (exposure (2 * spot)) (os_legs st)) \<le> \<bar>limit\<bar>"
  shows "\<exists>w. scenario_loss_ok erf st spot t iv limit = Some (True, w)"
proof -
  let ?ps = "List.product (linspace (-7/100) (7/100) 7) (linspace (-5/100) (10/100) 4)"
  have "\<forall>p\<in>set ?ps. \<exists>v. grid_point erf st spot t (65/1000) iv p = Some v \<and> - \<bar>limit\<bar> \<le> v"
  proof
    fix p assume "p \<in> set ?ps"
    then obtain ds dv where p: "p = (ds, dv)" "ds \<in> set (linspace (-7/100) (7/100) 7)" by auto
    have "- 7/100 \<le> ds \<and> ds \<le> 7/100" using linspace_within [OF _ _ p(2)] by simp
    then show "\<exists>v. grid_point erf st spot t (65/1000) iv p = Some v \<and> - \<bar>limit\<bar> \<le> v"
      using grid_point_bounded [OF assms(1-3), of "65/1000" ds st iv dv] assms(4,5) p(1) by force
  qed
  then obtain f where f: "\<And>p. p \<in> set ?ps \<Longrightarrow> grid_point erf st spot t (65/1000) iv p = Some (f p) \<and> - \<bar>limit\<bar> \<le> f p" by metis
  have g: "scenario_grid erf st spot t (65/1000) iv None None = Some (map f ?ps)"
    unfolding scenario_grid_def get_default_def option.case by (rule all_opt_Some) (use f in blast)
  have "?ps \<noteq> []" by (simp add: linspace_def upt_rec)
  then have "list_min (map f ?ps) \<in> f ` set ?ps" using list_min_in [of "map f ?ps"] by simp
  then have "- \<bar>limit\<bar> \<le> list_min (map f ?ps)" using f by auto
  then show ?thesis using g by (simp add: scenario_loss_ok_def)
qed

section \<open>A market\<close>

definition chain_of :: "(string \<times> real \<times> real) list \<Rightarrow> chain_row list" where
  "chain_of ks = map (\<lambda>(ty, k, p). \<lparr>ch_type = ty, ch_strike = k, ch_close = p, ch_oi = 9000, ch_volume = 500, ch_bid = p, ch_ask = p\<rparr>) ks"

definition demo_rows :: "chain_row list" where
  "demo_rows = chain_of [(''CE'', 900, 110), (''PE'', 900, 6), (''CE'', 1000, 40), (''PE'', 1000, 38), (''CE'', 1100, 10), (''PE'', 1100, 106)]"

definition demo_market :: market_context where
  "demo_market = \<lparr>mx_underlying = ''NIFTY'', mx_day = 7, mx_spot = 1000,
     mx_features = [''dma_dist_200'' \<mapsto> 3, ''macd_hist'' \<mapsto> 1, ''adx_14'' \<mapsto> 40, ''supertrend_dir'' \<mapsto> 1],
     mx_iv_rank = 20, mx_atm_iv = 15/100, mx_chain = demo_rows, mx_quoted = False, mx_dte = 7, mx_lot_size = 10, mx_step = 50, mx_events = []\<rparr>"

definition demo_decision_cfg :: decision_config where
  "demo_decision_cfg = \<lparr>dc_sizing = \<lparr>sc_capital = 100000, sc_per_trade_pct = 1, sc_max_lots = 20\<rparr>, dc_gate = default_gates,
     dc_width_steps = 2, dc_wing_steps = 2, dc_veto_below = 4/10, dc_neutral_above = 6/10, dc_loss_buffer = 1000\<rparr>"

definition demo_lab_state :: lab_risk_state where
  "demo_lab_state = \<lparr>lr_capital = 100000, lr_day_pnl = 0, lr_open_R = 0, lr_open_positions = 0, lr_daily_max_loss_pct = 3,
     lr_portfolio_limit_pct = 5, lr_max_concurrent = 5\<rparr>"

definition demo_lots :: "int \<Rightarrow> opt_structure" where
  "demo_lots n = bull_call_spread 1000 1100 (10 * n) 40 10"

lemma demo_selected:
  "select_structure ''bull_call_debit'' demo_rows 1000 10 50 2 2 = Some (demo_lots 1)"
  by (simp add: select_structure_def Let_def demo_rows_def chain_of_def nearest_def of_type_def strike_price_def price_of_def
      debit_call_def demo_lots_def)

lemma demo_one_lot: "one_lot_max_loss (demo_lots 1) 1000 = Some 300"
proof -
  have k: "known_types (demo_lots 1)" by (simp add: known_types_def demo_lots_def bull_call_spread_def mk_leg_def)
  obtain p where "profile (demo_lots 1) 850 1150 600 = Some p" "pp_max_loss p = - 300"
    by (rule profile_exact [OF k, of 600 850 1150 "- 300"]) (auto simp: demo_lots_def payoff_of_spreads max_def)
  then show ?thesis by (simp add: one_lot_max_loss_def)
qed

text \<open>The quantity of three lots passes every step with any error function.\<close>

lemma demo_accepted:
  assumes "erf_ok erf"
  obtains d where "decide_lab erf demo_market demo_decision_cfg demo_lab_state (Some 1) False = Some d" "td_accepted d"
    "td_structure d = Some (demo_lots 3)"
proof -
  have sig: "vs_direction (generate_signal demo_market) = ''bullish''"
    by (simp add: generate_signal_def Let_def feature_def demo_market_def side_points_def)
  have gates: "fst (run_hard_gates demo_market default_gates)"
    by (simp add: run_hard_gates_def Let_def demo_market_def demo_rows_def chain_of_def default_gates_def lesser_def atm_row_def of_type_def)
  have sc: "scale_structure (demo_lots 1) 3 = demo_lots 3"
    by (simp add: scale_structure_def demo_lots_def bull_call_spread_def mk_leg_def)
  have t: "0 < t_years demo_market" by (simp add: t_years_def)
  have "\<exists>w. scenario_loss_ok erf (demo_lots 3) 1000 (t_years demo_market) (15/100) 900000 = Some (True, w)"
    by (rule scenario_gate_slack [OF assms _ t])
      (auto simp: demo_lots_def bull_call_spread_def mk_leg_def exposure_def)
  then obtain w where w: "scenario_loss_ok erf (demo_lots 3) 1000 (t_years demo_market) (15/100) 900000 = Some (True, w)" by blast
  have lots: "size_lots 1000 300 (dc_sizing demo_decision_cfg) (Some 5000) = 3"
    by (simp add: size_lots_def Let_def demo_decision_cfg_def floor_divide_of_int_eq [of 1000 300, simplified]
        floor_divide_of_int_eq [of 5000 300, simplified])
  have sized: "\<exists>d. size_and_check erf demo_market demo_decision_cfg demo_lab_state sg tr 1 1 ''bull_call_debit'' (demo_lots 1) 300 = Some d
      \<and> td_accepted d \<and> td_structure d = Some (demo_lots 3)" for sg tr
    using w lots
    by (simp add: size_and_check_def Let_def budget_R_def portfolio_remaining_R_def demo_lab_state_def kill_switch_tripped_def
        can_add_position_def sc demo_market_def demo_decision_cfg_def)
  obtain passed trail where g: "run_hard_gates demo_market default_gates = (passed, trail)" by fastforce
  have "decide_lab erf demo_market demo_decision_cfg demo_lab_state (Some 1) False
      = size_and_check erf demo_market demo_decision_cfg demo_lab_state (generate_signal demo_market) trail 1 1 ''bull_call_debit'' (demo_lots 1) 300"
    using g gates sig demo_selected demo_one_lot
    by (simp add: decide_lab_def Let_def size_multiplier_def iv_regime_def route_def route_table_def demo_decision_cfg_def)
      (simp add: demo_market_def)
  then show ?thesis using sized [of "generate_signal demo_market" trail] that by auto
qed

lemma demo_paired: "paired demo_rows"
  by (auto simp: paired_def strikes_of_def demo_rows_def chain_of_def of_type_def)


text \<open>Outside the scanned range the budget does not hold. On a stock at 1000 with strikes every 50 the default widths
  put the bought wings of a condor twenty percent from the spot; the scan stops at fifteen, reports 3000 as the worst
  loss of a lot, and one lot is sized into a budget of 3000 although the structure loses 8000 at its wings.\<close>
theorem scan_understates_a_wide_condor:
  "let ch = chain_of [(''PE'', 800, 5), (''PE'', 900, 15), (''PE'', 1000, 40), (''CE'', 1000, 40), (''CE'', 1100, 15), (''CE'', 1200, 5)];
       st = iron_condor 800 900 1100 1200 100 5 15 15 5;
       cf = \<lparr>sc_capital = 300000, sc_per_trade_pct = 1, sc_max_lots = 20\<rparr>
   in select_structure ''iron_condor'' ch 1000 100 50 2 2 = Some st \<and> one_lot_max_loss st 1000 = Some 3000
      \<and> size_lots (budget_R cf 1) 3000 cf None = 1 \<and> budget_R cf 1 = 3000
      \<and> payoff_at st 800 = Some (- 8000) \<and> payoff_at st 1200 = Some (- 8000)"
proof -
  let ?st = "iron_condor 800 900 1100 1200 100 5 15 15 5"
  have k: "known_types ?st" by (simp add: known_types_def iron_condor_def mk_leg_def)
  have low: "- 3000 \<le> payoff_of ?st x" if "850 \<le> x" "x \<le> 1150" for x
  proof -
    define a b where "a = max (900 - x) 0" and "b = max (x - 1100) 0"
    have z: "max (800 - x) 0 = 0" "max (x - 1200) 0 = 0" using that by (simp_all add: max_def)
    have ab: "a + b \<le> 50" using that by (auto simp: a_def b_def max_def)
    have "payoff_of ?st x = (0 - a + 0 - b - 5 + 15 + 15 - 5) * of_int 100"
      unfolding payoff_of_spreads z a_def b_def by (rule refl)
    then show ?thesis using ab by simp
  qed
  have "payoff_of ?st 850 = - 3000" by (simp add: payoff_of_spreads)
  then obtain p where "profile ?st 850 1150 600 = Some p" "pp_max_loss p = - 3000"
    using profile_exact [OF k, of 600 850 1150 "- 3000"] low by force
  then have one: "one_lot_max_loss ?st 1000 = Some 3000" by (simp add: one_lot_max_loss_def)
  let ?ch = "chain_of [(''PE'', 800, 5), (''PE'', 900, 15), (''PE'', 1000, 40), (''CE'', 1000, 40), (''CE'', 1100, 15), (''CE'', 1200, 5)]"
  let ?cf = "\<lparr>sc_capital = 300000, sc_per_trade_pct = 1, sc_max_lots = 20\<rparr>"
  have "nearest ?ch ''CE'' 1000 = Some 1000" "strike_price ?ch ''PE'' 900 = Some (900, 15)" "strike_price ?ch ''PE'' 800 = Some (800, 5)"
    "strike_price ?ch ''CE'' 1100 = Some (1100, 15)" "strike_price ?ch ''CE'' 1200 = Some (1200, 5)"
    by (simp_all add: chain_of_def nearest_def of_type_def strike_price_def price_of_def)
  then have sel: "select_structure ''iron_condor'' ?ch 1000 100 50 2 2 = Some ?st"
    by (simp add: select_structure_def condor_of_def)
  have R: "budget_R ?cf 1 = 3000" by (simp add: budget_R_def)
  have n: "size_lots 3000 3000 ?cf None = 1" by (simp add: size_lots_def)
  have pay: "payoff_at ?st 800 = Some (- 8000)" "payoff_at ?st 1200 = Some (- 8000)"
    by (simp_all add: payoff_at_known [OF k] payoff_of_spreads)
  show ?thesis unfolding Let_def R by (intro conjI sel one n pay refl)
qed

end
