(* ===== verification/Indicators.thy ===== *)
theory Indicators
  imports Prelude
begin

text \<open>
  The indicator library, \<open>data/indicators.py\<close>. A series is a list with None where pandas has NaN; the candle
  columns themselves are numbers. \<open>rolling\<close>, \<open>ewm(adjust=False)\<close>, \<open>shift\<close>, \<open>diff\<close>, \<open>cumsum\<close> and \<open>replace(0, nan)\<close>
  are written out; an exponential mean skips a missing value and lets the weight of the old mean decay
  meanwhile. The index is the minute of the UTC clock.
\<close>

type_synonym series = "real option list"

record bar =
  ba_ts :: int
  ba_open :: real
  ba_high :: real
  ba_low :: real
  ba_close :: real
  ba_volume :: real
  ba_oi :: "real option"

section \<open>Series\<close>

definition op2 :: "(real \<Rightarrow> real \<Rightarrow> real) \<Rightarrow> real option \<Rightarrow> real option \<Rightarrow> real option" where
  "op2 f a b = (case (a, b) of (Some x, Some y) \<Rightarrow> Some (f x y) | _ \<Rightarrow> None)"

definition drop_zero :: "real option \<Rightarrow> real option" where
  "drop_zero x = (if x = Some 0 then None else x)"

definition rolling :: "nat \<Rightarrow> (real list \<Rightarrow> real) \<Rightarrow> real list \<Rightarrow> series" where
  "rolling n f xs = map (\<lambda>i. if i + 1 < n then None else Some (f (take n (drop (i + 1 - n) xs)))) [0..<length xs]"

definition mean :: "real list \<Rightarrow> real" where
  "mean xs = sum_list xs / of_nat (length xs)"

text \<open>The mean so far, None before the first value, and the weight it has kept.\<close>

fun ewm_from :: "real \<Rightarrow> real option \<Rightarrow> real \<Rightarrow> series \<Rightarrow> series" where
  "ewm_from \<alpha> avg w [] = []"
| "ewm_from \<alpha> None w (x # xs) = x # ewm_from \<alpha> x 1 xs"
| "ewm_from \<alpha> (Some a) w (None # xs) = Some a # ewm_from \<alpha> (Some a) (w * (1 - \<alpha>)) xs"
| "ewm_from \<alpha> (Some a) w (Some v # xs) =
    (let w' = w * (1 - \<alpha>); a' = (w' * a + \<alpha> * v) / (w' + \<alpha>) in Some a' # ewm_from \<alpha> (Some a') 1 xs)"

definition ewm :: "real \<Rightarrow> series \<Rightarrow> series" where
  "ewm \<alpha> xs = ewm_from \<alpha> None 1 xs"

definition span_alpha :: "nat \<Rightarrow> real" where
  "span_alpha n = 2 / (of_nat n + 1)"

definition cumsum :: "real list \<Rightarrow> real list" where
  "cumsum xs = map (\<lambda>i. sum_list (take (i + 1) xs)) [0..<length xs]"

definition diffs :: "real list \<Rightarrow> series" where
  "diffs xs = (case xs of [] \<Rightarrow> [] | _ \<Rightarrow> None # map2 (\<lambda>a b. Some (b - a)) xs (tl xs))"

section \<open>Indicators\<close>

definition sma :: "real list \<Rightarrow> nat \<Rightarrow> series" where
  "sma xs n = rolling n mean xs"

definition ema :: "real list \<Rightarrow> nat \<Rightarrow> series" where
  "ema xs n = ewm (span_alpha n) (map Some xs)"

definition dma_200 :: "real list \<Rightarrow> series" where
  "dma_200 xs = sma xs 200"

definition true_range :: "bar \<Rightarrow> real option \<Rightarrow> real" where
  "true_range b prev = (case prev of None \<Rightarrow> ba_high b - ba_low b
     | Some p \<Rightarrow> max (max (ba_high b - ba_low b) \<bar>ba_high b - p\<bar>) \<bar>ba_low b - p\<bar>)"

definition true_ranges :: "bar list \<Rightarrow> real list" where
  "true_ranges bs = map2 true_range bs (None # map (Some \<circ> ba_close) bs)"

definition atr :: "bar list \<Rightarrow> nat \<Rightarrow> series" where
  "atr bs n = ewm (1 / of_nat n) (map Some (true_ranges bs))"

text \<open>A directional move counts when it is the larger one and positive; the first bar has none.\<close>

definition directional :: "(real \<Rightarrow> real \<Rightarrow> real) \<Rightarrow> bar list \<Rightarrow> real list" where
  "directional f bs = (case bs of [] \<Rightarrow> []
     | _ \<Rightarrow> 0 # map2 (\<lambda>a b. f (ba_high b - ba_high a) (ba_low a - ba_low b)) bs (tl bs))"

definition plus_dm :: "bar list \<Rightarrow> real list" where
  "plus_dm = directional (\<lambda>up down. if up > down \<and> up > 0 then up else 0)"

definition minus_dm :: "bar list \<Rightarrow> real list" where
  "minus_dm = directional (\<lambda>up down. if down > up \<and> down > 0 then down else 0)"

record adx_frame =
  ax_adx :: series
  ax_plus :: series
  ax_minus :: series

definition adx :: "bar list \<Rightarrow> nat \<Rightarrow> adx_frame" where
  "adx bs n = (let \<alpha> = 1 / of_nat n; tr = map drop_zero (atr bs n);
      plus = map2 (op2 (\<lambda>x y. 100 * x / y)) (ewm \<alpha> (map Some (plus_dm bs))) tr;
      minus = map2 (op2 (\<lambda>x y. 100 * x / y)) (ewm \<alpha> (map Some (minus_dm bs))) tr;
      dx = map2 (\<lambda>p m. op2 (\<lambda>x y. x / y) (op2 (\<lambda>x y. 100 * \<bar>x - y\<bar>) p m) (drop_zero (op2 (+) p m))) plus minus
    in \<lparr>ax_adx = ewm \<alpha> dx, ax_plus = plus, ax_minus = minus\<rparr>)"

definition rsi :: "real list \<Rightarrow> nat \<Rightarrow> series" where
  "rsi closes n = (let \<alpha> = 1 / of_nat n; delta = diffs closes;
      gain = ewm \<alpha> (map (map_option (\<lambda>d. max d 0)) delta);
      loss = ewm \<alpha> (map (map_option (\<lambda>d. - min d 0)) delta);
      rs = map2 (\<lambda>g l. op2 (/) g (drop_zero l)) gain loss
    in map (map_option (\<lambda>x. 100 - 100 / (1 + x))) rs)"

definition rvol :: "real list \<Rightarrow> nat \<Rightarrow> series" where
  "rvol vs n = map2 (\<lambda>v a. op2 (/) (Some v) (drop_zero a)) vs (sma vs n)"

definition typical :: "bar \<Rightarrow> real" where
  "typical b = (ba_high b + ba_low b + ba_close b) / 3"

definition vwap :: "bar list \<Rightarrow> series" where
  "vwap bs = map2 (\<lambda>pv v. op2 (/) (Some pv) (drop_zero (Some v)))
     (cumsum (map (\<lambda>b. typical b * ba_volume b) bs)) (cumsum (map ba_volume bs))"

definition utc_day :: "bar \<Rightarrow> int" where
  "utc_day b = ba_ts b div 1440"

text \<open>Grouped by the day of the index: a bar's group so far is every earlier bar of its day.\<close>

definition session_so_far :: "bar list \<Rightarrow> nat \<Rightarrow> bar list" where
  "session_so_far bs i = filter (\<lambda>b. utc_day b = utc_day (bs ! i)) (take (i + 1) bs)"

definition session_vwap :: "bar list \<Rightarrow> series" where
  "session_vwap bs = map (\<lambda>i. let g = session_so_far bs i in
     op2 (/) (Some (sum_list (map (\<lambda>b. typical b * ba_volume b) g))) (drop_zero (Some (sum_list (map ba_volume g))))) [0..<length bs]"

record macd_frame =
  mf_macd :: series
  mf_signal :: series
  mf_hist :: series

definition macd :: "real list \<Rightarrow> nat \<Rightarrow> nat \<Rightarrow> nat \<Rightarrow> macd_frame" where
  "macd closes fast slow sig = (let line = map2 (op2 (-)) (ema closes fast) (ema closes slow); s = ewm (span_alpha sig) line
     in \<lparr>mf_macd = line, mf_signal = s, mf_hist = map2 (op2 (-)) line s\<rparr>)"

definition population_std :: "real list \<Rightarrow> real" where
  "population_std xs = sqrt (mean (map (\<lambda>x. (x - mean xs)\<^sup>2) xs))"

record band_frame =
  bf_mid :: series
  bf_upper :: series
  bf_lower :: series

definition bollinger :: "real list \<Rightarrow> nat \<Rightarrow> real \<Rightarrow> band_frame" where
  "bollinger closes n k = (let mid = sma closes n; sd = rolling n population_std closes
     in \<lparr>bf_mid = mid, bf_upper = map2 (op2 (\<lambda>m s. m + k * s)) mid sd, bf_lower = map2 (op2 (\<lambda>m s. m - k * s)) mid sd\<rparr>)"

definition highest :: "real list \<Rightarrow> real" where
  "highest xs = foldl max (hd xs) xs"

definition lowest :: "real list \<Rightarrow> real" where
  "lowest xs = foldl min (hd xs) xs"

definition donchian :: "bar list \<Rightarrow> nat \<Rightarrow> band_frame" where
  "donchian bs n = (let up = rolling n highest (map ba_high bs); lo = rolling n lowest (map ba_low bs)
     in \<lparr>bf_mid = map2 (op2 (\<lambda>u l. (u + l) / 2)) up lo, bf_upper = up, bf_lower = lo\<rparr>)"

record st_state =
  ss_upper :: real
  ss_lower :: real
  ss_line :: real
  ss_direction :: int

text \<open>One bar of the SuperTrend: the basic bands, the close and the close before.\<close>

definition st_step :: "real \<Rightarrow> real \<Rightarrow> real \<Rightarrow> real \<Rightarrow> st_state \<Rightarrow> st_state" where
  "st_step up lo close prev s =
    (let fu = (if up < ss_upper s \<or> prev > ss_upper s then up else ss_upper s);
         fl = (if lo > ss_lower s \<or> prev < ss_lower s then lo else ss_lower s);
         line = (if ss_line s = ss_upper s then (if close > fu then fl else fu) else (if close < fl then fu else fl))
     in \<lparr>ss_upper = fu, ss_lower = fl, ss_line = line, ss_direction = (if line = fl then 1 else -1)\<rparr>)"

fun st_run :: "(real \<times> real \<times> real) list \<Rightarrow> real \<Rightarrow> st_state \<Rightarrow> st_state list" where
  "st_run [] prev s = []"
| "st_run ((up, lo, close) # rest) prev s = (let s' = st_step up lo close prev s in s' # st_run rest close s')"

definition supertrend :: "bar list \<Rightarrow> nat \<Rightarrow> real \<Rightarrow> st_state list" where
  "supertrend bs n k =
    (let rows = map2 (\<lambda>b a. ((ba_high b + ba_low b) / 2 + k * get_default a 0, (ba_high b + ba_low b) / 2 - k * get_default a 0, ba_close b))
                  bs (atr bs n)
     in case rows of [] \<Rightarrow> []
     | (up, lo, close) # rest \<Rightarrow> let s0 = \<lparr>ss_upper = up, ss_lower = lo, ss_line = up, ss_direction = -1\<rparr> in s0 # st_run rest close s0)"

definition anchored_vwap :: "bar list \<Rightarrow> int \<Rightarrow> series" where
  "anchored_vwap bs anchor = vwap (filter (\<lambda>b. anchor \<le> ba_ts b) bs)"

record core_frame =
  co_ema9 :: series
  co_ema20 :: series
  co_sma50 :: series
  co_sma200 :: series
  co_rsi14 :: series
  co_atr14 :: series
  co_rvol20 :: series
  co_vwap :: series
  co_bands :: band_frame
  co_trend :: "st_state list"
  co_macd_hist :: series

definition add_core_indicators :: "bar list \<Rightarrow> bool \<Rightarrow> core_frame" where
  "add_core_indicators bs intraday = (let c = map ba_close bs in
    \<lparr>co_ema9 = ema c 9, co_ema20 = ema c 20, co_sma50 = sma c 50, co_sma200 = sma c 200, co_rsi14 = rsi c 14, co_atr14 = atr bs 14,
     co_rvol20 = rvol (map ba_volume bs) 20, co_vwap = (if intraday then session_vwap bs else vwap bs), co_bands = bollinger c 20 2,
     co_trend = supertrend bs 10 3, co_macd_hist = mf_hist (macd c 12 26 9)\<rparr>)"

section \<open>Bounds of the means\<close>

definition in_range :: "real \<Rightarrow> real \<Rightarrow> series \<Rightarrow> bool" where
  "in_range lo hi xs \<longleftrightarrow> (\<forall>x\<in>set xs. case x of None \<Rightarrow> True | Some v \<Rightarrow> lo \<le> v \<and> v \<le> hi)"

lemma in_range_simps [simp]:
  "in_range lo hi []" "in_range lo hi (None # xs) = in_range lo hi xs"
  "in_range lo hi (Some v # xs) \<longleftrightarrow> lo \<le> v \<and> v \<le> hi \<and> in_range lo hi xs"
  by (auto simp: in_range_def)

lemma mix_between:
  fixes a v w \<alpha> :: real
  assumes "0 < \<alpha>" "0 \<le> w" "lo \<le> a" "a \<le> hi" "lo \<le> v" "v \<le> hi"
  shows "lo \<le> (w * a + \<alpha> * v) / (w + \<alpha>) \<and> (w * a + \<alpha> * v) / (w + \<alpha>) \<le> hi"
proof -
  have p: "0 \<le> \<alpha>" using assms(1) by simp
  have "lo * (w + \<alpha>) = w * lo + \<alpha> * lo" "hi * (w + \<alpha>) = w * hi + \<alpha> * hi" by (simp_all add: algebra_simps)
  then have "lo * (w + \<alpha>) \<le> w * a + \<alpha> * v" "w * a + \<alpha> * v \<le> hi * (w + \<alpha>)"
    using mult_left_mono [OF assms(3,2)] mult_left_mono [OF assms(4,2)] mult_left_mono [OF assms(5) p] mult_left_mono [OF assms(6) p]
    by linarith+
  then show ?thesis using assms by (simp add: pos_le_divide_eq pos_divide_le_eq)
qed

lemma ewm_from_range:
  "0 < \<alpha> \<Longrightarrow> \<alpha> \<le> 1 \<Longrightarrow> in_range lo hi xs \<Longrightarrow> 0 \<le> w \<Longrightarrow> (\<And>a. avg = Some a \<Longrightarrow> lo \<le> a \<and> a \<le> hi) \<Longrightarrow> in_range lo hi (ewm_from \<alpha> avg w xs)"
proof (induction \<alpha> avg w xs rule: ewm_from.induct)
  case (2 \<alpha> w x xs)
  then show ?case by (cases x) auto
next
  case (4 \<alpha> a w v xs)
  have "0 \<le> w * (1 - \<alpha>)" using 4 by simp
  then show ?case using 4 mix_between [of \<alpha> "w * (1 - \<alpha>)" lo a hi v] by (auto simp: Let_def)
qed auto

lemma ewm_range: "0 < \<alpha> \<Longrightarrow> \<alpha> \<le> 1 \<Longrightarrow> in_range lo hi xs \<Longrightarrow> in_range lo hi (ewm \<alpha> xs)"
  unfolding ewm_def by (rule ewm_from_range) auto

definition all_at_least :: "real \<Rightarrow> series \<Rightarrow> bool" where
  "all_at_least lo xs \<longleftrightarrow> (\<forall>v. Some v \<in> set xs \<longrightarrow> lo \<le> v)"

lemma all_at_least_range: "all_at_least lo xs \<longleftrightarrow> (\<exists>hi. in_range lo hi xs)"
proof
  assume a: "all_at_least lo xs"
  let ?hi = "Max (insert lo {v. Some v \<in> set xs})"
  have "{v. Some v \<in> set xs} = the ` {x \<in> set xs. x \<noteq> None}" by force
  then have "finite {v. Some v \<in> set xs}" by simp
  then have "in_range lo ?hi xs" using a by (auto simp: in_range_def all_at_least_def split: option.splits intro!: Max_ge)
  then show "\<exists>hi. in_range lo hi xs" by blast
next
  assume "\<exists>hi. in_range lo hi xs"
  then show "all_at_least lo xs" by (force simp: in_range_def all_at_least_def split: option.splits)
qed

lemma ewm_at_least: "0 < \<alpha> \<Longrightarrow> \<alpha> \<le> 1 \<Longrightarrow> all_at_least lo xs \<Longrightarrow> all_at_least lo (ewm \<alpha> xs)"
  unfolding all_at_least_range using ewm_range by blast

lemma in_rangeD: "in_range lo hi xs \<Longrightarrow> Some v \<in> set xs \<Longrightarrow> lo \<le> v \<and> v \<le> hi"
  by (force simp: in_range_def)

lemma in_rangeI: "(\<And>v. Some v \<in> set xs \<Longrightarrow> lo \<le> v \<and> v \<le> hi) \<Longrightarrow> in_range lo hi xs"
  by (auto simp: in_range_def split: option.splits)

lemma map_option_Some: "Some v \<in> set (map (map_option f) xs) \<Longrightarrow> \<exists>r. Some r \<in> set xs \<and> v = f r"
  by (auto simp: Some_eq_map_option_iff)

lemma op2_Some: "op2 f a b = Some v \<longleftrightarrow> (\<exists>x y. a = Some x \<and> b = Some y \<and> v = f x y)"
  by (auto simp: op2_def split: option.splits)

lemma drop_zero_Some: "drop_zero a = Some v \<longleftrightarrow> a = Some v \<and> v \<noteq> 0"
  by (auto simp: drop_zero_def)

lemma map2_Some: "Some v \<in> set (map2 f xs ys) \<Longrightarrow> \<exists>x\<in>set xs. \<exists>y\<in>set ys. f x y = Some v"
  by (metis (no_types, lifting) imageE list.set_map prod.collapse set_zip_leftD set_zip_rightD split_beta)

lemma length_ewm_from: "length (ewm_from \<alpha> a w xs) = length xs"
  by (induction \<alpha> a w xs rule: ewm_from.induct) (simp_all add: Let_def)

lemma length_ewm [simp]: "length (ewm \<alpha> xs) = length xs"
  by (simp add: ewm_def length_ewm_from)

section \<open>The oscillators\<close>

lemma directional_at_least:
  assumes "\<And>u d. 0 \<le> f u d"
  shows "all_at_least 0 (map Some (directional f bs))"
  using assms by (cases bs) (auto simp: all_at_least_def directional_def)

lemma true_range_nonneg: "ba_low b \<le> ba_high b \<Longrightarrow> 0 \<le> true_range b p"
  by (auto simp: true_range_def split: option.splits intro: order_trans [of _ "ba_high b - ba_low b"])

lemma atr_nonneg:
  assumes "\<forall>b\<in>set bs. ba_low b \<le> ba_high b" "0 < n"
  shows "all_at_least 0 (atr bs n)"
proof -
  have "all_at_least 0 (map Some (true_ranges bs))"
    using assms(1) true_range_nonneg by (auto simp: all_at_least_def true_ranges_def dest: set_zip_leftD)
  then show ?thesis unfolding atr_def using assms(2) by (intro ewm_at_least) auto
qed

lemma at_leastD: "all_at_least lo xs \<Longrightarrow> Some v \<in> set xs \<Longrightarrow> lo \<le> v"
  by (simp add: all_at_least_def)

lemma di_at_least:
  assumes "all_at_least 0 es" "all_at_least 0 ts"
  shows "all_at_least 0 (map2 (op2 (\<lambda>x y. 100 * x / y)) es (map drop_zero ts))"
  unfolding all_at_least_def
proof (intro allI impI)
  fix v assume "Some v \<in> set (map2 (op2 (\<lambda>x y. 100 * x / y)) es (map drop_zero ts))"
  from map2_Some [OF this] obtain e t where "e \<in> set es" "t \<in> set ts" "op2 (\<lambda>x y. 100 * x / y) e (drop_zero t) = Some v"
    by auto
  then obtain x y where "Some x \<in> set es" "Some y \<in> set ts" "v = 100 * x / y" by (auto simp: op2_Some drop_zero_Some)
  then show "0 \<le> v" using at_leastD [OF assms(1)] at_leastD [OF assms(2)] by simp
qed

lemma quotient_at_least:
  assumes "all_at_least 0 es" "all_at_least 0 ts"
  shows "all_at_least 0 (map2 (\<lambda>g l. op2 (/) g (drop_zero l)) es ts)"
  unfolding all_at_least_def
proof (intro allI impI)
  fix v assume "Some v \<in> set (map2 (\<lambda>g l. op2 (/) g (drop_zero l)) es ts)"
  from map2_Some [OF this] obtain e t where "e \<in> set es" "t \<in> set ts" "op2 (/) e (drop_zero t) = Some v" by auto
  then obtain x y where "Some x \<in> set es" "Some y \<in> set ts" "v = x / y" by (auto simp: op2_Some drop_zero_Some)
  then show "0 \<le> v" using at_leastD [OF assms(1)] at_leastD [OF assms(2)] by simp
qed

lemma dx_range:
  assumes "all_at_least 0 ps" "all_at_least 0 ms"
  shows "in_range 0 100 (map2 (\<lambda>p m. op2 (\<lambda>x y. x / y) (op2 (\<lambda>x y. 100 * \<bar>x - y\<bar>) p m) (drop_zero (op2 (+) p m))) ps ms)"
proof (rule in_rangeI)
  fix v assume "Some v \<in> set (map2 (\<lambda>p m. op2 (\<lambda>x y. x / y) (op2 (\<lambda>x y. 100 * \<bar>x - y\<bar>) p m) (drop_zero (op2 (+) p m))) ps ms)"
  from map2_Some [OF this] obtain p m where "p \<in> set ps" "m \<in> set ms"
    "op2 (\<lambda>x y. x / y) (op2 (\<lambda>x y. 100 * \<bar>x - y\<bar>) p m) (drop_zero (op2 (+) p m)) = Some v"
    by auto
  then obtain x y where xy: "Some x \<in> set ps" "Some y \<in> set ms" "v = 100 * \<bar>x - y\<bar> / (x + y)" "x + y \<noteq> 0"
    by (auto simp: op2_Some drop_zero_Some)
  have "0 \<le> x" "0 \<le> y" using at_leastD [OF assms(1) xy(1)] at_leastD [OF assms(2) xy(2)] by simp_all
  moreover from this have "\<bar>x - y\<bar> \<le> x + y" "0 < x + y" using xy(4) by linarith+
  ultimately show "0 \<le> v \<and> v \<le> 100" using xy(3) by (simp add: pos_divide_le_eq)
qed

lemma adx_in_range:
  assumes "\<forall>b\<in>set bs. ba_low b \<le> ba_high b" "0 < n"
  shows "in_range 0 100 (ax_adx (adx bs n)) \<and> all_at_least 0 (ax_plus (adx bs n)) \<and> all_at_least 0 (ax_minus (adx bs n))"
proof -
  let ?\<alpha> = "1 / of_nat n :: real"
  have \<alpha>: "0 < ?\<alpha>" "?\<alpha> \<le> 1" using assms(2) by simp_all
  have p: "all_at_least 0 (ewm ?\<alpha> (map Some (plus_dm bs)))"
    unfolding plus_dm_def by (intro ewm_at_least [OF \<alpha>] directional_at_least) auto
  have m: "all_at_least 0 (ewm ?\<alpha> (map Some (minus_dm bs)))"
    unfolding minus_dm_def by (intro ewm_at_least [OF \<alpha>] directional_at_least) auto
  note t = atr_nonneg [OF assms]
  show ?thesis unfolding adx_def Let_def adx_frame.simps
    by (intro conjI ewm_range [OF \<alpha>] dx_range di_at_least p m t)
qed

lemma rsi_in_range:
  assumes "0 < n"
  shows "in_range 0 100 (rsi closes n)"
proof (rule in_rangeI)
  fix v assume v: "Some v \<in> set (rsi closes n)"
  let ?\<alpha> = "1 / of_nat n :: real"
  have \<alpha>: "0 < ?\<alpha>" "?\<alpha> \<le> 1" using assms by simp_all
  have g: "all_at_least 0 (ewm ?\<alpha> (map (map_option (\<lambda>d. max d 0)) (diffs closes)))"
    and l: "all_at_least 0 (ewm ?\<alpha> (map (map_option (\<lambda>d. - min d 0)) (diffs closes)))"
    by (intro ewm_at_least [OF \<alpha>]; auto simp: all_at_least_def Some_eq_map_option_iff)+
  from map_option_Some [OF v [unfolded rsi_def Let_def]]
  obtain r where r: "v = 100 - 100 / (1 + r)" and s: "Some r \<in> set (map2 (\<lambda>g l. op2 (/) g (drop_zero l))
      (ewm ?\<alpha> (map (map_option (\<lambda>d. max d 0)) (diffs closes))) (ewm ?\<alpha> (map (map_option (\<lambda>d. - min d 0)) (diffs closes))))"
    by blast
  have "0 \<le> r" by (rule at_leastD [OF quotient_at_least [OF g l] s])
  then have "0 \<le> 100 / (1 + r)" "100 / (1 + r) \<le> 100" by (simp_all add: pos_divide_le_eq)
  then show "0 \<le> v \<and> v \<le> 100" using r by simp
qed

lemma no_quotient: "in_range 0 0 ls \<Longrightarrow> map2 (\<lambda>g l. op2 (/) g (drop_zero l)) gs ls = replicate (min (length gs) (length ls)) None"
proof (induction gs arbitrary: ls)
  case (Cons g gs)
  then show ?case by (cases ls; cases "hd ls") (auto simp: op2_def drop_zero_def split: option.splits)
qed simp

section \<open>Properties\<close>



text \<open>The relative strength index is undefined exactly where the textbook value is 100: over closes that never fall
  the average loss is zero, it is replaced by a missing value, and so is every entry of the index.\<close>
theorem rsi_is_undefined_in_a_rise:
  assumes "sorted closes" "0 < n"
  shows "rsi closes n = replicate (length closes) None"
proof -
  let ?\<alpha> = "1 / of_nat n :: real"
  have \<alpha>: "0 < ?\<alpha>" "?\<alpha> \<le> 1" using assms(2) by simp_all
  let ?loss = "ewm ?\<alpha> (map (map_option (\<lambda>d. - min d 0)) (diffs closes))"
  have "\<And>d. Some d \<in> set (diffs closes) \<Longrightarrow> 0 \<le> d"
    using assms(1) by (cases closes) (auto simp: diffs_def set_zip nth_Cons' sorted_iff_nth_mono split: list.splits)
  then have "in_range 0 0 (map (map_option (\<lambda>d. - min d 0)) (diffs closes))"
    by (intro in_rangeI) (auto simp: Some_eq_map_option_iff)
  then have z: "in_range 0 0 ?loss" by (rule ewm_range [OF \<alpha>])
  have "length (diffs closes) = length closes" by (cases closes) (simp_all add: diffs_def)
  then show ?thesis unfolding rsi_def Let_def no_quotient [OF z] by simp
qed

theorem rsi_is_undefined_in_a_rise_witness: "rsi [100, 101, 103, 107] 14 = [None, None, None, None]"
  using rsi_is_undefined_in_a_rise [of "[100, 101, 103, 107]" 14] by (simp add: numeral_eq_Suc)

end
