(* ===== verification/Market_Reads.thy ===== *)
theory Market_Reads
  imports Indicators
begin

text \<open>
  Reads of the market: breadth (\<open>data/breadth.py\<close>), the open-interest matrix (\<open>data/oi.py\<close>), dealer gamma
  (\<open>data/gex.py\<close>), the imbalance of the book (\<open>data/orderflow.py\<close>) and the volume profile
  (\<open>data/volume_profile.py\<close>). Volumes are not negative, as the exchange reports them.
\<close>

section \<open>Breadth\<close>

record breadth =
  br_advances :: nat
  br_declines :: nat
  br_flat :: nat
  br_total :: nat
  br_ad_ratio :: real
  br_adv_pct :: real
  br_bias :: string

definition classify_breadth :: "real list \<Rightarrow> real \<Rightarrow> breadth" where
  "classify_breadth changes eps =
    (let adv = length (filter (\<lambda>c. c > eps) changes); dec = length (filter (\<lambda>c. c < - eps) changes); total = length changes
     in \<lparr>br_advances = adv, br_declines = dec, br_flat = total - adv - dec, br_total = total,
         br_ad_ratio = (if dec \<noteq> 0 then py_round 2 (of_nat adv / of_nat dec) else of_nat adv),
         br_adv_pct = (if total \<noteq> 0 then py_round 1 (of_nat adv / of_nat total * 100) else 0),
         br_bias = (if of_nat adv > (of_nat dec * (3/2) :: real) then ''bullish''
                    else if of_nat dec > (of_nat adv * (3/2) :: real) then ''bearish'' else ''neutral'')\<rparr>)"

text \<open>The last two daily candles of each token; a token without two, or whose loading raises, is left out.\<close>

definition day_change :: "bar list option \<Rightarrow> real list" where
  "day_change bs = (case bs of None \<Rightarrow> [] | Some b \<Rightarrow>
     (case rev (map ba_close b) of c # p # _ \<Rightarrow> if p \<noteq> 0 then [(c - p) / p * 100] else [] | _ \<Rightarrow> []))"

definition market_breadth :: "(int \<Rightarrow> bar list option) \<Rightarrow> int list \<Rightarrow> breadth" where
  "market_breadth load tokens = classify_breadth (concat (map (\<lambda>t. if t = 0 then [] else day_change (load t)) tokens)) 0"

section \<open>Open interest\<close>

definition default_matrix :: "(string \<times> string) list" where
  "default_matrix = [(''price_up_oi_up'', ''long_buildup_bullish''), (''price_down_oi_up'', ''short_buildup_bearish''),
     (''price_up_oi_down'', ''short_covering''), (''price_down_oi_down'', ''long_unwinding'')]"

definition classify_buildup :: "real \<Rightarrow> real \<Rightarrow> (string \<rightharpoonup> string) \<Rightarrow> real \<Rightarrow> string" where
  "classify_buildup pc oc matrix eps =
    (let m = (\<lambda>k. get_default (matrix k) (get_default (map_of default_matrix k) []))
     in if \<bar>pc\<bar> \<le> eps \<or> \<bar>oc\<bar> \<le> eps then ''neutral''
        else if pc > 0 \<and> oc > 0 then m ''price_up_oi_up'' else if pc < 0 \<and> oc > 0 then m ''price_down_oi_up''
        else if pc > 0 \<and> oc < 0 then m ''price_up_oi_down'' else m ''price_down_oi_down'')"

definition buildup_bias :: "string \<Rightarrow> string" where
  "buildup_bias label = (if label = ''long_buildup_bullish'' \<or> label = ''short_covering'' then ''bullish''
     else if label = ''short_buildup_bearish'' \<or> label = ''long_unwinding'' then ''bearish'' else ''neutral'')"

section \<open>Dealer gamma\<close>

record gamma_row =
  gr_strike :: real
  gr_call :: "(real option \<times> real option) option"
  gr_put :: "(real option \<times> real option) option"

record gex_read =
  gx_net :: real
  gx_regime :: string
  gx_by_strike :: "(real \<times> real) list"
  gx_call_wall :: "real option"
  gx_put_wall :: "real option"
  gx_flip :: "real option"

definition leg_gex :: "(real option \<times> real option) option \<Rightarrow> real \<Rightarrow> real \<Rightarrow> real" where
  "leg_gex leg spot csize = (case leg of None \<Rightarrow> 0
     | Some (gamma, oi) \<Rightarrow> get_default gamma 0 * get_default oi 0 * csize * spot * spot * (1/100))"

definition strike_gex :: "real \<Rightarrow> real \<Rightarrow> gamma_row \<Rightarrow> real" where
  "strike_gex spot csize r = leg_gex (gr_call r) spot csize + - leg_gex (gr_put r) spot csize"

fun gamma_flip_from :: "real \<Rightarrow> bool \<Rightarrow> (real \<times> real) list \<Rightarrow> real option" where
  "gamma_flip_from cum first [] = None"
| "gamma_flip_from cum first ((k, g) # rest) =
    (let c = cum + g in if \<not> first \<and> (cum < 0 \<and> 0 \<le> c \<or> cum > 0 \<and> 0 \<ge> c) then Some k else gamma_flip_from c False rest)"

definition gamma_flip :: "(real \<times> real) list \<Rightarrow> real option" where
  "gamma_flip rows = gamma_flip_from 0 True rows"

text \<open>\<open>max\<close> and \<open>min\<close> with a key keep the first of equals.\<close>

definition first_best :: "(real \<Rightarrow> real \<Rightarrow> bool) \<Rightarrow> (real \<times> real) list \<Rightarrow> real option" where
  "first_best better rows = (case rows of [] \<Rightarrow> None
     | r # rs \<Rightarrow> Some (fst (foldl (\<lambda>b x. if better (snd x) (snd b) then x else b) r rs)))"

definition compute_gex :: "gamma_row list \<Rightarrow> real \<Rightarrow> real \<Rightarrow> gex_read" where
  "compute_gex rows spot csize =
    (let net = sum_list (map (strike_gex spot csize) rows); by = map (\<lambda>r. (gr_strike r, py_round 0 (strike_gex spot csize r))) rows
     in \<lparr>gx_net = py_round 0 net, gx_regime = (if net \<ge> 0 then ''positive_gamma'' else ''negative_gamma''), gx_by_strike = by,
         gx_call_wall = first_best (>) by, gx_put_wall = first_best (<) by, gx_flip = gamma_flip by\<rparr>)"

section \<open>The book\<close>

definition book_imbalance :: "real list \<Rightarrow> real list \<Rightarrow> nat \<Rightarrow> real \<times> string" where
  "book_imbalance bids asks depth =
    (let bq = sum_list (take depth bids); aq = sum_list (take depth asks); total = bq + aq; imb = (bq - aq) / total
     in if total \<le> 0 then (0, ''neutral'')
        else (py_round 3 imb, if imb > 2/10 then ''buy'' else if imb < - 2/10 then ''sell'' else ''neutral''))"

section \<open>The volume profile\<close>

definition py_int :: "real \<Rightarrow> int" where
  "py_int x = (if 0 \<le> x then \<lfloor>x\<rfloor> else \<lceil>x\<rceil>)"

definition price_bucket :: "real \<Rightarrow> real \<Rightarrow> nat \<Rightarrow> real \<Rightarrow> nat" where
  "price_bucket lo width bins p = nat (min (int bins - 1) (max 0 (py_int ((p - lo) / width))))"

definition volume_buckets :: "real \<Rightarrow> real \<Rightarrow> nat \<Rightarrow> bar list \<Rightarrow> real list" where
  "volume_buckets lo width bins bs =
    foldl (\<lambda>acc b. let i = price_bucket lo width bins (typical b) in acc[i := acc ! i + ba_volume b]) (replicate bins 0) bs"

text \<open>The first busiest bucket.\<close>

definition poc_index :: "real list \<Rightarrow> nat" where
  "poc_index vs = foldl (\<lambda>i j. if vs ! j > vs ! i then j else i) 0 [1..<length vs]"

text \<open>The loop that widens the value area. An index past the end raises.\<close>

function widen :: "real list \<Rightarrow> real \<Rightarrow> nat \<Rightarrow> nat \<Rightarrow> real \<Rightarrow> (nat \<times> nat) option" where
  "widen vs target lo hi captured =
    (if captured < target \<and> (0 < lo \<or> hi + 1 < length vs) then
       (let left = (if 0 < lo then vs ! (lo - 1) else -1); right = (if hi + 1 < length vs then vs ! (hi + 1) else -1)
        in if right \<ge> left
           then (if hi + 1 < length vs then widen vs target lo (hi + 1) (captured + vs ! (hi + 1)) else None)
           else (if 0 < lo then widen vs target (lo - 1) hi (captured + vs ! (lo - 1)) else None))
     else Some (lo, hi))"
  by pat_completeness auto
termination by (relation "measure (\<lambda>(vs, target, lo, hi, captured). lo + (length vs - hi))") auto

declare widen.simps [simp del]

record volume_read =
  vr_poc :: "real option"
  vr_vah :: "real option"
  vr_val :: "real option"
  vr_bins :: "(real \<times> real) list"

definition volume_profile :: "bar list \<Rightarrow> nat \<Rightarrow> real \<Rightarrow> volume_read option" where
  "volume_profile bs bins value_area =
    (if bs = [] then Some \<lparr>vr_poc = None, vr_vah = None, vr_val = None, vr_bins = []\<rparr>
     else let lo = lowest (map ba_low bs); hi = highest (map ba_high bs) in
       if hi \<le> lo then Some \<lparr>vr_poc = Some (py_round 2 lo), vr_vah = Some (py_round 2 hi), vr_val = Some (py_round 2 lo),
            vr_bins = [(py_round 2 lo, sum_list (map ba_volume bs))]\<rparr>
       else if bins = 0 then None
       else let width = (hi - lo) / of_nat bins; vs = volume_buckets lo width bins bs;
                centers = map (\<lambda>i. py_round 2 (lo + (of_nat i + 1/2) * width)) [0..<bins]; p = poc_index vs
            in case widen vs (value_area * sum_list vs) p p (vs ! p) of None \<Rightarrow> None
            | Some (l, h) \<Rightarrow> Some \<lparr>vr_poc = Some (centers ! p), vr_vah = Some (centers ! h), vr_val = Some (centers ! l),
                vr_bins = map (\<lambda>i. (centers ! i, py_round 0 (vs ! i))) [0..<bins]\<rparr>)"

section \<open>The value area\<close>

lemma length_buckets [simp]: "length (volume_buckets lo w n bs) = n"
proof -
  have "length (foldl (\<lambda>acc b. let i = price_bucket lo w n (typical b) in acc[i := acc ! i + ba_volume b]) xs bs) = length xs" for xs
    by (induction bs arbitrary: xs) (simp_all add: Let_def)
  then show ?thesis by (simp add: volume_buckets_def)
qed

lemma poc_index_less: "vs \<noteq> [] \<Longrightarrow> poc_index vs < length vs"
proof -
  have "i < n \<Longrightarrow> (\<forall>j\<in>set js. j < n) \<Longrightarrow> foldl (\<lambda>i j. if vs ! j > vs ! i then j else i) i js < n" for i n js
    by (induction js arbitrary: i) auto
  then show "vs \<noteq> [] \<Longrightarrow> poc_index vs < length vs" by (simp add: poc_index_def)
qed

lemma bucket_of_less: "0 < bins \<Longrightarrow> price_bucket lo w bins p < bins"
  by (auto simp: price_bucket_def)

lemma sum_list_add_at: "i < length xs \<Longrightarrow> sum_list (xs[i := xs ! i + x]) = sum_list xs + x" for x :: real
  by (induction xs arbitrary: i) (auto split: nat.splits)

lemma buckets_nonneg_sum:
  assumes "\<forall>b\<in>set bs. 0 \<le> ba_volume b" "0 < bins"
  shows "(\<forall>v\<in>set (volume_buckets lo w bins bs). 0 \<le> v) \<and> sum_list (volume_buckets lo w bins bs) = sum_list (map ba_volume bs)"
proof -
  let ?f = "\<lambda>acc b. let i = price_bucket lo w bins (typical b) in acc[i := acc ! i + ba_volume b]"
  have "(\<forall>v\<in>set acc. 0 \<le> v) \<Longrightarrow> length acc = bins \<Longrightarrow>
      (\<forall>v\<in>set (foldl ?f acc bs). 0 \<le> v) \<and> sum_list (foldl ?f acc bs) = sum_list acc + sum_list (map ba_volume bs)" for acc
    using assms(1)
  proof (induction bs arbitrary: acc)
    case (Cons b bs)
    let ?i = "price_bucket lo w bins (typical b)"
    have i: "?i < length acc" using bucket_of_less [OF assms(2)] Cons.prems(2) by simp
    have "\<forall>v\<in>set (acc[?i := acc ! ?i + ba_volume b]). 0 \<le> v"
      using Cons.prems i set_update_subset_insert [of acc ?i] by fastforce
    moreover have "sum_list (acc[?i := acc ! ?i + ba_volume b]) = sum_list acc + ba_volume b"
      using i by (rule sum_list_add_at)
    ultimately show ?case using Cons by (simp add: Let_def)
  qed simp
  from this [of "replicate bins 0"] show ?thesis by (simp add: volume_buckets_def sum_list_replicate)
qed

lemma widen_spec:
  assumes "\<forall>v\<in>set vs. 0 \<le> v" "lo \<le> hi" "hi < length vs" "captured = sum_list (take (hi + 1 - lo) (drop lo vs))"
  shows "\<exists>l h. widen vs target lo hi captured = Some (l, h) \<and> l \<le> lo \<and> hi \<le> h \<and> h < length vs
    \<and> (target \<le> sum_list (take (h + 1 - l) (drop l vs)) \<or> l = 0 \<and> h + 1 = length vs)"
  using assms
proof (induction vs target lo hi captured rule: widen.induct)
  case (1 vs target lo hi captured)
  let ?left = "if 0 < lo then vs ! (lo - 1) else -1" and ?right = "if hi + 1 < length vs then vs ! (hi + 1) else -1"
  have nn: "i < length vs \<Longrightarrow> 0 \<le> vs ! i" for i using "1.prems"(1) by simp
  show ?case
  proof (cases "captured < target \<and> (0 < lo \<or> hi + 1 < length vs)")
    case False
    then have "widen vs target lo hi captured = Some (lo, hi)" by (subst widen.simps) (simp only: if_False)
    then show ?thesis using "1.prems" False by (intro exI [of _ lo] exI [of _ hi]) auto
  next
    case True
    show ?thesis
    proof (cases "?right \<ge> ?left")
      case R: True
      have h: "hi + 1 < length vs"
      proof (rule ccontr)
        assume "\<not> hi + 1 < length vs"
        then have "0 < lo" "0 \<le> vs ! (lo - 1)" using True nn [of "lo - 1"] "1.prems"(2,3) by auto
        then show False using R \<open>\<not> hi + 1 < length vs\<close> by simp
      qed
      have c: "captured + vs ! (hi + 1) = sum_list (take (hi + 1 + 1 - lo) (drop lo vs))"
        using "1.prems"(2,4) h by (simp add: Suc_diff_le take_Suc_conv_app_nth)
      from "1.IH"(1) [OF True refl refl R h "1.prems"(1) _ h c] "1.prems"(2)
      show ?thesis using True R h by (force simp: widen.simps [of vs target lo hi captured] Let_def)
    next
      case L: False
      have l: "0 < lo"
      proof (rule ccontr)
        assume "\<not> 0 < lo"
        then have "hi + 1 < length vs" using True by simp
        then show False using L nn [of "hi + 1"] \<open>\<not> 0 < lo\<close> by simp
      qed
      have c: "captured + vs ! (lo - 1) = sum_list (take (hi + 1 - (lo - 1)) (drop (lo - 1) vs))"
      proof -
        have "drop (lo - 1) vs = vs ! (lo - 1) # drop lo vs" using l "1.prems"(2,3) Cons_nth_drop_Suc [of "lo - 1" vs] by simp
        moreover have "hi + 1 - (lo - 1) = Suc (hi + 1 - lo)" using l "1.prems"(2) by simp
        ultimately show ?thesis using "1.prems"(4) by simp
      qed
      from "1.IH"(2) [OF True refl refl L l "1.prems"(1) _ "1.prems"(3) c] "1.prems"(2)
      show ?thesis using True L l by (force simp: widen.simps [of vs target lo hi captured] Let_def)
    qed
  qed
qed

lemma lowest_le_highest:
  assumes "bs \<noteq> []" "\<forall>b\<in>set bs. ba_low b \<le> ba_high b"
  shows "lowest (map ba_low bs) \<le> highest (map ba_high bs)"
proof -
  have lo: "foldl min a xs \<le> a" and hi: "a \<le> foldl max a xs" for a :: real and xs
    by (induction xs arbitrary: a) (auto intro: order_trans [OF _ min.cobounded1] order_trans [OF max.cobounded1])
  obtain b cs where "bs = b # cs" using assms(1) by (cases bs) auto
  then show ?thesis using lo [of "ba_low b" "ba_low b # map ba_low cs"] hi [of "ba_high b" "ba_high b # map ba_high cs"] assms(2)
    unfolding lowest_def highest_def by (simp only: list.map list.sel) (metis list.set_intros(1) order_trans)
qed

section \<open>Property\<close>

text \<open>C30. The volume profile always returns, its point of control lies inside the value area, and the buckets of the
  area hold at least the share of the traded volume that was asked for.\<close>
theorem value_area_holds_the_share:
  assumes "bs \<noteq> []" "\<forall>b\<in>set bs. 0 \<le> ba_volume b \<and> ba_low b \<le> ba_high b" "0 < bins" "share \<le> 1"
  shows "\<exists>r v p a. volume_profile bs bins share = Some r \<and> vr_val r = Some v \<and> vr_poc r = Some p \<and> vr_vah r = Some a \<and> v \<le> p \<and> p \<le> a
    \<and> (let lo = lowest (map ba_low bs); hi = highest (map ba_high bs); width = (hi - lo) / of_nat bins
       in lo < hi \<longrightarrow> (\<exists>l h. l \<le> h \<and> h < bins \<and> v = py_round 2 (lo + (of_nat l + 1/2) * width) \<and> a = py_round 2 (lo + (of_nat h + 1/2) * width)
            \<and> share * sum_list (map ba_volume bs) \<le> sum_list (take (h + 1 - l) (drop l (volume_buckets lo width bins bs)))))"
proof (cases "highest (map ba_high bs) \<le> lowest (map ba_low bs)")
  case True
  moreover have "lowest (map ba_low bs) \<le> highest (map ba_high bs)" using lowest_le_highest assms(1,2) by blast
  ultimately show ?thesis using assms(1) by (simp add: volume_profile_def Let_def)
next
  case False
  let ?lo = "lowest (map ba_low bs)" and ?hi = "highest (map ba_high bs)"
  let ?w = "(?hi - ?lo) / of_nat bins"
  let ?vs = "volume_buckets ?lo ?w bins bs"
  have b: "\<forall>v\<in>set ?vs. 0 \<le> v" "sum_list ?vs = sum_list (map ba_volume bs)"
    using buckets_nonneg_sum [of bs bins ?lo ?w] assms(2,3) by auto
  have "?vs \<noteq> []" using assms(3) length_buckets [of ?lo ?w bins bs] by fastforce
  then have p: "poc_index ?vs < bins" using poc_index_less [of ?vs] by simp
  let ?p = "poc_index ?vs" and ?t = "share * sum_list ?vs"
  have cap: "?vs ! ?p = sum_list (take (?p + 1 - ?p) (drop ?p ?vs))" using p by (simp add: take_Suc_conv_app_nth)
  obtain l h where lh: "widen ?vs ?t ?p ?p (?vs ! ?p) = Some (l, h)" "l \<le> ?p" "?p \<le> h" "h < bins"
    "?t \<le> sum_list (take (h + 1 - l) (drop l ?vs)) \<or> l = 0 \<and> h + 1 = bins"
    using widen_spec [OF b(1) order_refl _ cap, of ?t] p by auto
  have share: "?t \<le> sum_list (take (h + 1 - l) (drop l ?vs))"
  proof -
    have "0 \<le> sum_list ?vs" using b(1) by (intro sum_list_nonneg) auto
    then have "?t \<le> sum_list ?vs" using assms(4) mult_right_mono [of share 1 "sum_list ?vs"] by simp
    then show ?thesis using lh(5) by auto
  qed
  have wpos: "0 < ?w" using False assms(3) by simp
  define c where "c = (\<lambda>i. py_round 2 (?lo + (of_nat i + 1/2) * ?w))"
  have mono: "i \<le> j \<Longrightarrow> c i \<le> c j" for i j :: nat
    unfolding c_def using wpos by (intro py_round_mono add_left_mono mult_right_mono) auto
  have vp: "volume_profile bs bins share = Some \<lparr>vr_poc = Some (c ?p), vr_vah = Some (c h), vr_val = Some (c l),
      vr_bins = map (\<lambda>i. (map c [0..<bins] ! i, py_round 0 (?vs ! i))) [0..<bins]\<rparr>"
    unfolding volume_profile_def Let_def c_def using assms(1,3) False lh p by simp
  have area: "let lo = ?lo; hi = ?hi; width = (hi - lo) / of_nat bins
    in lo < hi \<longrightarrow> (\<exists>i j. i \<le> j \<and> j < bins \<and> c l = py_round 2 (lo + (of_nat i + 1/2) * width) \<and> c h = py_round 2 (lo + (of_nat j + 1/2) * width)
         \<and> share * sum_list (map ba_volume bs) \<le> sum_list (take (j + 1 - i) (drop i (volume_buckets lo width bins bs))))"
    unfolding Let_def using order_trans [OF lh(2,3)] lh(4) share
    by (intro impI exI [of _ l] exI [of _ h] conjI) (simp_all add: c_def b(2))
  show ?thesis
    by (rule exI, rule exI [of _ "c l"], rule exI [of _ "c ?p"], rule exI [of _ "c h"])
      (intro conjI, rule vp, simp, simp, simp, rule mono [OF lh(2)], rule mono [OF lh(3)], rule area)
qed

theorem value_area_holds_the_share_witness:
  "\<exists>r. volume_profile [\<lparr>ba_ts = 0, ba_open = 10, ba_high = 12, ba_low = 9, ba_close = 11, ba_volume = 5, ba_oi = None\<rparr>,
     \<lparr>ba_ts = 5, ba_open = 11, ba_high = 16, ba_low = 12, ba_close = 14, ba_volume = 20, ba_oi = None\<rparr>] 24 (7/10) = Some r"
  using value_area_holds_the_share [of "[\<lparr>ba_ts = 0, ba_open = 10, ba_high = 12, ba_low = 9, ba_close = 11, ba_volume = 5, ba_oi = None\<rparr>,
     \<lparr>ba_ts = 5, ba_open = 11, ba_high = 16, ba_low = 12, ba_close = 14, ba_volume = 20, ba_oi = None\<rparr>]" 24 "7/10"]
  by (elim impE meta_impE) (simp, simp, simp, simp, blast)

end
