(* ===== verification/Contexts.thy ===== *)
theory Contexts
  imports Market_Reads Strategies Fno Calendar
begin

text \<open>
  From stored candles to the contexts of the pipelines: the feature cache (\<open>data/features.py\<close>), the history of
  implied volatility (\<open>data/iv_history.py\<close>), the lookups of the option chain (\<open>data/option_chain.py\<close>) and the two
  builders of \<open>engine/context_builder.py\<close>. Candles are read through a loader, None where loading raises; a
  quote is what the broker answered. The index of a frame is UTC, the Indian clock is 330 minutes ahead.
\<close>

section \<open>The feature cache\<close>

type_synonym 'v feature_cache = "((int \<times> string) \<times> int \<times> 'v) list"

definition get_or_compute :: "int \<Rightarrow> string \<Rightarrow> int \<Rightarrow> 'v \<Rightarrow> 'v feature_cache \<Rightarrow> 'v \<times> 'v feature_cache" where
  "get_or_compute tok itv last_ts computed c = (case map_of c (tok, itv) of
     Some (ts, v) \<Rightarrow> if ts = last_ts then (v, c) else (computed, upsert (tok, itv) (last_ts, computed) c)
   | None \<Rightarrow> (computed, upsert (tok, itv) (last_ts, computed) c))"

definition invalidate :: "int \<Rightarrow> string option \<Rightarrow> 'v feature_cache \<Rightarrow> 'v feature_cache" where
  "invalidate tok itv c = (case itv of
     None \<Rightarrow> filter (\<lambda>e. fst (fst e) \<noteq> tok) c | Some i \<Rightarrow> filter (\<lambda>e. fst e \<noteq> (tok, i)) c)"

definition clear_cache :: "'v feature_cache \<Rightarrow> 'v feature_cache" where
  "clear_cache c = []"

section \<open>History of implied volatility\<close>

definition rank_from_history :: "real list \<Rightarrow> real option" where
  "rank_from_history h = (if length h < 2 then None else Some (iv_rank (List.last h) h))"

definition percentile_from_history :: "real list \<Rightarrow> real option" where
  "percentile_from_history h = (if length h < 2 then None else Some (iv_percentile (List.last h) h))"

text \<open>The table, one row per name and day.\<close>

type_synonym iv_table = "((string \<times> int) \<times> real option) list"

definition record_atm_iv :: "string \<Rightarrow> int \<Rightarrow> real \<Rightarrow> iv_table \<Rightarrow> iv_table" where
  "record_atm_iv nm day v t = upsert (nm, day) (Some v) t"

definition atm_iv_history :: "iv_table \<Rightarrow> string \<Rightarrow> nat \<Rightarrow> real list" where
  "atm_iv_history t nm lookback =
    (let rows = sort_key (\<lambda>r. - snd (fst r)) (filter (\<lambda>r. fst (fst r) = nm) t)
     in List.map_filter snd (rev (take lookback rows)))"

definition iv_rank_for :: "iv_table \<Rightarrow> string \<Rightarrow> real option" where
  "iv_rank_for t nm = (let h = atm_iv_history t nm 250 in if length h < 20 then None else rank_from_history h)"

definition change_from_history :: "real list \<Rightarrow> nat \<Rightarrow> real" where
  "change_from_history h days = (if length h < days + 1 then 0
     else let base = h ! (length h - (days + 1)) in if base \<le> 0 then 0 else (List.last h - base) / base * 100)"

definition iv_change_for :: "iv_table \<Rightarrow> string \<Rightarrow> real" where
  "iv_change_for t nm = change_from_history (atm_iv_history t nm 10) 5"

section \<open>The option chain\<close>

record nfo_row =
  nr_token :: int
  nr_symbol :: string
  nr_name :: string
  nr_exchange :: string
  nr_type :: string
  nr_expiry :: "int option"
  nr_strike :: real
  nr_lot :: int

definition list_expiries :: "nfo_row list \<Rightarrow> int \<Rightarrow> string \<Rightarrow> int list" where
  "list_expiries tbl today nm = sort (remdups (List.map_filter
     (\<lambda>r. if nr_exchange r = ''NFO'' \<and> nr_name r = nm \<and> (nr_type r = ''CE'' \<or> nr_type r = ''PE'')
          then (case nr_expiry r of Some e \<Rightarrow> if today \<le> e then Some e else None | None \<Rightarrow> None) else None) tbl))"

fun scan_expiries :: "int \<Rightarrow> int \<Rightarrow> int \<Rightarrow> (int \<times> int) option \<Rightarrow> int list \<Rightarrow> (int \<times> int) option" where
  "scan_expiries today lo hi beyond [] = beyond"
| "scan_expiries today lo hi beyond (e # es) =
    (let dte = e - today in
     if lo \<le> dte \<and> dte \<le> hi then Some (e, dte)
     else scan_expiries today lo hi (if hi < dte \<and> beyond = None then Some (e, dte) else beyond) es)"

definition nearest_expiry :: "nfo_row list \<Rightarrow> int \<Rightarrow> string \<Rightarrow> int \<Rightarrow> int \<Rightarrow> (int \<times> int) option" where
  "nearest_expiry tbl today nm lo hi = scan_expiries today lo hi None (list_expiries tbl today nm)"

definition strike_step :: "nfo_row list \<Rightarrow> string \<Rightarrow> int \<Rightarrow> real" where
  "strike_step tbl nm expiry =
    (let ks = sort (remdups (map nr_strike (filter (\<lambda>r. nr_exchange r = ''NFO'' \<and> nr_name r = nm \<and> nr_type r = ''CE''
                 \<and> nr_expiry r = Some expiry \<and> 0 < nr_strike r) tbl)))
     in if length ks < 2 then 0
        else let ds = sort (filter (\<lambda>d. 0 < d) (map2 (\<lambda>a b. b - a) ks (tl ks))) in if ds = [] then 0 else ds ! (length ds div 2))"

definition atm_strike :: "real \<Rightarrow> real \<Rightarrow> real" where
  "atm_strike spot step = (if step \<noteq> 0 then of_int (round_half_even (spot / step)) * step else of_int (round_half_even spot))"

definition resolve_nfo :: "nfo_row list \<Rightarrow> string \<Rightarrow> int \<Rightarrow> real \<Rightarrow> string \<Rightarrow> nfo_row option" where
  "resolve_nfo tbl nm expiry strike opt = find (\<lambda>r. nr_exchange r = ''NFO'' \<and> nr_name r = nm \<and> nr_expiry r = Some expiry
     \<and> nr_type r = opt \<and> nr_strike r = strike) tbl"

definition option_band :: "nfo_row list \<Rightarrow> string \<Rightarrow> int \<Rightarrow> real \<Rightarrow> real \<Rightarrow> int \<Rightarrow> nfo_row list" where
  "option_band tbl nm expiry spot step n = concat (map (\<lambda>i. List.map_filter
     (resolve_nfo tbl nm expiry (atm_strike spot step + of_int i * step)) [''CE'', ''PE'']) [- n..n])"

definition vix_iv_rank :: "(int \<Rightarrow> string \<Rightarrow> nat \<Rightarrow> bar list) \<Rightarrow> int option \<Rightarrow> real option" where
  "vix_iv_rank load vix = (case vix of None \<Rightarrow> None | Some tok \<Rightarrow>
     let cs = map ba_close (load tok ''day'' 250) in
     if tok = 0 \<or> length cs < 20 then None else Some (py_round 1 (iv_rank (List.last cs) cs)))"

record option_quote =
  oq_last :: "real option"
  oq_oi :: "real option"
  oq_volume :: "real option"

definition empty_quote :: option_quote where
  "empty_quote = \<lparr>oq_last = None, oq_oi = None, oq_volume = None\<rparr>"

text \<open>The positive implied volatilities of the two at-the-money options.\<close>

definition leg_iv :: "(real \<Rightarrow> real) \<Rightarrow> real \<Rightarrow> real \<Rightarrow> real \<Rightarrow> real \<Rightarrow> string \<Rightarrow> option_quote \<Rightarrow> real list" where
  "leg_iv erf spot atm t r opt q = (case oq_last q of None \<Rightarrow> [] | Some ltp \<Rightarrow>
     if ltp = 0 then [] else let v = implied_vol erf ltp spot atm t r opt in if v > 0 then [v] else [])"

definition mean_iv :: "(real \<Rightarrow> real) \<Rightarrow> real \<Rightarrow> real \<Rightarrow> int \<Rightarrow> real \<Rightarrow> option_quote \<Rightarrow> option_quote \<Rightarrow> real option" where
  "mean_iv erf spot atm dte r ce pe =
    (let t = of_int (max dte 1) / 365; vs = leg_iv erf spot atm t r ''CE'' ce @ leg_iv erf spot atm t r ''PE'' pe
     in if vs = [] then None else Some (sum_list vs / of_nat (length vs)))"

section \<open>The intraday context\<close>

record regime_cfg =
  rg_adx_period :: nat
  rg_trend_min :: real

definition ist_day :: "bar \<Rightarrow> int" where
  "ist_day b = (ba_ts b + 330) div 1440"

definition ist_tod :: "bar \<Rightarrow> nat" where
  "ist_tod b = nat ((ba_ts b + 330) mod 1440)"

definition last_of :: "series \<Rightarrow> real option" where
  "last_of xs = (if xs = [] then None else List.last xs)"

definition classify_regime :: "regime_cfg \<Rightarrow> bar list \<Rightarrow> real \<Rightarrow> real \<Rightarrow> string" where
  "classify_regime cfg bs price vw =
    (let n = rg_adx_period cfg; a = adx bs n;
         fallback = (if vw > 0 \<and> \<bar>price - vw\<bar> / vw \<le> 15/10000 then ''choppy'' else if price > vw then ''trending_up'' else ''trending_down'')
     in if length bs < n * 2 then fallback
        else case last_of (ax_adx a) of None \<Rightarrow> fallback
        | Some v \<Rightarrow> if v < rg_trend_min cfg then fallback
            else let up = (case (last_of (ax_plus a), last_of (ax_minus a)) of (Some p, Some m) \<Rightarrow> p \<ge> m | _ \<Rightarrow> False)
                 in if up \<and> price \<ge> vw then ''trending_up'' else if \<not> up \<and> price \<le> vw then ''trending_down'' else ''choppy'')"

definition pct_return :: "bar list option \<Rightarrow> nat \<Rightarrow> real" where
  "pct_return bs n = (case bs of None \<Rightarrow> 0 | Some b \<Rightarrow>
     if length b \<le> n then 0
     else let prev = ba_close (b ! (length b - 1 - n)) in if prev = 0 then 0 else (ba_close (List.last b) / prev - 1) * 100)"

text \<open>No context, a session without volume (its VWAP is NaN, which no further rule here covers), or the context with
  the volatility and the relative strength of the day.\<close>

datatype intraday_read = No_Context | Undefined_Vwap | Intraday_Read intraday_ctx real real

definition day_gap :: "bar list option \<Rightarrow> real \<Rightarrow> real" where
  "day_gap day first = (case day of None \<Rightarrow> 0 | Some d \<Rightarrow> if length d < 2 then 0
     else let prev = ba_close (d ! (length d - 2)) in if prev = 0 then 0 else (first - prev) / prev * 100)"

definition day_atr_pct :: "bar list option \<Rightarrow> real \<Rightarrow> real" where
  "day_atr_pct day price = (case day of None \<Rightarrow> 0 | Some d \<Rightarrow>
     if length d < 15 \<or> price = 0 then 0 else get_default (last_of (atr d 14)) 0 / price * 100)"

definition intraday_context_from_frames ::
  "bar list \<Rightarrow> bar list option \<Rightarrow> int \<Rightarrow> bool \<Rightarrow> regime_cfg \<Rightarrow> bar list option \<Rightarrow> intraday_read" where
  "intraday_context_from_frames bs day now strong cfg index =
    (let today = filter (\<lambda>b. ist_day b = now div 1440) bs; opening = filter (\<lambda>b. 555 \<le> ist_tod b \<and> ist_tod b < 570) today
     in if bs = [] \<or> today = [] \<or> opening = [] then No_Context
     else let vols = map ba_volume today; price = ba_close (List.last today)
     in case last_of (session_vwap today) of None \<Rightarrow> Undefined_Vwap
     | Some vw \<Rightarrow>
         let rv = (case last_of (rvol vols 20) of Some v \<Rightarrow> v | None \<Rightarrow> List.last vols / max 1 (mean vols));
             ready = length bs \<ge> 35;
             hist = (if ready then get_default (last_of (mf_hist (macd (map ba_close bs) 12 26 9))) 0 else 0);
             st = (if ready then ss_direction (List.last (supertrend bs 10 3)) else 0)
         in Intraday_Read
              \<lparr>ix_last = price, ix_or_high = highest (map ba_high opening), ix_or_low = lowest (map ba_low opening), ix_vwap = vw,
               ix_rvol = rv, ix_adv = (case day of Some (d # ds) \<Rightarrow> mean (map ba_volume (d # ds)) | _ \<Rightarrow> 0), ix_spread_pct = 5/100,
               ix_gap_pct = day_gap day (ba_open (hd today)), ix_regime = classify_regime cfg bs price vw, ix_sector_strong = strong,
               ix_window_ok = is_within 570 870 (nat (now mod 1440)), ix_macd_hist = hist, ix_st_dir = st, ix_day_breadth = ''unknown''\<rparr>
              (py_round 3 (day_atr_pct day price))
              (py_round 3 (case index of None \<Rightarrow> 0 | Some i \<Rightarrow> pct_return day 20 - pct_return (Some i) 20)))"

text \<open>The live wrapper; what it loads may raise.\<close>

definition build_intraday_context ::
  "(int \<Rightarrow> string \<Rightarrow> nat \<Rightarrow> bar list option) \<Rightarrow> int option \<Rightarrow> int \<Rightarrow> int \<Rightarrow> bool \<Rightarrow> regime_cfg \<Rightarrow> intraday_read feature_cache \<Rightarrow>
     intraday_read \<times> intraday_read feature_cache" where
  "build_intraday_context load index_token now tok strong cfg c =
    (case load tok ''5m'' 400 of None \<Rightarrow> (No_Context, c)
     | Some bs \<Rightarrow> if bs = [] then (No_Context, c)
         else let ts = ba_ts (List.last bs) in
           if (case map_of c (tok, ''5m'') of Some (ts', _) \<Rightarrow> ts' = ts | None \<Rightarrow> False) then get_or_compute tok ''5m'' ts No_Context c
           else case load tok ''day'' 60 of None \<Rightarrow> (No_Context, c)
           | Some day \<Rightarrow> (case (case index_token of None \<Rightarrow> Some None | Some it \<Rightarrow> map_option Some (load it ''day'' 60)) of
                None \<Rightarrow> (No_Context, c)
              | Some index \<Rightarrow> get_or_compute tok ''5m'' ts (intraday_context_from_frames bs (Some day) now strong cfg index) c))"

section \<open>The option context\<close>

definition daily_direction_from_df :: "bar list \<Rightarrow> real \<Rightarrow> string" where
  "daily_direction_from_df day spot = (if length day < 20 then ''neutral''
     else let sma20 = mean (map ba_close (drop (length day - 20) day)) in
       if spot > sma20 * (1 + 5/1000) then ''bullish'' else if spot < sma20 * (1 - 5/1000) then ''bearish'' else ''neutral'')"

definition price_oi_change :: "bar list \<Rightarrow> real \<times> real" where
  "price_oi_change bs = (case rev bs of c # p # _ \<Rightarrow>
       (ba_close c - ba_close p, get_default (ba_oi c) 0 - get_default (ba_oi p) 0)
   | _ \<Rightarrow> (0, 0))"

record fno_build_cfg =
  fb_low_max :: "real option"
  fb_high_min :: "real option"
  fb_weekly_buy :: "(int \<times> int) option"
  fb_credit_sell :: "(int \<times> int) option"
  fb_swing_buy :: "(int \<times> int) option"
  fb_matrix :: "string \<rightharpoonup> string"
  fb_banned :: "string list"

record market_io =
  io_table :: "nfo_row list"
  io_today :: int
  io_history :: iv_table
  io_load :: "int \<Rightarrow> string \<Rightarrow> nat \<Rightarrow> bar list"
  io_vix :: "int option"
  io_spot :: "string \<Rightarrow> real option"
  io_quotes :: "string \<Rightarrow> string \<Rightarrow> (option_quote option \<times> option_quote option) option"

definition dte_window :: "fno_build_cfg \<Rightarrow> real \<Rightarrow> int \<times> int" where
  "dte_window cf ivr =
    (if ivr < get_default (fb_low_max cf) 20 then get_default (fb_weekly_buy cf) (3, 10)
     else if ivr > get_default (fb_high_min cf) 70 then get_default (fb_credit_sell cf) (15, 45)
     else get_default (fb_swing_buy cf) (20, 45))"

definition chosen_rank :: "market_io \<Rightarrow> string \<Rightarrow> real" where
  "chosen_rank io nm = (case iv_rank_for (io_history io) nm of Some r \<Rightarrow> r
     | None \<Rightarrow> (case vix_iv_rank (io_load io) (io_vix io) of Some r \<Rightarrow> r | None \<Rightarrow> 50))"

definition pcr_of :: "real \<Rightarrow> real \<Rightarrow> real" where
  "pcr_of ce_oi pe_oi = (if ce_oi > 0 then pe_oi / ce_oi else 1)"

definition oi_signal_of :: "real \<Rightarrow> real \<Rightarrow> real \<Rightarrow> string" where
  "oi_signal_of pcr ce_change pe_change =
    (let pcr_signal = (if pcr > 12/10 then ''bullish'' else if pcr < 8/10 then ''bearish'' else ''neutral'')
     in if pe_change - ce_change > 0 then ''bullish'' else if ce_change - pe_change > 0 then ''bearish'' else pcr_signal)"

text \<open>None where the code returns nothing or where a read raises; a missing quote is an empty one.\<close>

definition build_fno_context :: "(real \<Rightarrow> real) \<Rightarrow> market_io \<Rightarrow> fno_build_cfg \<Rightarrow> string \<Rightarrow> string \<Rightarrow> int \<Rightarrow> real \<Rightarrow> fno_ctx option" where
  "build_fno_context erf io cf nm key tok rf =
    (let ivr = chosen_rank io nm; (lo, hi) = dte_window cf ivr in
     case nearest_expiry (io_table io) (io_today io) nm lo hi of None \<Rightarrow> None
     | Some (expiry, dte) \<Rightarrow>
     (case io_spot io key of None \<Rightarrow> None
     | Some spot \<Rightarrow>
       let step = strike_step (io_table io) nm expiry; atm = atm_strike spot step in
       if step = 0 then None
       else case (resolve_nfo (io_table io) nm expiry atm ''CE'', resolve_nfo (io_table io) nm expiry atm ''PE'') of
         (Some ce, Some pe) \<Rightarrow>
          (case io_quotes io (''NFO:'' @ nr_symbol ce) (''NFO:'' @ nr_symbol pe) of None \<Rightarrow> None
           | Some (cq, pq) \<Rightarrow>
             let ceq = get_default cq empty_quote; peq = get_default pq empty_quote;
                 ce_oi = get_default (oq_oi ceq) 0; pe_oi = get_default (oq_oi peq) 0; pcr = pcr_of ce_oi pe_oi;
                 ce_change = snd (price_oi_change (io_load io (nr_token ce) ''5m'' 3));
                 pe_change = snd (price_oi_change (io_load io (nr_token pe) ''5m'' 3))
             in Some \<lparr>fx_spot = spot, fx_iv = py_round 4 (get_default (mean_iv erf spot atm dte rf ceq peq) (15/100)),
                  fx_iv_rank = py_round 1 ivr, fx_dte = dte, fx_direction = daily_direction_from_df (io_load io tok ''day'' 60) spot,
                  fx_lot = nr_lot ce, fx_expiry = expiry, fx_banned = List.member (fb_banned cf) nm, fx_step = step,
                  fx_oi_signal = oi_signal_of pcr ce_change pe_change, fx_risk_free = rf,
                  fx_iv_chg = py_round 1 (iv_change_for (io_history io) nm),
                  fx_expiry_day = List.member (list_expiries (io_table io) (io_today io) nm) (io_today io), fx_atm_oi = ce_oi + pe_oi,
                  fx_atm_volume = get_default (oq_volume ceq) 0 + get_default (oq_volume peq) 0, fx_pcr = Some (py_round 2 pcr)\<rparr>)
       | _ \<Rightarrow> None))"

text \<open>The nightly snapshot.\<close>

definition snapshot_atm_iv :: "(real \<Rightarrow> real) \<Rightarrow> market_io \<Rightarrow> string \<Rightarrow> string \<Rightarrow> real \<Rightarrow> real option" where
  "snapshot_atm_iv erf io nm key rf =
    (case nearest_expiry (io_table io) (io_today io) nm 0 60 of None \<Rightarrow> None
     | Some (expiry, dte) \<Rightarrow>
     (case io_spot io key of None \<Rightarrow> None
     | Some spot \<Rightarrow>
       let step = strike_step (io_table io) nm expiry; atm = atm_strike spot step in
       if step = 0 then None
       else case (resolve_nfo (io_table io) nm expiry atm ''CE'', resolve_nfo (io_table io) nm expiry atm ''PE'') of
         (Some ce, Some pe) \<Rightarrow>
          (case io_quotes io (''NFO:'' @ nr_symbol ce) (''NFO:'' @ nr_symbol pe) of None \<Rightarrow> None
           | Some (cq, pq) \<Rightarrow> mean_iv erf spot atm dte rf (get_default cq empty_quote) (get_default pq empty_quote))
       | _ \<Rightarrow> None))"

section \<open>The expiry scan\<close>

lemma scan_expiries_found:
  "\<exists>e\<in>set es. lo \<le> e - today \<and> e - today \<le> hi \<Longrightarrow> scan_expiries today lo hi b es = Some (e, d) \<Longrightarrow>
   e \<in> set es \<and> d = e - today \<and> lo \<le> d \<and> d \<le> hi"
  by (induction es arbitrary: b) (auto simp: Let_def split: if_splits)

lemma scan_expiries_beyond:
  "\<forall>e\<in>set es. \<not> (lo \<le> e - today \<and> e - today \<le> hi) \<Longrightarrow> scan_expiries today lo hi (Some b) es = Some b"
  by (induction es) (auto simp: Let_def)

lemma scan_expiries_none:
  "\<forall>e\<in>set es. \<not> (lo \<le> e - today \<and> e - today \<le> hi) \<Longrightarrow> scan_expiries today lo hi None es = Some (e, d) \<Longrightarrow>
   e \<in> set es \<and> d = e - today \<and> hi < d"
  by (induction es) (auto simp: Let_def scan_expiries_beyond split: if_splits)

lemma built_context:
  assumes "build_fno_context erf io cf nm key tok rf = Some x" "dte_window cf (chosen_rank io nm) = (lo, hi)"
  shows "nearest_expiry (io_table io) (io_today io) nm lo hi = Some (fx_expiry x, fx_dte x)"
    "fx_iv_rank x = py_round 1 (chosen_rank io nm)"
  using assms unfolding build_fno_context_def Let_def by (auto split: option.splits if_splits prod.splits)

lemma round_above: "1995/100 < r \<Longrightarrow> r < 20 \<Longrightarrow> py_round 1 r = 20"
proof -
  assume r: "1995/100 < r" "r < 20"
  have "\<bar>of_int (round_half_even (r * 10)) - r * 10\<bar> \<le> 1/2" by (rule round_half_even_error)
  then have "of_int (round_half_even (r * 10)) > (199::real)" "of_int (round_half_even (r * 10)) < (201::real)" using r by linarith+
  then have "round_half_even (r * 10) = 200" by linarith
  then show "py_round 1 r = 20" by (simp add: py_round_def)
qed

section \<open>Properties\<close>


lemma gate_shut: "\<not> ok \<Longrightarrow> \<exists>r. hard_gate nm ok s rs gs k = Some r \<and> \<not> pr_pass r"
  by (simp add: hard_gate_def Let_def)

lemma gate_rejects: "(\<And>gs'. \<exists>r. k gs' = Some r \<and> \<not> pr_pass r) \<Longrightarrow> \<exists>r. hard_gate nm ok s rs gs k = Some r \<and> \<not> pr_pass r"
  by (simp add: hard_gate_def Let_def)

lemma branch_rejects: "\<exists>r. a = Some r \<and> \<not> pr_pass r \<Longrightarrow> \<exists>r. b = Some r \<and> \<not> pr_pass r \<Longrightarrow> \<exists>r. (if c then a else b) = Some r \<and> \<not> pr_pass r"
  by simp

text \<open>Rounding can throw the work away. The window is chosen with the rank as it is, the context carries it rounded to one
  decimal: with a rank just below 20 the builder takes a weekly expiry, the pipeline reads 20.0, asks for the
  longer window and rejects every such context.\<close>
theorem rounded_rank_discards_the_context:
  assumes "build_fno_context erf io cf nm key tok rf = Some x" "1995/100 < chosen_rank io nm" "chosen_rank io nm < 20"
    and "fb_low_max cf = None" "fb_weekly_buy cf = None"
    and "\<exists>e\<in>set (list_expiries (io_table io) (io_today io) nm). 3 \<le> e - io_today io \<and> e - io_today io \<le> 10"
    and "fp_low_max p = None" "fp_high_min p = None" "fp_swing_buy p = None" "fp_avoid p \<noteq> Some []"
  shows "\<exists>r. fno_evaluate erf today p ins x = Some r \<and> \<not> pr_pass r"
proof -
  have w: "dte_window cf (chosen_rank io nm) = (3, 10)" using assms(3-5) by (simp add: dte_window_def)
  note b = built_context [OF assms(1) w]
  have d: "fx_dte x \<le> 10" using scan_expiries_found [OF assms(6)] b(1) by (simp add: nearest_expiry_def)
  have "fx_iv_rank x = 20" using b(2) round_above [OF assms(2,3)] by simp
  then have ic: "iv_class p x = (''spread'', 20, 45)" using assms(7-9) by (simp add: iv_class_def)
  have av: "get_default (fp_avoid p) [0, 1] \<noteq> []" using assms(10) by (cases "fp_avoid p") auto
  have dte: "\<exists>r. (if get_default (fp_avoid p) [0, 1] = [] then None
      else hard_gate ''dte'' (Max (set (get_default (fp_avoid p) [0, 1])) < fx_dte x \<and> 20 \<le> fx_dte x \<and> fx_dte x \<le> 45) a b c k) = Some r \<and> \<not> pr_pass r" for a b c k
    unfolding if_not_P [OF av] using d by (intro gate_shut) simp
  show ?thesis unfolding fno_evaluate_def Let_def ic prod.case
    by (intro gate_rejects branch_rejects dte)
qed

definition demo_nfo :: "int \<Rightarrow> string \<Rightarrow> real \<Rightarrow> int \<Rightarrow> nfo_row" where
  "demo_nfo tok opt k e = \<lparr>nr_token = tok, nr_symbol = opt, nr_name = ''NIFTY'', nr_exchange = ''NFO'', nr_type = opt,
     nr_expiry = Some e, nr_strike = k, nr_lot = 50\<rparr>"

definition demo_io :: "int \<Rightarrow> iv_table \<Rightarrow> market_io" where
  "demo_io e h = \<lparr>io_table = [demo_nfo 1 ''CE'' 100 e, demo_nfo 2 ''CE'' 150 e, demo_nfo 3 ''PE'' 100 e, demo_nfo 4 ''PE'' 150 e],
     io_today = 0, io_history = h, io_load = (\<lambda>_ _ _. []), io_vix = None, io_spot = (\<lambda>_. Some 100),
     io_quotes = (\<lambda>_ _. Some (None, None))\<rparr>"

definition demo_fb :: fno_build_cfg where
  "demo_fb = \<lparr>fb_low_max = None, fb_high_min = None, fb_weekly_buy = None, fb_credit_sell = None, fb_swing_buy = None,
     fb_matrix = Map.empty, fb_banned = []\<rparr>"

definition demo_history :: iv_table where
  "demo_history = ((''NIFTY'', 25), Some (1996/100)) # ((''NIFTY'', 24), Some 0) # ((''NIFTY'', 23), Some 100) #
     map (\<lambda>d. ((''NIFTY'', d), Some 50)) [22, 21, 20, 19, 18, 17, 16, 15, 14, 13, 12, 11, 10, 9, 8, 7, 6]"

lemma demo_expiries: "list_expiries (io_table (demo_io 7 h)) (io_today (demo_io 7 h)) ''NIFTY'' = [7]"
  "list_expiries (io_table (demo_io 30 h)) (io_today (demo_io 30 h)) ''NIFTY'' = [30]"
  by (simp_all add: list_expiries_def demo_io_def demo_nfo_def List.map_filter_def)

lemma demo_step: "strike_step (io_table (demo_io e h)) ''NIFTY'' e = 50"
  by (simp add: strike_step_def demo_io_def demo_nfo_def)

lemma demo_strike: "atm_strike 100 50 = 100"
  using round_half_even_of_int [of 2] by (simp add: atm_strike_def)

lemma demo_nfo_rows:
  "resolve_nfo (io_table (demo_io e h)) ''NIFTY'' e 100 ''CE'' = Some (demo_nfo 1 ''CE'' 100 e)"
  "resolve_nfo (io_table (demo_io e h)) ''NIFTY'' e 100 ''PE'' = Some (demo_nfo 3 ''PE'' 100 e)"
  by (simp_all add: resolve_nfo_def demo_io_def demo_nfo_def)

lemma demo_no_history: "chosen_rank (demo_io e []) ''NIFTY'' = 50"
  by (simp add: chosen_rank_def demo_io_def iv_rank_for_def atm_iv_history_def vix_iv_rank_def Let_def List.map_filter_def)

lemma demo_ranked: "chosen_rank (demo_io e demo_history) ''NIFTY'' = 1996/100"
proof -
  have h: "atm_iv_history demo_history ''NIFTY'' 250 =
      [50, 50, 50, 50, 50, 50, 50, 50, 50, 50, 50, 50, 50, 50, 50, 50, 50, 100, 0, 1996/100]"
    by (simp add: atm_iv_history_def demo_history_def map_filter_simps)
  have "iv_rank_for demo_history ''NIFTY'' = Some (1996/100)"
    unfolding iv_rank_for_def Let_def h by (simp add: rank_from_history_def iv_rank_def)
  then show ?thesis by (simp add: chosen_rank_def demo_io_def)
qed

lemma demo_context:
  assumes "nearest_expiry (io_table (demo_io e h)) 0 ''NIFTY'' (fst w) (snd w) = Some (e, e)"
    "dte_window demo_fb (chosen_rank (demo_io e h) ''NIFTY'') = w"
  shows "\<exists>x. build_fno_context demo_erf (demo_io e h) demo_fb ''NIFTY'' ''NSE:NIFTY'' 9 (65/1000) = Some x"
proof -
  have io: "io_today (demo_io e h) = 0" "io_spot (demo_io e h) k = Some 100" "io_quotes (demo_io e h) a b = Some (None, None)" for k a b
    by (simp_all add: demo_io_def)
  show ?thesis unfolding build_fno_context_def Let_def assms(2) io
    using assms(1) by (cases w) (simp add: demo_step demo_strike demo_nfo_rows)
qed

lemma demo_far: "\<exists>x. build_fno_context demo_erf (demo_io 30 []) demo_fb ''NIFTY'' ''NSE:NIFTY'' 9 (65/1000) = Some x"
proof (rule demo_context [of _ _ "(20, 45)"])
  have t: "io_today (demo_io 30 []) = 0" by (simp add: demo_io_def)
  show "nearest_expiry (io_table (demo_io 30 [])) 0 ''NIFTY'' (fst (20, 45)) (snd (20, 45)) = Some (30, 30)"
    using demo_expiries(2) [of "[]", unfolded t] by (simp add: nearest_expiry_def)
  show "dte_window demo_fb (chosen_rank (demo_io 30 []) ''NIFTY'') = (20, 45)" by (simp add: demo_no_history dte_window_def demo_fb_def)
qed

lemma demo_near: "\<exists>x. build_fno_context demo_erf (demo_io 7 demo_history) demo_fb ''NIFTY'' ''NSE:NIFTY'' 9 (65/1000) = Some x"
proof (rule demo_context [of _ _ "(3, 10)"])
  have t: "io_today (demo_io 7 demo_history) = 0" by (simp add: demo_io_def)
  show "nearest_expiry (io_table (demo_io 7 demo_history)) 0 ''NIFTY'' (fst (3, 10)) (snd (3, 10)) = Some (7, 7)"
    using demo_expiries(1) [of demo_history, unfolded t] by (simp add: nearest_expiry_def)
  show "dte_window demo_fb (chosen_rank (demo_io 7 demo_history) ''NIFTY'') = (3, 10)" by (simp add: demo_ranked dte_window_def demo_fb_def)
qed

lemma demo_round_50: "py_round 1 50 = 50"
  using round_half_even_of_int [of 500] by (simp add: py_round_def)


lemma rounded_rank_discards_the_context_witness:
  "\<exists>x r. build_fno_context demo_erf (demo_io 7 demo_history) demo_fb ''NIFTY'' ''NSE:NIFTY'' 9 (65/1000) = Some x
     \<and> fno_evaluate demo_erf 0 demo_fparams demo_index x = Some r \<and> \<not> pr_pass r"
proof -
  obtain x where x: "build_fno_context demo_erf (demo_io 7 demo_history) demo_fb ''NIFTY'' ''NSE:NIFTY'' 9 (65/1000) = Some x" using demo_near by blast
  have t: "io_today (demo_io 7 demo_history) = 0" by (simp add: demo_io_def)
  have "\<exists>r. fno_evaluate demo_erf 0 demo_fparams demo_index x = Some r \<and> \<not> pr_pass r"
    by (rule rounded_rank_discards_the_context [OF x])
      (use demo_expiries(1) [of demo_history] in \<open>simp_all add: demo_ranked demo_fb_def demo_fparams_def t\<close>)
  with x show ?thesis by blast
qed

text \<open>A cached context does not look at the clock. As long as no newer candle is stored, the builder returns the
  context of its first call, with the entry window as it was then: asked again after the window closed, or while
  the feed is silent, it still says that the window is open.\<close>
theorem cached_context_ignores_the_clock:
  assumes "build_intraday_context load ix now1 tok strong cfg c = (Intraday_Read x a rel, c1)"
    and "load tok ''5m'' 400 = Some bs" "load2 tok ''5m'' 400 = Some bs2" "bs2 \<noteq> []" "ba_ts (List.last bs2) = ba_ts (List.last bs)"
    and "map_of c (tok, ''5m'') = None"
  shows "build_intraday_context load2 ix2 now2 tok strong2 cfg2 c1 = (Intraday_Read x a rel, c1)
    \<and> ix_window_ok x = is_within 570 870 (nat (now1 mod 1440))"
proof -
  have ne: "bs \<noteq> []" using assms(1,2) by (auto simp: build_intraday_context_def)
  obtain day index where v: "intraday_context_from_frames bs (Some day) now1 strong cfg index = Intraday_Read x a rel"
    and c1: "c1 = upsert (tok, ''5m'') (ba_ts (List.last bs), Intraday_Read x a rel) c"
    using assms(1,2,6) ne unfolding build_intraday_context_def get_or_compute_def Let_def
    by (auto split: option.splits)
  have "ix_window_ok x = is_within 570 870 (nat (now1 mod 1440))"
    using v unfolding intraday_context_from_frames_def Let_def by (auto split: if_splits option.splits)
  then show ?thesis using assms(3-5) c1 by (simp add: build_intraday_context_def get_or_compute_def Let_def)
qed

definition demo_frames :: "int \<Rightarrow> string \<Rightarrow> nat \<Rightarrow> bar list option" where
  "demo_frames tok itv n = (if itv = ''5m'' then
     Some [\<lparr>ba_ts = 230, ba_open = 100, ba_high = 102, ba_low = 99, ba_close = 101, ba_volume = 50, ba_oi = None\<rparr>] else Some [])"

lemma cached_context_ignores_the_clock_witness:
  "\<exists>x a rel c. build_intraday_context demo_frames None 869 1 True \<lparr>rg_adx_period = 14, rg_trend_min = 20\<rparr> [] = (Intraday_Read x a rel, c)
     \<and> build_intraday_context demo_frames None 1000 1 True \<lparr>rg_adx_period = 14, rg_trend_min = 20\<rparr> c = (Intraday_Read x a rel, c)
     \<and> ix_window_ok x"
proof -
  have "\<exists>x a rel c. build_intraday_context demo_frames None 869 1 True \<lparr>rg_adx_period = 14, rg_trend_min = 20\<rparr> [] = (Intraday_Read x a rel, c)"
    by (simp add: build_intraday_context_def demo_frames_def get_or_compute_def intraday_context_from_frames_def Let_def
        ist_day_def ist_tod_def session_vwap_def session_so_far_def last_of_def vwap_def typical_def utc_day_def op2_def drop_zero_def)
  then obtain x a rel c where c: "build_intraday_context demo_frames None 869 1 True \<lparr>rg_adx_period = 14, rg_trend_min = 20\<rparr> [] = (Intraday_Read x a rel, c)"
    by blast
  from cached_context_ignores_the_clock [OF c, of _ demo_frames _ None 1000 True "\<lparr>rg_adx_period = 14, rg_trend_min = 20\<rparr>"] c
  show ?thesis by (intro exI [of _ x] exI [of _ a] exI [of _ rel] exI [of _ c]) (simp add: demo_frames_def is_within_def)
qed

end
