(* ===== verification/Validation.thy ===== *)
theory Validation
  imports Indicators Options Position_Book
begin

text \<open>
  The statistics that judge a backtest: \<open>backtest/validation.py\<close> (Sharpe ratios and the probability of overfitting),
  \<open>cpcv.py\<close>, \<open>sweep.py\<close>, \<open>walkforward.py\<close>, \<open>regime_analysis.py\<close>, \<open>sample_weights.py\<close>, \<open>monte_carlo.py\<close> and
  \<open>research/triple_barrier.py\<close>. The error function, the inverse of the normal distribution and the draws of the
  random generator are arguments. A day is its number, so that ISO dates are ordered as in the code.
\<close>

section \<open>Moments and Sharpe ratios\<close>

definition mean_or_0 :: "real list \<Rightarrow> real" where
  "mean_or_0 xs = (if xs = [] then 0 else mean xs)"

definition pstdev :: "real list \<Rightarrow> real" where
  "pstdev xs = (if length xs < 2 then 0 else let m = mean_or_0 xs in sqrt (sum_list (map (\<lambda>x. (x - m)\<^sup>2) xs) / of_nat (length xs)))"

definition sharpe_ratio :: "real list \<Rightarrow> real" where
  "sharpe_ratio rs = (let s = pstdev rs in if s > 0 then mean_or_0 rs / s else 0)"

definition skewness :: "real list \<Rightarrow> real" where
  "skewness rs = (if length rs < 3 then 0
     else let m = mean_or_0 rs; s = pstdev rs in if s > 0 then sum_list (map (\<lambda>x. ((x - m) / s) ^ 3) rs) / of_nat (length rs) else 0)"

definition kurtosis :: "real list \<Rightarrow> real" where
  "kurtosis rs = (if length rs < 4 then 3
     else let m = mean_or_0 rs; s = pstdev rs in if s > 0 then sum_list (map (\<lambda>x. ((x - m) / s) ^ 4) rs) / of_nat (length rs) else 3)"

definition psr_core :: "(real \<Rightarrow> real) \<Rightarrow> real \<Rightarrow> nat \<Rightarrow> real \<Rightarrow> real \<Rightarrow> real \<Rightarrow> real" where
  "psr_core erf sr t_obs skew kurt bench = (if t_obs < 2 then 0
     else let den = sqrt (max (1 / 10 ^ 12) (1 - skew * sr + (kurt - 1) / 4 * sr * sr))
          in norm_cdf erf ((sr - bench) * sqrt (of_nat t_obs - 1) / den))"

definition probabilistic_sharpe_ratio :: "(real \<Rightarrow> real) \<Rightarrow> real list \<Rightarrow> real \<Rightarrow> real" where
  "probabilistic_sharpe_ratio erf rs bench = psr_core erf (sharpe_ratio rs) (length rs) (skewness rs) (kurtosis rs) bench"

definition euler_gamma :: real where
  "euler_gamma = 5772156649015329 / 10 ^ 16"

definition expected_max_sharpe :: "(real \<Rightarrow> real) \<Rightarrow> nat \<Rightarrow> real \<Rightarrow> real" where
  "expected_max_sharpe inv_cdf n sd = (if n < 2 \<or> sd \<le> 0 then 0
     else let a = inv_cdf (1 - 1 / of_nat n); b = inv_cdf (1 - 1 / (of_nat n * exp 1))
          in sd * ((1 - euler_gamma) * a + euler_gamma * b))"

definition deflated_sharpe_ratio :: "(real \<Rightarrow> real) \<Rightarrow> (real \<Rightarrow> real) \<Rightarrow> real list \<Rightarrow> real list \<Rightarrow> real" where
  "deflated_sharpe_ratio erf inv_cdf rs trials =
    (let sr = sharpe_ratio rs; n = (if trials = [] then 1 else length trials);
         sd = (if n > 1 then pstdev trials else 0)
     in psr_core erf sr (length rs) (skewness rs) (kurtosis rs) (expected_max_sharpe inv_cdf n sd))"

section \<open>Contiguous groups and combinations\<close>

fun groups_from :: "nat \<Rightarrow> nat \<Rightarrow> nat \<Rightarrow> nat list \<Rightarrow> nat list list" where
  "groups_from base rest start [] = []"
| "groups_from base rest start (i # is) =
    (let size = base + (if i < rest then 1 else 0) in [start..<start + size] # groups_from base rest (start + size) is)"

definition make_groups :: "nat \<Rightarrow> nat \<Rightarrow> nat list list" where
  "make_groups n_obs n_groups = groups_from (n_obs div n_groups) (n_obs mod n_groups) 0 [0..<n_groups]"

text \<open>\<open>itertools.combinations\<close>, in its order.\<close>

fun combinations :: "'a list \<Rightarrow> nat \<Rightarrow> 'a list list" where
  "combinations xs 0 = [[]]"
| "combinations [] (Suc k) = []"
| "combinations (x # xs) (Suc k) = map ((#) x) (combinations xs k) @ combinations xs (Suc k)"

section \<open>Probability of overfitting\<close>

definition first_argmax :: "(nat \<Rightarrow> real) \<Rightarrow> nat \<Rightarrow> nat" where
  "first_argmax f n = foldl (\<lambda>best i. if f i > f best then i else best) 0 [0..<n]"

definition median :: "real list \<Rightarrow> real" where
  "median xs = (let ys = sort xs; n = length ys in
     if n mod 2 = 1 then ys ! (n div 2) else (ys ! (n div 2 - 1) + ys ! (n div 2)) / 2)"

record pbo_read =
  pb_pbo :: real
  pb_combinations :: nat
  pb_configs :: nat
  pb_splits :: nat
  pb_median :: "real option"

definition no_pbo :: "nat \<Rightarrow> pbo_read" where
  "no_pbo n = \<lparr>pb_pbo = 0, pb_combinations = 0, pb_configs = n, pb_splits = 0, pb_median = None\<rparr>"

definition split_count :: "nat \<Rightarrow> nat \<Rightarrow> nat" where
  "split_count n_splits t_rows =
    (let even_rows = t_rows - t_rows mod 2 in min (n_splits + n_splits mod 2) (if even_rows = 0 then 2 else even_rows))"

definition rank_logit :: "(nat list \<Rightarrow> nat \<Rightarrow> real) \<Rightarrow> nat \<Rightarrow> nat list list \<Rightarrow> nat list \<Rightarrow> real" where
  "rank_logit perf n_cfg chunks sel =
    (let inside = concat (map (\<lambda>c. chunks ! c) sel);
         outside = concat (map (\<lambda>c. chunks ! c) (filter (\<lambda>c. c \<notin> set sel) [0..<length chunks]));
         best = first_argmax (perf inside) n_cfg;
         rank = length (filter (\<lambda>n. perf outside n \<le> perf outside best) [0..<n_cfg]);
         omega = min (max (of_nat rank / (of_nat n_cfg + 1)) (1 / 10 ^ 6)) (1 - 1 / 10 ^ 6)
     in ln (omega / (1 - omega)))"

definition pbo_cscv :: "real list list \<Rightarrow> nat \<Rightarrow> (real list \<Rightarrow> real) \<Rightarrow> pbo_read" where
  "pbo_cscv matrix n_splits metric =
    (let t_rows = length matrix; n_cfg = (case matrix of [] \<Rightarrow> 0 | r # _ \<Rightarrow> length r); s = split_count n_splits t_rows in
     if t_rows < 2 \<or> n_cfg < 2 \<or> s < 2 then no_pbo n_cfg
     else let chunks = make_groups t_rows s; perf = (\<lambda>rows col. metric (map (\<lambda>r. matrix ! r ! col) rows));
              logits = map (rank_logit perf n_cfg chunks) (combinations [0..<s] (s div 2)); m = length logits
          in \<lparr>pb_pbo = (if m = 0 then 0 else of_nat (length (filter (\<lambda>l. l \<le> 0) logits)) / of_nat m), pb_combinations = m,
              pb_configs = n_cfg, pb_splits = s, pb_median = Some (if m = 0 then 0 else py_round 4 (median logits))\<rparr>)"

section \<open>Combinatorial purged cross-validation\<close>

definition n_backtest_paths :: "nat \<Rightarrow> nat \<Rightarrow> nat" where
  "n_backtest_paths n_groups k_test =
    (if n_groups < 2 \<or> k_test < 1 \<or> n_groups \<le> k_test then 0 else (n_groups choose k_test) * k_test div n_groups)"

definition test_rows :: "nat list list \<Rightarrow> nat list \<Rightarrow> nat list" where
  "test_rows groups combo = concat (map (\<lambda>g. groups ! g) combo)"

definition embargoed_rows :: "nat \<Rightarrow> nat \<Rightarrow> nat list list \<Rightarrow> nat list \<Rightarrow> nat list" where
  "embargoed_rows n_obs embargo groups combo =
    concat (map (\<lambda>g. let l = List.last (groups ! g) in [l + 1..<min n_obs (l + 1 + embargo)]) combo)"

definition cpcv_splits :: "nat \<Rightarrow> nat \<Rightarrow> nat \<Rightarrow> nat \<Rightarrow> (nat list \<times> nat list) list" where
  "cpcv_splits n_obs n_groups k_test embargo =
    (if n_groups < 2 \<or> k_test < 1 \<or> n_groups \<le> k_test \<or> n_obs < n_groups then []
     else let groups = make_groups n_obs n_groups in
       map (\<lambda>combo. let test = test_rows groups combo; emb = (if embargo > 0 then embargoed_rows n_obs embargo groups combo else [])
          in (sort (remdups test), filter (\<lambda>i. i \<notin> set test \<and> i \<notin> set emb) [0..<n_obs]))
         (combinations [0..<n_groups] k_test))"

section \<open>Parameter sweeps\<close>

text \<open>A trade is its day and its profit.\<close>

definition day_pnl :: "(int \<times> real) list \<Rightarrow> int \<Rightarrow> real" where
  "day_pnl ts d = sum_list (map snd (filter (\<lambda>t. fst t = d) ts))"

definition daily_returns_from_trades :: "(int \<times> real) list \<Rightarrow> real \<Rightarrow> real list" where
  "daily_returns_from_trades ts capital =
    (let cap = (if capital = 0 then 1 else capital) in map (\<lambda>d. day_pnl ts d / cap) (sort (remdups (map fst ts))))"

definition align_period_returns :: "(string \<times> (int \<times> real) list) list \<Rightarrow> real \<Rightarrow> (string \<times> real list) list" where
  "align_period_returns configs capital =
    (let cap = (if capital = 0 then 1 else capital); days = sort (remdups (concat (map (\<lambda>c. map fst (snd c)) configs)))
     in map (\<lambda>c. (fst c, map (\<lambda>d. day_pnl (snd c) d / cap) days)) configs)"

datatype sweep_verdict = Robust | Likely_Overfit | Inconclusive

definition sweep_verdict_of :: "real \<Rightarrow> real \<Rightarrow> sweep_verdict" where
  "sweep_verdict_of dsr pbo = (if dsr \<ge> 95/100 \<and> pbo \<le> 2/10 then Robust
     else if dsr \<le> 1/2 \<or> pbo \<ge> 1/2 then Likely_Overfit else Inconclusive)"

record sweep_row =
  sp_configs :: nat
  sw_periods :: nat
  sw_best :: string
  sw_best_sharpe :: real
  sw_best_psr :: real
  sw_deflated :: real
  sw_pbo :: real
  sw_splits :: nat
  sw_verdict :: sweep_verdict

datatype sweep_report = Insufficient_Configs nat | No_Trades nat nat | Insufficient_History nat | Sweep sweep_row

definition sweep_validation_report ::
  "(real \<Rightarrow> real) \<Rightarrow> (real \<Rightarrow> real) \<Rightarrow> (string \<times> real list) list \<Rightarrow> nat \<Rightarrow> sweep_report" where
  "sweep_validation_report erf inv_cdf configs n_splits =
    (let live = filter (\<lambda>c. snd c \<noteq> []) configs in
     if length configs < 2 then Insufficient_Configs (length configs)
     else if length live < 2 then No_Trades (length configs) (length live)
     else let len = Min (set (map (length \<circ> snd) live)) in
       if len < 2 then Insufficient_History (length live)
       else let series = map (\<lambda>c. take len (snd c)) live; trials = map sharpe_ratio series;
                best = first_argmax (\<lambda>i. trials ! i) (length live);
                matrix = map (\<lambda>t. map (\<lambda>s. s ! t) series) [0..<len];
                pbo = pbo_cscv matrix n_splits sharpe_ratio; dsr = deflated_sharpe_ratio erf inv_cdf (series ! best) trials
            in Sweep \<lparr>sp_configs = length live, sw_periods = len, sw_best = fst (live ! best),
                 sw_best_sharpe = py_round 4 (trials ! best),
                 sw_best_psr = py_round 4 (probabilistic_sharpe_ratio erf (series ! best) 0), sw_deflated = py_round 4 dsr,
                 sw_pbo = py_round 4 (pb_pbo pbo), sw_splits = pb_splits pbo, sw_verdict = sweep_verdict_of dsr (pb_pbo pbo)\<rparr>)"

definition report_from_results ::
  "(real \<Rightarrow> real) \<Rightarrow> (real \<Rightarrow> real) \<Rightarrow> (string \<times> (int \<times> real) list) list \<Rightarrow> real \<Rightarrow> nat \<Rightarrow> sweep_report" where
  "report_from_results erf inv_cdf results capital n_splits =
    sweep_validation_report erf inv_cdf (align_period_returns results capital) n_splits"

section \<open>Walk-forward\<close>

text \<open>The folds and the verdict; the backtest of a fold gives the number of trades and their expectancy.\<close>

definition fold_windows :: "int \<Rightarrow> int \<Rightarrow> nat \<Rightarrow> (int \<times> int) list" where
  "fold_windows from_day to_day folds =
    (let step = (to_day - from_day) div of_nat folds
     in map (\<lambda>k. (from_day + of_nat k * step, if k < folds - 1 then from_day + (of_nat k + 1) * step else to_day)) [0..<folds])"

datatype fold_verdict = Consistent_Positive | Consistent_Negative | Inconsistent

record walk_summary =
  wf_folds :: "((int \<times> int) \<times> nat \<times> real) list"
  wf_evaluated :: nat
  wf_positive :: nat
  wf_mean :: real
  wf_std :: real
  wf_verdict :: fold_verdict

definition walk_forward :: "(int \<Rightarrow> int \<Rightarrow> nat \<times> real) \<Rightarrow> int \<Rightarrow> int \<Rightarrow> nat \<Rightarrow> walk_summary option" where
  "walk_forward run from_day to_day folds =
    (if folds < 2 \<or> to_day - from_day < of_nat folds * 7 then None
     else let reports = map (\<lambda>w. (w, run (fst w) (snd w))) (fold_windows from_day to_day folds);
              exps = map (snd \<circ> snd) (filter (\<lambda>r. fst (snd r) > 0) reports); positive = length (filter (\<lambda>e. e > 0) exps);
              m = (if exps = [] then 0 else py_round 3 (mean exps)); sd = (if length exps > 1 then py_round 3 (pstdev exps) else 0)
          in Some \<lparr>wf_folds = reports, wf_evaluated = length exps, wf_positive = positive, wf_mean = m, wf_std = sd,
               wf_verdict = (if positive = length exps \<and> length exps \<ge> 2 \<and> m > 0 then Consistent_Positive
                 else if positive = 0 \<and> length exps \<ge> 2 then Consistent_Negative else Inconsistent)\<rparr>)"

section \<open>Regimes and decay\<close>

text \<open>The tags a trade carries itself and those in its features.\<close>

record tagged_trade =
  tg_own :: "(string \<times> string) list"
  tg_features :: "(string \<times> string) list"
  tg_r :: "real option"

definition regime_keys :: "string list" where
  "regime_keys = [''regime'', ''intraday_regime'', ''market_regime'']"

fun first_tag :: "tagged_trade \<Rightarrow> string list \<Rightarrow> string" where
  "first_tag t [] = ''unknown''"
| "first_tag t (k # ks) = (case map_of (tg_own t) k of Some v \<Rightarrow> v | None \<Rightarrow>
     (case map_of (tg_features t) k of Some v \<Rightarrow> v | None \<Rightarrow> first_tag t ks))"

definition trade_regime :: "tagged_trade \<Rightarrow> string \<Rightarrow> string" where
  "trade_regime t key = (if key \<noteq> [] then first_tag t [key] else first_tag t regime_keys)"

record regime_row =
  rr_trades :: nat
  rr_expectancy :: real
  rr_win_rate :: real
  rr_total :: real

definition bucket_by_regime :: "tagged_trade list \<Rightarrow> string \<Rightarrow> (string \<times> regime_row) list" where
  "bucket_by_regime ts key =
    (let tagged = List.map_filter (\<lambda>t. map_option (\<lambda>r. (trade_regime t key, r)) (tg_r t)) ts
     in map (\<lambda>nm. let rs = map snd (filter (\<lambda>x. fst x = nm) tagged) in
          (nm, \<lparr>rr_trades = length rs, rr_expectancy = py_round 3 (sum_list rs / of_nat (length rs)),
                rr_win_rate = py_round 1 (of_nat (length (filter (\<lambda>r. r > 0) rs)) / of_nat (length rs) * 100),
                rr_total = py_round 3 (sum_list rs)\<rparr>)) (rev (remdups (rev (map fst tagged)))))"

record decay_read =
  dk_decaying :: bool
  dk_kill :: bool
  dk_recent :: "real option"
  dk_baseline :: "real option"
  dk_drop :: "real option"
  dk_reason :: string

text \<open>None where the window is empty and the division raises.\<close>

definition parameter_decay :: "real list \<Rightarrow> nat \<Rightarrow> real \<Rightarrow> decay_read option" where
  "parameter_decay xs recent drop_frac =
    (if length xs < recent + 1 then Some \<lparr>dk_decaying = False, dk_kill = False, dk_recent = None, dk_baseline = None,
        dk_drop = None, dk_reason = ''insufficient history''\<rparr>
     else if recent = 0 then None
     else let r = mean (drop (length xs - recent) xs); b = mean (take (length xs - recent) xs);
              kill = (r < 0 \<or> b > 0 \<and> r < b * (1 - drop_frac)); decaying = (r < b)
          in Some \<lparr>dk_decaying = decaying, dk_kill = kill, dk_recent = Some (py_round 3 r), dk_baseline = Some (py_round 3 b),
               dk_drop = (if b > 0 then Some (py_round 3 ((b - r) / b)) else None),
               dk_reason = (if r < 0 then ''recent expectancy negative'' else if kill then ''recent fell past decay threshold''
                 else if \<not> decaying then ''stable'' else ''softening'')\<rparr>)"

section \<open>Sample weights\<close>

definition time_decay_weights :: "nat \<Rightarrow> real \<Rightarrow> real list" where
  "time_decay_weights n oldest = (if n = 0 then [] else if n = 1 then [1]
     else map (\<lambda>i. py_round 6 (max 0 (oldest + (1 - oldest) * of_nat i / (of_nat n - 1)))) [0..<n])"

definition concurrency :: "(nat \<times> nat) list \<Rightarrow> nat \<Rightarrow> nat" where
  "concurrency spans t = length (filter (\<lambda>s. fst s \<le> t \<and> t \<le> snd s) spans)"

definition uniqueness_weights :: "(nat \<times> nat) list \<Rightarrow> real list" where
  "uniqueness_weights spans = map (\<lambda>s. py_round 6
     (sum_list (map (\<lambda>t. 1 / of_nat (concurrency spans t)) [fst s..<snd s + 1]) / (of_nat (snd s) - of_nat (fst s) + 1))) spans"

section \<open>Monte Carlo\<close>

fun bootstrap_path :: "real \<Rightarrow> real \<Rightarrow> real \<Rightarrow> real list \<Rightarrow> real \<times> real" where
  "bootstrap_path cum peak maxdd [] = (cum, maxdd)"
| "bootstrap_path cum peak maxdd (r # rs) =
    (let c = cum + r; p = max peak c in bootstrap_path c p (min maxdd (c - p)) rs)"

text \<open>\<open>pick i j\<close> is the index the generator draws in step \<open>j\<close> of path \<open>i\<close>.\<close>

definition bootstrap_paths :: "(nat \<Rightarrow> nat \<Rightarrow> nat) \<Rightarrow> real list \<Rightarrow> nat \<Rightarrow> nat \<Rightarrow> (real \<times> real) list" where
  "bootstrap_paths pick rs horizon n_paths = (if rs = [] \<or> horizon = 0 \<or> n_paths = 0 then []
     else map (\<lambda>i. bootstrap_path 0 0 0 (map (\<lambda>j. rs ! (pick i j mod length rs)) [0..<horizon])) [0..<n_paths])"

definition percentile :: "real list \<Rightarrow> real \<Rightarrow> real" where
  "percentile xs q = (if xs = [] then 0 else py_round 4 (xs ! min (length xs - 1) (nat \<lfloor>q * of_nat (length xs)\<rfloor>)))"

record mc_summary =
  mc_paths :: nat
  mc_p05 :: real
  mc_p50 :: real
  mc_p95 :: real
  mc_mean :: real
  mc_worst_dd :: real
  mc_median_dd :: real

definition mc_summary_of :: "(nat \<Rightarrow> nat \<Rightarrow> nat) \<Rightarrow> real list \<Rightarrow> nat \<Rightarrow> nat \<Rightarrow> mc_summary option" where
  "mc_summary_of pick rs horizon n_paths =
    (let paths = bootstrap_paths pick rs horizon n_paths; te = sort (map fst paths); dd = sort (map snd paths)
     in if paths = [] then None
        else Some \<lparr>mc_paths = length paths, mc_p05 = percentile te (5/100), mc_p50 = percentile te (1/2),
               mc_p95 = percentile te (95/100), mc_mean = py_round 4 (mean te), mc_worst_dd = percentile dd (5/100),
               mc_median_dd = percentile dd (1/2)\<rparr>)"

definition risk_of_ruin :: "(nat \<Rightarrow> nat \<Rightarrow> nat) \<Rightarrow> real list \<Rightarrow> nat \<Rightarrow> real \<Rightarrow> nat \<Rightarrow> real" where
  "risk_of_ruin pick rs horizon threshold n_paths =
    (let paths = bootstrap_paths pick rs horizon n_paths in
     if paths = [] then 0
     else py_round 4 (of_nat (length (filter (\<lambda>p. snd p \<le> - \<bar>threshold\<bar>) paths)) / of_nat (length paths)))"

section \<open>Labels\<close>

datatype barrier = Profit_Take | Stop_Loss | Vertical

record label_read =
  lb_label :: int
  lb_barrier :: barrier
  lb_holding :: nat
  lb_exit :: "real option"

definition barrier_levels :: "order_side \<Rightarrow> real \<Rightarrow> real \<Rightarrow> real \<Rightarrow> real \<times> real" where
  "barrier_levels sd e pt sl = (if sd = BUY then (e * (1 + pt), e * (1 - sl)) else (e * (1 - pt), e * (1 + sl)))"

fun walk_barriers :: "order_side \<Rightarrow> real \<Rightarrow> real \<Rightarrow> nat \<Rightarrow> nat \<Rightarrow> (real \<times> real) list \<Rightarrow> label_read" where
  "walk_barriers sd pt sl horizon i [] = \<lparr>lb_label = 0, lb_barrier = Vertical, lb_holding = horizon, lb_exit = None\<rparr>"
| "walk_barriers sd pt sl horizon i ((h, l) # bars) =
    (let hit_sl = (if sd = BUY then l \<le> sl else h \<ge> sl); hit_pt = (if sd = BUY then h \<ge> pt else l \<le> pt) in
     if hit_sl then \<lparr>lb_label = - 1, lb_barrier = Stop_Loss, lb_holding = i + 1, lb_exit = Some (py_round 4 sl)\<rparr>
     else if hit_pt then \<lparr>lb_label = 1, lb_barrier = Profit_Take, lb_holding = i + 1, lb_exit = Some (py_round 4 pt)\<rparr>
     else walk_barriers sd pt sl horizon (i + 1) bars)"

text \<open>The highs and lows after the entry, of equal length.\<close>

definition triple_barrier_label :: "(real \<times> real) list \<Rightarrow> real \<Rightarrow> order_side \<Rightarrow> real \<Rightarrow> real \<Rightarrow> nat \<Rightarrow> label_read" where
  "triple_barrier_label bars e sd pt_pct sl_pct max_holding =
    (let (pt, sl) = barrier_levels sd e pt_pct sl_pct; horizon = min max_holding (length bars)
     in walk_barriers sd pt sl horizon 0 (take horizon bars))"

definition barrier_to_meta_label :: "int \<Rightarrow> int" where
  "barrier_to_meta_label l = (if l = 1 then 1 else 0)"

definition label_events :: "(real \<times> real) list \<Rightarrow> (nat \<times> order_side \<times> real) list \<Rightarrow> real \<Rightarrow> real \<Rightarrow> nat \<Rightarrow> label_read list" where
  "label_events bars evs pt_pct sl_pct max_holding =
    map (\<lambda>(i, sd, e). triple_barrier_label (drop (i + 1) bars) e sd pt_pct sl_pct max_holding) evs"

section \<open>Feature discrimination\<close>

type_synonym labelled = "(string \<times> real) list \<times> int"

definition feature_names :: "labelled list \<Rightarrow> string list" where
  "feature_names samples = sort (remdups (concat (map (map fst \<circ> fst) samples)))"

definition to_matrix :: "labelled list \<Rightarrow> string list \<Rightarrow> real list list \<times> int list" where
  "to_matrix samples names = (map (\<lambda>s. map (\<lambda>k. get_default (map_of (fst s) k) 0) names) samples, map snd samples)"

record lift_row =
  lf_feature :: string
  lf_threshold :: real
  lf_high :: nat
  lf_low :: nat
  lf_win_high :: real
  lf_win_low :: real
  lf_lift :: real

definition win_share :: "int list \<Rightarrow> real" where
  "win_share ls = of_int (sum_list ls) / of_nat (length ls)"

text \<open>Inl for a feature that cannot be split.\<close>

definition lift_of :: "labelled list \<Rightarrow> nat \<Rightarrow> string \<Rightarrow> string + lift_row" where
  "lift_of samples min_bucket f =
    (let pairs = map (\<lambda>s. (get_default (map_of (fst s) f) 0, snd s)) samples; xs = sort (map fst pairs); med = xs ! (length xs div 2);
         hi = map snd (filter (\<lambda>p. fst p \<ge> med) pairs); lo = map snd (filter (\<lambda>p. fst p < med) pairs)
     in if length hi < min_bucket \<or> length lo < min_bucket then Inl f
        else Inr \<lparr>lf_feature = f, lf_threshold = py_round 3 med, lf_high = length hi, lf_low = length lo,
               lf_win_high = py_round 3 (win_share hi), lf_win_low = py_round 3 (win_share lo),
               lf_lift = py_round 3 (win_share hi - win_share lo)\<rparr>)"

record lift_report =
  lr_samples :: nat
  lr_base :: real
  lr_verdict :: string
  lr_rows :: "lift_row list"
  lr_constant :: "string list"

text \<open>The sort by the size of the lift is stable and descending.\<close>

definition discriminate :: "labelled list \<Rightarrow> nat \<Rightarrow> lift_report option" where
  "discriminate samples min_bucket =
    (if samples = [] then None
     else let ls = map (lift_of samples min_bucket) (feature_names samples);
              rows = sort_key (\<lambda>r. - \<bar>lf_lift r\<bar>) (List.map_filter (\<lambda>x. case x of Inr r \<Rightarrow> Some r | Inl _ \<Rightarrow> None) ls);
              best = (case rows of [] \<Rightarrow> 0 | r # _ \<Rightarrow> \<bar>lf_lift r\<bar>)
          in Some \<lparr>lr_samples = length samples, lr_base = py_round 3 (win_share (map snd samples)),
               lr_verdict = (if length samples < 100 then ''insufficient_data'' else if best \<ge> 15/100 then ''edge_present'' else ''weak_or_none''),
               lr_rows = rows, lr_constant = List.map_filter (\<lambda>x. case x of Inl f \<Rightarrow> Some f | Inr _ \<Rightarrow> None) ls\<rparr>)"

section \<open>Groups partition the rows\<close>

lemma length_groups_from [simp]: "length (groups_from b r s is) = length is"
  by (induction "is" arbitrary: s) (simp_all add: Let_def)

lemma length_make_groups [simp]: "length (make_groups n g) = g"
  by (simp add: make_groups_def)

lemma concat_groups_from:
  "i \<le> j \<Longrightarrow> concat (groups_from b r s [i..<j]) = [s..<s + (j - i) * b + (min j r - min i r)]"
proof (induction "j - i" arbitrary: i s)
  case 0
  then show ?case by simp
next
  case (Suc d)
  then have ij: "i < j" by simp
  define sz where "sz = b + (if i < r then 1 else 0)"
  have rest: "concat (groups_from b r (s + sz) [Suc i..<j]) = [s + sz..<s + sz + (j - Suc i) * b + (min j r - min (Suc i) r)]"
    using Suc.hyps ij by (intro Suc.hyps(1)) auto
  have "(j - i) * b = b + (j - Suc i) * b" using ij by (metis Suc_diff_Suc mult_Suc)
  moreover have "min j r - min i r = (if i < r then 1 else 0) + (min j r - min (Suc i) r)" using ij by auto
  ultimately have e: "s + sz + (j - Suc i) * b + (min j r - min (Suc i) r) = s + (j - i) * b + (min j r - min i r)"
    by (simp add: sz_def)
  have "concat (groups_from b r s [i..<j]) = [s..<s + sz] @ concat (groups_from b r (s + sz) [Suc i..<j])"
    using ij by (simp add: upt_conv_Cons sz_def Let_def)
  also have "\<dots> = [s..<s + sz] @ [s + sz..<s + (j - i) * b + (min j r - min i r)]" unfolding rest e ..
  also have "\<dots> = [s..<s + (j - i) * b + (min j r - min i r)]" using e upt_add_eq_append [of s "s + sz"]
    by (metis add.assoc le_add1)
  finally show ?case .
qed

lemma concat_make_groups: "0 < g \<Longrightarrow> concat (make_groups n g) = [0..<n]"
proof -
  assume g: "0 < g"
  have "min g (n mod g) = n mod g" using g by (simp add: less_imp_le min_absorb2)
  then show ?thesis unfolding make_groups_def using concat_groups_from [of 0 g "n div g" "n mod g" 0] by simp
qed

lemma groups_from_interval:
  "x \<in> set (groups_from b r s is) \<Longrightarrow> \<exists>l h. x = [l..<h] \<and> (0 < b \<longrightarrow> l < h)"
proof (induction "is" arbitrary: s)
  case Nil
  then show ?case by simp
next
  case (Cons i "is")
  define size where "size = b + (if i < r then 1 else 0)"
  from Cons.prems have "x = [s..<s + size] \<or> x \<in> set (groups_from b r (s + size) is)" by (simp add: size_def Let_def)
  then show ?case
  proof
    assume "x = [s..<s + size]"
    then show ?thesis by (intro exI [of _ s] exI [of _ "s + size"]) (simp add: size_def)
  qed (rule Cons.IH)
qed

lemma group_interval:
  assumes "x \<in> set (make_groups n g)" "0 < g" "g \<le> n"
  obtains l h where "x = [l..<h]" "l < h"
proof -
  have "0 < n div g" using assms(2,3) by (simp add: div_greater_zero_iff)
  with groups_from_interval [OF assms(1) [unfolded make_groups_def]] that show ?thesis by blast
qed

lemma group_of_row:
  assumes "0 < g" "i < n"
  obtains c where "c < g" "i \<in> set (make_groups n g ! c)"
proof -
  have "i \<in> set (concat (make_groups n g))" using assms by (simp add: concat_make_groups)
  then obtain x where x: "x \<in> set (make_groups n g)" "i \<in> set x" by auto
  then obtain c where "c < g" "x = make_groups n g ! c" by (metis in_set_conv_nth length_make_groups)
  then show ?thesis using that x(2) by blast
qed

lemma groups_disjoint:
  assumes "0 < g" "c < g" "d < g" "i \<in> set (make_groups n g ! c)" "i \<in> set (make_groups n g ! d)"
  shows "c = d"
proof (rule ccontr)
  assume ne: "c \<noteq> d"
  have dist: "distinct (concat (make_groups n g))" using assms(1) by (simp add: concat_make_groups)
  have "set (make_groups n g ! c) \<inter> set (make_groups n g ! d) = {}"
  proof (cases "c < d")
    case True
    have "concat (make_groups n g) = concat (take d (make_groups n g)) @ concat (drop d (make_groups n g))"
      by (metis append_take_drop_id concat_append)
    moreover have "set (make_groups n g ! c) \<subseteq> set (concat (take d (make_groups n g)))"
      using True assms(2) by (auto simp: in_set_conv_nth intro!: exI [of _ c])
    moreover have "set (make_groups n g ! d) \<subseteq> set (concat (drop d (make_groups n g)))"
      using assms(3) by (auto simp: Cons_nth_drop_Suc [symmetric])
    ultimately show ?thesis using dist by auto
  next
    case False
    then have dc: "d < c" using ne by simp
    have "concat (make_groups n g) = concat (take c (make_groups n g)) @ concat (drop c (make_groups n g))"
      by (metis append_take_drop_id concat_append)
    moreover have "set (make_groups n g ! d) \<subseteq> set (concat (take c (make_groups n g)))"
      using dc assms(3) by (auto simp: in_set_conv_nth intro!: exI [of _ d])
    moreover have "set (make_groups n g ! c) \<subseteq> set (concat (drop c (make_groups n g)))"
      using assms(2) by (auto simp: Cons_nth_drop_Suc [symmetric])
    ultimately show ?thesis using dist by auto
  qed
  then show False using assms(4,5) by blast
qed

section \<open>Combinations\<close>

lemma combinations_subset: "s \<in> set (combinations xs k) \<Longrightarrow> set s \<subseteq> set xs \<and> length s = k"
  by (induction xs k arbitrary: s rule: combinations.induct) fastforce+

lemma length_combinations: "length (combinations xs k) = length xs choose k"
  by (induction xs k rule: combinations.induct) simp_all

lemma combinations_with:
  "distinct xs \<Longrightarrow> x \<in> set xs \<Longrightarrow> length (filter (\<lambda>s. x \<in> set s) (combinations xs (Suc k))) = (length xs - 1) choose k"
proof (induction xs arbitrary: k)
  case Nil
  then show ?case by simp
next
  case (Cons y ys)
  show ?case
  proof (cases "x = y")
    case True
    then have "filter (\<lambda>s. x \<in> set s) (combinations ys (Suc k)) = []"
      using Cons.prems combinations_subset by (fastforce simp: filter_empty_conv)
    then show ?thesis using True by (simp add: filter_map comp_def length_combinations)
  next
    case False
    then have x: "x \<in> set ys" "distinct ys" using Cons.prems by auto
    have "length (filter (\<lambda>s. x \<in> set s) (combinations (y # ys) (Suc k))) =
        length (filter (\<lambda>s. x \<in> set s) (combinations ys k)) + ((length ys - 1) choose k)"
      using False Cons.IH [OF x(2,1), of k] by (simp add: filter_map comp_def)
    also have "\<dots> = length ys choose k"
    proof (cases k)
      case 0
      then show ?thesis by simp
    next
      case (Suc j)
      have "Suc (length ys - 1) = length ys" using x(1) by (cases ys) auto
      then show ?thesis using Cons.IH [OF x(2,1), of j] Suc binomial_Suc_Suc [of "length ys - 1" j] by simp
    qed
    finally show ?thesis by simp
  qed
qed

section \<open>Cross-validation\<close>

text \<open>C35. No leak after a test block. In every split of the purged cross-validation the training rows are exactly the rows
  that are not tested and that do not follow a tested row within the embargo.\<close>
theorem cpcv_splits_are_purged:
  assumes "(test, train) \<in> set (cpcv_splits n g k e)"
  shows "set train = {i. i < n \<and> i \<notin> set test \<and> (\<forall>t\<in>set test. \<not> (t < i \<and> i \<le> t + e))} \<and> sorted test \<and> distinct test"
proof -
  let ?gs = "make_groups n g"
  from assms have p: "0 < g" "g \<le> n" "\<not> (g < 2 \<or> k < 1 \<or> g \<le> k \<or> n < g)" by (auto simp: cpcv_splits_def split: if_splits)
  from assms p obtain combo where c: "combo \<in> set (combinations [0..<g] k)" "test = sort (remdups (test_rows ?gs combo))"
    and tr: "train = filter (\<lambda>i. i \<notin> set (test_rows ?gs combo) \<and> i \<notin> set (if e > 0 then embargoed_rows n e ?gs combo else [])) [0..<n]"
    by (auto simp: cpcv_splits_def Let_def)
  have sub: "set combo \<subseteq> {0..<g}" using combinations_subset [OF c(1)] by simp
  have t: "set test = (\<Union>x\<in>set combo. set (?gs ! x))" using c(2) by (simp add: test_rows_def)
  have emb: "i \<in> set (embargoed_rows n e ?gs combo) \<longleftrightarrow> (\<exists>t\<in>set test. t < i \<and> i \<le> t + e)"
    if i: "i < n" "i \<notin> set test" for i
  proof
    assume "i \<in> set (embargoed_rows n e ?gs combo)"
    then obtain x where x: "x \<in> set combo" "List.last (?gs ! x) < i" "i < List.last (?gs ! x) + 1 + e"
      by (auto simp: embargoed_rows_def Let_def)
    have "?gs ! x \<in> set ?gs" using x(1) sub by auto
    then obtain l h where lh: "?gs ! x = [l..<h]" "l < h" using group_interval p by metis
    then have "List.last (?gs ! x) \<in> set (?gs ! x)" by simp
    then show "\<exists>t\<in>set test. t < i \<and> i \<le> t + e" using t x by (intro bexI [of _ "List.last (?gs ! x)"]) auto
  next
    assume "\<exists>t\<in>set test. t < i \<and> i \<le> t + e"
    then obtain t' x where x: "x \<in> set combo" "t' \<in> set (?gs ! x)" "t' < i" "i \<le> t' + e" using t by auto
    have "?gs ! x \<in> set ?gs" using x(1) sub by auto
    then obtain l h where lh: "?gs ! x = [l..<h]" "l < h" using group_interval p by metis
    have "i \<notin> set (?gs ! x)" using i(2) t x(1) by auto
    then have "h \<le> i" using x(2,3) lh by auto
    moreover have "List.last (?gs ! x) = h - 1" using lh by simp
    ultimately show "i \<in> set (embargoed_rows n e ?gs combo)"
      using x lh i(1) by (auto simp: embargoed_rows_def Let_def intro!: bexI [of _ x])
  qed
  have "set train = {i. i < n \<and> i \<notin> set test \<and> (\<forall>t\<in>set test. \<not> (t < i \<and> i \<le> t + e))}"
  proof (cases "e = 0")
    case True
    then show ?thesis using tr c(2) by auto
  next
    case False
    then show ?thesis using tr c(2) emb by auto
  qed
  then show ?thesis using c(2) by simp
qed

lemma demo_cpcv: "([0, 1], [3]) \<in> set (cpcv_splits 4 2 1 1)"
proof -
  have g: "make_groups 4 2 = [[0, 1], [2, 3]]" by code_simp
  have c: "combinations [0..<2] 1 = [[0], [1]]" by code_simp
  have r: "[0..<4] = [0, 1, 2, 3]" by code_simp
  have l: "[2..<3] = [2]" by code_simp
  show ?thesis unfolding cpcv_splits_def Let_def g c r by (simp add: test_rows_def embargoed_rows_def l)
qed

lemma cpcv_splits_are_purged_witness:
  "set [3] = {i. i < (4::nat) \<and> i \<notin> set [0, 1] \<and> (\<forall>t\<in>set [0, 1]. \<not> (t < i \<and> i \<le> t + 1))}"
  using cpcv_splits_are_purged [OF demo_cpcv] by blast

text \<open>C36. Every row is tested equally often, once in each of the back-test paths the code announces.\<close>
theorem every_row_is_tested_equally_often:
  assumes "i < n" "2 \<le> g" "g \<le> n" "1 \<le> k" "k < g"
  shows "length (filter (\<lambda>s. i \<in> set (fst s)) (cpcv_splits n g k e)) = n_backtest_paths g k"
proof -
  obtain c where c: "c < g" "i \<in> set (make_groups n g ! c)" using group_of_row [of g i n] assms by auto
  have iff: "i \<in> set (test_rows (make_groups n g) s) \<longleftrightarrow> c \<in> set s" if "s \<in> set (combinations [0..<g] k)" for s
  proof -
    have "set s \<subseteq> {0..<g}" using combinations_subset [OF that] by simp
    then have "x \<in> set s \<Longrightarrow> i \<in> set (make_groups n g ! x) \<Longrightarrow> x = c" for x
      using c groups_disjoint [of g c x i n] assms(2) by auto
    then show ?thesis using c(2) unfolding test_rows_def by auto
  qed
  obtain j where k: "k = Suc j" using assms(4) by (cases k) auto
  have "length (filter (\<lambda>s. i \<in> set (fst s)) (cpcv_splits n g k e)) =
      length (filter (\<lambda>s. i \<in> set (test_rows (make_groups n g) s)) (combinations [0..<g] k))"
    using assms by (simp add: cpcv_splits_def Let_def filter_map comp_def)
  also have "\<dots> = length (filter (\<lambda>s. c \<in> set s) (combinations [0..<g] k))"
    using iff by (intro arg_cong [where f = length] filter_cong) auto
  also have "\<dots> = (g - 1) choose j" using combinations_with [of "[0..<g]" c j] c(1) k by simp
  also have "\<dots> = (g choose k) * k div g"
  proof -
    have "k * (g choose k) = g * ((g - 1) choose j)" using binomial_absorption [of j g] unfolding k .
    then show ?thesis using assms(2) by (simp add: mult.commute)
  qed
  finally show ?thesis using assms by (simp add: n_backtest_paths_def)
qed

lemma every_row_is_tested_equally_often_witness:
  "length (filter (\<lambda>s. 3 \<in> set (fst s)) (cpcv_splits 10 5 2 1)) = 4"
proof -
  have "n_backtest_paths 5 2 = 4" by code_simp
  then show ?thesis using every_row_is_tested_equally_often [of 3 10 5 2 1] by presburger
qed

section \<open>Overfitting\<close>

lemma combinations_nonempty: "k \<le> length xs \<Longrightarrow> combinations xs k \<noteq> []"
  using length_combinations [of xs k] zero_less_binomial [of k "length xs"] by fastforce

text \<open>The probability of overfitting is blind to a tie. When all configurations perform alike in every period, so that
  choosing between them has no skill, every tie counts in favour of the chosen one and the reported probability
  is zero, which the verdict of a sweep reads as robust.\<close>
theorem identical_configs_never_overfit:
  assumes "\<forall>r\<in>set matrix. \<exists>x. r = replicate n x" "2 \<le> n" "2 \<le> length matrix" "2 \<le> n_splits"
  shows "pb_pbo (pbo_cscv matrix n_splits metric) = 0 \<and> 0 < pb_combinations (pbo_cscv matrix n_splits metric)"
proof -
  let ?s = "split_count n_splits (length matrix)"
  let ?chunks = "make_groups (length matrix) ?s"
  let ?perf = "\<lambda>rows col. metric (map (\<lambda>r. matrix ! r ! col) rows)"
  have cfg: "(case matrix of [] \<Rightarrow> 0 | r # _ \<Rightarrow> length r) = n" using assms(1,3) by (cases matrix) auto
  have s: "2 \<le> ?s" "?s \<le> length matrix"
    using assms(3,4) by (auto simp: split_count_def Let_def min_def split: if_splits) presburger+
  have rows: "c < ?s \<Longrightarrow> r \<in> set (?chunks ! c) \<Longrightarrow> r < length matrix" for c r
  proof -
    assume c: "c < ?s" "r \<in> set (?chunks ! c)"
    then have "?chunks ! c \<in> set ?chunks" by simp
    then have "r \<in> set (concat ?chunks)" using c(2) by auto
    then show ?thesis using s(1) by (simp add: concat_make_groups)
  qed
  have same: "matrix ! r ! c = matrix ! r ! d" if "r < length matrix" "c < n" "d < n" for r c d
    using assms(1) nth_mem [OF that(1)] that(2,3) by (metis nth_replicate)
  have logit: "0 < rank_logit ?perf n ?chunks sel" if sel: "set sel \<subseteq> {0..<?s}" for sel
  proof -
    let ?out = "concat (map (\<lambda>c. ?chunks ! c) (filter (\<lambda>c. c \<notin> set sel) [0..<length ?chunks]))"
    define best where "best = first_argmax (?perf (concat (map (\<lambda>c. ?chunks ! c) sel))) n"
    have lt: "foldl (\<lambda>b i. if (f i :: real) > f b then i else b) 0 [0..<m] \<le> m - 1" for f :: "nat \<Rightarrow> real" and m
      by (induction m) auto
    have b: "best < n" unfolding best_def first_argmax_def using assms(2) by (intro le_less_trans [OF lt]) simp
    have out: "r < length matrix" if "r \<in> set ?out" for r using that rows by auto
    have "?perf ?out c = ?perf ?out best" if "c < n" for c
      using same [OF out that b] by (intro arg_cong [where f = metric] map_cong refl)
    then have "filter (\<lambda>c. ?perf ?out c \<le> ?perf ?out best) [0..<n] = [0..<n]" by (simp add: filter_id_conv)
    then have rk: "rank_logit ?perf n ?chunks sel =
        (let w = min (max (of_nat n / (of_nat n + 1)) (1 / 10 ^ 6)) (1 - 1 / 10 ^ 6) in ln (w / (1 - w)))"
      unfolding rank_logit_def Let_def best_def [symmetric] by simp
    define w :: real where "w = min (max (of_nat n / (of_nat n + 1)) (1 / 10 ^ 6)) (1 - 1 / 10 ^ 6)"
    have "1 / 2 < of_nat n / (of_nat n + (1::real))" using assms(2) by (simp add: field_simps)
    then have "1 / 2 < w" "w < 1" by (auto simp: w_def)
    then have "1 < w / (1 - w)" by (simp add: field_simps)
    then show ?thesis unfolding rk Let_def w_def [symmetric] by simp
  qed
  let ?ls = "map (rank_logit ?perf n ?chunks) (combinations [0..<?s] (?s div 2))"
  have none: "filter (\<lambda>l. l \<le> 0) ?ls = []"
    using logit combinations_subset by (fastforce simp: filter_empty_conv not_le)
  have pb: "pb_pbo (pbo_cscv matrix n_splits metric) = (if length ?ls = 0 then 0 else of_nat (length (filter (\<lambda>l. l \<le> 0) ?ls)) / of_nat (length ?ls))"
    "pb_combinations (pbo_cscv matrix n_splits metric) = length ?ls"
    unfolding pbo_cscv_def cfg Let_def using assms(2,3) s(1) by simp_all
  have "combinations [0..<?s] (?s div 2) \<noteq> []" by (rule combinations_nonempty) simp
  then show ?thesis unfolding pb none by simp
qed

lemma identical_configs_never_overfit_witness:
  "pb_pbo (pbo_cscv [[1, 1], [- 1, - 1], [2, 2], [0, 0]] 4 sharpe_ratio) = 0"
proof -
  have "\<forall>r\<in>set [[1, 1], [- 1, - 1], [2, 2], [0, 0]]. \<exists>x::real. r = replicate 2 x" by (simp add: numeral_2_eq_2)
  from identical_configs_never_overfit [OF this, of 4] show ?thesis by simp
qed

section \<open>First touch\<close>

definition touches :: "order_side \<Rightarrow> real \<Rightarrow> real \<Rightarrow> real \<times> real \<Rightarrow> barrier" where
  "touches sd pt sl bar =
    (let (h, l) = bar in
     if (if sd = BUY then l \<le> sl else h \<ge> sl) then Stop_Loss
     else if (if sd = BUY then h \<ge> pt else l \<le> pt) then Profit_Take else Vertical)"

lemma find_of_map: "find P (map f xs) = map_option f (find (P \<circ> f) xs)"
  by (induction xs) simp_all

lemma walk_barriers_find:
  "walk_barriers sd pt sl horizon i bars =
    (case find (\<lambda>j. touches sd pt sl (bars ! j) \<noteq> Vertical) [0..<length bars] of
       None \<Rightarrow> \<lparr>lb_label = 0, lb_barrier = Vertical, lb_holding = horizon, lb_exit = None\<rparr>
     | Some j \<Rightarrow> if touches sd pt sl (bars ! j) = Stop_Loss
         then \<lparr>lb_label = - 1, lb_barrier = Stop_Loss, lb_holding = i + j + 1, lb_exit = Some (py_round 4 sl)\<rparr>
         else \<lparr>lb_label = 1, lb_barrier = Profit_Take, lb_holding = i + j + 1, lb_exit = Some (py_round 4 pt)\<rparr>)"
proof (induction bars arbitrary: i)
  case Nil
  then show ?case by simp
next
  case (Cons bar bars)
  obtain h l where bar: "bar = (h, l)" by fastforce
  have shift: "find (\<lambda>j. touches sd pt sl ((bar # bars) ! j) \<noteq> Vertical) [Suc 0..<Suc (length bars)]
      = map_option Suc (find (\<lambda>j. touches sd pt sl (bars ! j) \<noteq> Vertical) [0..<length bars])"
    unfolding map_Suc_upt [symmetric] find_of_map by (simp add: comp_def)
  show ?case
  proof (cases "touches sd pt sl bar = Vertical")
    case True
    then have step: "walk_barriers sd pt sl horizon i (bar # bars) = walk_barriers sd pt sl horizon (i + 1) bars"
      by (auto simp: bar touches_def Let_def split: if_splits)
    have "find (\<lambda>j. touches sd pt sl ((bar # bars) ! j) \<noteq> Vertical) [0..<length (bar # bars)]
        = map_option Suc (find (\<lambda>j. touches sd pt sl (bars ! j) \<noteq> Vertical) [0..<length bars])"
      using True shift by (simp add: upt_conv_Cons del: upt_Suc)
    then show ?thesis unfolding step Cons.IH by (auto split: option.splits)
  next
    case False
    then have "find (\<lambda>j. touches sd pt sl ((bar # bars) ! j) \<noteq> Vertical) [0..<length (bar # bars)] = Some 0"
      by (simp add: upt_conv_Cons del: upt_Suc)
    then show ?thesis using False by (auto simp: bar touches_def Let_def split: if_splits)
  qed
qed

text \<open>C37. The label is the barrier touched first within the horizon, the stop before the target when one bar spans both, and
  none when no bar touches either; it looks at no bar after the one it names.\<close>
theorem label_is_the_first_touch:
  assumes "(pt, sl) = barrier_levels sd e pt_pct sl_pct" "r = triple_barrier_label bars e sd pt_pct sl_pct max_holding"
  shows "(case lb_barrier r of
      Vertical \<Rightarrow> lb_label r = 0 \<and> lb_holding r = min max_holding (length bars) \<and> (\<forall>j<min max_holding (length bars). touches sd pt sl (bars ! j) = Vertical)
    | b \<Rightarrow> 0 < lb_holding r \<and> lb_holding r \<le> min max_holding (length bars) \<and> touches sd pt sl (bars ! (lb_holding r - 1)) = b
        \<and> (\<forall>j<lb_holding r - 1. touches sd pt sl (bars ! j) = Vertical) \<and> lb_label r = (if b = Stop_Loss then - 1 else 1))"
proof -
  let ?h = "min max_holding (length bars)"
  let ?f = "find (\<lambda>j. touches sd pt sl (take ?h bars ! j) \<noteq> Vertical) [0..<?h]"
  have r: "r = (case ?f of
       None \<Rightarrow> \<lparr>lb_label = 0, lb_barrier = Vertical, lb_holding = ?h, lb_exit = None\<rparr>
     | Some j \<Rightarrow> if touches sd pt sl (take ?h bars ! j) = Stop_Loss
         then \<lparr>lb_label = - 1, lb_barrier = Stop_Loss, lb_holding = 0 + j + 1, lb_exit = Some (py_round 4 sl)\<rparr>
         else \<lparr>lb_label = 1, lb_barrier = Profit_Take, lb_holding = 0 + j + 1, lb_exit = Some (py_round 4 pt)\<rparr>)"
    unfolding assms(2) triple_barrier_label_def assms(1) [symmetric] Let_def prod.case walk_barriers_find by simp
  show ?thesis
  proof (cases ?f)
    case None
    then have "\<forall>j<?h. touches sd pt sl (bars ! j) = Vertical" by (auto simp: find_None_iff)
    then show ?thesis using r None by simp
  next
    case (Some j)
    then have j: "j < ?h" "touches sd pt sl (bars ! j) \<noteq> Vertical" "\<forall>i<j. touches sd pt sl (bars ! i) = Vertical"
      by (auto simp: find_Some_iff)
    then have "touches sd pt sl (bars ! j) = Stop_Loss \<or> touches sd pt sl (bars ! j) = Profit_Take"
      by (cases "touches sd pt sl (bars ! j)") auto
    then show ?thesis using r Some j by auto
  qed
qed

lemma label_is_the_first_touch_witness:
  "lb_label (triple_barrier_label [(101, 100), (103, 98), (110, 100)] 100 BUY (2/100) (1/100) 5) = - 1"
proof -
  define r where "r = triple_barrier_label [(101, 100), (103, 98), (110, 100)] 100 BUY (2/100) (1/100) 5"
  have "lb_barrier r = Stop_Loss" by (simp add: r_def triple_barrier_label_def barrier_levels_def)
  moreover have "(102, 99) = barrier_levels BUY 100 (2/100) (1/100)" by (simp add: barrier_levels_def)
  ultimately show ?thesis using label_is_the_first_touch [OF _ r_def, of 102 99] by (simp add: r_def)
qed

end
