(* ===== verification/Backtests.thy ===== *)
theory Backtests
  imports Contexts Validation Sizing Order_Policy
begin

text \<open>
  The backtests over stored candles: the simulated broker, the metrics, the intraday engine (\<open>backtest/engine.py\<close> with
  \<open>data_window.py\<close>), the swing engine (\<open>swing_engine.py\<close>), the fills of option legs (\<open>option_fills.py\<close>) and the
  attribution of option P&L (\<open>greeks_pnl.py\<close>). Frames are lists of bars in ascending order, the instrument master is
  a function, and a run is None where the code raises or a session has no volume, whose NaN average the
  model of the context leaves out. The feature vector a trade carries is left out of its record.
\<close>

section \<open>The simulated broker\<close>

record sim_broker =
  bb_costs :: cost_model
  bb_bps :: real

definition bt_slip :: "sim_broker \<Rightarrow> real \<Rightarrow> real" where
  "bt_slip b price = price * bb_bps b / 10000"

definition bt_entry_fill :: "sim_broker \<Rightarrow> order_side \<Rightarrow> real \<Rightarrow> real" where
  "bt_entry_fill b sd ref = py_round 2 (if sd = BUY then ref + bt_slip b ref else ref - bt_slip b ref)"

definition bt_exit_fill :: "sim_broker \<Rightarrow> order_side \<Rightarrow> real \<Rightarrow> real" where
  "bt_exit_fill b entry_sd ref = py_round 2 (if entry_sd = BUY then ref - bt_slip b ref else ref + bt_slip b ref)"

definition bt_leg_fees :: "sim_broker \<Rightarrow> string \<Rightarrow> order_side \<Rightarrow> int \<Rightarrow> real \<Rightarrow> real" where
  "bt_leg_fees b seg sd n price = fee_total (compute_leg (bb_costs b) seg sd n price)"

section \<open>Metrics\<close>

record bt_trade =
  bt_ts :: int
  bt_symbol :: string
  bt_sleeve :: string
  bt_setup :: string
  bt_side :: "order_side option"
  bt_entry :: real
  bt_exit :: real
  bt_qty :: int
  bt_pnl :: real
  bt_r :: real
  bt_fees :: real
  bt_reason :: string

record bt_metrics =
  mt_trades :: nat
  mt_win_rate :: real
  mt_profit_factor :: real
  mt_expectancy :: real
  mt_net :: real
  mt_return_pct :: real
  mt_max_dd :: real
  mt_sharpe :: real
  mt_psr :: real
  mt_largest_win :: real
  mt_largest_loss :: real
  mt_equity :: "(int \<times> real) list"
  mt_drawdown :: "(int \<times> real) list"

definition no_metrics :: bt_metrics where
  "no_metrics = \<lparr>mt_trades = 0, mt_win_rate = 0, mt_profit_factor = 0, mt_expectancy = 0, mt_net = 0, mt_return_pct = 0,
     mt_max_dd = 0, mt_sharpe = 0, mt_psr = 0, mt_largest_win = 0, mt_largest_loss = 0, mt_equity = [], mt_drawdown = []\<rparr>"

text \<open>The equity and the distance from its peak, from zero on.\<close>

fun equity_walk :: "real \<Rightarrow> real \<Rightarrow> (int \<times> real) list \<Rightarrow> (int \<times> real \<times> real) list" where
  "equity_walk cum peak [] = []"
| "equity_walk cum peak ((ts, p) # rest) =
    (let c = cum + p; pk = max peak c in (ts, py_round 2 c, py_round 2 (c - pk)) # equity_walk c pk rest)"

definition compute_metrics :: "(real \<Rightarrow> real) \<Rightarrow> bt_trade list \<Rightarrow> real \<Rightarrow> bt_metrics" where
  "compute_metrics erf ts cap =
    (if ts = [] then no_metrics
     else let pnls = map bt_pnl ts; rs = map bt_r ts; wins = filter (\<lambda>x. x > 0) pnls; losses = filter (\<lambda>x. x < 0) pnls;
              gross_w = sum_list wins; gross_l = \<bar>sum_list losses\<bar>; walk = equity_walk 0 0 (map (\<lambda>t. (bt_ts t, bt_pnl t)) ts);
              sd = population_std rs
          in \<lparr>mt_trades = length ts, mt_win_rate = py_round 1 (of_nat (length wins) / of_nat (length ts) * 100),
               mt_profit_factor = (if gross_l \<noteq> 0 then py_round 2 (gross_w / gross_l) else if gross_w \<noteq> 0 then 999 else 0),
               mt_expectancy = py_round 3 (sum_list rs / of_nat (length rs)), mt_net = py_round 2 (sum_list pnls),
               mt_return_pct = (if cap \<noteq> 0 then py_round 2 (sum_list pnls / cap * 100) else 0),
               mt_max_dd = py_round 2 (lowest (map (snd \<circ> snd) walk)),
               mt_sharpe = (if length rs > 1 \<and> sd \<noteq> 0 then py_round 2 (mean rs / sd) else 0),
               mt_psr = (if length rs > 1 then py_round 3 (probabilistic_sharpe_ratio erf rs 0) else 0),
               mt_largest_win = (if wins = [] then 0 else py_round 2 (highest wins)),
               mt_largest_loss = (if losses = [] then 0 else py_round 2 (lowest losses)),
               mt_equity = map (\<lambda>w. (fst w, fst (snd w))) walk, mt_drawdown = map (\<lambda>w. (fst w, snd (snd w))) walk\<rparr>)"

section \<open>The intraday engine\<close>

text \<open>The frame as of a moment.\<close>

definition as_of :: "bar list \<Rightarrow> int \<Rightarrow> bar list" where
  "as_of bs ts = filter (\<lambda>b. ba_ts b \<le> ts) bs"

record bt_env =
  be_broker :: sim_broker
  be_conf :: confidence_model
  be_capital :: real
  be_pct :: real
  be_cap_pct :: real
  be_params :: intraday_params
  be_regime :: regime_cfg
  be_hard_exit :: "nat option"

record bt_pos =
  bx_symbol :: string
  bx_setup :: string
  bx_side :: order_side
  bx_entry :: real
  bx_qty :: int
  bx_stop :: real
  bx_target :: real
  bx_risk :: real
  bx_fees :: real

definition equity_request :: "real \<Rightarrow> real \<Rightarrow> real \<Rightarrow> signal \<Rightarrow> real \<Rightarrow> position_request" where
  "equity_request capital0 pct cap s conf =
    \<lparr>capital = capital0, per_trade_risk_pct = pct, per_instrument_cap_pct = cap, entry_price = si_entry s, stop_price = si_stop s,
     req_lot = 1, kind = EQUITY, confidence = conf, sleeve_remaining_capital = None, portfolio_remaining_r = None,
     margin_available = None, margin_per_unit = None, min_risk_utilization = 0\<rparr>"

definition close_trade :: "sim_broker \<Rightarrow> string \<Rightarrow> bt_pos \<Rightarrow> real \<Rightarrow> int \<Rightarrow> string \<Rightarrow> real option \<Rightarrow> bt_trade" where
  "close_trade b seg p exit_ref ts why given =
    (let sd = bx_side p; fill = (case given of Some f \<Rightarrow> f | None \<Rightarrow> bt_exit_fill b sd exit_ref);
         gross = (if sd = BUY then (fill - bx_entry p) * of_int (bx_qty p) else (bx_entry p - fill) * of_int (bx_qty p));
         fees = bt_leg_fees b seg (opposite sd) (bx_qty p) fill; pnl = py_round 2 (gross - bx_fees p - fees);
         risk = (if bx_risk p = 0 then 1 else bx_risk p)
     in \<lparr>bt_ts = ts, bt_symbol = bx_symbol p, bt_sleeve = ''intraday_stocks'', bt_setup = bx_setup p, bt_side = Some sd, bt_entry = bx_entry p,
         bt_exit = fill, bt_qty = bx_qty p, bt_pnl = pnl, bt_r = py_round 3 (pnl / risk), bt_fees = py_round 2 (bx_fees p + fees),
         bt_reason = why\<rparr>)"

definition check_exit :: "bt_env \<Rightarrow> string \<Rightarrow> bt_pos \<Rightarrow> bar \<Rightarrow> bt_trade option" where
  "check_exit e seg p b =
    (case resolve_intrabar_exit (bx_side p) (Some (bx_stop p)) (Some (bx_target p)) (ba_open b) (ba_high b) (ba_low b) (bb_bps (be_broker e)) of
       Some (is_stop, fill) \<Rightarrow> Some (close_trade (be_broker e) seg p fill (ba_ts b) (if is_stop then ''stop'' else ''target'') (Some fill))
     | None \<Rightarrow> (case be_hard_exit e of
         Some h \<Rightarrow> if h \<le> ist_tod b then Some (close_trade (be_broker e) seg p (ba_close b) (ba_ts b) ''square_off_time'' None) else None
       | None \<Rightarrow> None))"

text \<open>What the bar with index \<open>i\<close> opens. An accepted intraday signal has a side.\<close>

definition bt_context :: "bt_env \<Rightarrow> bar list \<Rightarrow> bar list \<Rightarrow> bar list \<Rightarrow> nat \<Rightarrow> intraday_read" where
  "bt_context e bs day nifty i =
    (let ts = ba_ts (bs ! i) in
     intraday_context_from_frames (take (i + 1) bs) (Some (as_of day ts)) (ts + 330) True (be_regime e)
       (if nifty = [] then None else Some (as_of nifty ts)))"

definition fill_entry :: "bt_env \<Rightarrow> string \<Rightarrow> instrument \<Rightarrow> signal \<Rightarrow> int \<Rightarrow> real \<Rightarrow> real \<Rightarrow> bt_pos option" where
  "fill_entry e seg ins s n entry_ref ref_close =
    (if price_band_breached entry_ref ref_close (20 / 100) then None
     else case si_side s of None \<Rightarrow> None
     | Some sd \<Rightarrow> let fill = bt_entry_fill (be_broker e) sd entry_ref in
         Some \<lparr>bx_symbol = get_default (in_symbol ins) [], bx_setup = si_setup s, bx_side = sd, bx_entry = fill, bx_qty = n,
           bx_stop = si_stop s, bx_target = si_target s, bx_risk = \<bar>si_entry s - si_stop s\<bar> * of_int n,
           bx_fees = bt_leg_fees (be_broker e) seg sd n fill\<rparr>)"

definition bt_enter :: "bt_env \<Rightarrow> string \<Rightarrow> instrument \<Rightarrow> bar list \<Rightarrow> bar list \<Rightarrow> bar list \<Rightarrow> nat \<Rightarrow> bt_pos option option" where
  "bt_enter e seg ins bs day nifty i =
    (case bt_context e bs day nifty i of
       No_Context \<Rightarrow> Some None
     | Undefined_Vwap \<Rightarrow> None
     | Intraday_Read x _ _ \<Rightarrow>
       (case intraday_pipeline (be_params e) ins x of None \<Rightarrow> None
        | Some r \<Rightarrow> (case pr_signal r of None \<Rightarrow> Some None
          | Some s \<Rightarrow>
            if \<not> pr_pass r then Some None
            else let c = conf_score (be_conf e) (pr_gates r) in
              if \<not> conf_passes (be_conf e) c then Some None
              else let z = size_position (equity_request (be_capital e) (be_pct e) (be_cap_pct e) s c) in
                if rejected z \<or> quantity z \<le> 0 then Some None
                else let upto = as_of day (ba_ts (bs ! i)) in
                  Some (fill_entry e seg ins s (quantity z) (ba_open (bs ! (i + 1))) (if upto = [] then 0 else ba_close (List.last upto))))))"

definition bt_bar :: "bt_env \<Rightarrow> string \<Rightarrow> instrument \<Rightarrow> bar list \<Rightarrow> bar list \<Rightarrow> bar list \<Rightarrow> nat \<Rightarrow>
    bt_pos option \<times> bt_trade list \<Rightarrow> (bt_pos option \<times> bt_trade list) option" where
  "bt_bar e seg ins bs day nifty i st =
    (let (pos, ts) = (case fst st of None \<Rightarrow> st
         | Some p \<Rightarrow> (case check_exit e seg p (bs ! i) of Some t \<Rightarrow> (None, snd st @ [t]) | None \<Rightarrow> st))
     in if pos \<noteq> None \<or> length bs \<le> i + 1 then Some (pos, ts)
        else map_option (\<lambda>p. (p, ts)) (bt_enter e seg ins bs day nifty i))"

fun run_bars :: "(nat \<Rightarrow> 's \<Rightarrow> 's option) \<Rightarrow> nat list \<Rightarrow> 's \<Rightarrow> 's option" where
  "run_bars f [] s = Some s"
| "run_bars f (i # is) s = (case f i s of None \<Rightarrow> None | Some s' \<Rightarrow> run_bars f is s')"

definition bt_symbol_run :: "bt_env \<Rightarrow> string \<Rightarrow> instrument \<Rightarrow> bar list \<Rightarrow> bar list \<Rightarrow> bar list \<Rightarrow> bt_trade list option" where
  "bt_symbol_run e seg ins bs day nifty =
    (case run_bars (bt_bar e seg ins bs day nifty) [0..<length bs] (None, []) of None \<Rightarrow> None
     | Some (pos, ts) \<Rightarrow> Some (case pos of None \<Rightarrow> ts
         | Some p \<Rightarrow> ts @ [close_trade (be_broker e) seg p (ba_close (List.last bs)) (ba_ts (List.last bs)) ''eod'' None]))"

record bt_report =
  br_metrics :: bt_metrics
  br_trades :: "bt_trade list"
  br_skipped :: "string list"

fun run_symbols :: "(string \<Rightarrow> bt_trade list option option) \<Rightarrow> string list \<Rightarrow> bt_trade list \<times> string list \<Rightarrow> (bt_trade list \<times> string list) option" where
  "run_symbols f [] acc = Some acc"
| "run_symbols f (s # ss) (ts, sk) = (case f s of None \<Rightarrow> run_symbols f ss (ts, sk @ [s])
     | Some None \<Rightarrow> None | Some (Some new) \<Rightarrow> run_symbols f ss (ts @ new, sk))"

text \<open>A symbol is skipped when the master does not know it or no candle is stored.\<close>

definition run_intraday_backtest ::
  "(real \<Rightarrow> real) \<Rightarrow> bt_env \<Rightarrow> (string \<Rightarrow> instrument option) \<Rightarrow> (instrument \<Rightarrow> bar list) \<Rightarrow> (instrument \<Rightarrow> bar list) \<Rightarrow> bar list \<Rightarrow> string list \<Rightarrow> bt_report option" where
  "run_intraday_backtest erf e master frame5 frame_day nifty symbols =
    map_option (\<lambda>(ts, sk). \<lparr>br_metrics = compute_metrics erf ts (be_capital e), br_trades = ts, br_skipped = sk\<rparr>)
      (run_symbols (\<lambda>s. case master s of None \<Rightarrow> None
        | Some ins \<Rightarrow> if frame5 ins = [] then None
            else Some (bt_symbol_run e (segment_key ''intraday_stocks'' (in_type ins)) ins (frame5 ins) (frame_day ins) nifty)) symbols ([], []))"

section \<open>The swing engine\<close>

record swing_env =
  se_broker :: sim_broker
  se_conf :: confidence_model
  se_capital :: real
  se_pct :: real
  se_cap_pct :: real
  se_params :: swing_params
  se_atr_multiple :: real
  se_max_hold :: int
  se_mode :: string
  se_start :: int

record swing_pos =
  wp_entry :: real
  wp_qty :: int
  wp_stop :: real
  wp_target :: real
  wp_ts :: int
  wp_risk :: real
  wp_fees :: real
  wp_hwm :: real
  wp_trail :: real

text \<open>The readings of the bar with index \<open>i\<close>: the 200-day mean, the average true range and the highest high of the 20
  bars before, zero where undefined; and the state of the market, the last one known.\<close>

definition swing_mean :: "bar list \<Rightarrow> nat \<Rightarrow> real" where
  "swing_mean bs i = get_default (rolling 200 mean (map ba_close bs) ! i) 0"

definition swing_atr :: "bar list \<Rightarrow> nat \<Rightarrow> real" where
  "swing_atr bs i = get_default (atr bs 14 ! i) 0"

definition swing_prior_high :: "bar list \<Rightarrow> nat \<Rightarrow> real" where
  "swing_prior_high bs i = (if i = 0 then 0 else get_default (rolling 20 highest (map ba_high bs) ! (i - 1)) 0)"

definition above_means :: "bar list \<Rightarrow> bool list" where
  "above_means nifty = map2 (\<lambda>c m. case m of None \<Rightarrow> False | Some v \<Rightarrow> c > v) (map ba_close nifty) (rolling 200 mean (map ba_close nifty))"

definition market_up :: "bar list \<Rightarrow> int \<Rightarrow> bool" where
  "market_up nifty ts = (if nifty = [] then True
     else case filter (\<lambda>x. fst x \<le> ts) (zip (map ba_ts nifty) (above_means nifty)) of [] \<Rightarrow> False | us \<Rightarrow> snd (List.last us))"

definition no_fundamentals :: fundamentals where
  "no_fundamentals = \<lparr>fu_market_cap = None, fu_roe = None, fu_rev_growth = None, fu_eps_growth = None, fu_debt_equity = None,
     fu_promoter = None, fu_adv = None\<rparr>"

definition swing_ctx_at :: "bar list \<Rightarrow> bar list \<Rightarrow> nat \<Rightarrow> swing_ctx" where
  "swing_ctx_at bs nifty i =
    \<lparr>sx_last = ba_close (bs ! i), sx_sma200 = swing_mean bs i, sx_atr = swing_atr bs i, sx_market_uptrend = market_up nifty (ba_ts (bs ! i)),
     sx_sector_strong = True, sx_setup_ok = (ba_close (bs ! i) > swing_prior_high bs i), sx_setup = ''base_breakout'', sx_event = False,
     sx_fundamentals = no_fundamentals, sx_fund_required = False\<rparr>"

definition trail_stop :: "swing_env \<Rightarrow> swing_pos \<Rightarrow> bar \<Rightarrow> swing_pos" where
  "trail_stop e p b = (if se_mode e = ''trail''
     then let h = max (wp_hwm p) (ba_high b) in p\<lparr>wp_hwm := h, wp_stop := max (wp_stop p) (h - wp_trail p)\<rparr> else p)"

definition swing_exit :: "swing_env \<Rightarrow> swing_pos \<Rightarrow> bar \<Rightarrow> (string \<times> real) option" where
  "swing_exit e p b =
    (if ba_low b \<le> wp_stop p then Some (''stop'', wp_stop p)
     else if se_mode e = ''target'' \<and> wp_target p \<le> ba_high b then Some (''target'', wp_target p)
     else if se_max_hold e \<le> (ba_ts b - wp_ts p) div 1440 then Some (''max_hold'', ba_close b)
     else None)"

definition swing_close :: "swing_env \<Rightarrow> instrument \<Rightarrow> swing_pos \<Rightarrow> int \<Rightarrow> real \<Rightarrow> string \<Rightarrow> bt_trade" where
  "swing_close e ins p ts px why =
    (let fill = bt_exit_fill (se_broker e) BUY px; gross = (fill - wp_entry p) * of_int (wp_qty p);
         fees = bt_leg_fees (se_broker e) ''equity_delivery'' SELL (wp_qty p) fill; pnl = py_round 2 (gross - wp_fees p - fees);
         risk = (if wp_risk p = 0 then 1 else wp_risk p)
     in \<lparr>bt_ts = ts, bt_symbol = get_default (in_symbol ins) [], bt_sleeve = ''swing_stocks'', bt_setup = ''base_breakout'', bt_side = Some BUY,
         bt_entry = wp_entry p, bt_exit = fill, bt_qty = wp_qty p, bt_pnl = pnl, bt_r = py_round 3 (pnl / risk),
         bt_fees = py_round 2 (if why = ''eod'' then wp_fees p else wp_fees p + fees), bt_reason = why\<rparr>)"

definition swing_enter :: "swing_env \<Rightarrow> instrument \<Rightarrow> bar list \<Rightarrow> bar list \<Rightarrow> nat \<Rightarrow> swing_pos option option" where
  "swing_enter e ins bs nifty i =
    (if swing_mean bs i = 0 \<or> swing_atr bs i = 0 \<or> swing_prior_high bs i = 0 then Some None
     else case swing_evaluate (se_params e) ''swing_stocks'' ins (swing_ctx_at bs nifty i) of None \<Rightarrow> None
     | Some r \<Rightarrow> (case pr_signal r of None \<Rightarrow> Some None
        | Some s \<Rightarrow>
          if \<not> pr_pass r then Some None
          else let c = conf_score (se_conf e) (pr_gates r) in
            if \<not> conf_passes (se_conf e) c then Some None
            else let z = size_position (equity_request (se_capital e) (se_pct e) (se_cap_pct e) s c) in
              if rejected z \<or> quantity z \<le> 0 then Some None
              else let fill = bt_entry_fill (se_broker e) BUY (ba_open (bs ! (i + 1))) in
                Some (Some \<lparr>wp_entry = fill, wp_qty = quantity z, wp_stop = si_stop s, wp_target = si_target s, wp_ts = ba_ts (bs ! i),
                  wp_risk = \<bar>si_entry s - si_stop s\<bar> * of_int (quantity z),
                  wp_fees = bt_leg_fees (se_broker e) ''equity_delivery'' BUY (quantity z) fill, wp_hwm = fill,
                  wp_trail = se_atr_multiple e * swing_atr bs i\<rparr>)))"

definition swing_manage :: "swing_env \<Rightarrow> instrument \<Rightarrow> bar \<Rightarrow> swing_pos option \<times> bt_trade list \<Rightarrow> swing_pos option \<times> bt_trade list" where
  "swing_manage e ins b st = (case fst st of None \<Rightarrow> st
     | Some p \<Rightarrow> let p' = trail_stop e p b in
         (case swing_exit e p' b of None \<Rightarrow> (Some p', snd st)
          | Some (why, px) \<Rightarrow> (None, if se_start e \<le> ba_ts b then snd st @ [swing_close e ins p' (ba_ts b) px why] else snd st)))"

definition swing_bar :: "swing_env \<Rightarrow> instrument \<Rightarrow> bar list \<Rightarrow> bar list \<Rightarrow> nat \<Rightarrow>
    swing_pos option \<times> bt_trade list \<Rightarrow> (swing_pos option \<times> bt_trade list) option" where
  "swing_bar e ins bs nifty i st =
    (let (pos, ts) = swing_manage e ins (bs ! i) st in
     if pos \<noteq> None \<or> length bs \<le> i + 1 \<or> ba_ts (bs ! i) < se_start e then Some (pos, ts)
     else map_option (\<lambda>p. (p, ts)) (swing_enter e ins bs nifty i))"

definition swing_symbol_run :: "swing_env \<Rightarrow> instrument \<Rightarrow> bar list \<Rightarrow> bar list \<Rightarrow> bt_trade list option" where
  "swing_symbol_run e ins bs nifty =
    (case run_bars (swing_bar e ins bs nifty) [0..<length bs] (None, []) of None \<Rightarrow> None
     | Some (pos, ts) \<Rightarrow> Some (case pos of None \<Rightarrow> ts
         | Some p \<Rightarrow> ts @ [swing_close e ins p (ba_ts (List.last bs)) (ba_close (List.last bs)) ''eod'']))"

definition run_swing_backtest ::
  "(real \<Rightarrow> real) \<Rightarrow> swing_env \<Rightarrow> (string \<Rightarrow> instrument option) \<Rightarrow> (instrument \<Rightarrow> bar list) \<Rightarrow> bar list \<Rightarrow> string list \<Rightarrow> bt_report option" where
  "run_swing_backtest erf e master frame nifty symbols =
    map_option (\<lambda>(ts, sk). \<lparr>br_metrics = compute_metrics erf ts (se_capital e), br_trades = ts, br_skipped = sk\<rparr>)
      (run_symbols (\<lambda>s. case master s of None \<Rightarrow> None
        | Some ins \<Rightarrow> if length (frame ins) < 220 then None else Some (swing_symbol_run e ins (frame ins) nifty)) symbols ([], []))"

section \<open>Fills of option legs\<close>

text \<open>None stands for an infinitely wide spread.\<close>

definition spread_of :: "real option \<Rightarrow> real option \<Rightarrow> real option" where
  "spread_of bid ask = (case (bid, ask) of
     (Some b, Some a) \<Rightarrow> if b \<le> 0 \<or> a \<le> 0 \<or> a < b then None else let mid = (b + a) / 2 in if mid > 0 then Some ((a - b) / mid) else None
   | _ \<Rightarrow> None)"

definition opt_liquidity_ok :: "real option \<Rightarrow> real option \<Rightarrow> real \<Rightarrow> real \<Rightarrow> bool" where
  "opt_liquidity_ok oi vol min_oi min_vol \<longleftrightarrow>
     \<not> (min_oi > 0 \<and> (case oi of None \<Rightarrow> True | Some x \<Rightarrow> x < min_oi)) \<and> \<not> (min_vol > 0 \<and> (case vol of None \<Rightarrow> True | Some x \<Rightarrow> x < min_vol))"

definition option_fill_price :: "order_side \<Rightarrow> real \<Rightarrow> real \<Rightarrow> real \<Rightarrow> real" where
  "option_fill_price sd bid ask impact =
    (let mid = (bid + ask) / 2; half = (ask - bid) / 2; slip = mid * impact in
     if sd = BUY then py_round 2 (mid + half + slip) else py_round 2 (mid - half - slip))"

datatype leg_read = Too_Wide "real option" | Too_Illiquid real | Tradable real real

definition leg_fill :: "order_side \<Rightarrow> real option \<Rightarrow> real option \<Rightarrow> real option \<Rightarrow> real option \<Rightarrow> real \<Rightarrow> real \<Rightarrow> real \<Rightarrow> real \<Rightarrow> leg_read" where
  "leg_fill sd bid ask oi vol max_spread min_oi min_vol impact =
    (case spread_of bid ask of None \<Rightarrow> Too_Wide None
     | Some sp \<Rightarrow>
       if sp > max_spread then Too_Wide (Some sp)
       else if \<not> opt_liquidity_ok oi vol min_oi min_vol then Too_Illiquid (py_round 4 sp)
       else Tradable (option_fill_price sd (get_default bid 0) (get_default ask 0) impact) (py_round 4 sp))"

definition synthetic_spread_pct :: "real \<Rightarrow> real \<Rightarrow> real \<Rightarrow> real \<Rightarrow> real \<Rightarrow> real" where
  "synthetic_spread_pct spot strike dte_days iv base =
    (let moneyness = (if spot > 0 \<and> strike > 0 then \<bar>ln (strike / spot)\<bar> else 0); dte = max (1 / 2) dte_days;
         spread = base * (1 + 4 * moneyness) * (1 + 2 / sqrt dte) * (1 + max 0 iv)
     in py_round 4 (min spread (1 / 2)))"

section \<open>Attribution of option P&L\<close>

record pnl_parts =
  pp_delta :: real
  pp_gamma :: real
  pp_vega :: real
  pp_theta :: real
  pp_explained :: real
  pp_actual :: "real option"
  pp_residual :: "real option"

definition attribute_pnl :: "greek_set \<Rightarrow> real \<Rightarrow> real \<Rightarrow> real \<Rightarrow> real option \<Rightarrow> real \<Rightarrow> pnl_parts" where
  "attribute_pnl g ds dvol ddays actual scale =
    (let d = gk_delta g * ds; ga = 1 / 2 * gk_gamma g * ds * ds; v = gk_vega g * dvol; t = gk_theta g * ddays;
         explained = (d + ga + v + t) * scale
     in \<lparr>pp_delta = py_round 4 (d * scale), pp_gamma = py_round 4 (ga * scale), pp_vega = py_round 4 (v * scale), pp_theta = py_round 4 (t * scale),
         pp_explained = py_round 4 explained, pp_actual = map_option (py_round 4) actual,
         pp_residual = map_option (\<lambda>a. py_round 4 (a - explained)) actual\<rparr>)"

section \<open>Indicators do not look ahead\<close>

lemma length_rolling [simp]: "length (rolling n f xs) = length xs"
  by (simp add: rolling_def)

lemma rolling_prefix:
  assumes "take (i + 1) xs = take (i + 1) ys" "i < length xs" "i < length ys"
  shows "rolling n f xs ! i = rolling n f ys ! i"
proof (cases "i + 1 < n")
  case True
  then show ?thesis using assms(2,3) by (simp add: rolling_def)
next
  case False
  then have "take n (drop (i + 1 - n) zs) = drop (i + 1 - n) (take (i + 1) zs)" for zs :: "real list" by (simp add: take_drop)
  then show ?thesis using assms False by (simp add: rolling_def)
qed

lemma take_ewm_from: "take k (ewm_from a m w xs) = ewm_from a m w (take k xs)"
proof (induction a m w xs arbitrary: k rule: ewm_from.induct)
  case (4 a m w v xs)
  then show ?case by (cases k) (simp_all add: Let_def)
qed (case_tac [!] k, simp_all)

lemma ewm_prefix:
  assumes "take (i + 1) xs = take (i + 1) ys"
  shows "ewm a xs ! i = ewm a ys ! i"
proof -
  have "take (i + 1) (ewm a xs) = take (i + 1) (ewm a ys)" using assms by (simp add: ewm_def take_ewm_from)
  then show ?thesis by (metis nth_take less_add_one)
qed

lemma take_true_ranges: "take k (true_ranges bs) = true_ranges (take k bs)"
proof (rule nth_equalityI)
  show "length (take k (true_ranges bs)) = length (true_ranges (take k bs))" by (simp add: true_ranges_def)
  fix i
  assume "i < length (take k (true_ranges bs))"
  then have "i < k" "i < length bs" by (simp_all add: true_ranges_def)
  then show "take k (true_ranges bs) ! i = true_ranges (take k bs) ! i" by (cases i) (simp_all add: true_ranges_def)
qed

lemma atr_prefix:
  assumes "take (i + 1) bs = take (i + 1) cs"
  shows "atr bs n ! i = atr cs n ! i"
  unfolding atr_def using assms by (intro ewm_prefix) (simp add: take_map take_true_ranges)

section \<open>Runs\<close>

lemma run_bars_cong: "(\<And>i s. i \<in> set is \<Longrightarrow> f i s = g i s) \<Longrightarrow> run_bars f is s = run_bars g is s"
  by (induction "is" arbitrary: s) (auto split: option.splits)

lemma take_take_prefix: "take k xs = take k ys \<Longrightarrow> j \<le> k \<Longrightarrow> take j xs = take j ys"
  by (metis min.absorb1 take_take)

lemma nth_take_prefix: "take k xs = take k ys \<Longrightarrow> i < k \<Longrightarrow> xs ! i = ys ! i"
  by (metis nth_take)

lemma market_up_prefix:
  assumes "nifty = hist @ later" "\<forall>b\<in>set later. ts < ba_ts b" "nifty \<noteq> []"
  shows "market_up nifty ts = (case filter (\<lambda>x. fst x \<le> ts) (zip (map ba_ts hist) (above_means hist)) of [] \<Rightarrow> False | us \<Rightarrow> snd (List.last us))"
proof -
  let ?k = "length hist"
  have len: "length (above_means bs) = length bs" for bs by (simp add: above_means_def)
  have pre: "take ?k (above_means nifty) = above_means hist"
  proof (rule nth_equalityI)
    show "length (take ?k (above_means nifty)) = length (above_means hist)" using assms(1) by (simp add: len)
    fix i
    assume "i < length (take ?k (above_means nifty))"
    then have i: "i < ?k" by simp
    have "rolling 200 mean (map ba_close nifty) ! i = rolling 200 mean (map ba_close hist) ! i"
      using i assms(1) by (intro rolling_prefix) auto
    then show "take ?k (above_means nifty) ! i = above_means hist ! i"
      using i assms(1) by (simp add: above_means_def nth_append)
  qed
  let ?rest = "drop ?k (above_means nifty)"
  have "zip (map ba_ts nifty) (above_means nifty) = zip (map ba_ts hist @ map ba_ts later) (above_means hist @ ?rest)"
    using assms(1) pre by (metis append_take_drop_id map_append)
  also have "\<dots> = zip (map ba_ts hist) (above_means hist) @ zip (map ba_ts later) ?rest" by (simp add: zip_append len)
  finally have z: "zip (map ba_ts nifty) (above_means nifty) = zip (map ba_ts hist) (above_means hist) @ zip (map ba_ts later) ?rest" .
  have "filter (\<lambda>x. fst x \<le> ts) (zip (map ba_ts later) ?rest) = []"
    using assms(2) by (fastforce simp: filter_empty_conv dest: set_zip_leftD)
  then show ?thesis unfolding market_up_def z using assms(3) by simp
qed

section \<open>Properties\<close>

text \<open>C32. The swing backtest sees no future. Two histories that agree on the first \<open>k\<close> bars and on the open of the next one, with
  index histories that agree up to the last of these bars, lead to the same position and the same trades
  after these bars, whatever follows: means, true ranges, breakouts and the state of the market read only
  the past, and an entry is filled at the next open.\<close>
theorem swing_backtest_sees_no_future:
  assumes "take k bs = take k bs'" "k < length bs" "k < length bs'" "ba_open (bs ! k) = ba_open (bs' ! k)"
    and "nifty = hist @ later" "nifty' = hist @ later'" "nifty = [] \<longleftrightarrow> nifty' = []"
    and "\<forall>b\<in>set (later @ later'). \<forall>i<k. ba_ts (bs ! i) < ba_ts b"
  shows "run_bars (swing_bar e ins bs nifty) [0..<k] st = run_bars (swing_bar e ins bs' nifty') [0..<k] st"
proof (rule run_bars_cong)
  fix i st
  assume "i \<in> set [0..<k]"
  then have i: "i < k" by simp
  have pre: "take (i + 1) bs = take (i + 1) bs'" using take_take_prefix [OF assms(1)] i by simp
  have same: "bs ! i = bs' ! i" by (rule nth_take_prefix [OF assms(1) i])
  have nxt: "ba_open (bs ! (i + 1)) = ba_open (bs' ! (i + 1))"
  proof (cases "i + 1 = k")
    case True
    then show ?thesis using assms(4) by simp
  next
    case False
    then show ?thesis using nth_take_prefix [OF assms(1), of "i + 1"] i by simp
  qed
  have m: "swing_mean bs i = swing_mean bs' i"
    unfolding swing_mean_def using i assms(2,3) pre by (subst rolling_prefix [where ys = "map ba_close bs'"]) (simp_all add: take_map)
  have a: "swing_atr bs i = swing_atr bs' i" unfolding swing_atr_def by (subst atr_prefix [OF pre]) (rule refl)
  have h: "swing_prior_high bs i = swing_prior_high bs' i"
  proof (cases i)
    case (Suc j)
    then have "take (j + 1) bs = take (j + 1) bs'" using take_take_prefix [OF assms(1)] i by simp
    then have "rolling 20 highest (map ba_high bs) ! j = rolling 20 highest (map ba_high bs') ! j"
      using Suc i assms(2,3) by (intro rolling_prefix) (simp_all add: take_map)
    then show ?thesis by (simp add: swing_prior_high_def Suc)
  qed (simp add: swing_prior_high_def)
  have u: "market_up nifty (ba_ts (bs ! i)) = market_up nifty' (ba_ts (bs ! i))"
  proof (cases "nifty = []")
    case True
    then show ?thesis using assms(7) by simp
  next
    case False
    have "\<forall>b\<in>set later. ba_ts (bs ! i) < ba_ts b" "\<forall>b\<in>set later'. ba_ts (bs ! i) < ba_ts b" using assms(8) i by auto
    then show ?thesis
      using market_up_prefix [OF assms(5) _ False] market_up_prefix [OF assms(6)] False assms(7) by simp
  qed
  have "swing_ctx_at bs nifty i = swing_ctx_at bs' nifty' i" unfolding swing_ctx_at_def using m a h u same by simp
  then have en: "swing_enter e ins bs nifty i = swing_enter e ins bs' nifty' i"
    unfolding swing_enter_def m a h nxt same by simp
  have "\<not> length bs \<le> i + 1" "\<not> length bs' \<le> i + 1" using i assms(2,3) by simp_all
  then show "swing_bar e ins bs nifty i st = swing_bar e ins bs' nifty' i st" unfolding swing_bar_def en same by simp
qed

text \<open>The swing backtest books stops at prices nobody could trade. A bar that opens and stays below the stop of a long
  position closes it at the stop itself, above everything that traded in the bar; the resolver of the intraday
  engine fills the same stop at the open at best.\<close>
theorem swing_stop_fills_above_the_market:
  assumes "se_mode e \<noteq> ''trail''" "ba_low b \<le> ba_open b" "ba_open b \<le> ba_high b" "0 < wp_stop p" "0 \<le> ba_open b" "0 \<le> bb_bps (se_broker e)"
    and "ba_high b + 1 / 100 < wp_stop p - bt_slip (se_broker e) (wp_stop p)"
  shows "(\<exists>t. swing_manage e ins b (Some p, ts) = (None, if se_start e \<le> ba_ts b then ts @ [t] else ts)
        \<and> ba_high b < bt_exit t \<and> bt_reason t = ''stop'')
    \<and> (\<exists>f. resolve_intrabar_exit BUY (Some (wp_stop p)) target (ba_open b) (ba_high b) (ba_low b) (bb_bps (se_broker e)) = Some (True, f)
        \<and> f \<le> py_round 2 (ba_open b))"
proof (rule conjI)
  have "0 \<le> bt_slip (se_broker e) (wp_stop p)" using assms(4,6) by (simp add: bt_slip_def)
  then have s: "ba_high b < wp_stop p" using assms(7) by linarith
  let ?t = "swing_close e ins p (ba_ts b) (wp_stop p) ''stop''"
  have "\<bar>bt_exit_fill (se_broker e) BUY (wp_stop p) - (wp_stop p - bt_slip (se_broker e) (wp_stop p))\<bar> \<le> 1 / 200"
    using py_round_error [of 2 "wp_stop p - bt_slip (se_broker e) (wp_stop p)"] by (simp add: bt_exit_fill_def)
  then have "ba_high b < bt_exit_fill (se_broker e) BUY (wp_stop p)" using assms(7) by linarith
  then have "ba_high b < bt_exit ?t" by (simp add: swing_close_def Let_def)
  moreover have "bt_reason ?t = ''stop''" by (simp add: swing_close_def Let_def)
  moreover have "swing_manage e ins b (Some p, ts) = (None, if se_start e \<le> ba_ts b then ts @ [?t] else ts)"
    using assms(1,2,3) s by (simp add: swing_manage_def trail_stop_def swing_exit_def)
  ultimately show "\<exists>t. swing_manage e ins b (Some p, ts) = (None, if se_start e \<le> ba_ts b then ts @ [t] else ts)
      \<and> ba_high b < bt_exit t \<and> bt_reason t = ''stop''" by blast
  have o: "ba_open b \<le> wp_stop p" using s assms(3) by simp
  have "slip_price (min (wp_stop p) (ba_open b)) (bb_bps (se_broker e)) False \<le> ba_open b"
    using assms(5,6) o by (simp add: slip_price_def min_def)
  then have "stop_fill_price BUY (wp_stop p) (ba_open b) (bb_bps (se_broker e)) \<le> py_round 2 (ba_open b)"
    by (simp add: stop_fill_price_def py_round_mono)
  then show "\<exists>f. resolve_intrabar_exit BUY (Some (wp_stop p)) target (ba_open b) (ba_high b) (ba_low b) (bb_bps (se_broker e)) = Some (True, f)
      \<and> f \<le> py_round 2 (ba_open b)"
    using o assms(4) by (simp add: resolve_intrabar_exit_def)
qed

text \<open>C33. The intraday backtest reads the future of its day. The daily frame it slices as of a bar already holds the daily bar of
  the same day; its close, known only after the session, decides whether the entry is refused as outside
  the price band, so the same bars lead to a position or to none depending on how the day ends.\<close>
theorem close_of_the_day_decides_the_entry:
  assumes "bt_enter e seg ins bs day nifty i = Some (Some p)"
    and "as_of day (ba_ts (bs ! i)) = past @ [today]" "as_of day' (ba_ts (bs ! i)) = past @ [today\<lparr>ba_close := c\<rparr>]"
    and "ist_day today = ist_day (bs ! i)" "0 < c" "0 < ba_open (bs ! (i + 1))" "20 / 100 < \<bar>ba_open (bs ! (i + 1)) - c\<bar> / c"
  shows "bt_enter e seg ins bs day' nifty i = Some None"
proof -
  obtain x a rel where x: "bt_context e bs day nifty i = Intraday_Read x a rel"
    using assms(1) by (auto simp: bt_enter_def split: intraday_read.splits)
  have gap: "day_gap (Some (past @ [today\<lparr>ba_close := c\<rparr>])) q = day_gap (Some (past @ [today])) q" for q
    by (cases past rule: rev_cases) (simp_all add: day_gap_def nth_append)
  have adv: "(case Some (past @ [today\<lparr>ba_close := c\<rparr>]) of Some (d # ds) \<Rightarrow> mean (map ba_volume (d # ds)) | _ \<Rightarrow> 0)
      = (case Some (past @ [today]) of Some (d # ds) \<Rightarrow> mean (map ba_volume (d # ds)) | _ \<Rightarrow> (0::real))"
    by (cases past) simp_all
  have "\<exists>a' rel'. bt_context e bs day' nifty i = Intraday_Read x a' rel'"
    using x unfolding bt_context_def intraday_context_from_frames_def Let_def assms(2,3) gap adv
    by (auto split: if_splits option.splits)
  then obtain a' rel' where x': "bt_context e bs day' nifty i = Intraday_Read x a' rel'" by blast
  have band: "price_band_breached (ba_open (bs ! (i + 1))) c (20 / 100)" using assms(5-7) by (simp add: price_band_breached_def)
  from assms(1) show ?thesis
    unfolding bt_enter_def x x' intraday_read.case Let_def assms(2,3)
    using band [simplified] by (auto simp: fill_entry_def split: option.splits if_splits)
qed

definition demo_bar :: "int \<Rightarrow> real \<Rightarrow> real \<Rightarrow> real \<Rightarrow> real \<Rightarrow> real \<Rightarrow> bar" where
  "demo_bar ts op h l c v = \<lparr>ba_ts = ts, ba_open = op, ba_high = h, ba_low = l, ba_close = c, ba_volume = v, ba_oi = None\<rparr>"

definition demo_swing_env :: swing_env where
  "demo_swing_env = \<lparr>se_broker = \<lparr>bb_costs = Map.empty, bb_bps = 5\<rparr>, se_conf = \<lparr>cf_weights = Map.empty, cf_default = 1, cf_min = 0\<rparr>,
     se_capital = 100000, se_pct = 1, se_cap_pct = 20,
     se_params = \<lparr>sp_cap = None, sp_roe = None, sp_rev = None, sp_eps = None, sp_debt = None, sp_adv = None, sp_require_uptrend = None,
       sp_event_action = None, sp_atr_multiple = None\<rparr>,
     se_atr_multiple = 2, se_max_hold = 60, se_mode = ''target'', se_start = 0\<rparr>"

definition demo_swing_pos :: swing_pos where
  "demo_swing_pos = \<lparr>wp_entry = 105, wp_qty = 10, wp_stop = 100, wp_target = 115, wp_ts = 0, wp_risk = 50, wp_fees = 0, wp_hwm = 105, wp_trail = 5\<rparr>"

lemma swing_backtest_sees_no_future_witness:
  "let b = demo_bar 1440 100 101 99 100 1000 in
    run_bars (swing_bar demo_swing_env demo_equity (replicate 230 b) []) [0..<229] (None, [])
      = run_bars (swing_bar demo_swing_env demo_equity (replicate 229 b @ [b\<lparr>ba_close := 0\<rparr>, b]) []) [0..<229] (None, [])"
  unfolding Let_def
  by (rule swing_backtest_sees_no_future [where hist = "[]" and later = "[]" and later' = "[]"]) (simp_all add: nth_append)

lemma swing_stop_fills_above_the_market_witness:
  "\<exists>t. swing_manage demo_swing_env demo_equity (demo_bar 1440 90 92 88 91 1000) (Some demo_swing_pos, []) = (None, [t]) \<and> 92 < bt_exit t"
  using swing_stop_fills_above_the_market [of demo_swing_env "demo_bar 1440 90 92 88 91 1000" demo_swing_pos demo_equity "[]" None]
  by (auto simp: demo_swing_env_def demo_bar_def demo_swing_pos_def bt_slip_def)

section \<open>The deepest fall\<close>

lemma take_Suc_sum: "i < length xs \<Longrightarrow> sum_list (take (Suc i) xs) = sum_list (take i xs) + (xs ! i :: real)"
  by (simp add: take_Suc_conv_app_nth)

fun falls :: "real \<Rightarrow> real \<Rightarrow> real list \<Rightarrow> real list" where
  "falls cum peak [] = []"
| "falls cum peak (p # ps) = (let c = cum + p; pk = max peak c in (c - pk) # falls c pk ps)"

lemma walk_falls: "map (snd \<circ> snd) (equity_walk cum peak xs) = map (py_round 2) (falls cum peak (map snd xs))"
  by (induction cum peak xs rule: equity_walk.induct) (simp_all add: Let_def)

lemma length_falls [simp]: "length (falls cum peak ps) = length ps"
  by (induction cum peak ps rule: falls.induct) (simp_all add: Let_def)

text \<open>A fall is measured from the highest level so far, and from no other.\<close>

lemma falls_below:
  "j < length ps \<Longrightarrow> falls cum peak ps ! j \<le> cum + sum_list (take (j + 1) ps) - peak
    \<and> (\<forall>i\<le>j. falls cum peak ps ! j \<le> sum_list (take (j + 1) ps) - sum_list (take (i + 1) ps))"
proof (induction cum peak ps arbitrary: j rule: falls.induct)
  case (2 cum peak p ps)
  show ?case
  proof (cases j)
    case 0
    then show ?thesis by (simp add: Let_def)
  next
    case (Suc k)
    note ih = "2.IH" [OF refl refl, of k]
    have "falls cum peak (p # ps) ! j \<le> sum_list (take (j + 1) (p # ps)) - sum_list (take (i + 1) (p # ps))" if "i \<le> j" for i
      using ih Suc "2.prems" that by (cases i) (auto simp: Let_def)
    then show ?thesis using ih Suc "2.prems" by (auto simp: Let_def)
  qed
qed simp

lemma falls_reached:
  "j < length ps \<Longrightarrow> falls cum peak ps ! j = cum + sum_list (take (j + 1) ps) - peak
    \<or> (\<exists>i\<le>j. falls cum peak ps ! j = sum_list (take (j + 1) ps) - sum_list (take (i + 1) ps))"
proof (induction cum peak ps arbitrary: j rule: falls.induct)
  case (2 cum peak p ps)
  show ?case
  proof (cases j)
    case 0
    then show ?thesis by (auto simp: Let_def max_def)
  next
    case (Suc k)
    from "2.IH" [OF refl refl, of k] Suc "2.prems" consider
      "falls (cum + p) (max peak (cum + p)) ps ! k = cum + p + sum_list (take (k + 1) ps) - max peak (cum + p)"
      | i where "i \<le> k" "falls (cum + p) (max peak (cum + p)) ps ! k = sum_list (take (k + 1) ps) - sum_list (take (i + 1) ps)"
      by auto
    then show ?thesis
    proof cases
      case 1
      then show ?thesis using Suc by (cases "peak \<le> cum + p") (auto simp: Let_def intro!: exI [of _ 0])
    next
      case 2
      then show ?thesis using Suc by (auto simp: Let_def intro!: exI [of _ "Suc i"])
    qed
  qed
qed simp

lemma lowest_Min: "xs \<noteq> [] \<Longrightarrow> lowest xs = Min (set xs)"
  unfolding lowest_def by (cases xs) (simp_all add: Min.set_eq_fold foldl_conv_fold min.commute del: list.set)

text \<open>C34. The reported maximum drawdown is the deepest fall of the equity, over all pairs of an earlier and a later moment,
  the start included, rounded once.\<close>
theorem max_drawdown_is_the_deepest_fall:
  assumes "ts \<noteq> []"
  shows "mt_max_dd (compute_metrics erf ts cap) =
    py_round 2 (- Max {sum_list (take i (map bt_pnl ts)) - sum_list (take j (map bt_pnl ts)) |i j. i \<le> j \<and> j \<le> length ts})"
proof -
  let ?ps = "map bt_pnl ts"
  let ?E = "\<lambda>j. sum_list (take j ?ps)"
  let ?D = "{?E i - ?E j |i j. i \<le> j \<and> j \<le> length ts}"
  let ?f = "falls 0 0 ?ps"
  have ne: "?f \<noteq> []" using assms by (cases ts) (simp_all add: Let_def)
  have "?D \<subseteq> (\<lambda>(i, j). ?E i - ?E j) ` ({..length ts} \<times> {..length ts})" by auto
  then have fin: "finite ?D" by (rule finite_subset) simp
  have "Min (set ?f) = - Max ?D"
  proof (rule antisym)
    show "Min (set ?f) \<le> - Max ?D"
    proof -
      have "Max ?D \<in> ?D" using fin by (intro Max_in) auto
      then obtain i j where ij: "i \<le> j" "j \<le> length ts" "Max ?D = ?E i - ?E j" by auto
      show ?thesis
      proof (cases j)
        case 0
        have f0: "?f ! 0 \<le> 0" using falls_below [of 0 ?ps 0 0] assms by fastforce
        have "Min (set ?f) \<le> ?f ! 0" using assms by (intro Min_le nth_mem) simp_all
        then show ?thesis using f0 0 ij by simp
      next
        case (Suc k)
        then have k: "k < length ?ps" using ij(2) by simp
        have "Min (set ?f) \<le> ?f ! k" using k by (intro Min_le) auto
        also have "\<dots> \<le> ?E j - ?E i"
        proof (cases i)
          case 0
          then show ?thesis using falls_below [OF k, of 0 0] Suc by simp
        next
          case (Suc m)
          then show ?thesis using falls_below [OF k, of 0 0] \<open>j = Suc k\<close> ij(1) by auto
        qed
        finally show ?thesis using ij(3) by simp
      qed
    qed
    show "- Max ?D \<le> Min (set ?f)"
    proof -
      have "Min (set ?f) \<in> set ?f" using ne by (intro Min_in) auto
      then obtain k where k: "k < length ?ps" "Min (set ?f) = ?f ! k" by (metis in_set_conv_nth length_falls)
      from falls_reached [OF k(1), of 0 0] obtain i where "i \<le> k + 1" "?f ! k = ?E (k + 1) - ?E i"
        by (fastforce intro: that [of 0] that [of "Suc _"])
      then have "- (?f ! k) = ?E i - ?E (k + 1) \<and> i \<le> k + 1 \<and> k + 1 \<le> length ts" using k(1) by simp
      then have "- (?f ! k) \<in> ?D" by blast
      then have "- (?f ! k) \<le> Max ?D" using fin by simp
      then show ?thesis using k(2) by simp
    qed
  qed
  moreover have "lowest (map (snd \<circ> snd) (equity_walk 0 0 (map (\<lambda>t. (bt_ts t, bt_pnl t)) ts))) = py_round 2 (Min (set ?f))"
  proof -
    have "map snd (map (\<lambda>t. (bt_ts t, bt_pnl t)) ts) = ?ps" by simp
    then have e: "map (snd \<circ> snd) (equity_walk 0 0 (map (\<lambda>t. (bt_ts t, bt_pnl t)) ts)) = map (py_round 2) ?f" using walk_falls by metis
    have "lowest (map (py_round 2) ?f) = Min (py_round 2 ` set ?f)" using ne by (simp add: lowest_Min)
    also have "\<dots> = py_round 2 (Min (set ?f))"
      using ne by (intro mono_Min_commute [symmetric]) (auto simp: mono_def py_round_mono)
    finally show ?thesis unfolding e .
  qed
  ultimately show ?thesis using assms by (simp add: compute_metrics_def Let_def)
qed

definition demo_trade :: "real \<Rightarrow> bt_trade" where
  "demo_trade p = \<lparr>bt_ts = 0, bt_symbol = ''INFY'', bt_sleeve = ''intraday_stocks'', bt_setup = ''orb'', bt_side = Some BUY, bt_entry = 100,
     bt_exit = 100 + p, bt_qty = 1, bt_pnl = p, bt_r = p / 2, bt_fees = 0, bt_reason = ''target''\<rparr>"

lemma max_drawdown_is_the_deepest_fall_witness:
  "mt_max_dd (compute_metrics demo_erf [demo_trade 5, demo_trade (- 8), demo_trade 1] 1000) =
    py_round 2 (- Max {sum_list (take i [5, - 8, 1]) - sum_list (take j [5, - 8, 1]) |i j. i \<le> j \<and> j \<le> 3})"
  using max_drawdown_is_the_deepest_fall [of "[demo_trade 5, demo_trade (- 8), demo_trade 1]" demo_erf 1000]
  by (simp add: demo_trade_def numeral_3_eq_3)

section \<open>A day that closes far away\<close>

definition demo_5m :: "bar list" where
  "demo_5m = [demo_bar 225 (995/10) 100 99 (995/10) 100, demo_bar 245 (998/10) (1002/10) (998/10) (1002/10) 400,
     demo_bar 250 (1003/10) 101 100 (1005/10) 300]"

definition demo_day :: "real \<Rightarrow> bar list" where
  "demo_day c = [demo_bar (- 330) 99 131 99 c 3000000]"

definition demo_bt_env :: bt_env where
  "demo_bt_env = \<lparr>be_broker = \<lparr>bb_costs = Map.empty, bb_bps = 5\<rparr>, be_conf = \<lparr>cf_weights = Map.empty, cf_default = 1, cf_min = 0\<rparr>,
     be_capital = 100000, be_pct = 1, be_cap_pct = 20, be_params = demo_iparams, be_regime = \<lparr>rg_adx_period = 14, rg_trend_min = 20\<rparr>,
     be_hard_exit = Some 920\<rparr>"

definition demo_bctx :: intraday_ctx where
  "demo_bctx = \<lparr>ix_last = 1002 / 10, ix_or_high = 100, ix_or_low = 99, ix_vwap = 14993 / 150, ix_rvol = 8 / 5, ix_adv = 3000000,
     ix_spread_pct = 5 / 100, ix_gap_pct = 0, ix_regime = ''trending_up'', ix_sector_strong = True, ix_window_ok = True,
     ix_macd_hist = 0, ix_st_dir = 0, ix_day_breadth = ''unknown''\<rparr>"

lemma demo_as_of: "as_of (demo_day c) 245 = [] @ [demo_bar (- 330) 99 131 99 c 3000000]"
  by (simp add: as_of_def demo_day_def demo_bar_def)

lemma demo_read: "\<exists>a rel. bt_context demo_bt_env demo_5m (demo_day c) [] 1 = Intraday_Read demo_bctx a rel"
proof -
  have t: "take (1 + 1) demo_5m = [demo_bar 225 (995/10) 100 99 (995/10) 100, demo_bar 245 (998/10) (1002/10) (998/10) (1002/10) 400]"
    and ts: "ba_ts (demo_5m ! 1) = 245" by (simp_all add: demo_5m_def demo_bar_def)
  have vw: "last_of (session_vwap [demo_bar 225 (995/10) 100 99 (995/10) 100, demo_bar 245 (998/10) (1002/10) (998/10) (1002/10) 400]) = Some (14993 / 150)"
    by (simp add: last_of_def session_vwap_def session_so_far_def utc_day_def demo_bar_def typical_def op2_def drop_zero_def)
  have rv: "last_of (rvol [100, 400] 20) = None"
    by (simp add: last_of_def rvol_def sma_def rolling_def op2_def drop_zero_def)
  have rg: "classify_regime (be_regime demo_bt_env) [demo_bar 225 (995/10) 100 99 (995/10) 100, demo_bar 245 (998/10) (1002/10) (998/10) (1002/10) 400]
      (1002 / 10) (14993 / 150) = ''trending_up''"
    by (simp add: classify_regime_def demo_bt_env_def Let_def)
  have day: "filter (\<lambda>b. ist_day b = (245 + 330) div 1440) [demo_bar 225 (995/10) 100 99 (995/10) 100, demo_bar 245 (998/10) (1002/10) (998/10) (1002/10) 400]
      = [demo_bar 225 (995/10) 100 99 (995/10) 100, demo_bar 245 (998/10) (1002/10) (998/10) (1002/10) 400]"
    by (simp add: ist_day_def demo_bar_def)
  have early: "filter (\<lambda>b. 555 \<le> ist_tod b \<and> ist_tod b < 570) [demo_bar 225 (995/10) 100 99 (995/10) 100, demo_bar 245 (998/10) (1002/10) (998/10) (1002/10) 400]
      = [demo_bar 225 (995/10) 100 99 (995/10) 100]"
    by (simp add: ist_tod_def demo_bar_def)
  have f: "map ba_volume [demo_bar 225 (995/10) 100 99 (995/10) 100, demo_bar 245 (998/10) (1002/10) (998/10) (1002/10) 400] = [100, 400]"
    "ba_close (List.last [demo_bar 225 (995/10) 100 99 (995/10) 100, demo_bar 245 (998/10) (1002/10) (998/10) (1002/10) 400]) = 1002 / 10"
    by (simp_all add: demo_bar_def)
  show ?thesis
    unfolding bt_context_def intraday_context_from_frames_def Let_def t ts demo_as_of day early f vw rv
    using rg by (simp add: demo_bctx_def highest_def lowest_def is_within_def day_gap_def mean_def demo_bar_def)
qed

lemma demo_entry:
  "case intraday_pipeline demo_iparams demo_equity demo_bctx of None \<Rightarrow> False | Some r \<Rightarrow> pr_pass r \<and> (case pr_signal r of None \<Rightarrow> False
     | Some s \<Rightarrow> (let c = conf_score (be_conf demo_bt_env) (pr_gates r); z = size_position (equity_request 100000 1 20 s c) in
          conf_passes (be_conf demo_bt_env) c \<and> \<not> rejected z \<and> 0 < quantity z \<and> si_side s = Some BUY))"
  by code_simp

lemma close_of_the_day_decides_the_entry_witness:
  "(\<exists>p. bt_enter demo_bt_env ''equity_intraday'' demo_equity demo_5m (demo_day (1004/10)) [] 1 = Some (Some p))
    \<and> bt_enter demo_bt_env ''equity_intraday'' demo_equity demo_5m (demo_day 130) [] 1 = Some None"
proof -
  have o: "ba_open (demo_5m ! (1 + 1)) = 1003/10" "ba_ts (demo_5m ! 1) = 245" by (simp_all add: demo_5m_def demo_bar_def)
  obtain a rel where x: "bt_context demo_bt_env demo_5m (demo_day (1004/10)) [] 1 = Intraday_Read demo_bctx a rel" using demo_read by blast
  obtain r s where r: "intraday_pipeline demo_iparams demo_equity demo_bctx = Some r" "pr_pass r" "pr_signal r = Some s" "si_side s = Some BUY"
    "conf_passes (be_conf demo_bt_env) (conf_score (be_conf demo_bt_env) (pr_gates r))"
    "\<not> rejected (size_position (equity_request 100000 1 20 s (conf_score (be_conf demo_bt_env) (pr_gates r))))"
    "0 < quantity (size_position (equity_request 100000 1 20 s (conf_score (be_conf demo_bt_env) (pr_gates r))))"
    using demo_entry by (auto simp: Let_def split: option.splits)
  have e: "be_params demo_bt_env = demo_iparams" "be_capital demo_bt_env = 100000" "be_pct demo_bt_env = 1" "be_cap_pct demo_bt_env = 20"
    by (simp_all add: demo_bt_env_def)
  have "\<not> price_band_breached (1003/10) (1004/10) (20/100)" by (simp add: price_band_breached_def)
  then have "\<exists>p. bt_enter demo_bt_env ''equity_intraday'' demo_equity demo_5m (demo_day (1004/10)) [] 1 = Some (Some p)"
    unfolding bt_enter_def x intraday_read.case e r(1) option.case r(3) Let_def o demo_as_of
    using r by (simp add: fill_entry_def Let_def demo_bar_def)
  then obtain p where p: "bt_enter demo_bt_env ''equity_intraday'' demo_equity demo_5m (demo_day (1004/10)) [] 1 = Some (Some p)" by blast
  have d: "demo_bar (- 330) 99 131 99 130 3000000 = (demo_bar (- 330) 99 131 99 (1004/10) 3000000)\<lparr>ba_close := 130\<rparr>" by (simp add: demo_bar_def)
  have "ist_day (demo_bar (- 330) 99 131 99 (1004/10) 3000000) = ist_day (demo_5m ! 1)" by (simp add: ist_day_def demo_bar_def demo_5m_def)
  then have "bt_enter demo_bt_env ''equity_intraday'' demo_equity demo_5m (demo_day 130) [] 1 = Some None"
    using close_of_the_day_decides_the_entry [OF p, of "[]" "demo_bar (- 330) 99 131 99 (1004/10) 3000000" "demo_day 130" 130]
    unfolding o demo_as_of d by simp
  then show ?thesis using p by blast
qed

end
