(* ===== verification/Fno_Backtest.thy ===== *)
theory Fno_Backtest
  imports Backtests
begin

text \<open>
  The backtest of option structures (\<open>backtest/fno_engine.py\<close>) and the dispatch of \<open>backtest/engine.py\<close>: daily bars of
  the underlying, the volatility index aligned to them, the live pipeline, Black-Scholes prices of the legs. A run is
  None where the code raises or where the volatility index begins only after the frame, which leaves NaN.
\<close>

section \<open>Inputs\<close>

definition known_steps :: "(string \<times> real) list" where
  "known_steps = [(''NIFTY'', 50), (''BANKNIFTY'', 100), (''FINNIFTY'', 50), (''MIDCPNIFTY'', 25), (''SENSEX'', 100), (''BANKEX'', 100)]"

definition backtest_step :: "string \<Rightarrow> real \<Rightarrow> real" where
  "backtest_step nm spot = (case map_of known_steps nm of Some s \<Rightarrow> s
     | None \<Rightarrow> if spot < 250 then 5 else if spot < 500 then 10 else if spot < 1000 then 20 else if spot < 2500 then 50 else 100)"

definition choose_dte :: "real \<Rightarrow> fno_build_cfg \<Rightarrow> int" where
  "choose_dte ivr cf = (let w = dte_window cf ivr in (fst w + snd w) div 2)"

definition backtest_rate :: real where
  "backtest_rate = 65 / 1000"

type_synonym priced_leg = "string \<times> real \<times> order_side \<times> real"

definition structure_pnl :: "(real \<Rightarrow> real) \<Rightarrow> priced_leg list \<Rightarrow> int \<Rightarrow> real \<Rightarrow> int \<Rightarrow> real \<Rightarrow> real" where
  "structure_pnl erf legs n spot dte iv =
    (let t = of_int (max 0 dte) / 365
     in sum_list (map (\<lambda>(opt, strike, sd, px). let cur = bs_price erf spot strike t backtest_rate iv opt in if sd = BUY then cur - px else px - cur) legs)
        * of_int n)"

definition slippage_cost :: "(real \<Rightarrow> real) \<Rightarrow> priced_leg list \<Rightarrow> int \<Rightarrow> real \<Rightarrow> int \<Rightarrow> real \<Rightarrow> real \<Rightarrow> real" where
  "slippage_cost erf legs n spot dte iv slip_pct =
    (if slip_pct \<le> 0 then 0
     else let t = of_int (max 0 dte) / 365; base = slip_pct / 100
          in sum_list (map (\<lambda>(opt, strike, sd, px). (px + bs_price erf spot strike t backtest_rate iv opt)
                 * max base (synthetic_spread_pct spot strike (of_int dte) iv (1 / 100) / 2)) legs) * of_int n)"

text \<open>The last value known at each bar, then the next one for the bars before the first.\<close>

fun fill_back :: "real option list \<Rightarrow> real option list" where
  "fill_back [] = []"
| "fill_back (x # xs) = (let ys = fill_back xs in (case x of Some v \<Rightarrow> Some v | None \<Rightarrow> (case ys of [] \<Rightarrow> None | y # _ \<Rightarrow> y)) # ys)"

definition known_at :: "bar list \<Rightarrow> int \<Rightarrow> real option" where
  "known_at bs ts = (case as_of bs ts of [] \<Rightarrow> None | us \<Rightarrow> Some (ba_close (List.last us)))"

definition aligned_vix :: "bar list \<Rightarrow> bar list \<Rightarrow> real list option" where
  "aligned_vix und vix =
    (if vix = [] then Some (replicate (length und) 15)
     else let vs = fill_back (map (\<lambda>b. known_at vix (ba_ts b)) und) in if None \<in> set vs then None else Some (map the vs))"

section \<open>One bar\<close>

record fno_bt_env =
  fe_costs :: cost_model
  fe_conf :: confidence_model
  fe_params :: fno_params
  fe_cfg :: fno_build_cfg
  fe_max_lots :: "int option"
  fe_slip_pct :: real
  fe_gating :: bool
  fe_capital :: real
  fe_pct :: real
  fe_start :: int
  fe_today :: int

record fno_open =
  fo_legs :: "priced_leg list"
  fo_qty :: int
  fo_type :: string
  fo_expiry :: int
  fo_net :: real
  fo_fees :: real
  fo_max_loss :: real
  fo_max_profit :: real

record fno_bt_state =
  fs_open :: "fno_open option"
  fs_cooldown :: "nat option"
  fs_trades :: "bt_trade list"

definition bt_iv :: "real list \<Rightarrow> nat \<Rightarrow> real" where
  "bt_iv vs i = max (1 / 100) (vs ! i / 100)"

definition bt_iv_rank :: "real list \<Rightarrow> nat \<Rightarrow> real" where
  "bt_iv_rank vs i = iv_rank (vs ! i) (drop (i - 250) (take (i + 1) vs))"

definition exit_cause :: "fno_open \<Rightarrow> int \<Rightarrow> real \<Rightarrow> string option" where
  "exit_cause o1 dte_left pnl = (if dte_left \<le> 0 then Some ''expiry'' else if 1 / 2 * fo_max_profit o1 \<le> pnl then Some ''structure_target''
     else if pnl \<le> - 1 * fo_max_loss o1 then Some ''structure_stop'' else None)"

definition exit_leg_fees :: "(real \<Rightarrow> real) \<Rightarrow> cost_model \<Rightarrow> fno_open \<Rightarrow> real \<Rightarrow> int \<Rightarrow> real \<Rightarrow> real" where
  "exit_leg_fees erf cm o1 spot dte_left iv = sum_list (map (\<lambda>(opt, strike, sd, px). fee_total (compute_leg cm ''fno_options'' (opposite sd) (fo_qty o1)
     (max (5 / 100) (bs_price erf spot strike (of_int (max 0 dte_left) / 365) backtest_rate iv opt)))) (fo_legs o1))"

definition structure_trade :: "string \<Rightarrow> fno_open \<Rightarrow> int \<Rightarrow> real \<Rightarrow> real \<Rightarrow> real \<Rightarrow> string \<Rightarrow> bt_trade" where
  "structure_trade nm o1 ts px realized fees why =
    \<lparr>bt_ts = ts, bt_symbol = nm, bt_sleeve = ''fno'', bt_setup = fo_type o1, bt_side = None, bt_entry = py_round 2 (fo_net o1), bt_exit = px,
     bt_qty = fo_qty o1, bt_pnl = realized, bt_r = (if fo_max_loss o1 \<noteq> 0 then py_round 3 (realized / fo_max_loss o1) else 0), bt_fees = fees,
     bt_reason = why\<rparr>"

definition fno_manage :: "(real \<Rightarrow> real) \<Rightarrow> fno_bt_env \<Rightarrow> string \<Rightarrow> bar list \<Rightarrow> real list \<Rightarrow> nat \<Rightarrow> fno_bt_state \<Rightarrow> fno_bt_state" where
  "fno_manage erf e nm und vs i st = (case fs_open st of None \<Rightarrow> st
     | Some o1 \<Rightarrow>
       let b = und ! i; spot = ba_close b; iv = bt_iv vs i; dte_left = fo_expiry o1 - ist_day b;
           pnl = structure_pnl erf (fo_legs o1) (fo_qty o1) spot dte_left iv
       in (case exit_cause o1 dte_left pnl of None \<Rightarrow> st
           | Some why \<Rightarrow>
             let fees = exit_leg_fees erf (fe_costs e) o1 spot dte_left iv;
                 slip = slippage_cost erf (fo_legs o1) (fo_qty o1) spot dte_left iv (fe_slip_pct e);
                 realized = py_round 2 (pnl - fo_fees o1 - fees - slip);
                 t = structure_trade nm o1 (ba_ts b) (py_round 2 (fo_net o1 + pnl / of_int (fo_qty o1))) realized (py_round 2 (fo_fees o1 + fees)) why
             in \<lparr>fs_open = None, fs_cooldown = Some (i + 1), fs_trades = (if fe_start e \<le> ba_ts b then fs_trades st @ [t] else fs_trades st)\<rparr>))"

definition fno_bt_ctx :: "fno_bt_env \<Rightarrow> string \<Rightarrow> int \<Rightarrow> bar list \<Rightarrow> real list \<Rightarrow> nat \<Rightarrow> fno_ctx" where
  "fno_bt_ctx e nm lot und vs i =
    (let spot = ba_close (und ! i); ivr = bt_iv_rank vs i; dte = choose_dte ivr (fe_cfg e) in
     \<lparr>fx_spot = spot, fx_iv = py_round 4 (bt_iv vs i), fx_iv_rank = py_round 1 ivr, fx_dte = dte,
      fx_direction = daily_direction_from_df (take (i + 1) und) spot, fx_lot = lot, fx_expiry = ist_day (und ! i) + dte, fx_banned = False,
      fx_step = backtest_step nm spot, fx_oi_signal = ''neutral'', fx_risk_free = backtest_rate, fx_iv_chg = 0, fx_expiry_day = False,
      fx_atm_oi = 0, fx_atm_volume = 0, fx_pcr = None\<rparr>)"

definition fno_bt_instrument :: "string \<Rightarrow> int \<Rightarrow> instrument" where
  "fno_bt_instrument nm lot = \<lparr>in_token = None, in_symbol = Some nm, in_exchange = Some ''NFO'', in_lot = Some lot, in_type = Some ''CE'',
     in_tick = None, in_expiry = None\<rparr>"

definition price_legs :: "(real \<Rightarrow> real) \<Rightarrow> structure_plan \<Rightarrow> real \<Rightarrow> int \<Rightarrow> real \<Rightarrow> priced_leg list" where
  "price_legs erf pl spot dte iv = map (\<lambda>(opt, strike, sd). (opt, strike, sd,
     max (5 / 100) (bs_price erf spot strike (of_int (max 0 dte) / 365) backtest_rate iv opt))) (legs_from_structure pl)"

definition open_bt_structure :: "(real \<Rightarrow> real) \<Rightarrow> fno_bt_env \<Rightarrow> fno_ctx \<Rightarrow> real \<Rightarrow> structure_plan \<Rightarrow> int \<Rightarrow> fno_open option" where
  "open_bt_structure erf e x iv pl n_lots =
    (let spot = fx_spot x; dte = fx_dte x; n = n_lots * fx_lot x; legs = price_legs erf pl spot dte iv;
         risk = assess_structure erf (map (\<lambda>(opt, strike, sd, px). \<lparr>op_S = spot, op_K = strike, op_t = Some (of_int (max 0 dte) / 365), op_exp = None,
             op_iv = iv, op_opt = Some opt, op_qty = (if sd = BUY then n else - n), op_lot = Some 1\<rparr>) legs) spot (Some dte) [] None (fe_today e) (fe_today e)
     in if fe_gating e \<and> sv_blocked risk then None
        else Some \<lparr>fo_legs = legs, fo_qty = n, fo_type = pl_type pl, fo_expiry = fx_expiry x,
          fo_net = sum_list (map (\<lambda>(opt, strike, sd, px). if sd = BUY then - px else px) legs),
          fo_fees = sum_list (map (\<lambda>(opt, strike, sd, px). fee_total (compute_leg (fe_costs e) ''fno_options'' sd n px)) legs),
          fo_max_loss = pl_max_loss_per_lot pl * of_int n_lots,
          fo_max_profit = max (1 / 100) (fx_step x * of_int (fx_lot x) - pl_max_loss_per_lot pl) * of_int n_lots\<rparr>)"

definition fno_bt_enter :: "(real \<Rightarrow> real) \<Rightarrow> fno_bt_env \<Rightarrow> string \<Rightarrow> int \<Rightarrow> bar list \<Rightarrow> real list \<Rightarrow> nat \<Rightarrow> fno_open option option" where
  "fno_bt_enter erf e nm lot und vs i =
    (let x = fno_bt_ctx e nm lot und vs i in
     case fno_evaluate erf (fe_today e) (fe_params e) (fno_bt_instrument nm lot) x of None \<Rightarrow> None
     | Some r \<Rightarrow> (case pr_signal r of None \<Rightarrow> Some None
        | Some s \<Rightarrow>
          if \<not> pr_pass r then Some None
          else let c = conf_score (fe_conf e) (pr_gates r) in
            if \<not> conf_passes (fe_conf e) c then Some None
            else (case sd_structure (si_detail s) of None \<Rightarrow> Some None
              | Some pl \<Rightarrow>
                if pl_max_loss_per_lot pl \<le> 0 then Some None
                else let z = size_structure_lots \<lparr>s_capital = fe_capital e, s_per_trade_risk_pct = fe_pct e, max_loss_per_lot = pl_max_loss_per_lot pl,
                    s_lot_size = lot, s_confidence = c, s_portfolio_remaining_r = None, underlying_remaining_r = None, s_margin_available = None,
                    margin_per_lot = None, max_lots = fe_max_lots e\<rparr>
                  in if rejected z \<or> lots z < 1 then Some None else Some (open_bt_structure erf e x (bt_iv vs i) pl (lots z)))))"

definition fno_bt_bar :: "(real \<Rightarrow> real) \<Rightarrow> fno_bt_env \<Rightarrow> string \<Rightarrow> int \<Rightarrow> bar list \<Rightarrow> real list \<Rightarrow> nat \<Rightarrow> fno_bt_state \<Rightarrow> fno_bt_state option" where
  "fno_bt_bar erf e nm lot und vs i st =
    (let st = fno_manage erf e nm und vs i st in
     if fs_open st \<noteq> None \<or> ba_ts (und ! i) < fe_start e \<or> (case fs_cooldown st of Some c \<Rightarrow> i < c | None \<Rightarrow> False) then Some st
     else map_option (\<lambda>o1. st\<lparr>fs_open := o1\<rparr>) (fno_bt_enter erf e nm lot und vs i))"

definition square_off_structure :: "(real \<Rightarrow> real) \<Rightarrow> fno_bt_env \<Rightarrow> string \<Rightarrow> bar list \<Rightarrow> real list \<Rightarrow> fno_open \<Rightarrow> bt_trade" where
  "square_off_structure erf e nm und vs o1 =
    (let b = List.last und; spot = ba_close b; iv = bt_iv vs (length und - 1); dte_left = max 0 (fo_expiry o1 - ist_day b);
         pnl = structure_pnl erf (fo_legs o1) (fo_qty o1) spot dte_left iv;
         slip = slippage_cost erf (fo_legs o1) (fo_qty o1) spot dte_left iv (fe_slip_pct e)
     in structure_trade nm o1 (ba_ts b) 0 (py_round 2 (pnl - fo_fees o1 - slip)) (py_round 2 (fo_fees o1)) ''eod'')"

definition fno_name_run :: "(real \<Rightarrow> real) \<Rightarrow> fno_bt_env \<Rightarrow> string \<Rightarrow> int \<Rightarrow> bar list \<Rightarrow> bar list \<Rightarrow> bt_trade list option" where
  "fno_name_run erf e nm lot und vix =
    (case aligned_vix und vix of None \<Rightarrow> None
     | Some vs \<Rightarrow> (case run_bars (fno_bt_bar erf e nm lot und vs) [0..<length und] \<lparr>fs_open = None, fs_cooldown = None, fs_trades = []\<rparr> of
         None \<Rightarrow> None
       | Some st \<Rightarrow> Some (case fs_open st of None \<Rightarrow> fs_trades st | Some o1 \<Rightarrow> fs_trades st @ [square_off_structure erf e nm und vs o1])))"

text \<open>A name is skipped without an underlying token or with less than thirty candles; a missing lot size is 50.\<close>

definition run_fno_backtest ::
  "(real \<Rightarrow> real) \<Rightarrow> fno_bt_env \<Rightarrow> (string \<Rightarrow> bar list option) \<Rightarrow> (string \<Rightarrow> int option) \<Rightarrow> bar list \<Rightarrow> string list \<Rightarrow> bt_report option" where
  "run_fno_backtest erf e frame lot_size_of vix names =
    map_option (\<lambda>(ts, sk). \<lparr>br_metrics = compute_metrics erf ts (fe_capital e), br_trades = ts, br_skipped = sk\<rparr>)
      (run_symbols (\<lambda>nm. case frame nm of None \<Rightarrow> None
        | Some und \<Rightarrow> if length und < 30 then None
            else Some (fno_name_run erf e nm (case lot_size_of nm of Some l \<Rightarrow> if l = 0 then 50 else l | None \<Rightarrow> 50) und vix)) names ([], []))"

section \<open>The dispatch\<close>

datatype bt_result = Unsupported_Sleeve string bt_metrics | Bt_Report "bt_report option"

definition dispatch_backtest :: "bt_report option \<Rightarrow> bt_report option \<Rightarrow> bt_report option \<Rightarrow> string \<Rightarrow> bt_result" where
  "dispatch_backtest intraday swing fno sl =
    (if sl = ''fno'' then Bt_Report fno else if sl = ''swing_stocks'' then Bt_Report swing
     else if sl = ''intraday_stocks'' then Bt_Report intraday else Unsupported_Sleeve sl no_metrics)"

section \<open>Runs keep an invariant\<close>

lemma run_bars_inv:
  assumes "run_bars f is s = Some s'" "P s" "\<forall>i\<in>set is. \<forall>a b. P a \<longrightarrow> f i a = Some b \<longrightarrow> P b"
  shows "P s'"
  using assms
proof (induction "is" arbitrary: s)
  case Nil
  then show ?case by simp
next
  case (Cons i "is")
  show ?case
  proof (cases "f i s")
    case None
    then show ?thesis using Cons.prems(1) by simp
  next
    case (Some b)
    then have r: "run_bars f is b = Some s'" using Cons.prems(1) by simp
    have "i \<in> set (i # is)" by simp
    from Cons.prems(3) [rule_format, OF this Cons.prems(2) Some] have p: "P b" .
    have "\<forall>j\<in>set is. \<forall>a b. P a \<longrightarrow> f j a = Some b \<longrightarrow> P b" using Cons.prems(3) [rule_format] by (meson list.set_intros(2))
    then show ?thesis by (rule Cons.IH [OF r p])
  qed
qed

lemma run_symbols_inv:
  "run_symbols f ss ([], sk0) = Some (ts, sk) \<Longrightarrow> \<forall>s\<in>set ss. \<forall>new. f s = Some (Some new) \<longrightarrow> new = [] \<Longrightarrow> ts = []"
proof (induction ss arbitrary: sk0)
  case (Cons s ss)
  show ?case
  proof (cases "f s")
    case None
    then show ?thesis using Cons.IH [of "sk0 @ [s]"] Cons.prems by simp
  next
    case (Some new)
    then obtain n where n: "new = Some n" using Cons.prems(1) by (cases new) simp_all
    then have "n = []" using Cons.prems(2) Some by simp
    then show ?thesis using Cons.IH [of sk0] Cons.prems Some n by simp
  qed
qed simp

section \<open>No open interest\<close>

lemma fno_bt_enter_needs_open_interest:
  assumes "0 < fst (liquidity_floor (fp_liquidity (fe_params e)) nm)" "fno_bt_enter erf e nm lot und vs i = Some z"
  shows "z = None"
proof -
  let ?x = "fno_bt_ctx e nm lot und vs i"
  have oi: "fx_atm_oi ?x = 0" by (simp add: fno_bt_ctx_def Let_def)
  have sym: "get_default (in_symbol (fno_bt_instrument nm lot)) [] = nm" by (simp add: fno_bt_instrument_def)
  have "\<not> pr_pass r" if r: "fno_evaluate erf (fe_today e) (fe_params e) (fno_bt_instrument nm lot) ?x = Some r" for r
  proof
    assume p: "pr_pass r"
    from r p show False
    proof (rule fno_evaluate_pass)
      fix gs
      assume "fno_market_gates erf (fe_today e) (fe_params e) (fno_bt_instrument nm lot) ?x (fst (iv_class (fe_params e) ?x)) gs = Some r"
      from this p show False by (rule fno_market_pass) (use assms(1) oi sym in simp)
    qed
  qed
  then show ?thesis using assms(2) unfolding fno_bt_enter_def Let_def by (auto split: option.splits)
qed

text \<open>Under a floor on open interest the backtest of option structures trades nothing. Its contexts carry no open interest
  at all, so with any positive floor, such as the shipped one of 5000, no structure is ever opened and every
  run reports no trade.\<close>
theorem fno_backtest_never_trades_under_a_floor:
  assumes "run_fno_backtest erf e frame lots_of vix names = Some rep"
    and "\<forall>nm\<in>set names. 0 < fst (liquidity_floor (fp_liquidity (fe_params e)) nm)"
  shows "br_trades rep = [] \<and> mt_trades (br_metrics rep) = 0"
proof -
  have run: "new = []" if nm: "nm \<in> set names" and r: "fno_name_run erf e nm lot und vix = Some new" for nm lot und new
  proof -
    obtain vs st where st: "run_bars (fno_bt_bar erf e nm lot und vs) [0..<length und] \<lparr>fs_open = None, fs_cooldown = None, fs_trades = []\<rparr> = Some st"
      and new: "new = (case fs_open st of None \<Rightarrow> fs_trades st | Some o1 \<Rightarrow> fs_trades st @ [square_off_structure erf e nm und vs o1])"
      using r by (auto simp: fno_name_run_def split: option.splits)
    have "fs_open st = None \<and> fs_trades st = []"
    proof (rule run_bars_inv [OF st])
      show "\<forall>i\<in>set [0..<length und]. \<forall>a b. fs_open a = None \<and> fs_trades a = [] \<longrightarrow> fno_bt_bar erf e nm lot und vs i a = Some b
          \<longrightarrow> fs_open b = None \<and> fs_trades b = []"
      proof (intro ballI allI impI)
        fix i a b
        assume a: "fs_open a = None \<and> fs_trades a = []" and b: "fno_bt_bar erf e nm lot und vs i a = Some b"
        have m: "fno_manage erf e nm und vs i a = a" using a by (simp add: fno_manage_def)
        have "b = a \<or> (\<exists>z. fno_bt_enter erf e nm lot und vs i = Some z \<and> b = a\<lparr>fs_open := z\<rparr>)"
          using b unfolding fno_bt_bar_def Let_def m by (auto split: if_splits)
        then show "fs_open b = None \<and> fs_trades b = []"
          using a fno_bt_enter_needs_open_interest assms(2) nm by fastforce
      qed
    qed simp
    then show ?thesis using new by simp
  qed
  obtain ts sk where rs: "run_symbols (\<lambda>nm. case frame nm of None \<Rightarrow> None
        | Some und \<Rightarrow> if length und < 30 then None
            else Some (fno_name_run erf e nm (case lots_of nm of Some l \<Rightarrow> if l = 0 then 50 else l | None \<Rightarrow> 50) und vix)) names ([], []) = Some (ts, sk)"
    and rep: "rep = \<lparr>br_metrics = compute_metrics erf ts (fe_capital e), br_trades = ts, br_skipped = sk\<rparr>"
    using assms(1) by (auto simp: run_fno_backtest_def)
  have "ts = []" by (rule run_symbols_inv [OF rs]) (auto split: option.splits if_splits dest: run)
  then show ?thesis using rep by (simp add: compute_metrics_def no_metrics_def)
qed

definition demo_floor :: fno_bt_env where
  "demo_floor = \<lparr>fe_costs = Map.empty, fe_conf = \<lparr>cf_weights = Map.empty, cf_default = 1, cf_min = 0\<rparr>,
     fe_params = demo_fparams\<lparr>fp_liquidity := \<lparr>lq_per_underlying = Map.empty, lq_min_oi = Some 5000, lq_min_volume = None\<rparr>\<rparr>,
     fe_cfg = demo_fb, fe_max_lots = None, fe_slip_pct = 3 / 2, fe_gating = False, fe_capital = 1000000, fe_pct = 1, fe_start = 0, fe_today = 100\<rparr>"

definition demo_und :: "bar list" where
  "demo_und = replicate 30 (demo_bar 0 1010 1010 1010 1010 0)"

lemma demo_vix: "aligned_vix demo_und [] = Some (replicate 30 15)"
  by (simp add: aligned_vix_def demo_und_def)

lemma mean_replicate: "0 < n \<Longrightarrow> mean (replicate n x) = x"
  by (simp add: mean_def sum_list_replicate)

lemma demo_flat: "i < 30 \<Longrightarrow> daily_direction_from_df (take (Suc i) demo_und) 1010 = ''neutral''"
proof -
  assume i: "i < 30"
  define n where "n = Suc i"
  have t: "take n demo_und = replicate n (demo_bar 0 1010 1010 1010 1010 0)" using i by (simp add: demo_und_def n_def min_def)
  have c: "map ba_close (drop (n - 20) (replicate n (demo_bar 0 1010 1010 1010 1010 0))) = replicate (n - (n - 20)) 1010"
    by (simp add: demo_bar_def)
  have "0 < n - (n - 20)" by (simp add: n_def)
  moreover have "mean (replicate 20 (1010::real)) = 1010" by (rule mean_replicate) simp
  ultimately show ?thesis unfolding n_def [symmetric] daily_direction_from_df_def t length_replicate c Let_def mean_replicate by simp
qed

lemma foldl_same: "\<forall>x\<in>set xs. x = a \<Longrightarrow> f a a = a \<Longrightarrow> foldl f a xs = a"
  by (induction xs) auto

lemma demo_rank: "i < 30 \<Longrightarrow> bt_iv_rank (replicate 30 15) i = 0"
  by (simp add: bt_iv_rank_def iv_rank_def Let_def foldl_same split: list.splits)

lemma demo_no_entry: "i < 30 \<Longrightarrow> fno_bt_enter demo_erf demo_floor ''NIFTY'' 50 demo_und (replicate 30 15) i = Some None"
proof -
  assume i: "i < 30"
  let ?x = "fno_bt_ctx demo_floor ''NIFTY'' 50 demo_und (replicate 30 15) i"
  have dte: "choose_dte 0 demo_fb = 6" by (simp add: choose_dte_def dte_window_def demo_fb_def)
  have spot: "ba_close (demo_und ! i) = 1010" using i by (simp add: demo_und_def demo_bar_def)
  have x: "fx_iv_rank ?x = 0" "fx_dte ?x = 6" "fx_direction ?x = ''neutral''" "\<not> fx_banned ?x" "\<not> fx_expiry_day ?x"
    unfolding fno_bt_ctx_def Let_def spot demo_rank [OF i] using dte demo_flat [OF i] by (simp_all add: demo_floor_def)
  have ic: "iv_class (fe_params demo_floor) ?x = (''buy_debit'', 3, 10)" using x by (simp add: iv_class_def demo_floor_def demo_fparams_def)
  have none: "fp_event_dates (fe_params demo_floor) = None" "fp_block_expiry (fe_params demo_floor) = None"
    "fp_avoid (fe_params demo_floor) = None" by (simp_all add: demo_floor_def demo_fparams_def)
  have lf: "liquidity_floor (fp_liquidity (fe_params demo_floor)) nm = (5000, 0)" for nm by (simp add: liquidity_floor_def demo_floor_def)
  have "\<exists>r. fno_evaluate demo_erf (fe_today demo_floor) (fe_params demo_floor) (fno_bt_instrument ''NIFTY'' 50) ?x = Some r \<and> \<not> pr_pass r"
    unfolding fno_evaluate_def Let_def ic prod.case none get_default_simps
    by (simp add: hard_gate_def Let_def x fno_market_gates_def lf)
  then show ?thesis unfolding fno_bt_enter_def Let_def by (auto split: option.splits)
qed

lemma run_bars_still: "\<forall>i\<in>set is. f i s = Some s \<Longrightarrow> run_bars f is s = Some s"
  by (induction "is") auto

lemma demo_run: "fno_name_run demo_erf demo_floor ''NIFTY'' 50 demo_und [] = Some []"
proof -
  let ?s = "\<lparr>fs_open = None, fs_cooldown = None, fs_trades = []\<rparr>"
  have "fno_bt_bar demo_erf demo_floor ''NIFTY'' 50 demo_und (replicate 30 15) i ?s = Some ?s" if "i < 30" for i
    using demo_no_entry [OF that] by (simp add: fno_bt_bar_def fno_manage_def Let_def)
  then have "run_bars (fno_bt_bar demo_erf demo_floor ''NIFTY'' 50 demo_und (replicate 30 15)) [0..<30] ?s = Some ?s"
    by (intro run_bars_still) auto
  moreover have "length demo_und = 30" by (simp add: demo_und_def)
  ultimately show ?thesis by (simp add: fno_name_run_def demo_vix)
qed

lemma fno_backtest_never_trades_under_a_floor_witness:
  "\<exists>rep. run_fno_backtest demo_erf demo_floor (\<lambda>_. Some demo_und) (\<lambda>_. Some 50) [] [''NIFTY''] = Some rep \<and> br_trades rep = []"
proof -
  have "length demo_und = 30" by (simp add: demo_und_def)
  then obtain rep where rep: "run_fno_backtest demo_erf demo_floor (\<lambda>_. Some demo_und) (\<lambda>_. Some 50) [] [''NIFTY''] = Some rep"
    by (simp add: run_fno_backtest_def demo_run)
  have "\<forall>nm\<in>set [''NIFTY'']. 0 < fst (liquidity_floor (fp_liquidity (fe_params demo_floor)) nm)"
    by (simp add: liquidity_floor_def demo_floor_def)
  from fno_backtest_never_trades_under_a_floor [OF rep this] rep show ?thesis by blast
qed

section \<open>The clock of the greeks\<close>

lemma greeks_expired: "t \<le> 0 \<Longrightarrow> gk_delta (greeks erf S K t r iv opt) = 0"
  by (simp add: greeks_def d1_d2_def)

text \<open>The pipeline measures the delta of a leg with the wall clock. For an expiry that is not in the future the delta is
  zero, so with the default band only credit structures are accepted: a backtest over the past never opens a
  debit structure.\<close>
theorem past_expiry_admits_no_debit_structure:
  assumes "fno_evaluate erf today p ins x = Some r" "pr_pass r" "fx_expiry x \<le> today" "fp_buyer_delta p = None"
  shows "\<exists>s pl. pr_signal r = Some s \<and> sd_structure (si_detail s) = Some pl \<and> is_credit_type (pl_type pl)"
  using assms(1,2)
proof (rule fno_evaluate_pass)
  fix gs
  assume "fno_market_gates erf today p ins x (fst (iv_class p x)) gs = Some r"
  from this assms(2) show ?thesis
  proof (rule fno_market_pass)
    fix gs'
    assume sg: "fno_structure_gates erf today p ins x (fst (iv_class p x)) gs' = Some r"
    have st: "fx_step x \<noteq> 0" using sg by (simp add: fno_structure_gates_def split: if_splits)
    let ?b0 = "build_structure erf (fst (iv_class p x)) x (snd (get_default (fp_credit_delta p) (15 / 100, 22 / 100)))
        (cfg_or (fp_width_steps p) 2 2) (snd (get_default (fp_condor_delta p) (10 / 100, 20 / 100)))"
    note g = sg [unfolded fno_structure_gates_def Let_def if_not_P [OF st]]
    obtain b gs1 where b: "?b0 = Some b" and g1: "(let pl = bt_plan b; t = year_fraction (fx_expiry x) today; (leg, opt) = checked_leg pl (fx_spot x);
            dlt = \<bar>gk_delta (greeks erf (fx_spot x) leg t (fx_risk_free x) (fx_iv x) opt)\<bar>;
            (lo, hi) = delta_band p (pl_type pl);
            srisk = assess_structure erf (structure_risk_legs pl (fx_spot x) t (fx_iv x)) (fx_spot x) (Some (fx_dte x))
                      (fp_greek_limits p) (fp_max_stress p) today today
        in hard_gate ''greeks'' (lo - 15 / 100 \<le> dlt \<and> dlt \<le> hi + 20 / 100) (if lo \<le> dlt \<and> dlt \<le> hi then 1 else 1 / 2)
             (R_Leg_Delta dlt) gs1 (\<lambda>gs.
           hard_gate ''structure_risk'' (\<not> (fp_gating p \<and> sv_blocked srisk)) (if sv_blocked srisk then 0 else 9 / 10)
             R_Structure_Risk gs (\<lambda>gs.
           Some (pl_accept (fno_signal ins x b) (add_gate ''risk_finite'' True (9 / 10) gs))))) = Some r"
      by (rule hard_gate_passE [OF g assms(2)]) (auto simp: Let_def split: option.splits)
    obtain leg opt where lo: "checked_leg (bt_plan b) (fx_spot x) = (leg, opt)" by fastforce
    obtain l h where lh: "delta_band p (pl_type (bt_plan b)) = (l, h)" by fastforce
    have t: "year_fraction (fx_expiry x) today = 0" using assms(3) by (simp add: year_fraction_def)
    have d: "gk_delta (greeks erf (fx_spot x) leg (year_fraction (fx_expiry x) today) (fx_risk_free x) (fx_iv x) opt) = 0"
      unfolding t by (rule greeks_expired) simp
    note g2 = g1 [unfolded Let_def lo lh prod.case]
    have ok: "l \<le> 15 / 100 \<and> pr_signal r = Some (fno_signal ins x b)"
    proof (rule hard_gate_passE [OF g2 assms(2)], goal_cases)
      case 1
      show ?case by (rule hard_gate_passE [OF 1(2) assms(2)]) (use 1(1) d in \<open>auto simp: pl_accept_def\<close>)
    qed
    have "is_credit_type (pl_type (bt_plan b))"
    proof (rule ccontr)
      assume "\<not> is_credit_type (pl_type (bt_plan b))"
      then show False using lh ok assms(4) by (simp add: delta_band_def)
    qed
    then show ?thesis using ok by (auto simp: fno_signal_def)
  qed
qed

lemma past_expiry_admits_no_debit_structure_witness:
  "\<exists>r s pl. fno_evaluate demo_erf 0 demo_fparams demo_index demo_fctx = Some r \<and> pr_signal r = Some s
     \<and> sd_structure (si_detail s) = Some pl \<and> is_credit_type (pl_type pl)"
proof -
  obtain r where r: "fno_evaluate demo_erf 0 demo_fparams demo_index demo_fctx = Some r" "pr_pass r" using demo_fno_accepted by blast
  have "fx_expiry demo_fctx \<le> 0" "fp_buyer_delta demo_fparams = None" by (simp_all add: demo_fctx_def demo_fparams_def)
  from past_expiry_admits_no_debit_structure [OF r this] r show ?thesis by blast
qed

section \<open>The profit target\<close>

text \<open>The profit a structure is thought to make is computed for wings one strike step wide. When its loss is at least one
  step's worth, as for the default wings of two steps with a small credit, the target shrinks to half a paisa
  per lot: before expiry the first profit of that size closes it as a reached target.\<close>
theorem wide_structure_exits_at_half_a_paisa:
  assumes "open_bt_structure erf e x iv pl k = Some o1" "fx_step x * of_int (fx_lot x) \<le> pl_max_loss_per_lot pl"
    and "0 < dte_left" "of_int k / 200 \<le> pnl"
  shows "exit_cause o1 dte_left pnl = Some ''structure_target''"
proof -
  have "fo_max_profit o1 = 1 / 100 * of_int k"
    using assms(1,2) by (auto simp: open_bt_structure_def Let_def max_def split: if_splits)
  then show ?thesis using assms(3,4) by (simp add: exit_cause_def)
qed

lemma wide_structure_exits_at_half_a_paisa_witness:
  "\<exists>o1. open_bt_structure demo_erf demo_floor demo_fctx 0 (bt_plan (condor_built demo_erf demo_fctx 100 1050 950)) 2 = Some o1
     \<and> exit_cause o1 25 1 = Some ''structure_target''"
proof -
  obtain o1 where o: "open_bt_structure demo_erf demo_floor demo_fctx 0 (bt_plan (condor_built demo_erf demo_fctx 100 1050 950)) 2 = Some o1"
    by (simp add: open_bt_structure_def Let_def demo_floor_def)
  have "fx_step demo_fctx * of_int (fx_lot demo_fctx) \<le> pl_max_loss_per_lot (bt_plan (condor_built demo_erf demo_fctx 100 1050 950))"
    unfolding demo_max_loss by (simp add: demo_fctx_def)
  from wide_structure_exits_at_half_a_paisa [OF o this, of 25 1] o show ?thesis by simp
qed

end
