(* ===== verification/Spec2Isabelle.thy ===== *)
theory Spec2Isabelle
  imports Decision_Loop Expiry Feed Audit_Chain Control_Api Signals Fno_Backtest
begin

text \<open>
  An automated trading system for the Indian markets, modelled from its Python sources under \<open>src/\<close>. This
  root theory holds the properties of the order path that span components; the other properties stand
  beside the components they are about.

  \<^bold>\<open>How the program works.\<close> Market ticks pass a quality gate and a bounded buffer and drive the price
  guards of open positions (the fast loop). On a slower beat the decision loop builds a context per
  instrument, runs the pipeline of its sleeve (intraday equity, swing, commodities, options), scores
  confidence, asks the risk engine for a size, lets a language model veto or shrink it, and hands the
  order to the executor. The executor drives the broker, books what was filled, arms a guard and places
  a protective bracket. A management loop watches the day: kill switch, period brakes, drawdown and
  expectancy circuits, expiry-day exits, time exits of option structures, bracket and exit
  reconciliation. An operator acts through a durable command queue and through the runtime mode. After
  a restart the recovery adopts what the broker and the book still hold.

  \<^bold>\<open>Which theory models what.\<close>
  \<^item> \<open>Prelude\<close>: shared types, Python truthiness, rounding half to even, JSON, insertion-ordered maps.
  \<^item> \<open>Exec_Models\<close>, \<open>Costs\<close>, \<open>Fill_Sim\<close>: \<open>execution/models.py\<close>, \<open>costs.py\<close>, \<open>simulator.py\<close>.
  \<^item> \<open>Positions\<close>, \<open>Sizing\<close>, \<open>Circuits\<close>: \<open>risk/positions.py\<close>, \<open>sizing.py\<close> and \<open>models.py\<close>, \<open>circuits.py\<close>,
    \<open>dependencies.py\<close>, \<open>expiry_control.py\<close>.
  \<^item> \<open>Runtime_Mode\<close>, \<open>Kill_Switch\<close>: \<open>common/state.py\<close>, \<open>runtime_mode.py\<close>, \<open>mode_transition.py\<close>, \<open>risk/scope.py\<close>,
    \<open>risk/kill_switch.py\<close>. The table \<open>config_state\<close> is an insertion-ordered map from keys to JSON values.
  \<^item> \<open>Guards\<close>, \<open>Registry\<close>, \<open>Order_Policy\<close>, \<open>Position_Book\<close>, \<open>Broker\<close>: \<open>execution/guards.py\<close>, \<open>policy.py\<close>,
    \<open>order_lifecycle.py\<close>, \<open>position_book.py\<close>, \<open>position_events.py\<close>, \<open>broker/mock_broker.py\<close>,
    \<open>common/instrument_meta.py\<close>, \<open>backtest/execution_model.py\<close>. The SQL tables are lists of rows.
  \<^item> \<open>Executor\<close>, \<open>Executor_Facts\<close>: \<open>execution/executor.py\<close>, \<open>brackets.py\<close>, \<open>common/cooldown.py\<close>. The world is a
    record of the broker's state, the book, the guards and the operator table; the broker is the record
    of operations \<open>e_api\<close>, of which the proofs assume only the laws of the locale \<open>broker_lifecycle\<close>.
  \<^item> \<open>Structures\<close>, \<open>Structures_Facts\<close>, \<open>Recovery\<close>, \<open>Commands\<close>: \<open>execution/structures.py\<close>, \<open>data/option_chain.py\<close>,
    \<open>execution/recovery.py\<close>, \<open>reconciler.py\<close>, \<open>failsafe.py\<close>, \<open>common/commands.py\<close>.
  \<^item> \<open>Risk_Engine\<close>, \<open>Risk_Limits\<close>: \<open>risk/capital.py\<close>, \<open>risk/engine.py\<close>.
  \<^item> \<open>Strategies\<close>, \<open>Options\<close>, \<open>Fno\<close>: \<open>strategies/base.py\<close>, \<open>intraday.py\<close>, \<open>swing.py\<close>, \<open>mcx.py\<close>,
    \<open>engine/confidence.py\<close>; \<open>data/options.py\<close>, \<open>risk/greeks_portfolio.py\<close>, \<open>scenario_var.py\<close>,
    \<open>structure_risk.py\<close>, \<open>backtest/span_margin.py\<close>; \<open>strategies/fno.py\<close>.
  \<^item> \<open>Meta_Label\<close>, \<open>Orchestrator\<close>, \<open>Orchestrator_Facts\<close>: \<open>research/features.py\<close>, \<open>meta_label.py\<close>,
    \<open>engine/orchestrator.py\<close>, \<open>llm/context.py\<close>, \<open>common/audit.py\<close>.
  \<^item> \<open>Tick_Feed\<close>, \<open>Engine\<close>, \<open>Engine_Facts\<close>, \<open>Engine_Properties\<close>, \<open>Decision_Loop\<close>: \<open>common/dataquality.py\<close>,
    \<open>tick_buffer.py\<close>, and the loops of \<open>engine/main.py\<close>.
  \<^item> \<open>Calendar\<close>, \<open>Expiry\<close>: trading days and holidays, venue sessions and the effective-dated expiry rules
    (\<open>dataplatform/marketcalendar/\<close>, \<open>common/sessions.py\<close>, \<open>market_time.py\<close>). A date is its day number.
  \<^item> \<open>Candles\<close>, \<open>Rate_Governor\<close>, \<open>Audit_Chain\<close>, \<open>Prelive\<close>: \<open>data/aggregator.py\<close>, \<open>data/rate_governor.py\<close> and
    \<open>common/compliance.py\<close>, \<open>common/audit_chain.py\<close>, \<open>common/prelive.py\<close> with the probes and tiles of \<open>api/\<close>.
  \<^item> \<open>Control_Api\<close>: tokens, scopes, the limiter and the state-changing routes (\<open>api/auth.py\<close>, \<open>api/routes.py\<close>).
  \<^item> \<open>Payoffs\<close>, \<open>Signals\<close>: the option laboratory \<open>fno_backtest/\<close> and the seven-step decision of \<open>fno_signals/\<close>.
  \<^item> \<open>Indicators\<close>, \<open>Market_Reads\<close>, \<open>Contexts\<close>: \<open>data/indicators.py\<close>; breadth, open interest, gamma exposure,
    book imbalance and volume profile; the feature cache, the volatility history, the option chain and the
    two builders of \<open>engine/context_builder.py\<close>. A pandas series is a list with None for NaN.
  \<^item> \<open>Validation\<close>, \<open>Backtests\<close>, \<open>Fno_Backtest\<close>: the statistics of \<open>backtest/\<close> (Sharpe ratios, probability of
    overfitting, purged cross-validation, sweeps, walk-forward folds, weights, resampling) and the labels of
    \<open>research/\<close>; the intraday and the swing backtest with their simulated broker and metrics; the backtest of
    option structures. A run is a fold over the bars with the open position and the trades as its state.
  \<^item> \<open>Demo\<close>: concrete values for the witnesses.

  \<^bold>\<open>What the lemmas show.\<close> Order path: what an entry and an exit book, for every lawful broker, and what
  they leave resting. Sizing: the accepted size is the largest feasible one, and with it every limit of
  the portfolio still holds. Chain: only what every stage approved reaches the executor, and only
  smaller. Circuits: the kill switch latches and flattens, the period brake blocks, the stored drawdown
  state refines its specification. Guards: stops only tighten, a hit guard fires once. Structures: all
  or nothing, bounded postponement of an exit, loss bounds from the fills. State: modes stay consistent,
  commands survive a crash, adoption is complete. API: only a checked request of an administrator stores the
  live mode. Market data: candles are the groups of the ticks, the order rate keeps within its bucket, the
  expiry resolver returns the earliest date of its rules, oscillators stay on their scale, the value area
  holds its share, the option context has an expiry of the window it asks for. Backtests: the swing run sees
  no future, the intraday run does, purged splits are purged and test every row equally often, the label is
  the first touch, the drawdown is the deepest fall. Audit: changing a row of a
  digested list exhibits a collision of the hash. Some theorems state behaviour of the code that is
  not what it means to do; their text says so.

  \<^bold>\<open>Bounds.\<close> Loops of the code are bounded and modelled with their own bounds: 12 polls of an entry order,
  8 of a cancel, one of a pending close, 39 strikes of the walk to a delta, 100 steps of the volatility
  search, 50 claimed commands, 5000 buffered symbols. No fuel is added.

  \<^bold>\<open>Conventions.\<close> Floats are reals, so rounding appears only where the code rounds. An exception is None or a
  constructor of an outcome. The sets a loop walks in hash order are walked in an order that is an
  argument. The clock, the session calendar, broker replies, quotes, the reply of the language model
  and \<open>math.erf\<close> are arguments.

  \<^bold>\<open>Not modelled.\<close> Logging, alerts, metrics and published events; the routes and queries that only present
  stored state, and the dashboard; the candle store and the feed process, whose reads are arguments;
  third-party broker and model adapters; the vendor adapters and storage of the data platform; fitted
  models and scripts, which run offline on numpy and pandas frames, and the feature vectors attached to
  backtest trades; the process wiring and the
  scheduled reports of \<open>engine/main.py\<close>; concurrency between the loops (each cycle is one step),
  cancellation by timeouts in particular.
\<close>

section \<open>The order path\<close>



text \<open>C3. A live entry that is reported safe leaves nothing working at the broker: if every order
  the broker knows was settled before, and the lifecycle state of the result is not one of the
  unsafe states, then every order is settled afterwards, those of all the clips included.\<close>
theorem safe_entry_leaves_nothing_resting:
  assumes "broker_settling (e_api env) ordered_qty binv settled" "binv (w_broker w)" "book_ok (w_book w)"
    "current_mode env w = LIVE"
    and "broker_settling.quiet ordered_qty settled (w_broker w)"
    and "er_state (fst (execute env d force w)) = Some st" "st \<notin> set UNSAFE_STATES"
  shows "broker_settling.quiet ordered_qty settled (w_broker (snd (execute env d force w)))"
proof -
  obtain res w' where x: "execute env d force w = (res, w')" by fastforce
  then show ?thesis
  proof (cases rule: execute_cases)
    case (rejected why)
    with x assms(6) show ?thesis by (simp add: rejected_result_def)
  next
    case live
    from broker_settling.execute_live_quiet [OF assms(1) refl assms(2,3) live(2) assms(5)] assms(6,7) x
    show ?thesis by simp
  next
    case sim
    with assms(4) show ?thesis by simp
  qed
qed

lemma safe_entry_leaves_nothing_resting_witness:
  "ms.quiet (w_broker (snd (execute demo_env (demo_decision 10) None (demo_world LIVE Partial_Then_Stuck))))"
  by (rule safe_entry_leaves_nothing_resting [where env = demo_env and binv = mock_ok
        and settled = mock_settled and st = L_PROTECTED])
    (simp_all add: ms.broker_settling_axioms UNSAFE_STATES_def, code_simp)

text \<open>The three gates of an entry: when the engine is halted, the kill switch is active or new
  entries are blocked, \<open>execute\<close> rejects in every mode and changes nothing.\<close>
theorem entry_gates:
  assumes "state_flag ''engine_halted'' (w_config w) \<or> state_flag ''kill_switch_active'' (w_config w)
     \<or> state_flag ''block_new_entries'' (w_config w)"
  shows "\<exists>why. execute env d force w = (rejected_result why, w)"
  by (rule execute_blocked [OF assms])

lemma entry_gates_witness:
  "\<exists>why. execute demo_env (demo_decision 10) None
      (demo_world LIVE Complete\<lparr>w_config := [''block_new_entries'' \<mapsto> JBool True]\<rparr>)
    = (rejected_result why, demo_world LIVE Complete\<lparr>w_config := [''block_new_entries'' \<mapsto> JBool True]\<rparr>)"
  by (rule entry_gates) (simp add: state_flag_def get_state_def)

text \<open>An unsafe live entry stops the next ones: after an entry whose state is unprotected or
  needs reconciliation, every entry is rejected and changes nothing, until the flag is cleared.\<close>
theorem unsafe_entry_blocks_the_next:
  assumes "book_ok (w_book w)" "er_state (fst (execute env d force w)) = Some st" "st \<in> set UNSAFE_STATES"
  shows "\<exists>why. execute env' d' force' (snd (execute env d force w))
     = (rejected_result why, snd (execute env d force w))"
proof -
  obtain res w' where x: "execute env d force w = (res, w')" by fastforce
  then have "state_flag ''block_new_entries'' (w_config w')"
  proof (cases rule: execute_cases)
    case (rejected why)
    with x assms(2) show ?thesis by (simp add: rejected_result_def)
  next
    case live
    from live(2) show ?thesis
    proof (cases rule: execute_live_cases)
      case (rejected why)
      with x assms(2) show ?thesis by (simp add: rejected_result_def)
    next
      case (placed s b')
      with settle_live_done(5) [OF _ placed(4)] assms x show ?thesis by simp
    qed
  next
    case sim
    from execute_sim_state [OF sim(2)] x assms(2) show ?thesis by simp
  qed
  with execute_blocked [of w' env' d' force'] x show ?thesis by simp
qed

lemma unsafe_entry_blocks_the_next_witness:
  "\<exists>why. execute demo_env (demo_decision 1) None
        (snd (execute lossy_env (demo_decision 10) None (demo_world LIVE Complete)))
     = (rejected_result why, snd (execute lossy_env (demo_decision 10) None (demo_world LIVE Complete)))"
  by (rule unsafe_entry_blocks_the_next [where st = L_RECONCILE_REQUIRED])
    (simp_all add: UNSAFE_STATES_def, code_simp)

text \<open>C2. A live close books profit and loss only on broker truth. Closing an open live position
  either parks it as close-pending, out of the set of open positions and with no P&L booked, or
  closes it with the P&L that is computed from an exit order the broker reported complete for at
  least the whole quantity. In both cases its guard is gone and no other position changes.\<close>
theorem live_close_books_broker_truth:
  assumes "find_row i (w_book w) = Some r" "pos_status r = Open" "current_mode env w = LIVE"
  shows "case close env i why price fallback w of (pnl, w') \<Rightarrow>
    (case pnl of None \<Rightarrow> parked i (w_book w')
     | Some p \<Rightarrow> closed_as i p (w_book w) (w_book w') \<and> i \<notin> redis_open (w_book w')
         \<and> (\<exists>nf b b'. market_exit env r b = (Some nf, b') \<and> nf_status nf = E_COMPLETE
               \<and> row_qty r \<le> nf_filled nf \<and> p = realized_of r (nf_avg nf) (nf_fees nf)))
    \<and> others_kept i (w_book w) (w_book w') \<and> guards (w_guards w') i = None"
proof -
  obtain p w1 where c: "close_live env i r why w = (p, w1)" by fastforce
  with assms have x: "close env i why price fallback w = (p, reentry_cooldown env r
      (w1\<lparr>w_guards := disarm i (w_guards w1), w_persist := (w_persist w1)(i := None)\<rparr>))"
    by (simp add: close_def)
  show ?thesis unfolding x using close_live_cases [OF assms(1,2) c] by (cases p) auto
qed

lemma live_close_books_broker_truth_witness:
  "\<exists>r. case close demo_env 1 ''manual'' None None (demo_entered LIVE Complete) of (pnl, w') \<Rightarrow>
    (case pnl of None \<Rightarrow> parked 1 (w_book w')
     | Some p \<Rightarrow> closed_as 1 p (w_book (demo_entered LIVE Complete)) (w_book w') \<and> 1 \<notin> redis_open (w_book w')
         \<and> (\<exists>nf b b'. market_exit demo_env r b = (Some nf, b') \<and> nf_status nf = E_COMPLETE
               \<and> row_qty r \<le> nf_filled nf \<and> p = realized_of r (nf_avg nf) (nf_fees nf)))
    \<and> others_kept 1 (w_book (demo_entered LIVE Complete)) (w_book w') \<and> guards (w_guards w') 1 = None"
proof -
  obtain r where r: "find_row 1 (w_book (demo_entered LIVE Complete)) = Some r" "pos_status r = Open"
    using demo_row by blast
  show ?thesis by (rule exI [of _ r]) (rule live_close_books_broker_truth [OF r demo_entered_mode])
qed

text \<open>An exit order that the broker reports complete was filled for exactly the position's
  quantity: with a lawful broker the fill of \<open>market_exit\<close> lies between zero and the quantity of the
  row, equals it when the status is complete, and the pending quantity is the rest.\<close>
theorem exit_fill_is_bounded:
  assumes "broker_lifecycle (e_api env) ordered_qty binv" "binv b" "0 < row_qty r"
    "market_exit env r b = (Some nf, b')"
  shows "0 \<le> nf_filled nf \<and> nf_filled nf \<le> row_qty r
    \<and> (nf_status nf = E_COMPLETE \<longrightarrow> nf_filled nf = row_qty r) \<and> nf_pending nf = row_qty r - nf_filled nf"
  by (rule broker_lifecycle.market_exit_fill [OF assms(1) refl assms(2-4)])

lemma exit_fill_is_bounded_witness:
  "\<exists>r nf b'. market_exit demo_env r (init_mock Partial_Then_Stuck 100) = (Some nf, b')
     \<and> 0 \<le> nf_filled nf \<and> nf_filled nf \<le> row_qty r
     \<and> (nf_status nf = E_COMPLETE \<longrightarrow> nf_filled nf = row_qty r) \<and> nf_pending nf = row_qty r - nf_filled nf"
proof -
  define r where "r = hd (rows (w_book (demo_entered LIVE Complete)))"
  have "0 < row_qty r \<and> (case fst (market_exit demo_env r (init_mock Partial_Then_Stuck 100)) of
      None \<Rightarrow> False | Some nf \<Rightarrow> True)"
    unfolding r_def by code_simp
  then obtain nf b' where "0 < row_qty r" "market_exit demo_env r (init_mock Partial_Then_Stuck 100) = (Some nf, b')"
    by (cases "market_exit demo_env r (init_mock Partial_Then_Stuck 100)") (auto split: option.splits)
  then show ?thesis
    using exit_fill_is_bounded [of demo_env mock_qty mock_ok "init_mock Partial_Then_Stuck 100" r nf b']
      mb.broker_lifecycle_axioms by auto
qed

text \<open>Closing is idempotent: whatever the first close did, a second close of the same position
  returns no P&L and changes nothing, so no exit is sent or booked twice.\<close>
theorem close_twice:
  "close env' i why' price' fallback' (snd (close env i why price fallback w))
     = (None, snd (close env i why price fallback w))"
proof (cases "\<exists>r. find_row i (w_book w) = Some r \<and> pos_status r = Open")
  case False
  then have "close env i why price fallback w = (None, w)" "close env' i why' price' fallback' w = (None, w)"
    by (intro close_not_open; auto)+
  then show ?thesis by simp
next
  case True
  then obtain r where r: "find_row i (w_book w) = Some r" "pos_status r = Open" by blast
  obtain p w' where c: "close env i why price fallback w = (p, w')" by fastforce
  from close_open_cases [OF r c]
  have "find_row i (w_book w') = Some r' \<Longrightarrow> pos_status r' \<noteq> Open" for r'
    by (cases p) (auto simp: parked_def closed_as_def)
  then show ?thesis using c close_not_open [of i w' env' why' price' fallback'] by simp
qed

text \<open>A guard fires at most once: after a tick that made the guard of a position exit, no later
  tick of any price exits that position again, unless it is armed anew.\<close>
theorem guard_fires_once:
  assumes "fst (on_price env i p w) = Some pnl"
  shows "fst (on_price env' i p' (snd (on_price env i p w))) = None"
proof -
  obtain w' where w': "on_price env i p w = (Some pnl, w')" using assms by (cases "on_price env i p w") auto
  from on_price_no_guard [OF on_price_fired [OF w']] show ?thesis unfolding w' by simp
qed

lemma guard_fires_once_witness:
  "fst (on_price demo_env 1 90 (snd (on_price demo_env 1 97 (demo_entered PAPER Complete)))) = None"
proof -
  have "case fst (on_price demo_env 1 97 (demo_entered PAPER Complete)) of None \<Rightarrow> False | Some _ \<Rightarrow> True"
    by code_simp
  then obtain pnl where "fst (on_price demo_env 1 97 (demo_entered PAPER Complete)) = Some pnl"
    by (auto split: option.splits)
  then show ?thesis by (rule guard_fires_once)
qed

text \<open>Outside live mode no order reaches the broker: entries and closes compute the same result
  and the same world whatever the broker's order, cancel, GTT and position operations are, as long as
  its quote is the same.\<close>
theorem paper_sends_no_orders:
  assumes "current_mode env w \<noteq> LIVE" "api_quote a = api_quote (e_api env)"
  shows "execute (env\<lparr>e_api := a\<rparr>) d force w = execute env d force w
    \<and> close (env\<lparr>e_api := a\<rparr>) i why price fallback w = close env i why price fallback w"
proof (rule conjI)
  show "execute (env\<lparr>e_api := a\<rparr>) d force w = execute env d force w"
    using assms by (simp add: execute_def execute_sim_api)
  show "close (env\<lparr>e_api := a\<rparr>) i why price fallback w = close env i why price fallback w"
    using assms by (simp add: close_def close_sim_api cong: option.case_cong if_cong)
qed

lemma paper_sends_no_orders_witness:
  "execute (demo_env\<lparr>e_api := mock_api\<lparr>api_place := (\<lambda>r b. (None, b))\<rparr>\<rparr>) (demo_decision 10) None (demo_world PAPER Complete)
     = execute demo_env (demo_decision 10) None (demo_world PAPER Complete)"
  by (rule paper_sends_no_orders [THEN conjunct1]) simp_all

text \<open>A close that was parked without an exit order id is never resolved:
  \<open>resolve_pending_closes\<close> leaves its row as it is, however often it runs and whatever the broker
  reports. \<open>close\<close> parks rows so when the broker is already flat and when the exit order raised.\<close>
theorem parked_without_order_stays:
  assumes "book_ok (w_book w)" "find_row i (w_book w) = Some r" "rw_close_pending (b_raw r) = Some (None, why)"
  shows "find_row i (w_book (snd (resolve_pending_closes env w))) = Some r"
proof -
  have "r' = r" if "r' \<in> set (pending_closes LIVE (w_book w))" "pos_id r' = i" for r'
    using that assms(2) find_row_unique [OF assms(1), of r'] by (simp add: pending_closes_def)
  then show ?thesis
    using assms resolve_fold_stuck [of "pending_closes LIVE (w_book w)" i why env "(0, w)"]
    by (auto simp: resolve_pending_closes_def)
qed

lemma parked_without_order_stays_witness:
  "\<exists>r. find_row 1 (w_book (snd (resolve_pending_closes demo_env
      (snd (close demo_env 1 ''manual'' None None (demo_entered LIVE Complete)))))) = Some r"
proof -
  let ?w = "snd (close demo_env 1 ''manual'' None None (demo_entered LIVE Complete))"
  have ok: "book_ok (w_book ?w)" by code_simp
  have "case find_row 1 (w_book ?w) of None \<Rightarrow> False
    | Some r \<Rightarrow> (case rw_close_pending (b_raw r) of Some (None, _) \<Rightarrow> True | _ \<Rightarrow> False)"
    by code_simp
  then obtain r why where "find_row 1 (w_book ?w) = Some r" "rw_close_pending (b_raw r) = Some (None, why)"
    by (auto split: option.splits)
  from parked_without_order_stays [OF ok this] show ?thesis by blast
qed

section \<open>Sizing\<close>



text \<open>An accepted size never risks more than one R: with capital and risk percentage not
  negative, the risk of the accepted quantity to its stop is positive and at most the R in rupees of
  the request, whatever confidence the signal claims.\<close>
theorem accepted_risk_within_one_r:
  assumes "\<not> rejected (size_position q)" "0 \<le> capital q" "0 \<le> per_trade_risk_pct q"
  shows "0 < actual_risk (size_position q) \<and> actual_risk (size_position q) \<le> r_rupees q
    \<and> actual_risk (size_position q) = of_int (quantity (size_position q)) * risk_per_unit q"
  using pos.risk_pos [OF assms(1)] pos.risk_within_budget [OF assms(1)] effective_r_le [OF assms(2,3)]
    pos.accept_risk [OF assms(1)] by simp

lemma accepted_risk_within_one_r_witness:
  "0 < actual_risk (size_position demo_request) \<and> actual_risk (size_position demo_request) \<le> r_rupees demo_request
    \<and> actual_risk (size_position demo_request) = of_int (quantity (size_position demo_request)) * risk_per_unit demo_request"
  by (rule accepted_risk_within_one_r) (code_simp, simp_all add: demo_request_def)

text \<open>The same for option structures: the lots of an accepted structure lose at most the R of
  the request at the structure's maximum loss, at most what is left of the portfolio's and of the
  underlying's risk, and never exceed the configured maximum of lots.\<close>
theorem accepted_structure_within_ceilings:
  assumes "\<not> rejected (size_structure_lots q)"
  shows "1 \<le> lots (size_structure_lots q)
    \<and> of_int (lots (size_structure_lots q)) * max_loss_per_lot q \<le> s_effective_r q
    \<and> (\<forall>p. s_portfolio_remaining_r q = Some p \<longrightarrow> of_int (lots (size_structure_lots q)) * max_loss_per_lot q \<le> max 0 p)
    \<and> (\<forall>u. underlying_remaining_r q = Some u \<longrightarrow> of_int (lots (size_structure_lots q)) * max_loss_per_lot q \<le> max 0 u)
    \<and> (\<forall>a m. s_margin_available q = Some a \<longrightarrow> margin_per_lot q = Some m \<longrightarrow> 0 < m \<longrightarrow> of_int (lots (size_structure_lots q)) * m \<le> max 0 a)
    \<and> (\<forall>n. max_lots q = Some n \<longrightarrow> 0 < n \<longrightarrow> lots (size_structure_lots q) \<le> n)"
  using structure_lots_within [OF assms] .

lemma accepted_structure_within_ceilings_witness:
  "let q = \<lparr>s_capital = 500000, s_per_trade_risk_pct = 1, max_loss_per_lot = 1500, s_lot_size = 50,
      s_confidence = 1, s_portfolio_remaining_r = Some 4000, underlying_remaining_r = None,
      s_margin_available = None, margin_per_lot = None, max_lots = Some 5\<rparr>
   in 1 \<le> lots (size_structure_lots q) \<and> lots (size_structure_lots q) \<le> 5"
proof -
  let ?q = "\<lparr>s_capital = 500000, s_per_trade_risk_pct = 1, max_loss_per_lot = 1500, s_lot_size = 50,
      s_confidence = 1, s_portfolio_remaining_r = Some 4000, underlying_remaining_r = None,
      s_margin_available = None, margin_per_lot = None, max_lots = Some 5\<rparr>"
  have "\<not> rejected (size_structure_lots ?q)" by code_simp
  from accepted_structure_within_ceilings [OF this] show ?thesis by simp
qed

section \<open>The kill switch\<close>

text \<open>C8. The kill switch latches, and while it does no entry passes. Once it is active it stays
  active over every sequence of daily-row upserts, checks and P&L updates that contains no manual
  reset, and an executor that reads the resulting operator table rejects every entry unchanged.\<close>
theorem kill_switch_latches:
  assumes "ks_run c s es t" "Ev_Reset \<notin> set es" "is_active s" "w_config w = ks_config t"
  shows "is_active t \<and> (\<exists>why. execute env d force w = (rejected_result why, w))"
proof -
  have a: "is_active t" using ks_run_latch [OF assms(1-3)] .
  then have "state_flag ''kill_switch_active'' (w_config w)"
    using assms(4) by (simp add: is_active_def state_flag_def)
  with a execute_blocked [of w env d force] show ?thesis by blast
qed

lemma kill_switch_latches_witness:
  "let t = fst (check_and_maybe_trip 3 ''t'' (trip 3 ''t'' \<lparr>ks_config = Map.empty, daily_pnl = Map.empty\<rparr>))
   in is_active t \<and> (\<exists>why. execute demo_env (demo_decision 5) None (demo_world LIVE Complete\<lparr>w_config := ks_config t\<rparr>)
       = (rejected_result why, demo_world LIVE Complete\<lparr>w_config := ks_config t\<rparr>))"
proof -
  let ?c = "\<lparr>daily_loss_pct = None, daily_max_loss_default = 3\<rparr>"
  let ?s = "trip 3 ''t'' \<lparr>ks_config = Map.empty, daily_pnl = Map.empty\<rparr>"
  have "ks_run ?c ?s ([] @ [Ev_Check]) (fst (check_and_maybe_trip 3 ''t'' ?s))"
    by (intro ks_run.step [OF ks_run.nil] ks_step.check)
  from kill_switch_latches [OF this, of "demo_world LIVE Complete\<lparr>w_config := ks_config (fst (check_and_maybe_trip 3 ''t'' ?s))\<rparr>"
      demo_env "demo_decision 5" None]
  show ?thesis by (simp add: Let_def)
qed

text \<open>When the switch trips: the check sets an inactive switch active exactly when today's row
  of the active namespace has a negative limit and the day's realized plus unrealized P&L is at or
  below it. The limit \<open>ensure_daily_row\<close> writes is minus the configured percentage of the capital.\<close>
theorem kill_switch_trips_iff:
  assumes "\<not> is_active s"
  shows "is_active (fst (check_and_maybe_trip today now (update_pnl today now (Some r) (Some u)
            (ensure_daily_row c today now cap s))))
     \<longleftrightarrow> (let loss = \<bar>py_or (daily_loss_pct c) (daily_max_loss_default c) / 100 * cap\<bar>
          in 0 < loss \<and> r + u \<le> - loss)"
proof -
  let ?e = "ensure_daily_row c today now cap s"
  let ?s = "update_pnl today now (Some r) (Some u) ?e"
  let ?l = "\<bar>py_or (daily_loss_pct c) (daily_max_loss_default c) / 100 * cap\<bar>"
  have nse: "ns now ?e = ns now s" by (simp add: ns_def ensure_daily_row_def Let_def)
  then have "ns now ?s = ns now s" by (simp add: ns_def update_pnl_def)
  moreover have "\<exists>row. daily_pnl ?e (today, ns now s) = Some row \<and> max_loss_limit row = - ?l"
    by (simp add: ensure_daily_row_def Let_def split: option.split)
  then obtain row where "daily_pnl ?s (today, ns now s) = Some row" "max_loss_limit row = - ?l"
      "realized_pnl row + unrealized_pnl row = r + u"
    by (auto simp: update_pnl_def update_row_def nse)
  ultimately show ?thesis using check_trips_iff [of ?s today now row] assms
    by (auto simp: Let_def)
qed

lemma kill_switch_trips_iff_witness:
  "let s = \<lparr>ks_config = Map.empty, daily_pnl = Map.empty\<rparr>; c = \<lparr>daily_loss_pct = None, daily_max_loss_default = 3\<rparr>
   in is_active (fst (check_and_maybe_trip 3 ''t'' (update_pnl 3 ''t'' (Some (- 2000)) (Some (- 1500))
        (ensure_daily_row c 3 ''t'' 100000 s))))"
  unfolding Let_def
  by (subst kill_switch_trips_iff) (simp_all add: is_active_def get_state_def py_or_def Let_def)

section \<open>Price guards\<close>

text \<open>C13. A guard's stop never loosens: over any sequence of ticks, whatever trailing, break-even
  and profit-lock rules are configured, the stop of a long only rises and that of a short only falls.\<close>
theorem guard_stop_only_tightens:
  "tighter (g_side g) (g_stop (guard_run g ticks)) (g_stop g)"
  by (rule guard_run_tighter)

text \<open>The profit lock holds: once the best gain has reached the configured fraction of the
  distance to the target, a check before square-off leaves the stop at or beyond the level that keeps
  all but the allowed give-back of that best gain; and once it has reached the break-even multiple of
  the initial risk, the stop is at or beyond the entry.\<close>
theorem guard_ratchets:
  assumes "guard_check p now g = (g', x)" "\<not> (\<exists>t. square_off g = Some t \<and> t \<le> now)"
  shows "(lock_trigger_frac g \<noteq> 0 \<and> g_target g \<noteq> 0 \<and> g_target g \<noteq> g_entry g
            \<and> lock_trigger_frac g * \<bar>g_target g - g_entry g\<bar> \<le> best_gain g'
          \<longrightarrow> tighter (g_side g) (g_stop g') (lock_level g'))
    \<and> (breakeven_at_r g \<noteq> 0 \<and> 0 < init_risk g' \<and> breakeven_at_r g * init_risk g' \<le> best_gain g'
          \<longrightarrow> tighter (g_side g) (g_stop g') (g_entry g))
    \<and> best_gain g' = max (best_gain g) (gain_of g p)"
proof -
  have g': "g' = fst (guard_check p now g)" using assms(1) by simp
  show ?thesis
    using guard_check_lock [of g now p, folded g'] guard_check_breakeven [of g now p, folded g']
      guard_check_best_gain [of g now p, folded g'] assms(2)
    by simp
qed

lemma guard_ratchets_witness:
  "let g' = fst (guard_check 103 600 demo_guard) in
     tighter BUY (g_stop g') (lock_level g') \<and> tighter BUY (g_stop g') (g_entry demo_guard)"
proof -
  obtain g' x where gc: "guard_check 103 600 demo_guard = (g', x)" by fastforce
  have "\<not> (\<exists>t. square_off demo_guard = Some t \<and> t \<le> 600)" by (simp add: demo_guard_def)
  note r = guard_ratchets [OF gc this]
  moreover have "init_risk (fst (guard_check 103 600 demo_guard)) = 2" by code_simp
  ultimately show ?thesis using gc by (simp add: demo_guard_def gain_of_def Let_def)
qed

text \<open>Why a guard exits: an exit carries the price of the tick, and it is either the square-off
  time having come, the price at or through the stop the check left in place, or the price at or
  beyond a target that is set.\<close>
theorem guard_exit_reasons:
  assumes "guard_check p now g = (g', Some x)"
  shows "x_price x = p \<and>
    (x_reason x = X_TIME \<and> (\<exists>t. square_off g = Some t \<and> t \<le> now)
     \<or> x_reason x = X_STOP \<and> tighter (g_side g) (g_stop g') p
     \<or> x_reason x = X_TARGET \<and> g_target g \<noteq> 0 \<and> tighter (g_side g) p (g_target g))"
  using guard_check_exit_cases [OF assms] by blast

lemma guard_exit_reasons_witness:
  "\<exists>x. snd (guard_check 97 600 demo_guard) = Some x \<and> x_price x = 97"
proof -
  have "snd (guard_check 97 600 demo_guard) = Some \<lparr>x_reason = X_STOP, x_price = 97\<rparr>"
    by (simp add: guard_check_def demo_guard_def stage_defs gain_of_def tighten_def lock_level_def exit_stage_def)
  then obtain g' where "guard_check 97 600 demo_guard = (g', Some \<lparr>x_reason = X_STOP, x_price = 97\<rparr>)"
    by (cases "guard_check 97 600 demo_guard") auto
  from guard_exit_reasons [OF this] this show ?thesis by simp
qed

section \<open>Runtime mode and scopes\<close>

text \<open>Going live needs every validator. An accepted transition from paper to live had the typed
  confirmation, no active kill switch, pre-live checks that were configured and reported no failure,
  and a clean reconciliation where one was supplied; afterwards the stored mode is live, all the
  fields it implies agree, and every later read returns it.\<close>
theorem going_live_needs_every_check:
  assumes "request_transition now q st = Inr (st', s')" "target_mode q = LIVE"
    "rm_mode (load_runtime_mode now st) \<noteq> LIVE"
  shows "confirm_token q = Some ''LIVE'' \<and> kill_switch_check q \<noteq> Some True
    \<and> (\<exists>r. prelive_runner q = Some r \<and> failed_checks r = [])
    \<and> (\<forall>ok det. reconcile_check q = Some (ok, det) \<longrightarrow> ok)
    \<and> rm_mode s' = LIVE \<and> mode_consistent s' \<and> (\<forall>now'. load_runtime_mode now' st' = s')"
  using assms(1)
proof (cases rule: request_transition_ok_cases)
  case noop
  with assms(2,3) show ?thesis by simp
next
  case written
  note r = live_reasons_empty [OF assms(2) written(2)]
  have w: "st' = fst (write_runtime_mode now (derive_for_mode (target_mode q) (req_account q) (operator q) 0 now) (operator q) st)"
    "s' = snd (write_runtime_mode now (derive_for_mode (target_mode q) (req_account q) (operator q) 0 now) (operator q) st)"
    using written(3) by (metis fst_conv, metis snd_conv)
  have "rm_mode s' = LIVE" by (simp add: w(2) write_runtime_mode_def Let_def assms(2))
  moreover have "mode_consistent s'" by (simp add: w(2) write_consistent)
  moreover have "\<forall>now'. load_runtime_mode now' st' = s'" by (simp add: w load_after_write)
  ultimately show ?thesis using r by auto
qed

lemma going_live_needs_every_check_witness:
  "let q = \<lparr>target_mode = LIVE, operator = ''op'', confirm_token = Some ''LIVE'',
       prelive_runner = Some (Res_Ok True), kill_switch_check = Some False,
       reconcile_check = Some (True, ''''), open_live_positions = None,
       allow_unflattened_downgrade = False, req_account = Some ''AB12''\<rparr>
   in case request_transition ''t'' q Map.empty of Inl _ \<Rightarrow> False
      | Inr (st', s') \<Rightarrow> rm_mode s' = LIVE \<and> mode_consistent s' \<and> (\<forall>now'. load_runtime_mode now' st' = s')"
proof -
  let ?q = "\<lparr>target_mode = LIVE, operator = ''op'', confirm_token = Some ''LIVE'',
       prelive_runner = Some (Res_Ok True), kill_switch_check = Some False,
       reconcile_check = Some (True, ''''), open_live_positions = None,
       allow_unflattened_downgrade = False, req_account = Some ''AB12''\<rparr>"
  have m: "rm_mode (load_runtime_mode ''t'' Map.empty) = PAPER"
    by (simp add: load_runtime_mode_def get_state_def Let_def)
  then have "\<exists>st' s'. request_transition ''t'' ?q Map.empty = Inr (st', s')"
    by (simp add: request_transition_def transition_reasons_def Let_def)
  then obtain st' s' where r: "request_transition ''t'' ?q Map.empty = Inr (st', s')" by blast
  from going_live_needs_every_check [OF r] m r show ?thesis by (simp add: Let_def)
qed

text \<open>The persisted mode is always consistent: from a freshly migrated table, after any accepted
  and refused transitions, the mode that is read has all its implied fields (capital source, risk
  profile, position namespace) agreeing, and the legacy mirror key says the same mode.\<close>
theorem reachable_modes_consistent:
  assumes "mode_reach Map.empty st"
  shows "mode_table_ok st"
  by (rule mode_reach_ok [OF assms mode_table_ok_empty])

lemma reachable_modes_consistent_witness: "mode_table_ok Map.empty"
  by (rule reachable_modes_consistent) (rule mode_reach.start)

text \<open>Paper and live rows never mix: a position in the scope of a consistent live mode is in the
  scope of no consistent paper mode, and it belongs to the live mode's account when one is set.\<close>
theorem scopes_are_disjoint:
  assumes "mode_consistent s" "is_live s" "where_clause (position_scope s) p"
  shows "(\<forall>s'. mode_consistent s' \<longrightarrow> \<not> is_live s' \<longrightarrow> \<not> where_clause (position_scope s') p)
    \<and> (\<forall>a. broker_account_id s = Some a \<longrightarrow> a \<noteq> [] \<longrightarrow> a \<noteq> ''paper'' \<longrightarrow> account_id p = Some a)"
  using where_clause_mode [OF assms(1,3)] where_clause_mode [of _ p] live_scope_account [OF assms(1,2) _ _ _ assms(3)]
    assms(2) unfolding is_live_def by metis

lemma scopes_are_disjoint_witness:
  "\<exists>p. \<forall>s'. mode_consistent s' \<longrightarrow> \<not> is_live s' \<longrightarrow> \<not> where_clause (position_scope s') p"
proof -
  let ?s = "derive_for_mode LIVE (Some ''AB12'') ''op'' 1 ''t''"
  define p where "p = \<lparr>pos_id = 1, correlation_id = None, mode = LIVE, sleeve = None, instrument_token = None,
      tradingsymbol = None, side = BUY, qty = None, average_price = None, pos_r = None, pos_status = Open,
      account_id = Some ''AB12''\<rparr>"
  have "is_live ?s" "where_clause (position_scope ?s) p"
    by (simp_all add: is_live_def where_clause_def position_scope_def Let_def p_def derive_for_mode_def)
  from scopes_are_disjoint [OF derive_consistent this] show ?thesis by blast
qed

section \<open>The book\<close>

text \<open>\<open>reconcile\<close> reports exactly the instruments that disagree: a mismatch is in its list iff it
  carries the signed quantity of the open positions of the mode and of the broker's net positions for
  its token and the two differ; so the list is empty iff book and broker agree everywhere.\<close>
theorem reconcile_reports_exactly_the_differences:
  "(x \<in> set (reconcile_book ps m b) \<longleftrightarrow>
      mm_book x = ours m b (mm_token x) \<and> mm_broker x = theirs ps (mm_token x) \<and> mm_book x \<noteq> mm_broker x)
   \<and> (reconcile_book ps m b = [] \<longleftrightarrow> (\<forall>t. ours m b t = theirs ps t))"
proof (rule conjI [OF reconcile_book_set])
  show "reconcile_book ps m b = [] \<longleftrightarrow> (\<forall>t. ours m b t = theirs ps t)"
  proof
    assume e: "reconcile_book ps m b = []"
    show "\<forall>t. ours m b t = theirs ps t"
    proof
      fix t
      show "ours m b t = theirs ps t"
        using e reconcile_book_set [of "\<lparr>mm_token = t, mm_book = ours m b t, mm_broker = theirs ps t\<rparr>" ps m b]
        by simp
    qed
  qed (simp add: reconcile_book_def)
qed

text \<open>Deriving a position from its events does not depend on the order in which they were
  read: any permutation of a log with distinct (time, id) keys gives the same quantities, status and
  P&L.\<close>
theorem derived_position_is_order_independent:
  assumes "mset evs = mset evs'" "inj_on (\<lambda>e. (ev_ts e, ev_id e)) (set evs)" "distinct evs"
  shows "position_from_events evs = position_from_events evs'"
  by (rule position_from_events_perm [OF assms])

lemma derived_position_is_order_independent_witness:
  "let e = (\<lambda>i ty q. \<lparr>ev_id = i, ev_ts = ''t'', ev_pid = 1, ev_type = ty, ev_filled = Some q,
       ev_pending = None, ev_realized = None\<rparr>)
   in position_from_events [e 1 EV_ENTRY 10, e 2 EV_FULL_CLOSE 10] = position_from_events [e 2 EV_FULL_CLOSE 10, e 1 EV_ENTRY 10]"
  unfolding Let_def by (rule derived_position_is_order_independent) simp_all

text \<open>No entry is ever logged as an event, so event sourcing cannot rebuild an open position:
  after an entry that filled, the position's derived state drifts from the stored one, although
  nothing went wrong.\<close>
theorem filled_entry_always_drifts:
  assumes "book_ok (w_book w)" "events (w_book w) = []" "er_pid (fst (execute env d force w)) = Some i"
    "0 < er_filled (fst (execute env d force w))"
  shows "\<not> no_drift (rebuild_from_events i (w_book (snd (execute env d force w))))"
proof -
  obtain res w' where x: "execute env d force w = (res, w')" by fastforce
  then obtain m where "entry_done env d m res w w'"
  proof (cases rule: execute_cases)
    case (rejected why)
    with x assms(3) show ?thesis by (simp add: rejected_result_def)
  next
    case live
    from live(2) show ?thesis
    proof (cases rule: execute_live_cases)
      case (rejected why)
      with x assms(3) show ?thesis by (simp add: rejected_result_def)
    next
      case (placed s b')
      with settle_live_done [OF _ placed(4)] assms x that show ?thesis
        by (auto simp: entry_done_broker split: if_splits)
    qed
  next
    case sim
    with execute_sim_facts [OF assms(1) sim(2)] x assms(3) that show ?thesis by auto
  qed
  then obtain r where r: "find_row i (w_book w') = Some r" "qty r = Some (er_filled res)"
    using x assms(3) by (auto simp: entry_done_def)
  have "events (w_book w') = []" using execute_events [of env d force w] x assms(2) by simp
  then have "net_qty (position_from_events (filter (\<lambda>e. ev_pid e = i) (events (w_book w')))) = 0"
    by (intro no_entry_net) simp_all
  with r x assms(4) show ?thesis
    by (simp add: rebuild_from_events_def reconcile_position_def no_drift_def Let_def row_qty_def get_default_def)
qed

lemma filled_entry_always_drifts_witness:
  "\<not> no_drift (rebuild_from_events 1 (w_book (snd (execute demo_env (demo_decision 10) None (demo_world LIVE Complete)))))"
  by (rule filled_entry_always_drifts) (simp_all add: empty_book_def book_ok_def, code_simp+)

section \<open>Option structures\<close>

text \<open>C11. Opening a structure is all or nothing. If a leg has no contract or no quote, or the fills
  carry more risk than was sized, then every leg opened on the way is closed again: no position newer
  than the call is open, the older ones and the manager are untouched. If it succeeds, exactly the
  plan's legs are open with the sized quantity, the guard is registered with the risk computed from
  the fills, within the overrun of the modelled loss, and each leg carries its share of it as R.\<close>
theorem structure_opening_all_or_nothing:
  assumes "book_ok (w_book w)"
  shows "case open_structure se nm expiry pl n_lots lot corr signal w of (res, w') \<Rightarrow>
    (\<forall>i < next_id (w_book w). find_row i (w_book w') = find_row i (w_book w)) \<and> w_config w' = w_config w
    \<and> (case res of
         Inl why \<Rightarrow> (\<forall>i \<ge> next_id (w_book w). not_open i (w_book w')) \<and> w_structs w' = w_structs w
       | Inr sr \<Rightarrow> (\<exists>g. opened_ok se pl n_lots lot corr (w_book w) sr w' g))"
proof -
  obtain res w' where x: "open_structure se nm expiry pl n_lots lot corr signal w = (res, w')" by fastforce
  show ?thesis unfolding x using open_structure_effect [OF assms x] by simp
qed

lemma structure_opening_all_or_nothing_witness:
  "case open_structure demo_senv ''NIFTY'' (Some 30) demo_plan 1 50 ''c9'' None demo_sworld of (res, w') \<Rightarrow>
    (\<forall>i < 1. find_row i (w_book w') = find_row i empty_book) \<and> w_config w' = w_config demo_sworld
    \<and> (case res of
         Inl why \<Rightarrow> (\<forall>i \<ge> 1. not_open i (w_book w')) \<and> w_structs w' = empty_smgr
       | Inr sr \<Rightarrow> (\<exists>g. opened_ok demo_senv demo_plan 1 50 ''c9'' empty_book sr w' g))"
proof -
  have b: "w_book demo_sworld = empty_book" "w_structs demo_sworld = empty_smgr" "next_id empty_book = 1"
    by (simp_all add: demo_sworld_def empty_book_def)
  have "book_ok (w_book demo_sworld)" by (simp add: b)
  from structure_opening_all_or_nothing [OF this, where se = demo_senv and nm = "''NIFTY''" and expiry = "Some 30"
      and pl = demo_plan and n_lots = 1 and lot = 50 and corr = "''c9''" and signal = None]
  show ?thesis unfolding b .
qed



text \<open>A bad book delays an exit, it never blocks it: a registered structure whose close is
  retried once per cycle is closed and dropped from the manager after at most the configured number
  of postponements plus one, whatever the broker quotes or raises.\<close>
theorem exit_is_postponed_boundedly:
  assumes "map_of (by_corr (w_structs w)) c = Some g" "sg_corr g = c" "0 \<le> sg_retries g"
    "cfg_or (ex_max_retries (se_exits se)) 5 0 < int n"
  shows "map_of (by_corr (w_structs (retry_close se c why (Suc n) w))) c = None"
  by (rule retry_close_bounded [OF assms(1,2)]) (use assms(3,4) in simp)

lemma exit_is_postponed_boundedly_witness:
  "map_of (by_corr (w_structs (retry_close demo_senv ''c9'' ''structure_stop'' 4
     (demo_sworld\<lparr>w_structs := register (rebuilt_guard ''c9'' \<lparr>sm_name = ''NIFTY'', sm_type = ''debit_spread'', sm_max_loss = 250,
        sm_max_profit = 250, sm_entry_fees = 0, sm_target_fraction = 1, sm_stop_fraction = 1, sm_expiry = None, sm_opened_on = None\<rparr> [])
        empty_smgr\<rparr>)))) ''c9'' = None"
  using exit_is_postponed_boundedly [where n = 3 and se = demo_senv and c = "''c9''" and why = "''structure_stop''"]
  by (simp add: rebuilt_guard_def demo_senv_def cfg_or_def get_default_def numeral_eq_Suc del: retry_close.simps)

text \<open>A tick finds every structure that watches its token: a guard that was registered, and that
  since then was neither unregistered nor replaced, is stored under its id and listed for each of the
  tokens of its legs, whatever was registered and unregistered in between.\<close>
theorem structures_stay_watched:
  assumes "smgr_inv m" "t \<in> set (sg_tokens g)" "Inr (sg_corr g) \<notin> set es"
    "\<forall>h. Inl h \<in> set es \<longrightarrow> sg_corr h \<noteq> sg_corr g"
  shows "map_of (by_corr (sm.run es (register g m))) (sg_corr g) = Some g
    \<and> sg_corr g \<in> s_for_token (sm.run es (register g m)) t"
  using sm.stays_watched [OF assms(1,2,3)] assms(4) by blast

lemma structures_stay_watched_witness:
  "\<exists>g. sg_tokens g = [11, 12] \<and> sg_corr g \<in> s_for_token (sm.run [Inr ''other''] (register g empty_smgr)) 12"
proof -
  define g where "g = (rebuilt_guard ''c9'' \<lparr>sm_name = ''NIFTY'', sm_type = ''debit_spread'', sm_max_loss = 250,
        sm_max_profit = 250, sm_entry_fees = 0, sm_target_fraction = 1, sm_stop_fraction = 1, sm_expiry = None, sm_opened_on = None\<rparr> [])
        \<lparr>sg_legs := demo_legs\<rparr>"
  have t: "sg_tokens g = [11, 12]" and c: "sg_corr g = ''c9''"
    by (simp_all add: g_def sg_tokens_def demo_legs_def rebuilt_guard_def)
  have "smgr_inv empty_smgr" by (simp add: smgr_inv_def empty_smgr_def)
  from structures_stay_watched [OF this, of 12 g "[Inr ''other'']"] t c show ?thesis by auto
qed

section \<open>Recovery\<close>

text \<open>The fail-safe leaves nothing open: after \<open>safe_exit_all\<close> for a mode, that mode has no open
  position (each one it found is closed or parked as close-pending and is in its report), the positions
  of the other modes are as before, and every later entry is rejected.\<close>
theorem safe_exit_leaves_nothing_open:
  assumes "book_ok (w_book w)"
  shows "case safe_exit_all env m w of (report, w') \<Rightarrow>
    (\<forall>i r. find_row i (w_book w') = Some r \<longrightarrow> (\<exists>r0. find_row i (w_book w) = Some r0 \<and> mode r0 = m \<and> pos_status r0 = Open)
        \<longrightarrow> pos_status r \<noteq> Open)
    \<and> (\<forall>i. (\<forall>r. find_row i (w_book w) = Some r \<longrightarrow> mode r \<noteq> m \<or> pos_status r \<noteq> Open)
        \<longrightarrow> find_row i (w_book w') = find_row i (w_book w))
    \<and> map fst report = map pos_id (get_open (Some m) (w_book w))
    \<and> (\<exists>why. execute env' d force w' = (rejected_result why, w'))"
proof -
  obtain rep w1 where c: "close_rows env (get_open (Some m) (w_book w)) w = (rep, w1)" by fastforce
  define w' where "w' = w1\<lparr>w_config := set_state ''engine_paused'' (JBool True)
           (set_state ''engine_halted'' (JBool True) (w_config w1))\<rparr>"
  have x: "safe_exit_all env m w = (rep, w')" using c by (simp add: safe_exit_all_def w'_def)
  note ef = close_rows_effect [OF c]
  have mem: "i \<in> pos_id ` set (get_open (Some m) (w_book w)) \<longleftrightarrow>
      (\<exists>r0. find_row i (w_book w) = Some r0 \<and> mode r0 = m \<and> pos_status r0 = Open)" for i
    using find_row_unique [OF assms] find_row_Some [of i "w_book w"] by (force simp: get_open_def image_iff)
  have bk: "w_book w' = w_book w1" by (simp add: w'_def)
  have 1: "pos_status r \<noteq> Open" if "find_row i (w_book w') = Some r"
    "\<exists>r0. find_row i (w_book w) = Some r0 \<and> mode r0 = m \<and> pos_status r0 = Open" for i r
  proof -
    have "i \<in> pos_id ` set (get_open (Some m) (w_book w))" using that(2) mem by blast
    then have "not_open i (w_book w1)" using ef by blast
    with that(1) bk show ?thesis by (simp add: not_open_def)
  qed
  have 2: "find_row i (w_book w') = find_row i (w_book w)"
    if "\<forall>r. find_row i (w_book w) = Some r \<longrightarrow> mode r \<noteq> m \<or> pos_status r \<noteq> Open" for i
  proof -
    have "i \<notin> pos_id ` set (get_open (Some m) (w_book w))" using that mem by blast
    with ef bk show ?thesis by simp
  qed
  have 3: "\<exists>why. execute env' d force w' = (rejected_result why, w')"
    by (rule execute_blocked) (simp add: w'_def)
  have 4: "map fst rep = map pos_id (get_open (Some m) (w_book w))" using ef by blast
  show ?thesis unfolding x prod.case using 1 2 3 4 by blast
qed

lemma safe_exit_leaves_nothing_open_witness:
  "case safe_exit_all demo_env PAPER (demo_entered PAPER Complete) of (report, w') \<Rightarrow>
    map fst report = map pos_id (get_open (Some PAPER) (w_book (demo_entered PAPER Complete)))
    \<and> (\<exists>why. execute demo_env (demo_decision 1) None w' = (rejected_result why, w'))"
proof -
  have "book_ok (w_book (demo_entered PAPER Complete))" by code_simp
  from safe_exit_leaves_nothing_open [OF this, where env = demo_env and m = PAPER and env' = demo_env
      and d = "demo_decision 1" and force = None]
  show ?thesis by (simp only: split_def)
qed

text \<open>Any disagreement with the broker blocks new entries. The reconciliation is informational
  exactly when book and broker agree on every token; it demands a flatten exactly when the broker
  holds something of which the book has nothing; and unless it is informational every later entry is
  rejected, while the book itself is never touched.\<close>
theorem reconcile_blocks_on_any_difference:
  "case run_reconcile net w of ((sev, ms), w') \<Rightarrow>
    (sev = S_Info \<longleftrightarrow> (\<forall>t. ours LIVE (w_book w) t = theirs net t))
    \<and> (sev = S_Flatten \<longleftrightarrow> (\<exists>t. ours LIVE (w_book w) t = 0 \<and> theirs net t \<noteq> 0))
    \<and> (sev \<noteq> S_Info \<longrightarrow> (\<exists>why. execute env d force w' = (rejected_result why, w')))
    \<and> w_book w' = w_book w"
proof -
  let ?ms = "reconcile_book net LIVE (w_book w)"
  let ?w = "snd (run_reconcile net w)"
  have e: "?ms = [] \<longleftrightarrow> (\<forall>t. ours LIVE (w_book w) t = theirs net t)"
  proof
    assume "?ms = []"
    then show "\<forall>t. ours LIVE (w_book w) t = theirs net t"
      using reconcile_book_set [of "\<lparr>mm_token = t, mm_book = ours LIVE (w_book w) t, mm_broker = theirs net t\<rparr>" net LIVE "w_book w" for t]
      by simp
  qed (simp add: reconcile_book_def)
  have f: "(\<exists>m\<in>set ?ms. mm_book m = 0 \<and> mm_broker m \<noteq> 0) \<longleftrightarrow>
      (\<exists>t. ours LIVE (w_book w) t = 0 \<and> theirs net t \<noteq> 0)"
  proof
    assume "\<exists>m\<in>set ?ms. mm_book m = 0 \<and> mm_broker m \<noteq> 0"
    then obtain x where x: "x \<in> set ?ms" "mm_book x = 0" "mm_broker x \<noteq> 0" by blast
    then show "\<exists>t. ours LIVE (w_book w) t = 0 \<and> theirs net t \<noteq> 0"
      by (intro exI [of _ "mm_token x"]) (simp add: reconcile_book_set)
  next
    assume "\<exists>t. ours LIVE (w_book w) t = 0 \<and> theirs net t \<noteq> 0"
    then obtain t where t: "ours LIVE (w_book w) t = 0" "theirs net t \<noteq> 0" by blast
    then have "\<lparr>mm_token = t, mm_book = ours LIVE (w_book w) t, mm_broker = theirs net t\<rparr> \<in> set ?ms"
      unfolding reconcile_book_set by simp
    with t show "\<exists>m\<in>set ?ms. mm_book m = 0 \<and> mm_broker m \<noteq> 0" by force
  qed
  have "classify_severity ?ms \<noteq> S_Info \<Longrightarrow> state_flag ''block_new_entries'' (w_config ?w)"
    by (cases "classify_severity ?ms") (simp_all add: run_reconcile_def Let_def)
  then have b: "classify_severity ?ms \<noteq> S_Info \<Longrightarrow> \<exists>why. execute env d force ?w = (rejected_result why, ?w)"
    using execute_blocked [of ?w env d force] by blast
  have bk: "w_book ?w = w_book w" by (simp add: run_reconcile_def Let_def)
  have i: "classify_severity ?ms = S_Info \<longleftrightarrow> ?ms = []" by (simp add: classify_severity_def)
  have fl: "classify_severity ?ms = S_Flatten \<longleftrightarrow> (\<exists>m\<in>set ?ms. mm_book m = 0 \<and> mm_broker m \<noteq> 0)"
    by (auto simp: classify_severity_def)
  obtain w' where w': "?w = w'" by blast
  have x: "run_reconcile net w = ((classify_severity ?ms, ?ms), w')"
    unfolding w' [symmetric] by (simp add: run_reconcile_def Let_def)
  note b = b [unfolded w'] and bk = bk [unfolded w']
  show ?thesis unfolding x prod.case
  proof (intro conjI)
    show "classify_severity ?ms = S_Info \<longleftrightarrow> (\<forall>t. ours LIVE (w_book w) t = theirs net t)"
      using i e by blast
    show "classify_severity ?ms = S_Flatten \<longleftrightarrow> (\<exists>t. ours LIVE (w_book w) t = 0 \<and> theirs net t \<noteq> 0)"
      using fl f by blast
    show "classify_severity ?ms \<noteq> S_Info \<longrightarrow> (\<exists>why. execute env d force w' = (rejected_result why, w'))"
      using b by blast
  qed (rule bk)
qed

lemma reconcile_blocks_on_any_difference_witness:
  "case run_reconcile [\<lparr>bp_token = Some 9, bp_symbol = None, bp_qty = 5, bp_avg = None, bp_last = None,
      bp_product = None, bp_exchange = None, bp_itype = None\<rparr>] (demo_world LIVE Complete) of ((sev, ms), w') \<Rightarrow> sev = S_Flatten"
proof -
  let ?net = "[\<lparr>bp_token = Some 9, bp_symbol = None, bp_qty = 5, bp_avg = None, bp_last = None,
      bp_product = None, bp_exchange = None, bp_itype = None\<rparr>]"
  have "ours LIVE (w_book (demo_world LIVE Complete)) (Some 9) = 0 \<and> theirs ?net (Some 9) \<noteq> 0"
    by (simp add: ours_def theirs_def get_open_def empty_book_def)
  then show ?thesis
    using reconcile_blocks_on_any_difference [where net = ?net and w = "demo_world LIVE Complete"
        and env = demo_env and d = "demo_decision 1" and force = None]
    by (auto split: prod.splits)
qed

text \<open>Cold start never leaves live exposure unaccounted for: every net position of the broker with
  a quantity is either adopted, and then a guard is armed for its row, or flagged for the operator.\<close>
theorem adoption_is_complete:
  assumes "api_positions (e_api env) (w_broker w) = (Some net, b')"
  shows "case adopt_live env fresh gtts w of (rep, w') \<Rightarrow>
    length (ad_adopted rep) + length (ad_flagged rep) = length (filter (\<lambda>p. bp_qty p \<noteq> 0) net)
    \<and> (\<forall>i\<in>set (ad_adopted rep). guards (w_guards w') i \<noteq> None)"
proof -
  obtain rep w' where f: "foldl (adopt_one fresh gtts) (empty_report, w\<lparr>w_broker := b'\<rparr>) net = (rep, w')" by fastforce
  then have x: "adopt_live env fresh gtts w = (rep, w')" using assms by (simp add: adopt_live_def)
  show ?thesis unfolding x using adopt_fold_report [OF f] by (simp add: empty_report_def)
qed

lemma adoption_is_complete_witness:
  "\<exists>net :: broker_pos list. case adopt_live demo_env (\<lambda>i. ''new'') [] (demo_entered LIVE Complete) of (rep, w') \<Rightarrow>
    length (ad_adopted rep) + length (ad_flagged rep) = length (filter (\<lambda>p. bp_qty p \<noteq> 0) net)
    \<and> (\<forall>i\<in>set (ad_adopted rep). guards (w_guards w') i \<noteq> None)"
proof -
  obtain net b' where n: "api_positions (e_api demo_env) (w_broker (demo_entered LIVE Complete)) = (Some net, b')"
    by (simp add: mock_api_def mock_positions_def)
  show ?thesis by (rule exI [of _ net]) (rule adoption_is_complete [OF n])
qed

text \<open>A short position is adopted with its stop and its target exchanged: the lower trigger of
  its OCO, which is the target of a short, becomes the stop, so the first tick at any price at or above
  the target exits the position as stopped.\<close>
theorem adopted_short_exits_at_once:
  assumes "stops_from_gtts gtts (bp_symbol p) = Some (lower, upper)" "bp_qty p < 0" "lower \<le> price"
  shows "case adopt_one fresh gtts (rep, w) p of (rep', w') \<Rightarrow>
    \<exists>i. ad_adopted rep' = ad_adopted rep @ [i]
      \<and> snd (process_tick i price now (w_guards w')) = Some \<lparr>x_reason = X_STOP, x_price = price\<rparr>"
proof -
  obtain i bk where a: "adopt_row (fresh (next_id (w_book w))) p SELL \<bar>bp_qty p\<bar> (py_or (bp_avg p) (py_or (bp_last p) 0))
      (Some lower) (Some upper) LIVE Open (w_book w) = (i, bk)" by fastforce
  let ?g = "adopted_guard i SELL (py_or (bp_avg p) (py_or (bp_last p) 0)) lower upper (get_default (bp_token p) 0)"
  have ao: "adopt_one fresh gtts (rep, w) p = (rep\<lparr>ad_adopted := ad_adopted rep @ [i]\<rparr>,
      w\<lparr>w_book := bk, w_guards := arm ?g (w_guards w)\<rparr>)"
    using assms(1,2) a by (simp add: adopt_one_def Let_def)
  have gc: "snd (guard_check price now ?g) = Some \<lparr>x_reason = X_STOP, x_price = price\<rparr>"
  proof -
    have fields: "g_side ?g = SELL" "g_stop ?g = lower" "trail_distance ?g = None" "square_off ?g = None"
      "breakeven_at_r ?g = 0" "lock_trigger_frac ?g = 0"
      by (simp_all add: adopted_guard_def)
    have "trail_stage price ?g = ?g" by (simp add: trail_stage_def fields)
    moreover have "breakeven_stage (gain_stage price ?g) = gain_stage price ?g"
      by (simp add: breakeven_stage_def fields)
    moreover have "lock_stage (gain_stage price ?g) = gain_stage price ?g"
      by (simp add: lock_stage_def Let_def fields)
    ultimately show ?thesis
      using assms(3) by (simp add: guard_check_def Let_def exit_stage_def fields)
  qed
  have "g_id ?g = i" by (simp add: adopted_guard_def)
  then have "guards (arm ?g (w_guards w)) i = Some ?g" by simp
  then have pt: "snd (process_tick i price now (arm ?g (w_guards w))) = Some \<lparr>x_reason = X_STOP, x_price = price\<rparr>"
    by (simp only: process_tick_def option.case split_def snd_conv gc)
  show ?thesis unfolding ao prod.case
    by (rule exI [of _ i]) (simp add: pt)
qed

lemma adopted_short_exits_at_once_witness:
  "\<exists>i. snd (process_tick i 100 600 (w_guards (snd (adopt_one (\<lambda>i. ''new'')
      [\<lparr>gt_symbol = Some ''INFY'', gt_triggers = [104, 95]\<rparr>] (empty_report, demo_world LIVE Complete)
      \<lparr>bp_token = Some 9, bp_symbol = Some ''INFY'', bp_qty = - 5, bp_avg = Some 100, bp_last = None,
        bp_product = None, bp_exchange = None, bp_itype = None\<rparr>))))
     = Some \<lparr>x_reason = X_STOP, x_price = 100\<rparr>"
proof -
  let ?p = "\<lparr>bp_token = Some 9, bp_symbol = Some ''INFY'', bp_qty = - 5, bp_avg = Some 100, bp_last = None,
        bp_product = None, bp_exchange = None, bp_itype = None\<rparr>"
  let ?g = "[\<lparr>gt_symbol = Some ''INFY'', gt_triggers = [104, 95]\<rparr>]"
  have "stops_from_gtts ?g (bp_symbol ?p) = Some (95, 104)" by simp
  from adopted_short_exits_at_once [OF this, where price = 100 and fresh = "\<lambda>i. ''new''" and rep = empty_report
      and w = "demo_world LIVE Complete" and now = 600]
  show ?thesis by (auto split: prod.splits)
qed

section \<open>The command queue\<close>

lemma demo_q1_claimed: "cmd_reach demo_q1 (snd (claim_commands ''engine'' 50 demo_q1))"
  by (rule cmd_reach.onward [OF cmd_reach.here cmd_step.claim])


text \<open>A double click does not act twice: after a command with a key was accepted, a second
  command with the same key, at any later time, adds no row and returns the id of the first.\<close>
theorem duplicate_command_is_the_first:
  assumes "cmd_reach empty_queue q" "enqueue_command ty p (Some k) q = (Some i, q1)" "k \<noteq> []" "cmd_reach q1 q2"
  shows "enqueue_command ty' p' (Some k) q2 = (Some i, q2)"
proof -
  have inv: "queue_inv q" using reach_inv [OF assms(1)] by simp
  have inv1: "queue_inv q1" using enqueue_inv [OF inv, of ty p "Some k"] assms(2) by simp
  obtain r1 where r1: "find_cmd i q1 = Some r1" "cm_key r1 = Some k" using enqueue_row [OF assms(2) inv] by blast
  obtain r where r: "find_cmd i q2 = Some r" "cm_key r = Some k" using reach_keeps [OF assms(4) inv1 r1(1)] r1(2) by auto
  from r have row: "r \<in> set (cq_rows q2)" "cm_id r = i" by (auto simp: find_cmd_def find_Some_iff)
  show ?thesis using same_key_same_row [OF reach_inv [OF assms(4) inv1] row(1) r(2)] row(2) assms(3)
    by (simp add: enqueue_command_def Let_def)
qed

lemma duplicate_command_is_the_first_witness:
  "enqueue_command ''flatten'' [] (Some ''k1'') (snd (claim_commands ''engine'' 50 demo_q1))
     = (Some 1, snd (claim_commands ''engine'' 50 demo_q1))"
proof -
  have e: "enqueue_command ''close'' [] (Some ''k1'') empty_queue = (Some 1, demo_q1)"
    by (simp add: demo_q1_def enqueue_command_def empty_queue_def)
  show ?thesis by (rule duplicate_command_is_the_first [OF cmd_reach.here e _ demo_q1_claimed]) simp
qed

end
